(* ===== verification/Py_Prelude.thy ===== *)
theory Py_Prelude
  imports Main "HOL-Library.AList" "HOL-Library.Char_ord" "HOL-Library.List_Lexorder"
begin

text \<open>
  Shared ground of the development: what the sources use of Python and of SQLite.

  \<^item> Exceptions are values (\<open>py_exn\<close>), a fallible function returns \<open>py_exn + 'a\<close> with
    \<open>Inl\<close> for the raise, and \<open>bind_result\<close> is the sequencing of statements that may raise.
    A message that the source formats with a value's \<open>repr\<close> is kept up to its constant part.
  \<^item> A \<open>str\<close> is a \<open>string\<close>: code points below 256. \<open>py_isspace\<close>, \<open>py_lower\<close> and
    \<open>strip\<close> follow Python on that range (the white space of \<open>str.isspace\<close> and of the
    regular expression class \<open>\s\<close> are the same set).
  \<^item> A dynamically typed value (a JSON value, the values of \<open>dict[str, object]\<close>) is a
    \<open>pyval\<close>; a \<open>float\<close> is carried by its \<open>repr\<close>. A JSON column of a table holds the
    value itself, since \<open>json.loads (json.dumps x)\<close> is \<open>x\<close> for such values.
  \<^item> A \<open>dict\<close> with string keys is an association list in insertion order.
  \<^item> \<open>re.fullmatch\<close> is a derivative matcher on \<open>rexp\<close>, shown equal to the language of the
    expression, so that the sources' patterns are transcribed as they stand.
  \<^item> A SQL table is the list of its rows in rowid order; \<open>lookup\<close>, \<open>update_where\<close> and
    \<open>delete_where\<close> are the statements the stores issue, with the laws every store needs.
\<close>

named_theorems table_simps \<open>what a lookup sees after each statement\<close>
named_theorems table_inv \<open>statements keep the primary key unique\<close>

section \<open>Exceptions and results\<close>

datatype py_exn =
    ValueError string
  | KeyError string
  | TypeError string
  | OverflowError string
  | OtherError string

type_synonym 'a result = "py_exn + 'a"

fun exn_message :: "py_exn \<Rightarrow> string" where
  "exn_message (ValueError m) = m"
| "exn_message (KeyError m) = m"
| "exn_message (TypeError m) = m"
| "exn_message (OverflowError m) = m"
| "exn_message (OtherError m) = m"

fun bind_result :: "'e + 'a \<Rightarrow> ('a \<Rightarrow> 'e + 'b) \<Rightarrow> 'e + 'b" where
  "bind_result (Inl e) f = Inl e"
| "bind_result (Inr x) f = f x"

lemma bind_result_Inr_iff [simp]:
  "bind_result m f = Inr y \<longleftrightarrow> (\<exists>x. m = Inr x \<and> f x = Inr y)"
  by (cases m) auto

lemma bind_result_Inl_iff:
  "bind_result m f = Inl e \<longleftrightarrow> m = Inl e \<or> (\<exists>x. m = Inr x \<and> f x = Inl e)"
  by (cases m) auto

lemma bind_result_assoc:
  "bind_result (bind_result m f) g = bind_result m (\<lambda>x. bind_result (f x) g)"
  by (cases m) auto

section \<open>Dynamically typed values\<close>

datatype pyval =
    PNone
  | PBool bool
  | PInt int
  | PFloat string
  | PStr string
  | PList "pyval list"
  | PDict "(string \<times> pyval) list"

type_synonym pydict = "(string \<times> pyval) list"

fun truthy :: "pyval \<Rightarrow> bool" where
  "truthy PNone = False"
| "truthy (PBool b) = b"
| "truthy (PInt n) = (n \<noteq> 0)"
| "truthy (PFloat r) = (r \<noteq> ''0.0'' \<and> r \<noteq> ''-0.0'')"
| "truthy (PStr s) = (s \<noteq> [])"
| "truthy (PList xs) = (xs \<noteq> [])"
| "truthy (PDict d) = (d \<noteq> [])"

abbreviation dict_get :: "('k \<times> 'v) list \<Rightarrow> 'k \<Rightarrow> 'v option" where
  "dict_get d k \<equiv> map_of d k"

abbreviation dict_set :: "'k \<Rightarrow> 'v \<Rightarrow> ('k \<times> 'v) list \<Rightarrow> ('k \<times> 'v) list" where
  "dict_set k v d \<equiv> AList.update k v d"

text \<open>\<open>x or y\<close> on optional strings: \<open>None\<close> and the empty string are falsy.\<close>

fun or_str :: "string option \<Rightarrow> string \<Rightarrow> string" where
  "or_str None y = y"
| "or_str (Some s) y = (if s = [] then y else s)"

fun opt_truthy :: "string option \<Rightarrow> bool" where
  "opt_truthy None = False"
| "opt_truthy (Some s) = (s \<noteq> [])"

section \<open>Strings\<close>

definition py_isspace :: "char \<Rightarrow> bool" where
  "py_isspace c =
     (let n = (of_char c :: nat)
      in (9 \<le> n \<and> n \<le> 13) \<or> (28 \<le> n \<and> n \<le> 32) \<or> n = 133 \<or> n = 160)"

definition is_digit :: "char \<Rightarrow> bool" where
  "is_digit c = (let n = (of_char c :: nat) in 48 \<le> n \<and> n \<le> 57)"

definition is_lower :: "char \<Rightarrow> bool" where
  "is_lower c = (let n = (of_char c :: nat) in 97 \<le> n \<and> n \<le> 122)"

definition is_upper :: "char \<Rightarrow> bool" where
  "is_upper c = (let n = (of_char c :: nat) in 65 \<le> n \<and> n \<le> 90)"

definition lower_char :: "char \<Rightarrow> char" where
  "lower_char c =
     (let n = (of_char c :: nat)
      in if (65 \<le> n \<and> n \<le> 90) \<or> (192 \<le> n \<and> n \<le> 222 \<and> n \<noteq> 215)
         then char_of (n + 32) else c)"

definition py_lower :: "string \<Rightarrow> string" where
  "py_lower s = map lower_char s"

text \<open>\<open>str.upper\<close>; the only code point below 256 whose upper case is ASCII without being an
  ASCII letter is the sharp s, which becomes two letters. The two code points whose upper case
  is not below 256 are left alone.\<close>

definition upper_char :: "char \<Rightarrow> string" where
  "upper_char c =
     (let n = (of_char c :: nat)
      in if 97 \<le> n \<and> n \<le> 122 then [char_of (n - 32)]
         else if n = 223 then ''SS''
         else if 224 \<le> n \<and> n \<le> 254 \<and> n \<noteq> 247 then [char_of (n - 32)]
         else [c])"

definition py_upper :: "string \<Rightarrow> string" where
  "py_upper s = concat (map upper_char s)"

definition lstrip_with :: "(char \<Rightarrow> bool) \<Rightarrow> string \<Rightarrow> string" where
  "lstrip_with p s = dropWhile p s"

definition strip :: "string \<Rightarrow> string" where
  "strip s = rev (dropWhile py_isspace (rev (dropWhile py_isspace s)))"

definition startswith :: "string \<Rightarrow> string \<Rightarrow> bool" where
  "startswith s p = (take (length p) s = p)"

text \<open>\<open>s.split(c, 1)[1]\<close> for a separator that occurs in \<open>s\<close>: what follows the first one.\<close>

definition after_first :: "char \<Rightarrow> string \<Rightarrow> string" where
  "after_first c s = tl (dropWhile (\<lambda>x. x \<noteq> c) s)"

text \<open>\<open>str.split()\<close> without an argument: the maximal runs without white space.\<close>

fun split_ws_aux :: "string \<Rightarrow> string \<Rightarrow> string list" where
  "split_ws_aux acc [] = (if acc = [] then [] else [rev acc])"
| "split_ws_aux acc (c # cs) =
     (if py_isspace c then (if acc = [] then split_ws_aux [] cs else rev acc # split_ws_aux [] cs)
      else split_ws_aux (c # acc) cs)"

definition split_ws :: "string \<Rightarrow> string list" where
  "split_ws s = split_ws_aux [] s"

lemma dropWhile_hd: "xs = dropWhile p ys \<Longrightarrow> xs \<noteq> [] \<Longrightarrow> \<not> p (hd xs)"
  using hd_dropWhile by blast

lemma dropWhile_idem_hd: "xs = [] \<or> \<not> p (hd xs) \<Longrightarrow> dropWhile p xs = xs"
  by (cases xs) auto

lemma rev_dropWhile_hd:
  assumes "ys \<noteq> []" and "\<not> p (hd ys)"
  shows "rev (dropWhile p (rev ys)) \<noteq> [] \<and> hd (rev (dropWhile p (rev ys))) = hd ys"
proof -
  from assms obtain y zs where ys: "ys = y # zs" "\<not> p y" by (cases ys) auto
  have "dropWhile p (rev zs @ [y]) = dropWhile p (rev zs) @ [y]"
    using ys(2) by (metis dropWhile_append3)
  then show ?thesis using ys by simp
qed

text \<open>Stripping is idempotent, and what it returns has no white space at either end.\<close>

lemma strip_ends:
  "strip s = [] \<or> (\<not> py_isspace (hd (strip s)) \<and> \<not> py_isspace (last (strip s)))"
proof (cases "dropWhile py_isspace s = []")
  case True
  show ?thesis unfolding strip_def True by simp
next
  case False
  let ?d = "dropWhile py_isspace s"
  from False have nsp: "\<not> py_isspace (hd ?d)" by (rule hd_dropWhile)
  have hd: "strip s \<noteq> []" "hd (strip s) = hd ?d"
    using rev_dropWhile_hd [of ?d py_isspace, OF False nsp] by (auto simp: strip_def)
  then have "dropWhile py_isspace (rev ?d) \<noteq> []" by (simp add: strip_def)
  then have "\<not> py_isspace (last (strip s))"
    by (simp add: strip_def last_rev hd_dropWhile)
  with nsp hd show ?thesis by simp
qed

lemma strip_idem [simp]: "strip (strip s) = strip s"
proof (cases "strip s = []")
  case True
  show ?thesis unfolding True by (simp add: strip_def)
next
  case False
  let ?t = "strip s"
  have ends: "\<not> py_isspace (hd ?t)" "\<not> py_isspace (last ?t)"
    using strip_ends [of s] False by auto
  then have "dropWhile py_isspace ?t = ?t" by (simp add: dropWhile_idem_hd)
  moreover have "dropWhile py_isspace (rev ?t) = rev ?t"
    using ends(2) False by (simp add: dropWhile_idem_hd hd_rev)
  ultimately show ?thesis by (simp add: strip_def [of ?t])
qed

lemma strip_id: "list_all (\<lambda>c. \<not> py_isspace c) s \<Longrightarrow> strip s = s"
proof -
  assume *: "list_all (\<lambda>c. \<not> py_isspace c) s"
  then have "dropWhile py_isspace s = s"
    by (cases s) (auto simp: dropWhile_idem_hd)
  moreover from * have "dropWhile py_isspace (rev s) = rev s"
    by (cases s rule: rev_cases) (auto simp: dropWhile_idem_hd)
  ultimately show ?thesis by (simp add: strip_def)
qed

section \<open>Numbers as text\<close>

definition digit_char :: "nat \<Rightarrow> char" where
  "digit_char n = char_of (48 + n)"

fun nat_str :: "nat \<Rightarrow> string" where
  "nat_str n = (if n < 10 then [digit_char n] else nat_str (n div 10) @ [digit_char (n mod 10)])"

declare nat_str.simps [simp del]

definition int_str :: "int \<Rightarrow> string" where
  "int_str n = (if n < 0 then CHR ''-'' # nat_str (nat (- n)) else nat_str (nat n))"

fun join :: "string \<Rightarrow> string list \<Rightarrow> string" where
  "join sep [] = []"
| "join sep [x] = x"
| "join sep (x # y # xs) = x @ sep @ join sep (y # xs)"

text \<open>\<open>repr\<close> and \<open>str\<close> of a value (quotes inside strings are not escaped).\<close>

fun py_repr :: "pyval \<Rightarrow> string" where
  "py_repr PNone = ''None''"
| "py_repr (PBool b) = (if b then ''True'' else ''False'')"
| "py_repr (PInt n) = int_str n"
| "py_repr (PFloat r) = r"
| "py_repr (PStr s) = [CHR 0x27] @ s @ [CHR 0x27]"
| "py_repr (PList xs) = ''['' @ join '', '' (map py_repr xs) @ '']''"
| "py_repr (PDict d) =
     ''{'' @ join '', '' (map (\<lambda>(k, v). [CHR 0x27] @ k @ [CHR 0x27] @ '': '' @ py_repr v) d) @ ''}''"

fun py_str :: "pyval \<Rightarrow> string" where
  "py_str (PStr s) = s"
| "py_str v = py_repr v"

section \<open>Regular expressions\<close>

datatype rexp =
    RZero
  | ROne
  | RCls "char \<Rightarrow> bool"
  | RSeq rexp rexp
  | RAlt rexp rexp
  | RStar rexp

abbreviation RPlus :: "rexp \<Rightarrow> rexp" where
  "RPlus r \<equiv> RSeq r (RStar r)"

abbreviation ROpt :: "rexp \<Rightarrow> rexp" where
  "ROpt r \<equiv> RAlt ROne r"

abbreviation RChr :: "char \<Rightarrow> rexp" where
  "RChr c \<equiv> RCls (\<lambda>x. x = c)"

inductive_set star :: "string set \<Rightarrow> string set" for L where
  star_nil: "[] \<in> star L"
| star_app: "u \<in> L \<Longrightarrow> v \<in> star L \<Longrightarrow> u @ v \<in> star L"

primrec lang :: "rexp \<Rightarrow> string set" where
  "lang RZero = {}"
| "lang ROne = {[]}"
| "lang (RCls p) = {[c] | c. p c}"
| "lang (RSeq r s) = {u @ v | u v. u \<in> lang r \<and> v \<in> lang s}"
| "lang (RAlt r s) = lang r \<union> lang s"
| "lang (RStar r) = star (lang r)"

primrec nullable :: "rexp \<Rightarrow> bool" where
  "nullable RZero = False"
| "nullable ROne = True"
| "nullable (RCls p) = False"
| "nullable (RSeq r s) = (nullable r \<and> nullable s)"
| "nullable (RAlt r s) = (nullable r \<or> nullable s)"
| "nullable (RStar r) = True"

text \<open>Constructors that drop empty alternatives keep the derivatives small.\<close>

fun mk_seq :: "rexp \<Rightarrow> rexp \<Rightarrow> rexp" where
  "mk_seq RZero s = RZero"
| "mk_seq ROne s = s"
| "mk_seq r s = RSeq r s"

fun mk_alt :: "rexp \<Rightarrow> rexp \<Rightarrow> rexp" where
  "mk_alt RZero s = s"
| "mk_alt r RZero = r"
| "mk_alt r s = RAlt r s"

primrec deriv :: "char \<Rightarrow> rexp \<Rightarrow> rexp" where
  "deriv c RZero = RZero"
| "deriv c ROne = RZero"
| "deriv c (RCls p) = (if p c then ROne else RZero)"
| "deriv c (RSeq r s) =
     (if nullable r then mk_alt (mk_seq (deriv c r) s) (deriv c s)
      else mk_seq (deriv c r) s)"
| "deriv c (RAlt r s) = mk_alt (deriv c r) (deriv c s)"
| "deriv c (RStar r) = mk_seq (deriv c r) (RStar r)"

fun fullmatch :: "rexp \<Rightarrow> string \<Rightarrow> bool" where
  "fullmatch r [] = nullable r"
| "fullmatch r (c # cs) = fullmatch (deriv c r) cs"

lemma lang_mk_seq [simp]: "lang (mk_seq r s) = lang (RSeq r s)"
  by (cases r) auto

lemma lang_mk_alt [simp]: "lang (mk_alt r s) = lang (RAlt r s)"
  by (cases r; cases s) auto

lemma nullable_iff: "nullable r \<longleftrightarrow> [] \<in> lang r"
  by (induction r) (auto intro: star_nil)

lemma Cons_in_star: "c # w \<in> star L \<longleftrightarrow> (\<exists>u v. w = u @ v \<and> c # u \<in> L \<and> v \<in> star L)"
proof
  assume "c # w \<in> star L"
  then show "\<exists>u v. w = u @ v \<and> c # u \<in> L \<and> v \<in> star L"
    by (induction "c # w" arbitrary: c w rule: star.induct)
       (metis append_eq_Cons_conv)
next
  assume "\<exists>u v. w = u @ v \<and> c # u \<in> L \<and> v \<in> star L"
  then show "c # w \<in> star L" using star_app by fastforce
qed

lemma lang_deriv: "w \<in> lang (deriv c r) \<longleftrightarrow> c # w \<in> lang r"
proof (induction r arbitrary: w)
  case (RSeq r s)
  show ?case
    using RSeq.IH by (auto simp: nullable_iff Cons_eq_append_conv)
next
  case (RStar r)
  then show ?case by (auto simp: Cons_in_star)
qed auto

lemma fullmatch_iff_lang: "fullmatch r s \<longleftrightarrow> s \<in> lang r"
  by (induction r s rule: fullmatch.induct) (auto simp: nullable_iff lang_deriv)

lemma star_cls: "s \<in> star {[c] | c. p c} \<longleftrightarrow> list_all p s"
proof
  show "s \<in> star {[c] | c. p c} \<Longrightarrow> list_all p s"
    by (induction rule: star.induct) auto
next
  show "list_all p s \<Longrightarrow> s \<in> star {[c] | c. p c}"
  proof (induction s)
    case (Cons c s)
    then show ?case using star_app [of "[c]" "{[c] | c. p c}" s] by auto
  qed (simp add: star_nil)
qed

lemma lang_star_cls [simp]: "s \<in> lang (RStar (RCls p)) \<longleftrightarrow> list_all p s"
  by (simp add: star_cls)

lemma lang_plus_cls [simp]: "s \<in> lang (RPlus (RCls p)) \<longleftrightarrow> s \<noteq> [] \<and> list_all p s"
  by (cases s) (fastforce simp: star_cls intro: exI [of _ "[_]"])+

lemma lang_seq [simp]:
  "s \<in> lang (RSeq a b) \<longleftrightarrow> (\<exists>u v. s = u @ v \<and> u \<in> lang a \<and> v \<in> lang b)"
  by auto

lemma lang_chr_seq: "s \<in> lang (RSeq (RChr c) r) \<longleftrightarrow> (\<exists>v. s = c # v \<and> v \<in> lang r)"
  by auto

lemma lang_opt_seq: "s \<in> lang (RSeq (ROpt a) b) \<longleftrightarrow> s \<in> lang b \<or> s \<in> lang (RSeq a b)"
  by auto

lemma lang_plus_seq:
  "s \<in> lang (RSeq (RPlus (RCls p)) r) \<longleftrightarrow>
     (\<exists>u v. s = u @ v \<and> u \<noteq> [] \<and> list_all p u \<and> v \<in> lang r)"
  by (subst lang_seq) (simp only: lang_plus_cls conj_assoc)

lemma lang_seq_assoc: "s \<in> lang (RSeq (RSeq a b) c) \<longleftrightarrow> s \<in> lang (RSeq a (RSeq b c))"
  by (auto; metis append.assoc)

lemma lang_opt_seq4:
  "s \<in> lang (RSeq (ROpt (RSeq a1 (RSeq a2 (RSeq a3 a4)))) b) \<longleftrightarrow>
     s \<in> lang b \<or> s \<in> lang (RSeq a1 (RSeq a2 (RSeq a3 (RSeq a4 b))))"
proof -
  have *: "lang (RSeq (RSeq x y) z) = lang (RSeq x (RSeq y z))" for x y z
    using lang_seq_assoc by blast
  have cong: "lang y = lang y' \<Longrightarrow> lang (RSeq x y) = lang (RSeq x y')" for x y y'
    by simp
  have "lang (RSeq (RSeq a1 (RSeq a2 (RSeq a3 a4))) b) = lang (RSeq a1 (RSeq a2 (RSeq a3 (RSeq a4 b))))"
    using * cong by metis
  then show ?thesis unfolding lang_opt_seq by blast
qed

section \<open>SQL tables\<close>

definition lookup :: "('r \<Rightarrow> 'k) \<Rightarrow> 'k \<Rightarrow> 'r list \<Rightarrow> 'r option" where
  "lookup key k rows = find (\<lambda>r. key r = k) rows"

definition update_where :: "('r \<Rightarrow> bool) \<Rightarrow> ('r \<Rightarrow> 'r) \<Rightarrow> 'r list \<Rightarrow> 'r list" where
  "update_where p f rows = map (\<lambda>r. if p r then f r else r) rows"

definition delete_where :: "('r \<Rightarrow> bool) \<Rightarrow> 'r list \<Rightarrow> 'r list" where
  "delete_where p rows = filter (\<lambda>r. \<not> p r) rows"

definition rowcount :: "('r \<Rightarrow> bool) \<Rightarrow> 'r list \<Rightarrow> nat" where
  "rowcount p rows = length (filter p rows)"

text \<open>\<open>ORDER BY k ASC\<close> and \<open>ORDER BY k DESC\<close>; rows with equal keys stay in rowid order.\<close>

definition order_asc :: "('r \<Rightarrow> 'k::linorder) \<Rightarrow> 'r list \<Rightarrow> 'r list" where
  "order_asc k rows = sort_key k rows"

definition order_desc :: "('r \<Rightarrow> 'k::linorder) \<Rightarrow> 'r list \<Rightarrow> 'r list" where
  "order_desc k rows = rev (sort_key k (rev rows))"

definition unique_key :: "('r \<Rightarrow> 'k) \<Rightarrow> 'r list \<Rightarrow> bool" where
  "unique_key key rows = distinct (map key rows)"

lemma lookup_Nil [simp, table_simps]: "lookup key k [] = None"
  by (simp add: lookup_def)

lemma lookup_Cons [table_simps]:
  "lookup key k (r # rows) = (if key r = k then Some r else lookup key k rows)"
  by (simp add: lookup_def)

lemma lookup_append [table_simps]:
  "lookup key k (xs @ ys) = (case lookup key k xs of None \<Rightarrow> lookup key k ys | Some r \<Rightarrow> Some r)"
  by (induction xs) (auto simp: lookup_Cons)

lemma lookup_Some_iff:
  "unique_key key rows \<Longrightarrow> lookup key k rows = Some r \<longleftrightarrow> r \<in> set rows \<and> key r = k"
  by (induction rows) (auto simp: lookup_Cons unique_key_def)

lemma lookup_Some_in: "lookup key k rows = Some r \<Longrightarrow> r \<in> set rows \<and> key r = k"
  by (auto simp: lookup_def find_Some_iff)

lemma lookup_None_iff: "lookup key k rows = None \<longleftrightarrow> k \<notin> key ` set rows"
  by (auto simp: lookup_def find_None_iff)

lemma lookup_update_where [table_simps]:
  "(\<And>r. key (f r) = key r) \<Longrightarrow>
   lookup key k (update_where p f rows) =
     map_option (\<lambda>r. if p r then f r else r) (lookup key k rows)"
  by (induction rows) (auto simp: lookup_Cons update_where_def)

lemma lookup_delete_where [table_simps]:
  "lookup key k (delete_where (\<lambda>r. key r = k') rows) =
     (if k = k' then None else lookup key k rows)"
  by (induction rows) (auto simp: lookup_Cons delete_where_def)

lemma map_key_update_where [simp]:
  "(\<And>r. key (f r) = key r) \<Longrightarrow> map key (update_where p f rows) = map key rows"
  by (auto simp: update_where_def)

lemma length_update_where [simp]: "length (update_where p f rows) = length rows"
  by (simp add: update_where_def)

lemma unique_key_Nil [simp, table_inv]: "unique_key key []"
  by (simp add: unique_key_def)

lemma unique_key_update_where [table_inv]:
  "(\<And>r. key (f r) = key r) \<Longrightarrow> unique_key key rows \<Longrightarrow>
   unique_key key (update_where p f rows)"
  by (simp add: unique_key_def)

lemma unique_key_delete_where [table_inv]:
  "unique_key key rows \<Longrightarrow> unique_key key (delete_where p rows)"
  by (auto simp: unique_key_def delete_where_def distinct_map_filter)

lemma unique_key_insert [table_inv]:
  "unique_key key rows \<Longrightarrow> lookup key (key r) rows = None \<Longrightarrow> unique_key key (rows @ [r])"
  by (auto simp: unique_key_def lookup_None_iff)

text \<open>A statement on the primary key touches one row when the row is there and none otherwise.\<close>

lemma rowcount_key:
  "unique_key key rows \<Longrightarrow>
   rowcount (\<lambda>r. key r = k \<and> q r) rows =
     (case lookup key k rows of None \<Rightarrow> 0 | Some r \<Rightarrow> if q r then 1 else 0)"
proof (induction rows)
  case (Cons a rows)
  have none: "rowcount (\<lambda>r. key r = k \<and> q r) rows = 0" if "key a = k"
    using that Cons.prems
    by (auto simp: rowcount_def unique_key_def filter_empty_conv) (metis image_eqI)
  from Cons show ?case
    by (cases "key a = k")
       (use none in \<open>auto simp: rowcount_def lookup_Cons unique_key_def\<close>)
qed (simp add: rowcount_def)

lemma rowcount_key_only:
  "unique_key key rows \<Longrightarrow>
   rowcount (\<lambda>r. key r = k) rows = (if lookup key k rows = None then 0 else 1)"
  using rowcount_key [of key rows k "\<lambda>_. True"] by (simp split: option.splits)

lemma set_order_asc [simp]: "set (order_asc k rows) = set rows"
  by (simp add: order_asc_def)

lemma set_order_desc [simp]: "set (order_desc k rows) = set rows"
  by (simp add: order_desc_def)

lemma sorted_order_asc [simp]: "sorted (map k (order_asc k rows))"
  by (simp add: order_asc_def)

lemma sorted_order_desc [simp]: "sorted (rev (map k (order_desc k rows)))"
  by (simp add: order_desc_def rev_map [symmetric])

lemma length_order [simp]:
  "length (order_asc k rows) = length rows" "length (order_desc k rows) = length rows"
  by (simp_all add: order_asc_def order_desc_def)

end
