(* ===== verification/Permission_Store.thy ===== *)
theory Permission_Store
  imports Py_Prelude
begin

text \<open>
  \<open>agent_os/permission_store.py\<close>: learned permission rules and the two stores that keep them.

  \<^item> \<open>permission_rule\<close> is the dataclass, \<open>PERMISSION_KEY_REGEX\<close> the key pattern,
    \<open>permission_rule_store_ops\<close> the protocol both stores implement (one component per method;
    the clock reading \<open>int(time.time() * 1000)\<close> is an argument of the methods that take one).
  \<^item> \<open>sqlite_*\<close> are the methods of \<open>SqlitePermissionStore\<close> on the table \<open>permission_rules\<close>,
    \<open>memory_*\<close> those of \<open>InMemoryPermissionStore\<close> on its dictionary.
  \<^item> \<open>spec_upsert\<close> and \<open>spec_bump\<close> say what a rule store promises as operations on a map
    from keys to rules; the locale \<open>permission_rule_store\<close> states the contract over them and
    proves what its clients use. Both stores are interpretations of it, and
    \<open>memory_refines_sqlite\<close> steps the two side by side.
\<close>

section \<open>Rules and keys\<close>

record permission_rule =
  permission_key :: string
  effect :: string
  tier_at_creation :: string
  approve_count :: int
  deny_count :: int
  rule_created_at :: int
  rule_updated_at :: int
  rule_workspace_id :: "string option"
  taught_by :: "string option"

definition word_char :: "char \<Rightarrow> bool" where
  "word_char c = (is_lower c \<or> is_upper c \<or> is_digit c \<or> c = CHR ''_'')"

definition ref_char :: "char \<Rightarrow> bool" where
  "ref_char c = (\<not> py_isspace c \<and> c \<noteq> CHR '':'')"

definition PERMISSION_KEY_REGEX :: rexp where
  "PERMISSION_KEY_REGEX =
     RSeq (RPlus (RCls word_char)) (RSeq (RChr CHR '':'')
     (RSeq (RPlus (RCls word_char)) (RSeq (RChr CHR '':'')
     (RSeq (ROpt (RSeq (RPlus (RCls word_char)) (RSeq (RChr CHR '':'')
                  (RSeq (RPlus (RCls word_char)) (RChr CHR '':'')))))
      (RPlus (RCls ref_char))))))"

definition valid_key :: "string \<Rightarrow> bool" where
  "valid_key k = fullmatch PERMISSION_KEY_REGEX k"

definition invalid_key_error :: "string \<Rightarrow> py_exn" where
  "invalid_key_error k = ValueError (''Invalid permission_key format: '' @ k)"

definition validate_key :: "string \<Rightarrow> unit result" where
  "validate_key k = (if valid_key k then Inr () else Inl (invalid_key_error k))"

record 's permission_rule_store_ops =
  store_get :: "string \<Rightarrow> 's \<Rightarrow> permission_rule option result"
  store_upsert :: "int \<Rightarrow> permission_rule \<Rightarrow> 's \<Rightarrow> 's result"
  store_list :: "'s \<Rightarrow> permission_rule list"
  store_delete :: "string \<Rightarrow> 's \<Rightarrow> (bool \<times> 's) result"
  store_increment_approve :: "int \<Rightarrow> string \<Rightarrow> 's \<Rightarrow> 's result"
  store_increment_deny :: "int \<Rightarrow> string \<Rightarrow> 's \<Rightarrow> 's result"

text \<open>The pattern, spelled out: two word parts and a reference, or four word parts and one.\<close>

definition word :: "string \<Rightarrow> bool" where
  "word s = (s \<noteq> [] \<and> list_all word_char s)"

definition ref_part :: "string \<Rightarrow> bool" where
  "ref_part s = (s \<noteq> [] \<and> list_all ref_char s)"

lemma valid_key_iff:
  "valid_key k \<longleftrightarrow>
     (\<exists>a v. k = a @ v \<and> word a \<and> (\<exists>v'. v = CHR '':'' # v' \<and>
       (\<exists>b w. v' = b @ w \<and> word b \<and> (\<exists>w'. w = CHR '':'' # w' \<and>
         (ref_part w' \<or> (\<exists>c x. w' = c @ x \<and> word c \<and> (\<exists>x'. x = CHR '':'' # x' \<and>
           (\<exists>d y. x' = d @ y \<and> word d \<and> (\<exists>e. y = CHR '':'' # e \<and> ref_part e)))))))))"
  unfolding valid_key_def fullmatch_iff_lang PERMISSION_KEY_REGEX_def
  by (simp only: lang_opt_seq4 lang_plus_seq lang_chr_seq lang_plus_cls
      word_def ref_part_def conj_assoc)

lemma valid_key_fiveI:
  assumes "word a" "word b" "word c" "word d" "ref_part e"
  shows "valid_key (a @ CHR '':'' # b @ CHR '':'' # c @ CHR '':'' # d @ CHR '':'' # e)"
  unfolding valid_key_iff
  by (rule exI [of _ a], rule exI, rule conjI [OF refl], rule conjI [OF assms(1)],
      rule exI, rule conjI [OF refl], rule exI [of _ b], rule exI, rule conjI [OF refl],
      rule conjI [OF assms(2)], rule exI, rule conjI [OF refl], rule disjI2,
      rule exI [of _ c], rule exI, rule conjI [OF refl], rule conjI [OF assms(3)],
      rule exI, rule conjI [OF refl], rule exI [of _ d], rule exI, rule conjI [OF refl],
      rule conjI [OF assms(4)], rule exI, rule conjI [OF refl assms(5)])

lemma valid_key_chars: "valid_key k \<Longrightarrow> k \<noteq> [] \<and> list_all (\<lambda>c. \<not> py_isspace c) k"
proof -
  have w: "\<not> py_isspace c" if "word_char c" for c
    using that by (auto simp: word_char_def is_lower_def is_upper_def is_digit_def py_isspace_def Let_def)
  have wd: "list_all (\<lambda>c. \<not> py_isspace c) s" if "word s" for s
    using that w by (auto simp: word_def list_all_iff)
  have rf: "list_all (\<lambda>c. \<not> py_isspace c) s" if "ref_part s" for s
    using that by (auto simp: ref_part_def ref_char_def list_all_iff)
  have colon: "\<not> py_isspace CHR '':''" by (simp add: py_isspace_def)
  assume "valid_key k"
  then show ?thesis
    unfolding valid_key_iff by (elim exE conjE disjE) (simp_all add: wd rf colon)
qed

section \<open>The SQLite store\<close>

type_synonym rules_table = "permission_rule list"

definition coalesce :: "'a option \<Rightarrow> 'a option \<Rightarrow> 'a option" where
  "coalesce a b = (case a of None \<Rightarrow> b | Some x \<Rightarrow> Some x)"

definition sqlite_get :: "string \<Rightarrow> rules_table \<Rightarrow> permission_rule option result" where
  "sqlite_get k rows =
     bind_result (validate_key k) (\<lambda>_. Inr (lookup permission_key k rows))"

definition sqlite_upsert :: "int \<Rightarrow> permission_rule \<Rightarrow> rules_table \<Rightarrow> rules_table result" where
  "sqlite_upsert now_ms r rows =
     bind_result (validate_key (permission_key r)) (\<lambda>_.
       let created = (if rule_created_at r \<noteq> 0 then rule_created_at r else now_ms)
       in Inr (case lookup permission_key (permission_key r) rows of
            None \<Rightarrow> rows @ [r\<lparr>rule_created_at := created, rule_updated_at := now_ms\<rparr>]
          | Some _ \<Rightarrow> update_where (\<lambda>old. permission_key old = permission_key r)
              (\<lambda>old. old\<lparr>effect := effect r, tier_at_creation := tier_at_creation r,
                 rule_updated_at := now_ms,
                 rule_workspace_id := coalesce (rule_workspace_id r) (rule_workspace_id old),
                 taught_by := coalesce (taught_by r) (taught_by old)\<rparr>) rows))"

definition sqlite_list :: "rules_table \<Rightarrow> permission_rule list" where
  "sqlite_list rows = order_asc permission_key rows"

definition sqlite_delete :: "string \<Rightarrow> rules_table \<Rightarrow> (bool \<times> rules_table) result" where
  "sqlite_delete k rows =
     bind_result (validate_key k) (\<lambda>_.
       Inr (rowcount (\<lambda>r. permission_key r = k) rows > 0,
            delete_where (\<lambda>r. permission_key r = k) rows))"

definition sqlite_increment_approve :: "int \<Rightarrow> string \<Rightarrow> rules_table \<Rightarrow> rules_table result" where
  "sqlite_increment_approve now_ms k rows =
     bind_result (validate_key k) (\<lambda>_.
       Inr (update_where (\<lambda>r. permission_key r = k)
         (\<lambda>r. r\<lparr>approve_count := approve_count r + 1, rule_updated_at := now_ms\<rparr>) rows))"

definition sqlite_increment_deny :: "int \<Rightarrow> string \<Rightarrow> rules_table \<Rightarrow> rules_table result" where
  "sqlite_increment_deny now_ms k rows =
     bind_result (validate_key k) (\<lambda>_.
       Inr (update_where (\<lambda>r. permission_key r = k)
         (\<lambda>r. r\<lparr>deny_count := deny_count r + 1, rule_updated_at := now_ms\<rparr>) rows))"

definition sqlite_ops :: "rules_table permission_rule_store_ops" where
  "sqlite_ops = \<lparr>store_get = sqlite_get, store_upsert = sqlite_upsert, store_list = sqlite_list,
     store_delete = sqlite_delete, store_increment_approve = sqlite_increment_approve,
     store_increment_deny = sqlite_increment_deny\<rparr>"

section \<open>The in-memory store\<close>

type_synonym rules_dict = "(string \<times> permission_rule) list"

definition memory_get :: "string \<Rightarrow> rules_dict \<Rightarrow> permission_rule option result" where
  "memory_get k d = bind_result (validate_key k) (\<lambda>_. Inr (dict_get d k))"

definition memory_upsert :: "int \<Rightarrow> permission_rule \<Rightarrow> rules_dict \<Rightarrow> rules_dict result" where
  "memory_upsert now_ms r d =
     bind_result (validate_key (permission_key r)) (\<lambda>_.
       case dict_get d (permission_key r) of
         Some existing \<Rightarrow>
           (let e1 = existing\<lparr>effect := effect r, tier_at_creation := tier_at_creation r,
                       rule_updated_at := now_ms\<rparr>;
                e2 = (if rule_workspace_id r \<noteq> None
                      then e1\<lparr>rule_workspace_id := rule_workspace_id r\<rparr> else e1);
                e3 = (if taught_by r \<noteq> None then e2\<lparr>taught_by := taught_by r\<rparr> else e2)
            in Inr (dict_set (permission_key r) e3 d))
       | None \<Rightarrow>
           (let created = (if rule_created_at r \<noteq> 0 then rule_created_at r else now_ms);
                new_rule = \<lparr>permission_key = permission_key r, effect = effect r,
                  tier_at_creation = tier_at_creation r, approve_count = approve_count r,
                  deny_count = deny_count r, rule_created_at = created,
                  rule_updated_at = now_ms, rule_workspace_id = rule_workspace_id r,
                  taught_by = taught_by r\<rparr>
            in Inr (dict_set (permission_key r) new_rule d)))"

definition memory_list :: "rules_dict \<Rightarrow> permission_rule list" where
  "memory_list d = sort_key permission_key (map snd d)"

definition memory_delete :: "string \<Rightarrow> rules_dict \<Rightarrow> (bool \<times> rules_dict) result" where
  "memory_delete k d =
     bind_result (validate_key k) (\<lambda>_. Inr (dict_get d k \<noteq> None, AList.delete k d))"

definition memory_increment_approve :: "int \<Rightarrow> string \<Rightarrow> rules_dict \<Rightarrow> rules_dict result" where
  "memory_increment_approve now_ms k d =
     bind_result (validate_key k) (\<lambda>_.
       case dict_get d k of
         None \<Rightarrow> Inr d
       | Some r \<Rightarrow> Inr (dict_set k
           (r\<lparr>approve_count := approve_count r + 1, rule_updated_at := now_ms\<rparr>) d))"

definition memory_increment_deny :: "int \<Rightarrow> string \<Rightarrow> rules_dict \<Rightarrow> rules_dict result" where
  "memory_increment_deny now_ms k d =
     bind_result (validate_key k) (\<lambda>_.
       case dict_get d k of
         None \<Rightarrow> Inr d
       | Some r \<Rightarrow> Inr (dict_set k
           (r\<lparr>deny_count := deny_count r + 1, rule_updated_at := now_ms\<rparr>) d))"

definition memory_ops :: "rules_dict permission_rule_store_ops" where
  "memory_ops = \<lparr>store_get = memory_get, store_upsert = memory_upsert, store_list = memory_list,
     store_delete = memory_delete, store_increment_approve = memory_increment_approve,
     store_increment_deny = memory_increment_deny\<rparr>"

section \<open>The abstract rule store\<close>

type_synonym rule_map = "string \<Rightarrow> permission_rule option"

definition fresh_rule :: "int \<Rightarrow> permission_rule \<Rightarrow> permission_rule" where
  "fresh_rule now_ms r =
     r\<lparr>rule_created_at := (if rule_created_at r \<noteq> 0 then rule_created_at r else now_ms),
       rule_updated_at := now_ms\<rparr>"

definition merge_rule :: "int \<Rightarrow> permission_rule \<Rightarrow> permission_rule \<Rightarrow> permission_rule" where
  "merge_rule now_ms r old =
     old\<lparr>effect := effect r, tier_at_creation := tier_at_creation r, rule_updated_at := now_ms,
       rule_workspace_id := coalesce (rule_workspace_id r) (rule_workspace_id old),
       taught_by := coalesce (taught_by r) (taught_by old)\<rparr>"

definition spec_upsert :: "int \<Rightarrow> permission_rule \<Rightarrow> rule_map \<Rightarrow> rule_map" where
  "spec_upsert now_ms r m =
     m(permission_key r \<mapsto> (case m (permission_key r) of
         None \<Rightarrow> fresh_rule now_ms r | Some old \<Rightarrow> merge_rule now_ms r old))"

definition spec_bump :: "(permission_rule \<Rightarrow> permission_rule) \<Rightarrow> string \<Rightarrow> rule_map \<Rightarrow> rule_map" where
  "spec_bump f k m = m(k := map_option f (m k))"

definition bump_approve :: "int \<Rightarrow> permission_rule \<Rightarrow> permission_rule" where
  "bump_approve now_ms r =
     r\<lparr>approve_count := approve_count r + 1, rule_updated_at := now_ms\<rparr>"

definition bump_deny :: "int \<Rightarrow> permission_rule \<Rightarrow> permission_rule" where
  "bump_deny now_ms r = r\<lparr>deny_count := deny_count r + 1, rule_updated_at := now_ms\<rparr>"

lemmas rule_update_defs = fresh_rule_def merge_rule_def bump_approve_def bump_deny_def

lemma permission_key_updates [simp]:
  "permission_key (fresh_rule t r) = permission_key r"
  "permission_key (merge_rule t r old) = permission_key old"
  "permission_key (bump_approve t r) = permission_key r"
  "permission_key (bump_deny t r) = permission_key r"
  by (simp_all add: rule_update_defs)

lemma effect_updates [simp]:
  "effect (fresh_rule t r) = effect r" "effect (merge_rule t r old) = effect r"
  "effect (bump_approve t r) = effect r" "effect (bump_deny t r) = effect r"
  by (simp_all add: rule_update_defs)

locale permission_rule_store =
  fixes ops :: "'s permission_rule_store_ops"
    and invar :: "'s \<Rightarrow> bool"
    and rules_of :: "'s \<Rightarrow> rule_map"
  assumes keyed: "invar s \<Longrightarrow> rules_of s k = Some r \<Longrightarrow> permission_key r = k"
    and get_spec: "invar s \<Longrightarrow> valid_key k \<Longrightarrow> store_get ops k s = Inr (rules_of s k)"
    and upsert_spec: "invar s \<Longrightarrow> valid_key (permission_key r) \<Longrightarrow>
          \<exists>s'. store_upsert ops t r s = Inr s' \<and> invar s' \<and> rules_of s' = spec_upsert t r (rules_of s)"
    and delete_spec: "invar s \<Longrightarrow> valid_key k \<Longrightarrow>
          \<exists>s'. store_delete ops k s = Inr (rules_of s k \<noteq> None, s') \<and> invar s' \<and>
               rules_of s' = (rules_of s)(k := None)"
    and approve_spec: "invar s \<Longrightarrow> valid_key k \<Longrightarrow>
          \<exists>s'. store_increment_approve ops t k s = Inr s' \<and> invar s' \<and>
               rules_of s' = spec_bump (bump_approve t) k (rules_of s)"
    and deny_spec: "invar s \<Longrightarrow> valid_key k \<Longrightarrow>
          \<exists>s'. store_increment_deny ops t k s = Inr s' \<and> invar s' \<and>
               rules_of s' = spec_bump (bump_deny t) k (rules_of s)"
    and list_spec: "invar s \<Longrightarrow> set (store_list ops s) = ran (rules_of s) \<and>
          sorted (map permission_key (store_list ops s)) \<and> distinct (map permission_key (store_list ops s))"
    and get_invalid: "\<not> valid_key k \<Longrightarrow> store_get ops k s = Inl (invalid_key_error k)"
    and upsert_invalid: "\<not> valid_key (permission_key r) \<Longrightarrow>
          store_upsert ops t r s = Inl (invalid_key_error (permission_key r))"
    and delete_invalid: "\<not> valid_key k \<Longrightarrow> store_delete ops k s = Inl (invalid_key_error k)"
begin

text \<open>A taught rule is what the next lookup of its key returns, and no other key is affected.\<close>

lemma get_after_upsert:
  assumes "invar s" "valid_key (permission_key r)" "valid_key k"
  shows "\<exists>s'. store_upsert ops t r s = Inr s' \<and> invar s' \<and>
          store_get ops k s' = Inr (if k = permission_key r then
             Some (case rules_of s k of None \<Rightarrow> fresh_rule t r | Some old \<Rightarrow> merge_rule t r old)
           else rules_of s k)"
  using upsert_spec [OF assms(1,2), of t] get_spec [OF _ assms(3)]
  by (auto simp: spec_upsert_def)

lemma get_after_delete:
  assumes "invar s" "valid_key k"
  shows "\<exists>b s'. store_delete ops k s = Inr (b, s') \<and> invar s' \<and> store_get ops k s' = Inr None"
  using delete_spec [OF assms] get_spec [OF _ assms(2)] by fastforce

text \<open>Counting an application of a rule never changes what the rule says.\<close>

lemma get_effect_after_bump:
  assumes "invar s" "valid_key k" "valid_key k'"
    and "op = store_increment_approve ops \<or> op = store_increment_deny ops"
  shows "\<exists>s'. op t k s = Inr s' \<and> invar s' \<and>
          (\<exists>m. store_get ops k' s' = Inr m \<and> map_option effect m = map_option effect (rules_of s k'))"
proof -
  have "\<exists>f s'. op t k s = Inr s' \<and> invar s' \<and> rules_of s' = spec_bump f k (rules_of s) \<and>
          (\<forall>r. effect (f r) = effect r)"
    using assms(4) approve_spec [OF assms(1,2), of t] deny_spec [OF assms(1,2), of t]
    by (metis effect_updates(3,4))
  then obtain f s' where s': "op t k s = Inr s'" "invar s'"
      "rules_of s' = spec_bump f k (rules_of s)" and f: "\<And>r. effect (f r) = effect r" by blast
  have "map_option effect (rules_of s' k') = map_option effect (rules_of s k')"
    by (cases "rules_of s k") (auto simp: s'(3) spec_bump_def f)
  then show ?thesis using s'(1,2) get_spec [OF s'(2) assms(3)] by auto
qed

end

section \<open>Both stores keep the contract\<close>

definition rules_table_inv :: "rules_table \<Rightarrow> bool" where
  "rules_table_inv rows = unique_key permission_key rows"

definition rules_dict_inv :: "rules_dict \<Rightarrow> bool" where
  "rules_dict_inv d = (distinct (map fst d) \<and> list_all (\<lambda>(k, r). permission_key r = k) d)"

lemmas sqlite_defs =
  sqlite_get_def sqlite_upsert_def sqlite_list_def sqlite_delete_def
  sqlite_increment_approve_def sqlite_increment_deny_def

lemmas memory_defs =
  memory_get_def memory_upsert_def memory_list_def memory_delete_def
  memory_increment_approve_def memory_increment_deny_def

lemma update_where_key_upd:
  assumes "\<And>r. permission_key (f r) = permission_key r"
  shows "(\<lambda>k. lookup permission_key k (update_where (\<lambda>r. permission_key r = k') f rows)) =
         (\<lambda>k. lookup permission_key k rows)(k' := map_option f (lookup permission_key k' rows))"
proof
  fix k
  have "(if permission_key r = k' then f r else r) = r"
    if "lookup permission_key k rows = Some r" "k \<noteq> k'" for r
    using lookup_Some_in [OF that(1)] that(2) by simp
  then show "lookup permission_key k (update_where (\<lambda>r. permission_key r = k') f rows) =
      ((\<lambda>k. lookup permission_key k rows)(k' := map_option f (lookup permission_key k' rows))) k"
    using lookup_Some_in [of permission_key k rows]
    by (cases "lookup permission_key k rows") (auto simp: lookup_update_where assms)
qed

lemma sqlite_upsert_refines:
  assumes "rules_table_inv rows" "valid_key (permission_key r)"
  shows "\<exists>rows'. sqlite_upsert t r rows = Inr rows' \<and> rules_table_inv rows' \<and>
           (\<lambda>k. lookup permission_key k rows') = spec_upsert t r (\<lambda>k. lookup permission_key k rows)"
proof (cases "lookup permission_key (permission_key r) rows")
  case None
  let ?rows = "rows @ [fresh_rule t r]"
  have "sqlite_upsert t r rows = Inr ?rows"
    using None assms(2) by (simp add: sqlite_upsert_def validate_key_def fresh_rule_def)
  moreover have "rules_table_inv ?rows"
    using assms(1) None by (simp add: rules_table_inv_def unique_key_insert)
  moreover have "(\<lambda>k. lookup permission_key k ?rows) =
      spec_upsert t r (\<lambda>k. lookup permission_key k rows)"
    using None by (auto simp: spec_upsert_def fun_eq_iff lookup_append lookup_Cons split: option.splits)
  ultimately show ?thesis by blast
next
  case (Some old)
  let ?rows = "update_where (\<lambda>old. permission_key old = permission_key r) (merge_rule t r) rows"
  have "sqlite_upsert t r rows = Inr ?rows"
    using Some assms(2) by (simp add: sqlite_upsert_def validate_key_def merge_rule_def [abs_def])
  moreover have "rules_table_inv ?rows"
    using assms(1) by (simp add: rules_table_inv_def unique_key_update_where)
  moreover have "(\<lambda>k. lookup permission_key k ?rows) =
      spec_upsert t r (\<lambda>k. lookup permission_key k rows)"
    using Some by (simp add: update_where_key_upd spec_upsert_def)
  ultimately show ?thesis by blast
qed

lemma sqlite_bump_refines:
  assumes "rules_table_inv rows" "\<And>r. permission_key (f r) = permission_key r"
  shows "rules_table_inv (update_where (\<lambda>r. permission_key r = k) f rows) \<and>
         (\<lambda>j. lookup permission_key j (update_where (\<lambda>r. permission_key r = k) f rows)) =
           spec_bump f k (\<lambda>j. lookup permission_key j rows)"
  using assms by (simp add: rules_table_inv_def unique_key_update_where update_where_key_upd spec_bump_def)

interpretation sqlite_store: permission_rule_store
  sqlite_ops rules_table_inv "\<lambda>rows k. lookup permission_key k rows"
proof (unfold_locales, goal_cases)
  case (1 s k r)
  then show ?case by (auto dest: lookup_Some_in)
next
  case (2 s k)
  then show ?case by (simp add: sqlite_ops_def sqlite_get_def validate_key_def)
next
  case (3 s r t)
  then show ?case by (simp add: sqlite_ops_def sqlite_upsert_refines)
next
  case (4 s k)
  then show ?case
    by (auto simp: sqlite_ops_def sqlite_delete_def validate_key_def rules_table_inv_def
        rowcount_key_only lookup_delete_where unique_key_delete_where fun_eq_iff)
next
  case (5 s k t)
  then show ?case
    using sqlite_bump_refines [of s "bump_approve t" k]
    by (simp add: sqlite_ops_def sqlite_increment_approve_def validate_key_def bump_approve_def [abs_def])
next
  case (6 s k t)
  then show ?case
    using sqlite_bump_refines [of s "bump_deny t" k]
    by (simp add: sqlite_ops_def sqlite_increment_deny_def validate_key_def bump_deny_def [abs_def])
next
  case (7 s)
  then have "set s = ran (\<lambda>k. lookup permission_key k s)"
    by (auto simp: ran_def rules_table_inv_def lookup_Some_iff)
  with 7 show ?case
    by (simp add: sqlite_ops_def sqlite_list_def rules_table_inv_def unique_key_def order_asc_def
        distinct_map)
qed (simp_all add: sqlite_ops_def sqlite_defs validate_key_def)

lemma dict_set_inv:
  "rules_dict_inv d \<Longrightarrow> permission_key r = k \<Longrightarrow> rules_dict_inv (dict_set k r d)"
  by (induction d) (auto simp: rules_dict_inv_def dom_update image_iff)

lemma dict_delete_inv: "rules_dict_inv d \<Longrightarrow> rules_dict_inv (AList.delete k d)"
  by (auto simp: rules_dict_inv_def AList.delete_eq list_all_iff distinct_map_filter)

lemma dict_inv_key: "rules_dict_inv d \<Longrightarrow> dict_get d k = Some r \<Longrightarrow> permission_key r = k"
  by (auto simp: rules_dict_inv_def list_all_iff dest!: map_of_SomeD)

text \<open>The in-place update of the dictionary entry is the merge of the abstract store.\<close>

lemma memory_upsert_eq:
  assumes "valid_key (permission_key r)"
  shows "memory_upsert t r d = Inr (dict_set (permission_key r)
           (case dict_get d (permission_key r) of
              None \<Rightarrow> fresh_rule t r | Some old \<Rightarrow> merge_rule t r old) d)"
  using assms
  by (cases r) (auto simp: memory_upsert_def validate_key_def rule_update_defs coalesce_def Let_def
      split: option.splits)

lemma memory_upsert_refines:
  assumes "rules_dict_inv d" "valid_key (permission_key r)"
  shows "\<exists>d'. memory_upsert t r d = Inr d' \<and> rules_dict_inv d' \<and>
           map_of d' = spec_upsert t r (map_of d)"
  using assms
  by (auto simp: memory_upsert_eq spec_upsert_def update_conv' split: option.splits
      intro!: dict_set_inv dest: dict_inv_key)

lemma memory_bump_refines:
  assumes "rules_dict_inv d" "\<And>r. permission_key (f r) = permission_key r"
    and "op = (case dict_get d k of None \<Rightarrow> Inr d | Some r \<Rightarrow> Inr (dict_set k (f r) d))"
  shows "\<exists>d'. op = Inr d' \<and> rules_dict_inv d' \<and> map_of d' = spec_bump f k (map_of d)"
  using assms
  by (auto simp: spec_bump_def update_conv' split: option.splits
      intro!: dict_set_inv dest: dict_inv_key)

lemma rules_dict_snd:
  assumes "rules_dict_inv d"
  shows "map permission_key (map snd d) = map fst d" and "set (map snd d) = ran (map_of d)"
proof -
  from assms have "\<forall>p\<in>set d. permission_key (snd p) = fst p"
    by (auto simp: rules_dict_inv_def list_all_iff)
  then show "map permission_key (map snd d) = map fst d" by simp
  from assms show "set (map snd d) = ran (map_of d)"
    by (simp add: rules_dict_inv_def ran_distinct)
qed

interpretation memory_store: permission_rule_store memory_ops rules_dict_inv map_of
proof (unfold_locales, goal_cases)
  case (1 s k r)
  then show ?case by (rule dict_inv_key)
next
  case (2 s k)
  then show ?case by (simp add: memory_ops_def memory_get_def validate_key_def)
next
  case (3 s r t)
  then show ?case by (simp add: memory_ops_def memory_upsert_refines)
next
  case (4 s k)
  then show ?case
    by (simp add: memory_ops_def memory_delete_def validate_key_def dict_delete_inv delete_conv')
next
  case (5 s k t)
  then show ?case
    using memory_bump_refines [of s "bump_approve t" _ k]
    unfolding memory_ops_def memory_increment_approve_def validate_key_def bump_approve_def
    by simp
next
  case (6 s k t)
  then show ?case
    using memory_bump_refines [of s "bump_deny t" _ k]
    unfolding memory_ops_def memory_increment_deny_def validate_key_def bump_deny_def
    by simp
next
  case (7 s)
  then have "distinct (map permission_key (map snd s))"
    by (subst rules_dict_snd) (auto simp: rules_dict_inv_def)
  with rules_dict_snd(2) [OF 7] show ?case
    by (simp add: memory_ops_def memory_list_def distinct_map del: map_map)
qed (simp_all add: memory_ops_def memory_defs validate_key_def)

section \<open>The two stores are interchangeable\<close>

text \<open>A client's calls and what it can observe of them.\<close>

datatype store_call =
    CallGet string
  | CallUpsert int permission_rule
  | CallList
  | CallDelete string
  | CallApprove int string
  | CallDeny int string

datatype store_reply =
    ReplyRule "permission_rule option"
  | ReplyList "permission_rule list"
  | ReplyBool bool
  | ReplyNone
  | ReplyRaise py_exn

fun reply_of :: "('a \<Rightarrow> store_reply \<times> 's) \<Rightarrow> 's \<Rightarrow> 'a result \<Rightarrow> store_reply \<times> 's" where
  "reply_of f s (Inl e) = (ReplyRaise e, s)"
| "reply_of f s (Inr x) = f x"

fun store_step :: "'s permission_rule_store_ops \<Rightarrow> store_call \<Rightarrow> 's \<Rightarrow> store_reply \<times> 's" where
  "store_step ops (CallGet k) s = reply_of (\<lambda>r. (ReplyRule r, s)) s (store_get ops k s)"
| "store_step ops (CallUpsert t r) s = reply_of (\<lambda>s'. (ReplyNone, s')) s (store_upsert ops t r s)"
| "store_step ops CallList s = (ReplyList (store_list ops s), s)"
| "store_step ops (CallDelete k) s =
     reply_of (\<lambda>(b, s'). (ReplyBool b, s')) s (store_delete ops k s)"
| "store_step ops (CallApprove t k) s =
     reply_of (\<lambda>s'. (ReplyNone, s')) s (store_increment_approve ops t k s)"
| "store_step ops (CallDeny t k) s =
     reply_of (\<lambda>s'. (ReplyNone, s')) s (store_increment_deny ops t k s)"

fun store_run ::
  "'s permission_rule_store_ops \<Rightarrow> store_call list \<Rightarrow> 's \<Rightarrow> store_reply list \<times> 's" where
  "store_run ops [] s = ([], s)"
| "store_run ops (c # cs) s =
     (let (rep, s1) = store_step ops c s; (reps, s2) = store_run ops cs s1 in (rep # reps, s2))"

definition as_dict :: "rules_table \<Rightarrow> rules_dict" where
  "as_dict rows = map (\<lambda>r. (permission_key r, r)) rows"

lemma as_dict_get: "dict_get (as_dict rows) k = lookup permission_key k rows"
  by (induction rows) (auto simp: as_dict_def lookup_Cons)

lemma as_dict_update:
  assumes "unique_key permission_key rows" "lookup permission_key k rows = Some r0"
    and "\<And>r. permission_key (f r) = permission_key r"
  shows "as_dict (update_where (\<lambda>r. permission_key r = k) f rows) = dict_set k (f r0) (as_dict rows)"
  using assms(1,2)
proof (induction rows)
  case (Cons a rows)
  show ?case
  proof (cases "permission_key a = k")
    case True
    with Cons.prems have "\<forall>r\<in>set rows. permission_key r \<noteq> k"
      by (auto simp: unique_key_def image_iff)
    with True Cons.prems show ?thesis
      by (auto simp: as_dict_def update_where_def lookup_Cons assms(3))
  next
    case False
    with Cons show ?thesis
      by (auto simp: as_dict_def update_where_def lookup_Cons unique_key_def)
  qed
qed simp

lemma as_dict_append:
  "lookup permission_key k rows = None \<Longrightarrow> permission_key r = k \<Longrightarrow>
   as_dict (rows @ [r]) = dict_set k r (as_dict rows)"
  by (induction rows) (auto simp: as_dict_def lookup_Cons split: if_splits)

lemma as_dict_delete:
  "as_dict (delete_where (\<lambda>r. permission_key r = k) rows) = AList.delete k (as_dict rows)"
  by (induction rows) (auto simp: as_dict_def delete_where_def)

lemma as_dict_bump:
  assumes "unique_key permission_key rows" "\<And>r. permission_key (f r) = permission_key r"
  shows "(case dict_get (as_dict rows) k of None \<Rightarrow> Inr (as_dict rows)
          | Some r \<Rightarrow> Inr (dict_set k (f r) (as_dict rows))) =
         (Inr (as_dict (update_where (\<lambda>r. permission_key r = k) f rows)) :: rules_dict result)"
proof (cases "lookup permission_key k rows")
  case None
  then have "update_where (\<lambda>r. permission_key r = k) f rows = rows"
    by (auto simp: update_where_def lookup_None_iff intro!: map_idI)
  with None show ?thesis by (simp add: as_dict_get)
next
  case (Some r)
  with assms show ?thesis by (simp add: as_dict_get as_dict_update)
qed

lemma as_dict_upsert:
  assumes "rules_table_inv rows"
  shows "memory_upsert t r (as_dict rows) = map_sum id as_dict (sqlite_upsert t r rows)"
proof (cases "valid_key (permission_key r)")
  case True
  show ?thesis
  proof (cases "lookup permission_key (permission_key r) rows")
    case None
    then have "sqlite_upsert t r rows = Inr (rows @ [fresh_rule t r])"
      using True by (simp add: sqlite_upsert_def validate_key_def fresh_rule_def)
    with True None show ?thesis by (simp add: memory_upsert_eq as_dict_get as_dict_append)
  next
    case (Some old)
    then have "sqlite_upsert t r rows = Inr (update_where
        (\<lambda>old. permission_key old = permission_key r) (merge_rule t r) rows)"
      using True by (simp add: sqlite_upsert_def validate_key_def merge_rule_def [abs_def])
    with True Some assms show ?thesis
      by (simp add: memory_upsert_eq as_dict_get as_dict_update rules_table_inv_def)
  qed
qed (simp add: memory_upsert_def sqlite_upsert_def validate_key_def)

text \<open>One call on the dictionary answers as on the table, and leaves corresponding states.\<close>

lemma store_step_simulation:
  assumes "rules_table_inv rows"
  shows "store_step memory_ops c (as_dict rows) =
           map_prod id as_dict (store_step sqlite_ops c rows) \<and>
         rules_table_inv (snd (store_step sqlite_ops c rows))"
proof (cases c)
  case (CallGet k)
  with assms show ?thesis
    by (simp add: memory_ops_def sqlite_ops_def memory_get_def sqlite_get_def validate_key_def
        as_dict_get)
next
  case (CallUpsert t r)
  have "rules_table_inv rows'" if "sqlite_upsert t r rows = Inr rows'" for rows'
    using that assms sqlite_upsert_refines [OF assms, of r t]
    by (auto simp: sqlite_upsert_def validate_key_def split: if_splits)
  with CallUpsert assms show ?thesis
    by (cases "sqlite_upsert t r rows")
       (auto simp: memory_ops_def sqlite_ops_def as_dict_upsert)
next
  case CallList
  have "map snd (as_dict rows) = rows" by (simp add: as_dict_def comp_def)
  with CallList assms show ?thesis
    by (simp add: memory_ops_def sqlite_ops_def memory_list_def sqlite_list_def order_asc_def)
next
  case (CallDelete k)
  with assms show ?thesis
    by (simp add: memory_ops_def sqlite_ops_def memory_delete_def sqlite_delete_def validate_key_def
        as_dict_get as_dict_delete rules_table_inv_def rowcount_key_only unique_key_delete_where)
next
  case (CallApprove t k)
  with assms show ?thesis
    using as_dict_bump [of rows "\<lambda>r. r\<lparr>approve_count := approve_count r + 1, rule_updated_at := t\<rparr>" k]
    by (simp add: memory_ops_def sqlite_ops_def memory_increment_approve_def
        sqlite_increment_approve_def validate_key_def rules_table_inv_def unique_key_update_where)
next
  case (CallDeny t k)
  with assms show ?thesis
    using as_dict_bump [of rows "\<lambda>r. r\<lparr>deny_count := deny_count r + 1, rule_updated_at := t\<rparr>" k]
    by (simp add: memory_ops_def sqlite_ops_def memory_increment_deny_def
        sqlite_increment_deny_def validate_key_def rules_table_inv_def unique_key_update_where)
qed

lemma store_run_simulation:
  "rules_table_inv rows \<Longrightarrow>
   store_run memory_ops cs (as_dict rows) = map_prod id as_dict (store_run sqlite_ops cs rows)"
proof (induction cs arbitrary: rows)
  case (Cons c cs)
  obtain rep rows1 where step: "store_step sqlite_ops c rows = (rep, rows1)"
    by (cases "store_step sqlite_ops c rows")
  with store_step_simulation [OF Cons.prems, of c]
  have "store_step memory_ops c (as_dict rows) = (rep, as_dict rows1)" "rules_table_inv rows1"
    by simp_all
  with Cons.IH step show ?case by (simp add: case_prod_beta Let_def)
qed simp


end
