(* ===== verification/Policy.thy ===== *)
theory Policy
  imports Permission_Store
begin

text \<open>
  \<open>agent_os/policy.py\<close>, with the proposal, decision and result models of
  \<open>agent_os/schemas.py\<close>: the governance layer every side effect passes through.

  \<^item> State: \<open>policy_world\<close> holds the rule store an engine was built with and the class
    attribute \<open>LocalPolicy._session_approved\<close>. Operations return the new world.
  \<^item> \<open>local_evaluate\<close>, \<open>composite_evaluate\<close> and \<open>apply_policy\<close> are the two \<open>evaluate\<close>
    methods and the function that acts on a decision. The rule store is any
    \<open>permission_rule_store_ops\<close>; a policy plugin is a function argument that may raise and may
    change the world; \<open>langgraph.types.interrupt\<close> is the component \<open>interrupt_reply\<close> of
    \<open>policy_env\<close>, the value the human answers a prompt with.
  \<^item> The lemmas show the high-tier floor, that plugins only restrict, that a learned or session
    grant covers exactly one connector, mode and reference, the precedence of a learned denial,
    that a broken store grants nothing, that only an allowed or approved proposal reaches
    \<open>execute_fn\<close>, and that what a human teaches is what the next evaluation decides.
\<close>

section \<open>Proposals, decisions, results\<close>

datatype side_effect =
    SE_none | SE_read | SE_write | SE_network | SE_payment | SE_communication | SE_privileged

fun side_effect_str :: "side_effect \<Rightarrow> string" where
  "side_effect_str SE_none = ''none''"
| "side_effect_str SE_read = ''read''"
| "side_effect_str SE_write = ''write''"
| "side_effect_str SE_network = ''network''"
| "side_effect_str SE_payment = ''payment''"
| "side_effect_str SE_communication = ''communication''"
| "side_effect_str SE_privileged = ''privileged''"

record action_proposal =
  tool :: string
  arguments :: pydict
  proposal_reason :: string
  side_effect :: side_effect
  connector :: "string option"

datatype verdict = Allow | Deny | RequireApproval

record policy_decision =
  decision :: verdict
  policy_id :: string
  reason :: string
  approver_roles :: "string list"
  transformed_arguments :: "pydict option"

datatype exec_status = Completed | Failed | Cancelled | Waiting

record 'o execution_result =
  status :: exec_status
  outputs :: "(string \<times> 'o) list"
  artifacts :: "string list"
  errors :: "string list"

definition mk_decision :: "verdict \<Rightarrow> string \<Rightarrow> string \<Rightarrow> policy_decision" where
  "mk_decision d i r = \<lparr>decision = d, policy_id = i, reason = r, approver_roles = [],
     transformed_arguments = None\<rparr>"

definition not_executed :: "exec_status \<Rightarrow> string \<Rightarrow> 'o execution_result" where
  "not_executed st e = \<lparr>status = st, outputs = [], artifacts = [], errors = [e]\<rparr>"

lemma mk_decision_sel [simp]:
  "decision (mk_decision d i r) = d" "policy_id (mk_decision d i r) = i"
  "reason (mk_decision d i r) = r"
  by (simp_all add: mk_decision_def)

lemma not_executed_sel [simp]:
  "status (not_executed st e) = st" "errors (not_executed st e) = [e]"
  "outputs (not_executed st e) = []" "artifacts (not_executed st e) = []"
  by (simp_all add: not_executed_def)

section \<open>Tiers and permission keys\<close>

fun derive_tier_of :: "side_effect \<Rightarrow> string" where
  "derive_tier_of SE_read = ''trivial''"
| "derive_tier_of SE_none = ''trivial''"
| "derive_tier_of SE_write = ''low''"
| "derive_tier_of SE_network = ''medium''"
| "derive_tier_of SE_communication = ''medium''"
| "derive_tier_of SE_payment = ''high''"
| "derive_tier_of SE_privileged = ''high''"

definition derive_tier :: "action_proposal \<Rightarrow> string" where
  "derive_tier p = derive_tier_of (side_effect p)"

definition MEMORY_WRITE_MODES :: "string list" where
  "MEMORY_WRITE_MODES = [''append'', ''create'', ''overwrite'']"

definition safe_connector_char :: "char \<Rightarrow> bool" where
  "safe_connector_char c = (is_lower c \<or> is_digit c \<or> c = CHR ''_'')"

definition permission_connector :: "string option \<Rightarrow> string option" where
  "permission_connector v =
     (case v of None \<Rightarrow> None
      | Some s \<Rightarrow> if fullmatch (RPlus (RCls safe_connector_char)) s then Some s else None)"

definition permission_ref :: "pyval option \<Rightarrow> string option" where
  "permission_ref v =
     (case v of
        Some (PStr s) \<Rightarrow>
          (if s = [] \<or> CHR '':'' \<in> set s \<or> list_ex py_isspace s then None else Some s)
      | _ \<Rightarrow> None)"

definition derive_permission_key :: "action_proposal \<Rightarrow> string option" where
  "derive_permission_key p =
     (if tool p \<noteq> ''memory.write'' \<or> side_effect p \<noteq> SE_write then None
      else (case (permission_connector (connector p), dict_get (arguments p) ''mode'',
                  permission_ref (dict_get (arguments p) ''ref'')) of
              (Some c, Some (PStr m), Some r) \<Rightarrow>
                if m \<in> set MEMORY_WRITE_MODES
                then Some (''memory_write:write:'' @ c @ '':'' @ m @ '':'' @ r)
                else None
            | _ \<Rightarrow> None))"

section \<open>Feedback\<close>

text \<open>\<open>re.sub(r"[\s-]+", "_", s)\<close>\<close>

fun underscore_aux :: "bool \<Rightarrow> string \<Rightarrow> string" where
  "underscore_aux in_run [] = []"
| "underscore_aux in_run (c # cs) =
     (if py_isspace c \<or> c = CHR ''-''
      then (if in_run then underscore_aux True cs else CHR ''_'' # underscore_aux True cs)
      else c # underscore_aux False cs)"

definition underscore_runs :: "string \<Rightarrow> string" where
  "underscore_runs s = underscore_aux False s"

definition normalize_policy_feedback :: "pyval \<Rightarrow> string result" where
  "normalize_policy_feedback v =
     (case v of
        PStr s \<Rightarrow>
          (let raw = strip s; normalized = underscore_runs (py_lower raw)
           in if raw = [] then Inl (ValueError ''Feedback cannot be empty'')
              else if normalized \<in> {''approved'', ''approve'', ''y'', ''yes''} then Inr ''approved''
              else if normalized \<in> {''session'', ''approve_session'', ''session_approve''}
                then Inr ''session''
              else if normalized = ''always_approve'' then Inr ''always_approve''
              else if normalized = ''always_deny'' then Inr ''always_deny''
              else if startswith normalized ''rejected:'' then
                (let rsn = strip (after_first CHR '':'' raw)
                 in Inr (''rejected: '' @ (if rsn = [] then ''no reason provided'' else rsn)))
              else if normalized \<in> {''rejected'', ''reject'', ''n'', ''no''}
                then Inr ''rejected: no reason provided''
              else Inl (ValueError ''Unsupported policy feedback. Use 'approved', 'rejected: <reason>', 'session', 'always_approve', or 'always_deny'.''))
      | _ \<Rightarrow> Inl (ValueError ''Feedback must be a string''))"

section \<open>The local policy\<close>

datatype policy_mode = Manual | Smart | Off

record local_policy =
  rules :: pydict
  has_store :: bool
  mode :: policy_mode
  session_key :: "string option"

record 's policy_world =
  rule_store :: 's
  session_approved :: "string \<Rightarrow> string set option"

definition mode_of_str :: "string \<Rightarrow> policy_mode" where
  "mode_of_str m =
     (if m = ''manual'' then Manual else if m = ''smart'' then Smart
      else if m = ''off'' then Off else Manual)"

definition LocalPolicy :: "pydict \<Rightarrow> bool \<Rightarrow> string \<Rightarrow> string option \<Rightarrow> local_policy" where
  "LocalPolicy rs st m sk =
     \<lparr>rules = rs, has_store = st, mode = mode_of_str m, session_key = sk\<rparr>"

definition with_session :: "string option \<Rightarrow> local_policy \<Rightarrow> local_policy" where
  "with_session sk lp = lp\<lparr>session_key := sk\<rparr>"

definition approve_session :: "string \<Rightarrow> string \<Rightarrow> 's policy_world \<Rightarrow> 's policy_world" where
  "approve_session sk k w =
     w\<lparr>session_approved := (session_approved w)
         (sk \<mapsto> insert k (case session_approved w sk of None \<Rightarrow> {} | Some ks \<Rightarrow> ks))\<rparr>"

definition clear_session :: "string \<Rightarrow> 's policy_world \<Rightarrow> 's policy_world" where
  "clear_session sk w = w\<lparr>session_approved := (session_approved w)(sk := None)\<rparr>"

definition session_grants :: "'s policy_world \<Rightarrow> string option \<Rightarrow> string option \<Rightarrow> bool" where
  "session_grants w sk k =
     (case (sk, k) of
        (Some s, Some key) \<Rightarrow>
          (case session_approved w s of None \<Rightarrow> False | Some ks \<Rightarrow> key \<in> ks)
      | _ \<Rightarrow> False)"

text \<open>A store call whose exception is logged and dropped.\<close>

definition store_effect :: "('s \<Rightarrow> 's result) \<Rightarrow> 's policy_world \<Rightarrow> 's policy_world" where
  "store_effect f w =
     (case f (rule_store w) of Inl _ \<Rightarrow> w | Inr s' \<Rightarrow> w\<lparr>rule_store := s'\<rparr>)"

definition fetch_rule ::
  "'s permission_rule_store_ops \<Rightarrow> bool \<Rightarrow> string option \<Rightarrow> 's policy_world \<Rightarrow> permission_rule option" where
  "fetch_rule ops st key w =
     (case key of
        None \<Rightarrow> None
      | Some k \<Rightarrow> if st then (case store_get ops k (rule_store w) of Inl _ \<Rightarrow> None | Inr r \<Rightarrow> r)
                  else None)"

definition builtin_decision :: "action_proposal \<Rightarrow> policy_decision option" where
  "builtin_decision p =
     (if side_effect p = SE_write \<and> dict_get (arguments p) ''ref'' \<noteq> None then
        (let ref = py_str (the (dict_get (arguments p) ''ref''));
             md = (case dict_get (arguments p) ''mode'' of None \<Rightarrow> [] | Some v \<Rightarrow> py_str v);
             normalized_ref = lstrip_with (\<lambda>c. c = CHR ''/'') ref;
             is_log = (startswith normalized_ref ''AI/Logs/'' \<or>
                       startswith normalized_ref ''agentos/logs/'');
             is_brief = (startswith normalized_ref ''AI/Briefs/'' \<or>
                         startswith normalized_ref ''agentos/briefs/'')
         in if is_log \<and> md = ''append''
            then Some (mk_decision Allow ''builtin-logs'' ''Logs can be appended automatically'')
            else if is_brief \<and> (md = ''append'' \<or> md = ''create'')
            then Some (mk_decision Allow ''builtin-briefs''
                         ''Briefs can be appended/created automatically'')
            else None)
      else None)"

definition taxonomy_reason :: "action_proposal \<Rightarrow> string" where
  "taxonomy_reason p = ''Default taxonomy for '' @ side_effect_str (side_effect p)"

definition default_decision :: "action_proposal \<Rightarrow> policy_decision" where
  "default_decision p =
     mk_decision (if side_effect p = SE_read \<or> side_effect p = SE_none then Allow
                  else RequireApproval) ''default'' (taxonomy_reason p)"

definition local_evaluate ::
  "'s permission_rule_store_ops \<Rightarrow> int \<Rightarrow> local_policy \<Rightarrow> action_proposal \<Rightarrow> 's policy_world \<Rightarrow>
   policy_decision \<times> 's policy_world" where
  "local_evaluate ops now_ms lp p w =
     (if mode lp = Off then
        (mk_decision Allow ''mode-off'' ''Policy enforcement disabled (mode=off)'', w)
      else if derive_tier p = ''high'' then
        (mk_decision Deny ''default'' (taxonomy_reason p), w)
      else
        (let perm_key = derive_permission_key p;
             rule = fetch_rule ops (has_store lp) perm_key w
         in case (perm_key, rule) of
              (Some k, Some r) \<Rightarrow>
                if effect r = ''always_deny'' then
                  (mk_decision Deny ''learned'' ''always_deny'',
                   store_effect (store_increment_deny ops now_ms k) w)
                else if session_grants w (session_key lp) perm_key then
                  (mk_decision Allow ''session'' (''Session approval for '' @ k), w)
                else if effect r = ''always_approve'' then
                  (mk_decision Allow ''learned'' ''always_approve'',
                   store_effect (store_increment_approve ops now_ms k) w)
                else (case builtin_decision p of Some d \<Rightarrow> (d, w) | None \<Rightarrow> (default_decision p, w))
            | (Some k, None) \<Rightarrow>
                if session_grants w (session_key lp) perm_key then
                  (mk_decision Allow ''session'' (''Session approval for '' @ k), w)
                else (case builtin_decision p of Some d \<Rightarrow> (d, w) | None \<Rightarrow> (default_decision p, w))
            | (None, _) \<Rightarrow>
                (case builtin_decision p of Some d \<Rightarrow> (d, w) | None \<Rightarrow> (default_decision p, w))))"

section \<open>The composite engine\<close>

type_synonym 'w evaluator = "action_proposal \<Rightarrow> 'w \<Rightarrow> policy_decision result \<times> 'w"

definition local_evaluator ::
  "'s permission_rule_store_ops \<Rightarrow> int \<Rightarrow> local_policy \<Rightarrow> 's policy_world evaluator" where
  "local_evaluator ops now_ms lp p w = map_prod Inr id (local_evaluate ops now_ms lp p w)"

fun run_plugins ::
  "'w evaluator list \<Rightarrow> action_proposal \<Rightarrow> policy_decision \<Rightarrow> 'w \<Rightarrow> policy_decision \<times> 'w" where
  "run_plugins [] p base w = (base, w)"
| "run_plugins (plugin # ps) p base w =
     (case plugin p w of
        (Inl e, w') \<Rightarrow>
          (mk_decision Deny ''policy-plugin-error''
             (''Policy plugin evaluation failed: '' @ exn_message e), w')
      | (Inr d, w') \<Rightarrow>
          if decision d = Deny then
            (mk_decision Deny
               (if policy_id d = [] then ''policy-plugin-denied'' else policy_id d)
               (if reason d = [] then ''Denied by policy plugin'' else reason d), w')
          else run_plugins ps p base w')"

definition composite_evaluate ::
  "'w evaluator \<Rightarrow> 'w evaluator list \<Rightarrow> 'w evaluator" where
  "composite_evaluate base plugins p w =
     (if side_effect p = SE_payment \<or> side_effect p = SE_privileged then
        (Inr (mk_decision Deny ''default'' (taxonomy_reason p)), w)
      else
        (case base p w of
           (Inl e, w') \<Rightarrow> (Inl e, w')
         | (Inr d, w') \<Rightarrow>
             if decision d = Deny then (Inr d, w')
             else map_prod Inr id (run_plugins plugins p d w')))"

section \<open>Acting on a decision\<close>

record 'w policy_engine =
  evaluate :: "'w evaluator"
  engine_session_key :: "string option"
  engine_has_store :: bool

definition local_engine ::
  "'s permission_rule_store_ops \<Rightarrow> int \<Rightarrow> local_policy \<Rightarrow> 's policy_world policy_engine" where
  "local_engine ops now_ms lp =
     \<lparr>evaluate = local_evaluator ops now_ms lp, engine_session_key = session_key lp,
      engine_has_store = has_store lp\<rparr>"

text \<open>The properties \<open>session_key\<close> and \<open>store\<close> of the composite read the base policy's.\<close>

definition composite_engine ::
  "'w policy_engine \<Rightarrow> 'w evaluator list \<Rightarrow> 'w policy_engine" where
  "composite_engine base plugins =
     base\<lparr>evaluate := composite_evaluate (evaluate base) plugins\<rparr>"

record policy_env =
  now_ms :: int
  interrupt_reply :: "string \<Rightarrow> pyval"
  env_workspace_id :: "string option"
  context_principal_id :: "string option"
  local_principal_id :: string

definition POLICY_APPROVAL_PROMPT_PREFIX :: string where
  "POLICY_APPROVAL_PROMPT_PREFIX = ''Policy approval required:''"

definition approval_prompt :: "action_proposal \<Rightarrow> policy_decision \<Rightarrow> string" where
  "approval_prompt p d =
     POLICY_APPROVAL_PROMPT_PREFIX @ '' '' @ tool p @ '' with side_effect='' @
     side_effect_str (side_effect p) @ ''. Reason: '' @ reason d @ [CHR 0x0A] @
     ''Reply 'approved' once, 'rejected: <reason>', 'session', 'always_approve', or 'always_deny'.'' @
     (case derive_permission_key p of
        Some k \<Rightarrow> '' Remembered choices apply only to `'' @ k @ ''`.''
      | None \<Rightarrow> '' This action cannot safely be remembered; use one-time approval.'')"

definition taught_rule :: "policy_env \<Rightarrow> action_proposal \<Rightarrow> string \<Rightarrow> string \<Rightarrow> permission_rule" where
  "taught_rule env p k eff =
     \<lparr>permission_key = k, effect = eff, tier_at_creation = derive_tier p, approve_count = 0,
      deny_count = 0, rule_created_at = 0, rule_updated_at = 0,
      rule_workspace_id = env_workspace_id env,
      taught_by = Some (case context_principal_id env of
                          None \<Rightarrow> local_principal_id env | Some i \<Rightarrow> i)\<rparr>"

text \<open>\<open>execute_fn\<close> works on a state \<open>'x\<close> of its own: the connector, file or service it acts on.\<close>

type_synonym ('o, 'x) executor = "action_proposal \<Rightarrow> 'x \<Rightarrow> 'o execution_result result \<times> 'x"

definition handle_remembered ::
  "'s permission_rule_store_ops \<Rightarrow> policy_env \<Rightarrow> 's policy_world policy_engine \<Rightarrow> action_proposal \<Rightarrow>
   ('o, 'x) executor \<Rightarrow> string \<Rightarrow> 's policy_world \<Rightarrow> 'x \<Rightarrow>
   'o execution_result result \<times> 's policy_world \<times> 'x" where
  "handle_remembered ops env eng p execute_fn feedback w x =
     (if derive_tier p = ''high'' then
        (if feedback = ''always_approve'' then
           (let (r, x') = execute_fn p x in (r, w, x'))
         else (Inr (not_executed Cancelled
                 ''High-risk action rejected; remembered approvals are not allowed''), w, x))
      else (case derive_permission_key p of
        None \<Rightarrow> (Inr (not_executed Cancelled ''This action has no safely scoped remembered-permission key. Choose 'approved' for one-time approval.''), w, x)
      | Some k \<Rightarrow>
          if feedback = ''session'' then
            (case engine_session_key eng of
               None \<Rightarrow> (Inr (not_executed Cancelled ''Session approval is unavailable outside a request/session context. Choose 'approved' for one-time approval.''), w, x)
             | Some sk \<Rightarrow>
                 (let (r, x') = execute_fn p x in (r, approve_session sk k w, x')))
          else
            (let eff = (if feedback = ''always_approve'' then ''always_approve'' else ''always_deny'')
             in if \<not> engine_has_store eng then
                  (Inr (not_executed Cancelled ''Persistent approvals are unavailable because no permission store is configured. Choose 'approved' for one-time approval.''), w, x)
                else (case store_upsert ops (now_ms env) (taught_rule env p k eff) (rule_store w) of
                    Inl _ \<Rightarrow> (Inr (not_executed Cancelled ''Could not save the remembered permission. Choose 'approved' for one-time approval.''), w, x)
                  | Inr s' \<Rightarrow>
                      (let w' = w\<lparr>rule_store := s'\<rparr>
                       in if feedback = ''always_approve'' then
                            (let (r, x') = execute_fn p x in (r, w', x'))
                          else (Inr (not_executed Cancelled ''User rejected''), w', x))))))"

definition apply_policy ::
  "'s permission_rule_store_ops \<Rightarrow> policy_env \<Rightarrow> 's policy_world policy_engine \<Rightarrow> action_proposal \<Rightarrow>
   ('o, 'x) executor \<Rightarrow> 's policy_world \<Rightarrow> 'x \<Rightarrow>
   'o execution_result result \<times> 's policy_world \<times> 'x" where
  "apply_policy ops env eng p execute_fn w x =
     (case evaluate eng p w of
        (Inl e, w') \<Rightarrow> (Inl e, w', x)
      | (Inr d, w') \<Rightarrow>
         (case decision d of
            Allow \<Rightarrow> (let (r, x') = execute_fn p x in (r, w', x'))
          | RequireApproval \<Rightarrow>
              (case normalize_policy_feedback (interrupt_reply env (approval_prompt p d)) of
                 Inl e \<Rightarrow> (Inr (not_executed Cancelled (''Rejected: '' @ exn_message e)), w', x)
               | Inr feedback \<Rightarrow>
                   if feedback = ''approved'' then
                     (let (r, x') = execute_fn p x in (r, w', x'))
                   else if startswith feedback ''rejected'' then
                     (Inr (not_executed Cancelled feedback), w', x)
                   else handle_remembered ops env eng p execute_fn feedback w' x)
          | Deny \<Rightarrow>
              (Inr (not_executed Failed
                 (if reason d = [] then ''Action denied by policy'' else reason d)), w', x)))"

section \<open>Keys are collision-free\<close>

definition memory_key :: "string \<Rightarrow> string \<Rightarrow> string \<Rightarrow> string" where
  "memory_key c m r = ''memory_write:write:'' @ c @ '':'' @ m @ '':'' @ r"

lemma derive_permission_key_Some:
  "derive_permission_key p = Some k \<longleftrightarrow>
     tool p = ''memory.write'' \<and> side_effect p = SE_write \<and>
     (\<exists>c m r. connector p = Some c \<and> c \<noteq> [] \<and> list_all safe_connector_char c \<and>
        dict_get (arguments p) ''mode'' = Some (PStr m) \<and> m \<in> set MEMORY_WRITE_MODES \<and>
        dict_get (arguments p) ''ref'' = Some (PStr r) \<and> ref_part r \<and>
        k = memory_key c m r)"
proof -
  have conn: "permission_connector v = Some c \<longleftrightarrow>
      v = Some c \<and> c \<noteq> [] \<and> list_all safe_connector_char c" for v c
    unfolding permission_connector_def fullmatch_iff_lang lang_plus_cls
    by (auto split: option.splits if_splits)
  have ref: "permission_ref v = Some r \<longleftrightarrow> v = Some (PStr r) \<and> ref_part r" for v r
    by (auto simp: permission_ref_def ref_part_def ref_char_def list_all_iff list_ex_iff
        split: option.splits pyval.splits if_splits)
  have conn': "permission_connector (Some c) = Some c"
    if "c \<noteq> []" "list_all safe_connector_char c" for c using that conn by blast
  have ref': "permission_ref (Some (PStr r)) = Some r" if "ref_part r" for r
    using that ref by blast
  show ?thesis
    by (auto simp: derive_permission_key_def memory_key_def conn ref conn' ref'
        split: option.splits pyval.splits if_splits)
qed

lemma split_at_colon:
  assumes "a @ CHR '':'' # s = b @ CHR '':'' # t" "CHR '':'' \<notin> set a" "CHR '':'' \<notin> set b"
  shows "a = b \<and> s = t"
proof -
  have "takeWhile (\<lambda>c. c \<noteq> CHR '':'') (a @ CHR '':'' # s) =
        takeWhile (\<lambda>c. c \<noteq> CHR '':'') (b @ CHR '':'' # t)" using assms(1) by simp
  moreover have "takeWhile (\<lambda>c. c \<noteq> CHR '':'') (u @ CHR '':'' # v) = u"
    if "CHR '':'' \<notin> set u" for u v
    using that by (induction u) auto
  ultimately have "a = b" using assms(2,3) by simp
  with assms(1) show ?thesis by simp
qed

lemma safe_connector_no_colon: "list_all safe_connector_char c \<Longrightarrow> CHR '':'' \<notin> set c"
proof -
  have "\<not> safe_connector_char CHR '':''"
    by (simp add: safe_connector_char_def is_lower_def is_digit_def)
  then show "list_all safe_connector_char c \<Longrightarrow> CHR '':'' \<notin> set c"
    by (auto simp: list_all_iff)
qed

lemma memory_mode_no_colon: "m \<in> set MEMORY_WRITE_MODES \<Longrightarrow> CHR '':'' \<notin> set m"
  by (auto simp: MEMORY_WRITE_MODES_def)

lemma memory_key_inject:
  assumes "memory_key c m r = memory_key c' m' r'"
    and "list_all safe_connector_char c" "list_all safe_connector_char c'"
    and "m \<in> set MEMORY_WRITE_MODES" "m' \<in> set MEMORY_WRITE_MODES"
  shows "c = c' \<and> m = m' \<and> r = r'"
proof -
  from assms(1) have "c @ CHR '':'' # (m @ CHR '':'' # r) = c' @ CHR '':'' # (m' @ CHR '':'' # r')"
    by (simp add: memory_key_def)
  then have "c = c' \<and> m @ CHR '':'' # r = m' @ CHR '':'' # r'"
    by (rule split_at_colon) (use assms in \<open>simp_all add: safe_connector_no_colon\<close>)
  then show ?thesis
    using split_at_colon [of m r m' r'] assms(4,5) by (auto simp: memory_mode_no_colon)
qed

lemma memory_key_valid:
  assumes "c \<noteq> []" "list_all safe_connector_char c" "m \<in> set MEMORY_WRITE_MODES" "ref_part r"
  shows "valid_key (memory_key c m r)"
proof -
  have w: "word_char x" if "safe_connector_char x" for x
    using that by (auto simp: safe_connector_char_def word_char_def)
  have "word c" using assms(1,2) w by (auto simp: word_def list_all_iff)
  moreover have "word m" using assms(3)
    by (auto simp: MEMORY_WRITE_MODES_def word_def word_char_def is_lower_def)
  moreover have "word ''memory_write''" "word ''write''"
    by (simp_all add: word_def word_char_def is_lower_def)
  ultimately have "valid_key (''memory_write'' @ CHR '':'' # ''write'' @ CHR '':'' # c @
      CHR '':'' # m @ CHR '':'' # r)"
    using assms(4) by (intro valid_key_fiveI)
  then show ?thesis by (simp add: memory_key_def)
qed

lemma derive_key_valid: "derive_permission_key p = Some k \<Longrightarrow> valid_key k"
  unfolding derive_permission_key_Some using memory_key_valid by blast

text \<open>Two proposals that share a learned-rule key name the same connector, write mode and
  reference, and the key is one the rule stores accept. So a remembered answer can never cover a
  write to another place, and a derived key never makes the store raise.\<close>

theorem permission_key_scope:
  assumes "derive_permission_key p = Some k" "derive_permission_key q = Some k"
  shows "connector p = connector q \<and>
         dict_get (arguments p) ''mode'' = dict_get (arguments q) ''mode'' \<and>
         dict_get (arguments p) ''ref'' = dict_get (arguments q) ''ref'' \<and>
         side_effect p = side_effect q \<and> tool p = tool q \<and> valid_key k"
  using assms memory_key_inject memory_key_valid unfolding derive_permission_key_Some
  by (elim conjE exE) (metis option.inject)

theorem permission_key_scope_witness:
  "let p = \<lparr>tool = ''memory.write'', arguments = [(''ref'', PStr ''a.md''), (''mode'', PStr ''append'')],
            proposal_reason = [], side_effect = SE_write, connector = Some ''vault''\<rparr>
   in derive_permission_key p = Some ''memory_write:write:vault:append:a.md'' \<and>
      valid_key ''memory_write:write:vault:append:a.md''"
proof -
  let ?p = "\<lparr>tool = ''memory.write'', arguments = [(''ref'', PStr ''a.md''), (''mode'', PStr ''append'')],
            proposal_reason = [], side_effect = SE_write, connector = Some ''vault''\<rparr>"
  have k: "derive_permission_key ?p = Some ''memory_write:write:vault:append:a.md''"
    by (simp add: derive_permission_key_def permission_connector_def permission_ref_def
        safe_connector_char_def is_lower_def is_digit_def MEMORY_WRITE_MODES_def py_isspace_def)
  show ?thesis using k permission_key_scope [OF k k] by simp
qed

section \<open>What an evaluation can decide\<close>

lemma derive_tier_high:
  "derive_tier p = ''high'' \<longleftrightarrow> side_effect p = SE_payment \<or> side_effect p = SE_privileged"
  by (cases "side_effect p") (simp_all add: derive_tier_def)

lemma keyed_not_high: "derive_permission_key p = Some k \<Longrightarrow> derive_tier p \<noteq> ''high''"
  by (auto simp: derive_permission_key_Some derive_tier_high)

lemma builtin_decision_Some: "builtin_decision p = Some d \<Longrightarrow> decision d = Allow \<and>
   side_effect p = SE_write \<and> policy_id d \<in> {''builtin-logs'', ''builtin-briefs''}"
  by (auto simp: builtin_decision_def Let_def split: if_splits)

lemmas local_evaluate_splits =
  option.splits if_splits prod.splits

text \<open>What remains when no rule and no session grant decides: steps 4 and 5 of the source.\<close>

definition fallback :: "action_proposal \<Rightarrow> policy_decision" where
  "fallback p = (case builtin_decision p of Some d \<Rightarrow> d | None \<Rightarrow> default_decision p)"

lemma local_evaluate_eq:
  assumes "mode lp \<noteq> Off" "derive_tier p \<noteq> ''high''"
  shows "local_evaluate ops t lp p w =
     (case derive_permission_key p of
        None \<Rightarrow> (fallback p, w)
      | Some k \<Rightarrow>
         (case map_option effect (fetch_rule ops (has_store lp) (Some k) w) of
            Some e \<Rightarrow>
              if e = ''always_deny'' then (mk_decision Deny ''learned'' ''always_deny'',
                   store_effect (store_increment_deny ops t k) w)
              else if session_grants w (session_key lp) (Some k) then
                (mk_decision Allow ''session'' (''Session approval for '' @ k), w)
              else if e = ''always_approve'' then (mk_decision Allow ''learned'' ''always_approve'',
                   store_effect (store_increment_approve ops t k) w)
              else (fallback p, w)
          | None \<Rightarrow>
              if session_grants w (session_key lp) (Some k) then
                (mk_decision Allow ''session'' (''Session approval for '' @ k), w)
              else (fallback p, w)))"
  using assms by (auto simp: local_evaluate_def fallback_def Let_def split: option.splits)

lemma local_evaluate_high:
  "mode lp \<noteq> Off \<Longrightarrow> derive_tier p = ''high'' \<Longrightarrow>
   local_evaluate ops t lp p w = (mk_decision Deny ''default'' (taxonomy_reason p), w)"
  by (simp add: local_evaluate_def)

lemma fallback_cases:
  "decision (fallback p) = Allow \<and> policy_id (fallback p) \<in> {''builtin-logs'', ''builtin-briefs''} \<or>
   fallback p = default_decision p"
  by (auto simp: fallback_def dest: builtin_decision_Some split: option.splits)

lemma fallback_decision: "decision (fallback p) \<noteq> Deny"
  by (auto simp: fallback_def default_decision_def dest: builtin_decision_Some split: option.splits)

lemma require_approval_is_pure':
  assumes "local_evaluate ops t lp p w = (d, w')" "decision d = RequireApproval"
  shows "w' = w"
proof (cases "mode lp = Off \<or> derive_tier p = ''high''")
  case True
  with assms show ?thesis by (auto simp: local_evaluate_def split: if_splits)
next
  case False
  with assms show ?thesis
    by (auto simp: local_evaluate_eq split: local_evaluate_splits)
qed

text \<open>An evaluation that asks for approval has changed nothing, so that running the node again
  when the graph resumes evaluates the same question in the same world.\<close>

theorem require_approval_is_pure:
  assumes "local_evaluate ops t lp p w = (d, w')" "decision d = RequireApproval"
  shows "w' = w"
  using assms by (rule require_approval_is_pure')

theorem require_approval_is_pure_witness:
  "local_evaluate sqlite_ops 0 (LocalPolicy [] True ''manual'' None)
     \<lparr>tool = ''http.get'', arguments = [], proposal_reason = [], side_effect = SE_network,
      connector = None\<rparr> \<lparr>rule_store = [], session_approved = Map.empty\<rparr> =
   (mk_decision RequireApproval ''default'' ''Default taxonomy for network'',
    \<lparr>rule_store = [], session_approved = Map.empty\<rparr>)"
proof -
  let ?p = "\<lparr>tool = ''http.get'', arguments = [], proposal_reason = [], side_effect = SE_network,
      connector = None\<rparr>"
  let ?w = "\<lparr>rule_store = [], session_approved = Map.empty\<rparr> :: rules_table policy_world"
  obtain d w' where e: "local_evaluate sqlite_ops 0 (LocalPolicy [] True ''manual'' None) ?p ?w = (d, w')"
    by fastforce
  then have d: "d = mk_decision RequireApproval ''default'' ''Default taxonomy for network''"
    by (auto simp: local_evaluate_def LocalPolicy_def mode_of_str_def derive_tier_def
        derive_permission_key_def builtin_decision_def default_decision_def taxonomy_reason_def)
  then have "w' = ?w" using require_approval_is_pure [OF e] by simp
  with e d show ?thesis by simp
qed

text \<open>C9: with the built-in taxonomy in force, an evaluation allows a proposal only if it is a
  read, an automatic log or brief write, or covered by a session grant or a learned approval of
  exactly its key; a payment or a privileged action is never allowed.\<close>

theorem local_allow_sound:
  assumes "mode lp \<noteq> Off" "local_evaluate ops t lp p w = (d, w')" "decision d = Allow"
  shows "derive_tier p \<noteq> ''high'' \<and>
     (side_effect p \<in> {SE_read, SE_none} \<or>
      builtin_decision p = Some d \<or>
      (\<exists>k. derive_permission_key p = Some k \<and>
         map_option effect (fetch_rule ops (has_store lp) (Some k) w) \<noteq> Some ''always_deny'' \<and>
         (session_grants w (session_key lp) (Some k) \<or>
          map_option effect (fetch_rule ops (has_store lp) (Some k) w) = Some ''always_approve'')))"
proof (cases "derive_tier p = ''high''")
  case True
  with assms show ?thesis by (auto simp: local_evaluate_def)
next
  case False
  have fb: "side_effect p \<in> {SE_read, SE_none} \<or> builtin_decision p = Some d"
    if "d = fallback p"
    using that assms(3)
    by (auto simp: fallback_def default_decision_def split: option.splits if_splits)
  from assms False fb show ?thesis
    by (auto simp: local_evaluate_eq split: local_evaluate_splits)
qed

theorem local_allow_sound_witness:
  "derive_tier \<lparr>tool = ''read_file'', arguments = [], proposal_reason = [], side_effect = SE_read,
      connector = None\<rparr> \<noteq> ''high''"
proof -
  let ?p = "\<lparr>tool = ''read_file'', arguments = [], proposal_reason = [], side_effect = SE_read,
      connector = None\<rparr>"
  let ?w = "\<lparr>rule_store = [], session_approved = Map.empty\<rparr> :: rules_table policy_world"
  let ?lp = "LocalPolicy [] True ''manual'' None"
  have m: "mode ?lp \<noteq> Off" by (simp add: LocalPolicy_def mode_of_str_def)
  have e: "local_evaluate sqlite_ops 0 ?lp ?p ?w =
      (mk_decision Allow ''default'' ''Default taxonomy for read'', ?w)"
    by (simp add: local_evaluate_def LocalPolicy_def mode_of_str_def derive_tier_def
        derive_permission_key_def builtin_decision_def default_decision_def taxonomy_reason_def)
  show ?thesis using local_allow_sound [OF m e] by simp
qed

text \<open>A rule store that cannot be read grants nothing: the evaluation is the one of a policy
  without a store.\<close>

theorem broken_store_grants_nothing:
  assumes "\<And>k. \<exists>e. store_get ops k (rule_store w) = Inl e"
  shows "local_evaluate ops t lp p w = local_evaluate ops t (lp\<lparr>has_store := False\<rparr>) p w"
proof -
  have "fetch_rule ops st k w = None" for st k
    using assms by (auto simp: fetch_rule_def split: option.splits) (metis sum.simps(5))
  then show ?thesis by (simp add: local_evaluate_def Let_def split: option.splits)
qed

theorem broken_store_grants_nothing_witness:
  "let ops = sqlite_ops\<lparr>store_get := \<lambda>k s. Inl (OtherError ''disk I/O error'')\<rparr>;
       p = \<lparr>tool = ''memory.write'', arguments = [(''ref'', PStr ''a''), (''mode'', PStr ''append'')],
            proposal_reason = [], side_effect = SE_write, connector = Some ''vault''\<rparr>;
       w = \<lparr>rule_store = [], session_approved = Map.empty\<rparr>
   in local_evaluate ops 0 (LocalPolicy [] True ''manual'' None) p w =
      local_evaluate ops 0 ((LocalPolicy [] True ''manual'' None)\<lparr>has_store := False\<rparr>) p w"
  unfolding Let_def by (rule broken_store_grants_nothing) simp

section \<open>Plugins only restrict\<close>

lemma run_plugins_result:
  "run_plugins ps p base w = (d, w') \<Longrightarrow> decision d \<noteq> Deny \<Longrightarrow>
   d = base \<and> (\<forall>plugin\<in>set ps. \<exists>v v' dp. plugin p v = (Inr dp, v') \<and> decision dp \<noteq> Deny)"
proof (induction ps p base w rule: run_plugins.induct)
  case (2 plugin ps p base w)
  obtain res v' where step: "plugin p w = (res, v')" by fastforce
  then show ?case
    using 2 by (cases res) (auto split: if_splits)
qed simp

text \<open>C8: a composite decision other than a denial is the built-in policy's own decision, taken
  after every plugin has answered without denying; a plugin that raises denies. So no plugin turns
  a denial into anything else, nor a question into an approval.\<close>

theorem composite_only_restricts:
  assumes "composite_evaluate base plugins p w = (Inr d, w')" "decision d \<noteq> Deny"
  shows "(\<exists>w1. base p w = (Inr d, w1)) \<and>
         side_effect p \<noteq> SE_payment \<and> side_effect p \<noteq> SE_privileged \<and>
         (\<forall>plugin\<in>set plugins. \<exists>v v' dp. plugin p v = (Inr dp, v') \<and> decision dp \<noteq> Deny)"
proof (cases "side_effect p = SE_payment \<or> side_effect p = SE_privileged")
  case True
  with assms show ?thesis by (auto simp: composite_evaluate_def)
next
  case False
  with assms obtain b w1 where base: "base p w = (Inr b, w1)" "decision b \<noteq> Deny"
    by (cases "base p w"; cases "fst (base p w)")
       (auto simp: composite_evaluate_def split: if_splits)
  with False assms(1) have "run_plugins plugins p b w1 = (d, w')"
    by (cases "run_plugins plugins p b w1") (auto simp: composite_evaluate_def)
  from run_plugins_result [OF this assms(2)] base False show ?thesis by auto
qed

theorem composite_only_restricts_witness:
  "let p = \<lparr>tool = ''read_file'', arguments = [], proposal_reason = [], side_effect = SE_read,
            connector = None\<rparr>;
       allow_all = (\<lambda>p (w::unit). (Inr (mk_decision Allow ''plugin'' []), w))
   in \<exists>w1. allow_all p () = (Inr (mk_decision Allow ''plugin'' []), w1)"
proof -
  let ?p = "\<lparr>tool = ''read_file'', arguments = [], proposal_reason = [], side_effect = SE_read,
      connector = None\<rparr>"
  let ?a = "\<lambda>p (w::unit). (Inr (mk_decision Allow ''plugin'' []) :: policy_decision result, w)"
  have e: "composite_evaluate ?a [?a] ?p () = (Inr (mk_decision Allow ''plugin'' []), ())"
    by (simp add: composite_evaluate_def)
  show ?thesis using composite_only_restricts [OF e] by simp
qed

section \<open>Only an authorised proposal is executed\<close>

definition approving :: "string \<Rightarrow> bool" where
  "approving f = (f = ''approved'' \<or> f = ''session'' \<or> f = ''always_approve'')"

definition authorised ::
  "policy_env \<Rightarrow> 'w policy_engine \<Rightarrow> action_proposal \<Rightarrow> 'w \<Rightarrow> bool" where
  "authorised env eng p w =
     (case evaluate eng p w of
        (Inl e, _) \<Rightarrow> False
      | (Inr d, _) \<Rightarrow>
          (case decision d of
             Allow \<Rightarrow> True
           | Deny \<Rightarrow> False
           | RequireApproval \<Rightarrow>
               (case normalize_policy_feedback (interrupt_reply env (approval_prompt p d)) of
                  Inl _ \<Rightarrow> False | Inr f \<Rightarrow> approving f)))"

definition executed_as ::
  "('o, 'x) executor \<Rightarrow> action_proposal \<Rightarrow> 'x \<Rightarrow> 'o execution_result result \<times> 'w \<times> 'x \<Rightarrow> bool" where
  "executed_as ex p x out = ((fst out, snd (snd out)) = ex p x)"

definition withheld :: "'x \<Rightarrow> 'o execution_result result \<times> 'w \<times> 'x \<Rightarrow> bool" where
  "withheld x out =
     (snd (snd out) = x \<and>
      (\<forall>r. fst out = Inr r \<longrightarrow> status r \<in> {Failed, Cancelled} \<and> errors r \<noteq> []))"

lemma handle_remembered_outcome:
  assumes "\<not> startswith f ''rejected''" "f \<noteq> ''approved''"
  shows "approving f \<and> executed_as ex p x (handle_remembered ops env eng p ex f w x) \<or>
         withheld x (handle_remembered ops env eng p ex f w x)"
  by (auto simp: handle_remembered_def approving_def executed_as_def withheld_def Let_def
      case_prod_beta split: option.splits sum.splits)

lemma apply_policy_cases:
  "authorised env eng p w \<and> executed_as ex p x (apply_policy ops env eng p ex w x) \<or>
   withheld x (apply_policy ops env eng p ex w x)"
proof -
  obtain res w1 where ev: "evaluate eng p w = (res, w1)" by fastforce
  show ?thesis
  proof (cases res)
    case (Inl e)
    with ev show ?thesis by (simp add: apply_policy_def withheld_def)
  next
    case (Inr d)
    show ?thesis
    proof (cases "decision d")
      case RequireApproval
      show ?thesis
      proof (cases "normalize_policy_feedback (interrupt_reply env (approval_prompt p d))")
        case (Inr f)
        then show ?thesis
          using ev \<open>res = Inr d\<close> RequireApproval
            handle_remembered_outcome [of f ex p x ops env eng w1]
          by (auto simp: apply_policy_def authorised_def executed_as_def withheld_def Let_def
              case_prod_beta approving_def)
      qed (use ev \<open>res = Inr d\<close> RequireApproval in
           \<open>simp add: apply_policy_def withheld_def\<close>)
    qed (use ev \<open>res = Inr d\<close> in
         \<open>auto simp: apply_policy_def authorised_def executed_as_def withheld_def Let_def
            case_prod_beta\<close>)
  qed
qed

text \<open>C3: whatever engine, store, human answer and executor: the executor runs (once, on the
  state it was given, and its result is the result) only for a proposal the policy allowed or a
  human approved; in every other case its state is untouched and the result is a failure or a
  cancellation with a diagnostic.\<close>

theorem apply_policy_outcome:
  "authorised env eng p w \<and> executed_as ex p x (apply_policy ops env eng p ex w x) \<or>
   withheld x (apply_policy ops env eng p ex w x)"
  by (rule apply_policy_cases)

text \<open>C2: a payment or a privileged action never runs through a composite engine: not with the
  base policy in mode off, not with a plugin or a human who approves, not with any stored rule.\<close>

theorem composite_high_tier_floor:
  assumes "derive_tier p = ''high''"
  shows "apply_policy ops env (composite_engine base plugins) p ex w x =
           (Inr (not_executed Failed (taxonomy_reason p)), w, x)"
  using assms
  by (simp add: derive_tier_high apply_policy_def composite_engine_def composite_evaluate_def
      taxonomy_reason_def)

theorem composite_high_tier_floor_witness:
  "let p = \<lparr>tool = ''pay'', arguments = [], proposal_reason = [], side_effect = SE_payment,
            connector = None\<rparr>;
       env = \<lparr>now_ms = 0, interrupt_reply = (\<lambda>_. PStr ''approved''), env_workspace_id = None,
              context_principal_id = None, local_principal_id = ''local:me''\<rparr>;
       off = local_engine sqlite_ops 0 (LocalPolicy [] True ''off'' None);
       ex = (\<lambda>p (n::int). (Inr \<lparr>status = Completed, outputs = [], artifacts = [], errors = []\<rparr>
               :: string execution_result result, n + 1));
       w = \<lparr>rule_store = [], session_approved = Map.empty\<rparr>
   in apply_policy sqlite_ops env (composite_engine off []) p ex w 0 =
        (Inr (not_executed Failed ''Default taxonomy for payment''), w, 0) \<and>
      snd (snd (apply_policy sqlite_ops env off p ex w 0)) = 1"
proof -
  have tier: "derive_tier \<lparr>tool = ''pay'', arguments = [], proposal_reason = [],
      side_effect = SE_payment, connector = None\<rparr> = ''high''" by (simp add: derive_tier_def)
  show ?thesis unfolding Let_def
    by (simp add: composite_high_tier_floor [OF tier] taxonomy_reason_def)
       (simp add: apply_policy_def local_engine_def local_evaluator_def local_evaluate_def
         LocalPolicy_def mode_of_str_def)
qed

section \<open>What a human teaches\<close>

lemma asks_human:
  assumes "evaluate eng p w = (Inr d, w1)" "decision d = RequireApproval"
    and "normalize_policy_feedback (interrupt_reply env (approval_prompt p d)) = Inr f"
    and "f \<noteq> ''approved''" "\<not> startswith f ''rejected''"
  shows "apply_policy ops env eng p ex w x = handle_remembered ops env eng p ex f w1 x"
  using assms by (simp add: apply_policy_def)

context permission_rule_store
begin

lemma fetch_rule_eq:
  "invar (rule_store w) \<Longrightarrow> valid_key k \<Longrightarrow> fetch_rule ops True (Some k) w = rules_of (rule_store w) k"
  by (simp add: fetch_rule_def get_spec)

lemma learned_decides:
  assumes "invar (rule_store w)" "rules_of (rule_store w) k = Some r"
    and "derive_permission_key q = Some k" "mode lp \<noteq> Off" "has_store lp"
  shows "(effect r = ''always_deny'' \<longrightarrow>
            fst (local_evaluate ops t lp q w) = mk_decision Deny ''learned'' ''always_deny'') \<and>
         (effect r = ''always_approve'' \<longrightarrow> decision (fst (local_evaluate ops t lp q w)) = Allow)"
proof -
  have v: "valid_key k" using assms(3) by (rule derive_key_valid)
  show ?thesis
    using assms keyed_not_high [OF assms(3)]
    by (auto simp: local_evaluate_eq fetch_rule_eq [OF assms(1) v])
qed

text \<open>Saving a taught rule succeeds and leaves the rule to be found under its key.\<close>

lemma teach_saves:
  assumes "invar (rule_store w)" "derive_permission_key p = Some k" "engine_has_store eng"
    and "f = ''always_approve'' \<or> f = ''always_deny''"
  shows "\<exists>res w' x' r. handle_remembered ops env eng p ex f w x = (res, w', x') \<and>
           invar (rule_store w') \<and> rules_of (rule_store w') k = Some r \<and> effect r = f"
proof -
  have v: "valid_key k" using assms(2) by (rule derive_key_valid)
  let ?rule = "taught_rule env p k f"
  have key: "permission_key ?rule = k" "effect ?rule = f" by (simp_all add: taught_rule_def)
  with v upsert_spec [OF assms(1), of ?rule "now_ms env"]
  obtain s' where s': "store_upsert ops (now_ms env) ?rule (rule_store w) = Inr s'" "invar s'"
      "rules_of s' = spec_upsert (now_ms env) ?rule (rules_of (rule_store w))" by auto
  have "\<exists>r. rules_of s' k = Some r \<and> effect r = f"
    using key by (auto simp: s'(3) spec_upsert_def split: option.splits)
  then show ?thesis
    using assms s'(1,2) keyed_not_high [OF assms(2)]
    by (auto simp: handle_remembered_def Let_def case_prod_beta)
qed

lemma teach_then_evaluate:
  assumes "invar (rule_store w)" "derive_permission_key p = Some k"
    and "mode lp \<noteq> Off" "has_store lp"
    and "local_evaluate ops t lp p w = (d, w1)" "decision d = RequireApproval"
    and "normalize_policy_feedback (interrupt_reply env (approval_prompt p d)) = Inr f"
    and "f = ''always_approve'' \<or> f = ''always_deny''"
    and "derive_permission_key q = Some k" "mode lq \<noteq> Off" "has_store lq"
  shows "\<exists>res w' x'. apply_policy ops env (local_engine ops t lp) p ex w x = (res, w', x') \<and>
           decision (fst (local_evaluate ops t' lq q w')) =
             (if f = ''always_approve'' then Allow else Deny)"
proof -
  let ?eng = "local_engine ops t lp"
  have w1: "w1 = w" using require_approval_is_pure' [OF assms(5,6)] .
  have "startswith f ''rejected'' = False" "f \<noteq> ''approved''"
    using assms(8) by (auto simp: startswith_def)
  then have ap: "apply_policy ops env ?eng p ex w x = handle_remembered ops env ?eng p ex f w x"
    using asks_human [of ?eng p w d w1 env f ops ex x] assms(5-7) w1
    by (simp add: local_engine_def local_evaluator_def)
  have "engine_has_store ?eng" using assms(4) by (simp add: local_engine_def)
  from teach_saves [OF assms(1,2) this assms(8), of env ex x] obtain res w' x' r where
    out: "handle_remembered ops env ?eng p ex f w x = (res, w', x')" and
    inv: "invar (rule_store w')" and r: "rules_of (rule_store w') k = Some r" "effect r = f"
    by blast
  from learned_decides [OF inv r(1) assms(9-11), of t'] r(2) assms(8) ap out show ?thesis
    by auto
qed

end

text \<open>C5: an \<open>always_approve\<close> or \<open>always_deny\<close> answer is remembered: after it, every
  evaluation of a proposal with the same key, in any session and through any policy object over
  that SQLite store, allows or denies accordingly.\<close>

theorem taught_rule_is_obeyed:
  assumes "rules_table_inv (rule_store w)" "derive_permission_key p = Some k"
    and "mode lp \<noteq> Off" "has_store lp"
    and "local_evaluate sqlite_ops t lp p w = (d, w1)" "decision d = RequireApproval"
    and "normalize_policy_feedback (interrupt_reply env (approval_prompt p d)) = Inr f"
    and "f = ''always_approve'' \<or> f = ''always_deny''"
    and "derive_permission_key q = Some k" "mode lq \<noteq> Off" "has_store lq"
  shows "\<exists>res w' x'.
           apply_policy sqlite_ops env (local_engine sqlite_ops t lp) p ex w x = (res, w', x') \<and>
           decision (fst (local_evaluate sqlite_ops t' lq q w')) =
             (if f = ''always_approve'' then Allow else Deny)"
  using assms by (rule sqlite_store.teach_then_evaluate)

text \<open>C4: a learned denial outranks a session grant, whatever the session has approved, and is
  counted: the rule's denial counter goes up by one and nothing else of the store changes.\<close>

theorem learned_deny_beats_session:
  assumes "rules_table_inv (rule_store w)" "lookup permission_key k (rule_store w) = Some r"
    and "effect r = ''always_deny''" "derive_permission_key p = Some k"
    and "mode lp \<noteq> Off" "has_store lp"
  shows "local_evaluate sqlite_ops t lp p (approve_session sk k w) =
           (mk_decision Deny ''learned'' ''always_deny'',
            (approve_session sk k w)\<lparr>rule_store :=
               update_where (\<lambda>r. permission_key r = k) (bump_deny t) (rule_store w)\<rparr>)"
proof -
  let ?w = "approve_session sk k w"
  have v: "valid_key k" using assms(4) by (rule derive_key_valid)
  have st: "rule_store ?w = rule_store w" by (simp add: approve_session_def)
  have "fetch_rule sqlite_ops True (Some k) ?w = Some r"
    using sqlite_store.fetch_rule_eq [of ?w k] v assms(1,2) by (simp add: st)
  moreover have "store_increment_deny sqlite_ops t k (rule_store ?w) =
      Inr (update_where (\<lambda>r. permission_key r = k) (bump_deny t) (rule_store w))"
    using v by (simp add: sqlite_ops_def sqlite_increment_deny_def validate_key_def st
        bump_deny_def [abs_def])
  ultimately show ?thesis
    using assms keyed_not_high [OF assms(4)] by (simp add: local_evaluate_eq store_effect_def)
qed

text \<open>A write to one note, a world without rules, and a human with one answer: the inputs of the
  witnesses below.\<close>

definition sample_write :: action_proposal where
  "sample_write = \<lparr>tool = ''memory.write'',
     arguments = [(''ref'', PStr ''a.md''), (''mode'', PStr ''append'')],
     proposal_reason = [], side_effect = SE_write, connector = Some ''vault''\<rparr>"

definition sample_world :: "rules_table policy_world" where
  "sample_world = \<lparr>rule_store = [], session_approved = Map.empty\<rparr>"

definition sample_env :: "string \<Rightarrow> policy_env" where
  "sample_env answer = \<lparr>now_ms = 7, interrupt_reply = (\<lambda>_. PStr answer), env_workspace_id = None,
     context_principal_id = None, local_principal_id = ''local:me''\<rparr>"

definition sample_policy :: "string option \<Rightarrow> local_policy" where
  "sample_policy sk = LocalPolicy [] True ''manual'' sk"

definition sample_key :: string where
  "sample_key = ''memory_write:write:vault:append:a.md''"

lemma sample_write_key: "derive_permission_key sample_write = Some sample_key"
  by (simp add: sample_write_def sample_key_def derive_permission_key_def permission_connector_def
      permission_ref_def safe_connector_char_def is_lower_def is_digit_def MEMORY_WRITE_MODES_def
      py_isspace_def)

lemma sample_policy_sel [simp]:
  "mode (sample_policy sk) \<noteq> Off" "has_store (sample_policy sk)" "session_key (sample_policy sk) = sk"
  by (simp_all add: sample_policy_def LocalPolicy_def mode_of_str_def)

lemma sample_fallback:
  "fallback sample_write = mk_decision RequireApproval ''default'' ''Default taxonomy for write''"
  by (simp add: fallback_def builtin_decision_def default_decision_def taxonomy_reason_def
      sample_write_def lstrip_with_def startswith_def)

lemma sample_evaluation:
  "local_evaluate sqlite_ops 5 (sample_policy None) sample_write sample_world =
     (mk_decision RequireApproval ''default'' ''Default taxonomy for write'', sample_world)"
  using keyed_not_high [OF sample_write_key] derive_key_valid [OF sample_write_key]
  by (simp add: local_evaluate_eq sample_write_key sample_fallback fetch_rule_def sqlite_ops_def
      sqlite_get_def validate_key_def sample_world_def session_grants_def)

lemma sample_answer:
  "normalize_policy_feedback (interrupt_reply (sample_env ''Always approve'') m) = Inr ''always_approve''"
  by (simp add: sample_env_def normalize_policy_feedback_def strip_def py_lower_def lower_char_def
      py_isspace_def underscore_runs_def Let_def char_of_eq_iff)

theorem taught_rule_is_obeyed_witness:
  "\<exists>res w' x'. apply_policy sqlite_ops (sample_env ''Always approve'')
       (local_engine sqlite_ops 5 (sample_policy None)) sample_write
       (\<lambda>p (n::nat). (Inr \<lparr>status = Completed, outputs = [], artifacts = [], errors = []\<rparr>
          :: string execution_result result, Suc n)) sample_world 0 = (res, w', x') \<and>
     decision (fst (local_evaluate sqlite_ops 9 (sample_policy (Some ''run-2'')) sample_write w')) = Allow"
proof -
  have inv: "rules_table_inv (rule_store sample_world)"
    by (simp add: rules_table_inv_def sample_world_def)
  show ?thesis
    using taught_rule_is_obeyed [OF inv sample_write_key _ _ sample_evaluation _ sample_answer _
        sample_write_key, of "sample_policy (Some ''run-2'')" _ 0 9]
    by simp
qed

theorem learned_deny_beats_session_witness:
  "let r = taught_rule (sample_env []) sample_write sample_key ''always_deny'';
       w = sample_world\<lparr>rule_store := [r]\<rparr>
   in decision (fst (local_evaluate sqlite_ops 9 (sample_policy (Some ''run-2'')) sample_write
        (approve_session ''run-2'' sample_key w))) = Deny"
proof -
  let ?r = "taught_rule (sample_env []) sample_write sample_key ''always_deny''"
  let ?w = "sample_world\<lparr>rule_store := [?r]\<rparr>"
  have "rules_table_inv (rule_store ?w)" by (simp add: rules_table_inv_def unique_key_def)
  moreover have "lookup permission_key sample_key (rule_store ?w) = Some ?r"
    by (simp add: lookup_Cons taught_rule_def)
  moreover have "effect ?r = ''always_deny''" by (simp add: taught_rule_def)
  ultimately show ?thesis
    using learned_deny_beats_session [of ?w sample_key ?r sample_write
        "sample_policy (Some ''run-2'')" 9 "''run-2''"] sample_write_key
    by (simp add: Let_def)
qed

section \<open>Session grants\<close>

lemma fetch_rule_session [simp]:
  "fetch_rule ops st k (approve_session sk k' w) = fetch_rule ops st k w"
  "fetch_rule ops st k (clear_session sk w) = fetch_rule ops st k w"
  by (simp_all add: fetch_rule_def approve_session_def clear_session_def split: option.splits)

lemma session_grants_simps [simp]:
  "session_grants (approve_session sk k w) (Some sk) (Some k)"
  "sk' \<noteq> sk \<Longrightarrow> session_grants (approve_session sk k w) (Some sk') j = session_grants w (Some sk') j"
  "\<not> session_grants (clear_session sk w) (Some sk) j"
  "\<not> session_grants w None j"
  by (simp_all add: session_grants_def approve_session_def clear_session_def split: option.splits)

lemma session_key_update [simp]:
  "mode (with_session sk lp) = mode lp" "has_store (with_session sk lp) = has_store lp"
  "session_key (with_session sk lp) = sk"
  by (simp_all add: with_session_def)

text \<open>A session grant takes effect in its own session, leaves every other session's decisions
  as they were, and is gone once the session is cleared: then the session decides as a policy that
  has no session at all.\<close>

theorem session_grant_scope:
  assumes "derive_permission_key p = Some k" "mode lp \<noteq> Off"
    and "map_option effect (fetch_rule ops (has_store lp) (Some k) w) \<noteq> Some ''always_deny''"
    and "sk' \<noteq> sk"
  shows "fst (local_evaluate ops t (with_session (Some sk) lp) p (approve_session sk k w)) =
           mk_decision Allow ''session'' (''Session approval for '' @ k) \<and>
         fst (local_evaluate ops t (with_session (Some sk') lp) q (approve_session sk k w)) =
           fst (local_evaluate ops t (with_session (Some sk') lp) q w) \<and>
         fst (local_evaluate ops t (with_session (Some sk) lp) q
                (clear_session sk (approve_session sk k w))) =
           fst (local_evaluate ops t (with_session None lp) q w)"
proof (intro conjI)
  show "fst (local_evaluate ops t (with_session (Some sk) lp) p (approve_session sk k w)) =
      mk_decision Allow ''session'' (''Session approval for '' @ k)"
    using assms keyed_not_high [OF assms(1)]
    by (auto simp: local_evaluate_eq split: option.splits)
next
  show "fst (local_evaluate ops t (with_session (Some sk') lp) q (approve_session sk k w)) =
      fst (local_evaluate ops t (with_session (Some sk') lp) q w)"
    using assms(2,4)
    by (cases "derive_tier q = ''high''")
       (auto simp: local_evaluate_high local_evaluate_eq split: option.splits)
next
  show "fst (local_evaluate ops t (with_session (Some sk) lp) q
        (clear_session sk (approve_session sk k w))) =
      fst (local_evaluate ops t (with_session None lp) q w)"
    using assms(2)
    by (cases "derive_tier q = ''high''")
       (auto simp: local_evaluate_high local_evaluate_eq split: option.splits)
qed

theorem session_grant_scope_witness:
  "fst (local_evaluate sqlite_ops 9 (with_session (Some ''run-1'') (sample_policy None)) sample_write
      (approve_session ''run-1'' sample_key sample_world)) =
   mk_decision Allow ''session'' (''Session approval for '' @ sample_key)"
proof -
  have "map_option effect (fetch_rule sqlite_ops (has_store (sample_policy None)) (Some sample_key)
      sample_world) \<noteq> Some ''always_deny''"
    using derive_key_valid [OF sample_write_key]
    by (simp add: fetch_rule_def sqlite_ops_def sqlite_get_def validate_key_def sample_world_def)
  then show ?thesis
    using session_grant_scope [OF sample_write_key, of "sample_policy None" sqlite_ops sample_world
        "''run-2''" "''run-1''" 9] by simp
qed

section \<open>Feedback is normalised once and for all\<close>

lemma strip_append_nonspace:
  assumes "\<not> py_isspace c" "strip r = r" "r \<noteq> []"
  shows "strip (c # s @ r) = c # s @ r"
proof -
  have l: "\<not> py_isspace (last r)" using strip_ends [of r] assms(2,3) by auto
  have "dropWhile py_isspace (rev (c # s @ r)) = rev (c # s @ r)"
    using l assms(3) by (intro dropWhile_idem_hd) (simp add: hd_append hd_rev)
  then show ?thesis using assms(1) unfolding strip_def by simp
qed

lemma strip_space: "strip (CHR '' '' # r) = strip r"
  by (simp add: strip_def py_isspace_def)

lemma normalize_rejected:
  assumes "strip r = r" "r \<noteq> []"
  shows "normalize_policy_feedback (PStr (''rejected: '' @ r)) = Inr (''rejected: '' @ r)"
proof -
  let ?f = "''rejected: '' @ r"
  have "\<not> py_isspace CHR ''r''" by (simp add: py_isspace_def)
  from strip_append_nonspace [OF this assms, of "''ejected: ''"] have s: "strip ?f = ?f" by simp
  have u: "underscore_runs (py_lower ?f) = ''rejected:_'' @ underscore_aux True (py_lower r)"
    by (simp add: underscore_runs_def py_lower_def lower_char_def py_isspace_def)
  have a: "strip (after_first CHR '':'' ?f) = r"
    using assms by (simp add: after_first_def strip_space)
  show ?thesis
    unfolding normalize_policy_feedback_def pyval.case Let_def s u a
    using assms by (simp add: startswith_def)
qed

definition normal_feedback :: "string \<Rightarrow> bool" where
  "normal_feedback f =
     (f = ''approved'' \<or> f = ''session'' \<or> f = ''always_approve'' \<or> f = ''always_deny'' \<or>
      (startswith f ''rejected: '' \<and> strip (drop 10 f) = drop 10 f \<and> drop 10 f \<noteq> []))"

lemma normal_feedbackI:
  "normal_feedback ''approved''" "normal_feedback ''session''" "normal_feedback ''always_approve''"
  "normal_feedback ''always_deny''"
  by (simp_all add: normal_feedback_def)

lemma normal_rejected:
  "normal_feedback (''rejected: '' @ (if strip s = [] then ''no reason provided'' else strip s))"
  by (simp add: normal_feedback_def startswith_def)
     (simp add: strip_def py_isspace_def)

lemma normal_rejected_default: "normal_feedback ''rejected: no reason provided''"
  by (simp add: normal_feedback_def startswith_def strip_def py_isspace_def)

lemma cascade:
  "(if c0 then Inl e0 else if c1 then Inr f1 else if c2 then Inr f2 else if c3 then Inr f3
    else if c4 then Inr f4 else if c5 then Inr f5 else if c6 then Inr f6 else Inl e7) = Inr f \<Longrightarrow>
   P f1 \<Longrightarrow> P f2 \<Longrightarrow> P f3 \<Longrightarrow> P f4 \<Longrightarrow> P f5 \<Longrightarrow> P f6 \<Longrightarrow> P f"
  by (auto split: if_split_asm)

lemma normalize_normal: "normalize_policy_feedback v = Inr f \<Longrightarrow> normal_feedback f"
proof -
  assume n: "normalize_policy_feedback v = Inr f"
  then obtain s where v: "v = PStr s"
    unfolding normalize_policy_feedback_def by (cases v) simp_all
  show ?thesis
    using n unfolding v normalize_policy_feedback_def Let_def pyval.case
    by (rule cascade) (rule normal_feedbackI normal_rejected normal_rejected_default)+
qed

lemma normal_literal:
  "normalize_policy_feedback (PStr ''approved'') = Inr ''approved''"
  "normalize_policy_feedback (PStr ''session'') = Inr ''session''"
  "normalize_policy_feedback (PStr ''always_approve'') = Inr ''always_approve''"
  "normalize_policy_feedback (PStr ''always_deny'') = Inr ''always_deny''"
  by (simp_all add: normalize_policy_feedback_def strip_def py_lower_def lower_char_def
      py_isspace_def underscore_runs_def)

text \<open>Normalisation of a human answer accepts exactly five outcomes (a rejection always carries
  a reason without surrounding white space), and normalising an outcome again returns it.\<close>

theorem feedback_normal_form:
  assumes "normalize_policy_feedback v = Inr f"
  shows "normal_feedback f \<and> normalize_policy_feedback (PStr f) = Inr f"
proof -
  have n: "normal_feedback f" using assms by (rule normalize_normal)
  have "normalize_policy_feedback (PStr f) = Inr f"
    if "startswith f ''rejected: ''" "strip (drop 10 f) = drop 10 f" "drop 10 f \<noteq> []"
  proof -
    have "f = ''rejected: '' @ drop 10 f"
    proof -
      have "length ''rejected: '' = 10" by simp
      with that(1) have "take 10 f = ''rejected: ''" unfolding startswith_def by (simp only:)
      then show ?thesis using append_take_drop_id [of 10 f] by (simp only:)
    qed
    with normalize_rejected [OF that(2,3)] show ?thesis by simp
  qed
  with n show ?thesis unfolding normal_feedback_def using normal_literal by metis
qed

theorem feedback_normal_form_witness:
  "normalize_policy_feedback (PStr ''  Rejected:  too broad '') = Inr ''rejected: too broad'' \<and>
   normalize_policy_feedback (PStr ''rejected: too broad'') = Inr ''rejected: too broad''"
proof -
  have f: "normalize_policy_feedback (PStr ''  Rejected:  too broad '') = Inr ''rejected: too broad''"
    by (simp add: normalize_policy_feedback_def strip_def py_lower_def lower_char_def
        py_isspace_def underscore_runs_def startswith_def after_first_def Let_def char_of_eq_iff)
  show ?thesis using f feedback_normal_form [OF f] by simp
qed

end
