(* ===== verification/Py_Path.thy ===== *)
theory Py_Path
  imports Py_Prelude
begin

text \<open>
  The part of \<open>pathlib\<close> the program relies on, for absolute POSIX paths.

  \<^item> A path is the list of its components; \<open>path_parts\<close>, \<open>join_path\<close> and \<open>relative_to\<close> are the
    constructor, the \<open>/\<close> operator and \<open>PurePath.relative_to\<close>.
  \<^item> \<open>resolve_path\<close> is \<open>Path.resolve\<close> where no component is a symbolic link.
  \<^item> \<open>walk\<close> is the loop of \<open>os.path.realpath\<close> on a file system with symbolic links, with the table of
    links already followed; it ends because every round follows a new link or shortens what is left.
    \<open>path_resolve\<close> is \<open>Path.resolve\<close> of Python 3.11 and 3.12, which raises on a loop of links.
  \<^item> The lemmas: a resolved path has no link and no \<open>..\<close> left in it, and resolving it again gives
    it back.
\<close>

section \<open>Paths as lists of components\<close>

fun split_on :: "char \<Rightarrow> string \<Rightarrow> string list" where
  "split_on c [] = [[]]"
| "split_on c (x # xs) =
     (if x = c then [] # split_on c xs
      else (case split_on c xs of [] \<Rightarrow> [[x]] | p # ps \<Rightarrow> (x # p) # ps))"

definition path_parts :: "string \<Rightarrow> string list" where
  "path_parts s = filter (\<lambda>p. p \<noteq> [] \<and> p \<noteq> ''.'') (split_on CHR ''/'' s)"

text \<open>\<open>root / ref\<close>: an absolute reference replaces the root.\<close>

definition join_path :: "string list \<Rightarrow> string \<Rightarrow> string list" where
  "join_path root ref = (if startswith ref ''/'' then path_parts ref else root @ path_parts ref)"

definition relative_to :: "string list \<Rightarrow> string list \<Rightarrow> string list option" where
  "relative_to root parts =
     (if take (length root) parts = root then Some (drop (length root) parts) else None)"

fun resolve_aux :: "string list \<Rightarrow> string list \<Rightarrow> string list" where
  "resolve_aux acc [] = rev acc"
| "resolve_aux acc (p # ps) = resolve_aux (if p = ''..'' then tl acc else p # acc) ps"

definition resolve_path :: "string list \<Rightarrow> string list" where
  "resolve_path parts = resolve_aux [] parts"

lemma resolve_no_dotdot:
  "''..'' \<notin> set acc \<Longrightarrow> ''..'' \<notin> set (resolve_aux acc ps)"
proof (induction acc ps rule: resolve_aux.induct)
  case (2 acc p ps)
  have "''..'' \<notin> set (tl acc)" using 2(2) by (cases acc) auto
  with 2 show ?case by auto
qed simp

section \<open>Symbolic links\<close>

text \<open>The text of a file is \<open>None\<close> when its bytes are not UTF-8.\<close>

datatype node = Directory | File "string option" | Link string

type_synonym filesystem = "(string list \<times> node) list"

definition is_link :: "filesystem \<Rightarrow> string list \<Rightarrow> bool" where
  "is_link fs p = (case map_of fs p of Some (Link _) \<Rightarrow> True | _ \<Rightarrow> False)"

text \<open>What is left to do: a component to enter, or the end of the text of a link.\<close>

datatype pending = Enter string | Followed "string list"

definition unseen :: "filesystem \<Rightarrow> (string list \<Rightarrow> string list option option) \<Rightarrow> string list set" where
  "unseen fs seen = {p \<in> fst ` set fs. seen p = None}"

lemma finite_unseen [simp]: "finite (unseen fs seen)"
  by (simp add: unseen_def)

lemma unseen_upd: "unseen fs (seen(p \<mapsto> x)) = unseen fs seen - {p}"
  by (auto simp: unseen_def)

lemma unseen_follow:
  assumes "map_of fs p = Some x" "seen p = None"
  shows "card (unseen fs seen - {p}) < card (unseen fs seen)"
proof -
  have "p \<in> unseen fs seen" using assms by (auto simp: unseen_def dest: map_of_SomeD intro: rev_image_eqI)
  then show ?thesis by (intro psubset_card_mono) auto
qed

lemma unseen_less_or_eq:
  "card (unseen fs seen - {p}) < card (unseen fs seen) \<or> card (unseen fs seen - {p}) = card (unseen fs seen)"
  by (metis card_Diff1_le finite_unseen le_neq_implies_less)

function walk ::
  "filesystem \<Rightarrow> (string list \<Rightarrow> string list option option) \<Rightarrow> string list \<Rightarrow> pending list
     \<Rightarrow> string list \<times> bool" where
  "walk fs seen path [] = (path, True)"
| "walk fs seen path (Followed l # todo) = walk fs (seen(l \<mapsto> Some path)) path todo"
| "walk fs seen path (Enter name # todo) =
     (if name = ''..'' then walk fs seen (butlast path) todo
      else case map_of fs (path @ [name]) of
        Some (Link target) \<Rightarrow>
          (case seen (path @ [name]) of
             Some (Some known) \<Rightarrow> walk fs seen known todo
           | Some None \<Rightarrow> (path @ [name], False)
           | None \<Rightarrow> walk fs (seen(path @ [name] \<mapsto> None))
                       (if startswith target ''/'' then [] else path)
                       (map Enter (path_parts target) @ Followed (path @ [name]) # todo))
      | _ \<Rightarrow> walk fs seen (path @ [name]) todo)"
  by pat_completeness auto

termination
  using unseen_less_or_eq
  by (relation "measures [\<lambda>(fs, seen, path, todo). card (unseen fs seen),
                          \<lambda>(fs, seen, path, todo). length todo]")
     (auto simp: unseen_upd dest: unseen_follow)

text \<open>A path is link free when neither it nor a directory above it is a link, and it has no \<open>..\<close>.\<close>

definition link_free :: "filesystem \<Rightarrow> string list \<Rightarrow> bool" where
  "link_free fs p = (''..'' \<notin> set p \<and> (\<forall>n \<in> {1..length p}. \<not> is_link fs (take n p)))"

lemma link_free_Nil [simp]: "link_free fs []"
  by (simp add: link_free_def)

lemma link_free_take: "link_free fs p \<Longrightarrow> link_free fs (take k p)"
  unfolding link_free_def by (auto simp: min_def dest: in_set_takeD)

lemma link_free_butlast: "link_free fs p \<Longrightarrow> link_free fs (butlast p)"
  by (simp add: butlast_conv_take link_free_take)

lemma link_free_snoc:
  "link_free fs (p @ [n]) \<longleftrightarrow> link_free fs p \<and> n \<noteq> ''..'' \<and> \<not> is_link fs (p @ [n])"
proof -
  have "{1..Suc (length p)} = insert (Suc (length p)) {1..length p}" by auto
  then show ?thesis unfolding link_free_def by auto
qed

lemma link_free_prefix: "link_free fs (p @ q) \<Longrightarrow> link_free fs p"
  using link_free_take [of fs "p @ q" "length p"] by simp

lemma walk_link_free:
  assumes "walk fs seen path todo = (p, True)" "link_free fs path"
    and "\<forall>l k. seen l = Some (Some k) \<longrightarrow> link_free fs k"
  shows "link_free fs p"
  using assms
proof (induction fs seen path todo rule: walk.induct)
  case (2 fs seen path l todo)
  show ?case by (rule 2(1)) (use 2(2-4) in \<open>auto simp: fun_upd_def split: if_splits\<close>)
next
  case (3 fs seen path name todo)
  let ?new = "path @ [name]"
  show ?case
  proof (cases "name = ''..''")
    case True
    with 3 show ?thesis by (simp add: link_free_butlast)
  next
    case False
    show ?thesis
    proof (cases "map_of fs ?new")
      case None
      with False 3(7-9) have "link_free fs ?new" by (simp add: link_free_snoc is_link_def)
      with None False 3 show ?thesis by simp
    next
      case (Some x)
      show ?thesis
      proof (cases x)
        case (Link t)
        show ?thesis
        proof (cases "seen ?new")
          case None
          have w: "walk fs (seen(?new \<mapsto> None)) (if startswith t ''/'' then [] else path)
              (map Enter (path_parts t) @ Followed ?new # todo) = (p, True)"
            using 3(7) False Some Link None by simp
          show ?thesis
            by (rule 3(5) [OF False Some Link None])
               (use w 3(8,9) in \<open>auto simp: fun_upd_def split: if_splits\<close>)
        next
          case seen: (Some r)
          with 3 False Some Link show ?thesis by (cases r) auto
        qed
      next
        case Directory
        with 3 False Some show ?thesis by (auto simp: link_free_snoc is_link_def)
      next
        case (File c)
        with 3 False Some show ?thesis by (auto simp: link_free_snoc is_link_def)
      qed
    qed
  qed
next
  case (1 fs seen path)
  then show ?case by simp
qed

text \<open>A link free path resolves to itself.\<close>

lemma walk_link_free_id:
  "link_free fs (path @ names) \<Longrightarrow> walk fs seen path (map Enter names) = (path @ names, True)"
proof (induction names arbitrary: path)
  case (Cons n names)
  then have "link_free fs ((path @ [n]) @ names)" by simp
  moreover from this have "link_free fs (path @ [n])" by (rule link_free_prefix)
  ultimately show ?case
    using Cons.IH [of "path @ [n]"]
    by (auto simp: link_free_snoc is_link_def split: option.splits node.splits)
qed simp

definition path_resolve :: "filesystem \<Rightarrow> string list \<Rightarrow> string list result" where
  "path_resolve fs p =
     (case walk fs (\<lambda>_. None) [] (map Enter p) of
        (r, True) \<Rightarrow> Inr r
      | (r, False) \<Rightarrow> Inl (OtherError (''Symlink loop from '' @ join ''/'' p)))"

lemma path_resolve_link_free: "path_resolve fs p = Inr r \<Longrightarrow> link_free fs r"
  unfolding path_resolve_def by (auto split: prod.splits bool.splits intro: walk_link_free)

lemma path_resolve_id: "link_free fs p \<Longrightarrow> path_resolve fs p = Inr p"
  using walk_link_free_id [of fs "[]" p] by (simp add: path_resolve_def)

text \<open>Resolving looks at the links of a file system only.\<close>

definition link_of :: "filesystem \<Rightarrow> string list \<Rightarrow> string option" where
  "link_of fs p = (case map_of fs p of Some (Link t) \<Rightarrow> Some t | _ \<Rightarrow> None)"

lemma is_link_iff: "is_link fs p \<longleftrightarrow> link_of fs p \<noteq> None"
  by (auto simp: is_link_def link_of_def split: option.splits node.splits)

lemma walk_cong:
  "link_of fs = link_of fs' \<Longrightarrow> walk fs seen path todo = walk fs' seen path todo"
proof (induction fs seen path todo rule: walk.induct)
  case (2 fs seen path l todo)
  then show ?case by (simp add: fun_upd_def)
next
  case (3 fs seen path name todo)
  let ?new = "path @ [name]"
  have l: "link_of fs' ?new = link_of fs ?new" using 3(7) by simp
  show ?case
  proof (cases "name = ''..'' \<or> link_of fs ?new = None")
    case True
    with 3 l show ?thesis by (auto simp: link_of_def split: option.splits node.splits)
  next
    case False
    then obtain t where t: "map_of fs ?new = Some (Link t)" "map_of fs' ?new = Some (Link t)"
      using l by (auto simp: link_of_def split: option.splits node.splits)
    show ?thesis
    proof (cases "seen ?new")
      case None
      with False t 3(5) [of "Link t" t] 3(7) show ?thesis by (simp add: fun_upd_def)
    next
      case (Some r)
      with False t 3 show ?thesis by (cases r) auto
    qed
  qed
qed simp

lemma path_resolve_cong: "link_of fs = link_of fs' \<Longrightarrow> path_resolve fs p = path_resolve fs' p"
  by (simp add: path_resolve_def walk_cong [of fs fs'])

lemma link_free_cong: "link_of fs = link_of fs' \<Longrightarrow> link_free fs p = link_free fs' p"
  by (simp add: link_free_def is_link_iff)

text \<open>Without links, resolving is dropping the component before every \<open>..\<close>.\<close>

lemma walk_no_links:
  assumes "\<forall>p. \<not> is_link fs p"
  shows "walk fs seen path (map Enter ps) = (resolve_aux (rev path) ps, True)"
  using assms
proof (induction ps arbitrary: path)
  case (Cons n ps)
  have "rev (butlast path) = tl (rev path)" by (simp add: butlast_rev [symmetric] rev_swap)
  moreover have "\<not> is_link fs (path @ [n])" using Cons.prems by blast
  ultimately show ?case
    using Cons by (auto simp: is_link_def split: option.splits node.splits)
qed simp

lemma path_resolve_no_links:
  "\<forall>p. \<not> is_link fs p \<Longrightarrow> path_resolve fs p = Inr (resolve_path p)"
  by (simp add: path_resolve_def walk_no_links resolve_path_def)

end
