(* ===== verification/Memory_Gate.thy ===== *)
theory Memory_Gate
  imports Policy Py_Path
begin

text \<open>
  \<open>agent_os/memory_gate.py\<close> and the write side of the Markdown vault of
  \<open>agent_os/connectors.py\<close>: how a note reaches durable storage.

  \<^item> \<open>gated_write\<close> is the shared gating path: it runs a connector's \<open>write_note\<close> through
    \<open>apply_policy\<close>. A connector is a record of the attributes the gate reads; its state is \<open>'x\<close>.
  \<^item> \<open>markdown_write_note\<close> is \<open>MarkdownVaultConnector.write_note\<close> on a file system that maps
    resolved paths (lists of components) to contents. Symbolic links and directories in the place
    of a file are outside the model.
  \<^item> The theorems: an unauthorised write leaves the connector untouched and is reported as not
    committed; a vault write never leaves the vault root; and the automatic log allowance of
    the policy is decided on the text of the reference, so that a reference with \<open>..\<close> is appended
    to without a question anywhere in the vault.
\<close>

record memory_write_result =
  wr_ref :: string
  wr_mode :: string
  bytes_written :: "nat option"
  committed :: bool
  wr_status :: exec_status
  wr_error :: "string option"

datatype write_modes_attr = NoModesAttr | NotACollection | Modes "string list"

record 'x writable_memory =
  memory_name :: "string option"
  supported_write_modes :: write_modes_attr
  write_note :: "string \<Rightarrow> string \<Rightarrow> pydict option \<Rightarrow> string \<Rightarrow> 'x \<Rightarrow> memory_write_result result \<times> 'x"

record memory_write_proposal =
  mw_connector :: string
  mw_ref :: string
  mw_mode :: string

definition write_action :: "string \<Rightarrow> string \<Rightarrow> string \<Rightarrow> action_proposal" where
  "write_action conn ref md =
     \<lparr>tool = ''memory.write'', arguments = [(''ref'', PStr ref), (''mode'', PStr md)],
      proposal_reason = [], side_effect = SE_write, connector = Some conn\<rparr>"

text \<open>\<open>engine or current_policy_engine() or LocalPolicy(...)\<close>\<close>

definition choose_engine ::
  "'w policy_engine option \<Rightarrow> 'w policy_engine option \<Rightarrow> 'w policy_engine \<Rightarrow> 'w policy_engine" where
  "choose_engine engine current local =
     (case engine of Some e \<Rightarrow> e
      | None \<Rightarrow> (case current of Some e \<Rightarrow> e | None \<Rightarrow> local))"

datatype write_policy = Auto | Gate

definition evaluate_write_policy ::
  "'w policy_engine \<Rightarrow> string \<Rightarrow> string \<Rightarrow> string \<Rightarrow> 'w \<Rightarrow> write_policy result \<times> 'w" where
  "evaluate_write_policy eng conn ref md w =
     (case evaluate eng (write_action conn ref md) w of
        (Inl e, w') \<Rightarrow> (Inl e, w')
      | (Inr d, w') \<Rightarrow> (Inr (if decision d = Allow then Auto else Gate), w'))"

definition exec_status_str :: "exec_status \<Rightarrow> string" where
  "exec_status_str st = (case st of Completed \<Rightarrow> ''completed'' | Failed \<Rightarrow> ''failed''
     | Cancelled \<Rightarrow> ''cancelled'' | Waiting \<Rightarrow> ''waiting'')"

definition not_committed :: "memory_write_proposal \<Rightarrow> exec_status \<Rightarrow> string \<Rightarrow> memory_write_result" where
  "not_committed prop st e =
     \<lparr>wr_ref = mw_ref prop, wr_mode = mw_mode prop, bytes_written = None, committed = False,
      wr_status = st, wr_error = Some e\<rparr>"

definition execute_write ::
  "'x writable_memory \<Rightarrow> memory_write_proposal \<Rightarrow> string \<Rightarrow> pydict option \<Rightarrow>
   (memory_write_result, 'x) executor" where
  "execute_write mem prop content fm p x =
     (case write_note mem (mw_ref prop) content fm (mw_mode prop) x of
        (Inl e, x') \<Rightarrow> (Inl e, x')
      | (Inr r, x') \<Rightarrow>
          (Inr \<lparr>status = Completed, outputs = [(''result'', r)], artifacts = [], errors = []\<rparr>, x'))"

definition report_write ::
  "memory_write_proposal \<Rightarrow> memory_write_result execution_result \<Rightarrow> memory_write_result" where
  "report_write prop res =
     (case (status res, dict_get (outputs res) ''result'') of
        (Completed, Some r) \<Rightarrow> r
      | _ \<Rightarrow>
          (let err = join ''; '' (filter (\<lambda>e. strip e \<noteq> []) (errors res))
           in not_committed prop (status res)
                (if err = [] then ''Memory write '' @ exec_status_str (status res) @
                     '' before it reached the connector.'' else err)))"

definition modes_of_attr :: "write_modes_attr \<Rightarrow> string list" where
  "modes_of_attr a = (case a of NoModesAttr \<Rightarrow> MEMORY_WRITE_MODES | NotACollection \<Rightarrow> []
     | Modes ms \<Rightarrow> ms)"

definition gated_write ::
  "'s permission_rule_store_ops \<Rightarrow> policy_env \<Rightarrow> 's policy_world policy_engine \<Rightarrow>
   'x writable_memory \<Rightarrow> memory_write_proposal \<Rightarrow> string \<Rightarrow> pydict option \<Rightarrow>
   's policy_world \<Rightarrow> 'x \<Rightarrow> memory_write_result result \<times> 's policy_world \<times> 'x" where
  "gated_write ops env eng mem prop content fm w x =
     (if mw_mode prop \<notin> set MEMORY_WRITE_MODES then
        (Inl (ValueError ''Unsupported memory write mode''), w, x)
      else if mw_mode prop \<notin> set (modes_of_attr (supported_write_modes mem)) then
        (Inr (not_committed prop Failed (''Memory connector '' @ [CHR 0x27] @
           (case memory_name mem of None \<Rightarrow> ''unknown'' | Some n \<Rightarrow> n) @ [CHR 0x27] @
           '' does not safely support mode '' @ [CHR 0x27] @ mw_mode prop @ [CHR 0x27] @ ''.'')), w, x)
      else
        (let conn = (case memory_name mem of None \<Rightarrow> mw_connector prop | Some n \<Rightarrow> n);
             action = write_action conn (mw_ref prop) (mw_mode prop)
         in case apply_policy ops env eng action (execute_write mem prop content fm) w x of
              (Inl e, w', x') \<Rightarrow> (Inl e, w', x')
            | (Inr res, w', x') \<Rightarrow> (Inr (report_write prop res), w', x')))"

section \<open>The Markdown vault\<close>

definition endswith :: "string \<Rightarrow> string \<Rightarrow> bool" where
  "endswith s t = startswith (rev s) (rev t)"

text \<open>\<open>PurePath.stem\<close>: the name up to its last dot, unless that dot is its first or last character.\<close>

definition stem :: "string \<Rightarrow> string" where
  "stem name =
     (let suf = takeWhile (\<lambda>c. c \<noteq> CHR ''.'') (rev name);
          base = length name - length suf - 1
      in if CHR ''.'' \<in> set name \<and> suf \<noteq> [] \<and> 0 < base then take base name else name)"

definition with_md :: "string list \<Rightarrow> string list result" where
  "with_md parts =
     (if parts = [] then Inl (ValueError ''PosixPath has an empty name'')
      else if endswith (last parts) ''.md'' then Inr parts
      else Inr (butlast parts @ [stem (last parts) @ ''.md'']))"

definition vault_path :: "string list \<Rightarrow> string \<Rightarrow> string list result" where
  "vault_path root ref =
     bind_result (with_md (join_path root ref)) (\<lambda>parts.
       let path = resolve_path parts
       in case relative_to root path of
            None \<Rightarrow> Inl (ValueError (''Path traversal detected: '' @ ref))
          | Some _ \<Rightarrow> Inr path)"

definition serialize_markdown_with_frontmatter :: "string \<Rightarrow> pydict \<Rightarrow> string" where
  "serialize_markdown_with_frontmatter content fm =
     (if fm = [] then content
      else join [CHR 0x0A] (''---'' # map (\<lambda>(k, v). k @ '': '' @ py_str v) fm @ [''---'', [], content]))"

type_synonym vault_files = "string list \<Rightarrow> string option"

definition markdown_write_note ::
  "string list \<Rightarrow> string \<Rightarrow> string \<Rightarrow> pydict option \<Rightarrow> string \<Rightarrow> vault_files \<Rightarrow>
   memory_write_result result \<times> vault_files" where
  "markdown_write_note root ref content fm md files =
     (case vault_path root ref of
        Inl e \<Rightarrow> (Inl e, files)
      | Inr path \<Rightarrow>
          if md = ''create'' \<and> files path \<noteq> None then
            (Inl (OtherError (''Note already exists: '' @ ref)), files)
          else
            (let final = (case fm of
                    Some d \<Rightarrow> if (md = ''create'' \<or> md = ''overwrite'') \<and> d \<noteq> []
                              then serialize_markdown_with_frontmatter content d else content
                  | None \<Rightarrow> content);
                 old = (case files path of None \<Rightarrow> [] | Some t \<Rightarrow> t);
                 written = (if md = ''append'' \<and> old \<noteq> [] then [CHR 0x0A] @ final else final);
                 stored = (if md = ''append'' then old @ written else written)
             in (Inr \<lparr>wr_ref = (if drop (length root) path = [] then ''.''
                                 else join ''/'' (drop (length root) path)), wr_mode = md,
                       bytes_written = Some (length written), committed = True,
                       wr_status = Completed, wr_error = None\<rparr>,
                 files(path \<mapsto> stored))))"

definition markdown_vault :: "string list \<Rightarrow> vault_files writable_memory" where
  "markdown_vault root =
     \<lparr>memory_name = Some ''markdown_vault'',
      supported_write_modes = Modes [''append'', ''create'', ''overwrite''],
      write_note = markdown_write_note root\<rparr>"

section \<open>Unauthorised writes do not happen\<close>

lemma report_withheld:
  "status res \<in> {Failed, Cancelled} \<Longrightarrow>
   \<not> committed (report_write prop res) \<and> wr_error (report_write prop res) \<noteq> None \<and>
   wr_status (report_write prop res) = status res"
  by (cases "status res") (auto simp: report_write_def not_committed_def Let_def)

text \<open>C12: a gated write that neither the policy allowed nor a human approved leaves the connector's
  state exactly as it was, and is never reported as committed: the caller gets a failed or
  cancelled result with a diagnostic, or the exception of the evaluation.\<close>

theorem gated_write_needs_authority:
  assumes "\<not> authorised env eng (write_action (case memory_name mem of None \<Rightarrow> mw_connector prop
              | Some n \<Rightarrow> n) (mw_ref prop) (mw_mode prop)) w"
    and "gated_write ops env eng mem prop content fm w x = (out, w', x')"
  shows "x' = x \<and> (\<forall>r. out = Inr r \<longrightarrow>
           \<not> committed r \<and> wr_error r \<noteq> None \<and> wr_status r \<in> {Failed, Cancelled})"
proof -
  let ?a = "write_action (case memory_name mem of None \<Rightarrow> mw_connector prop | Some n \<Rightarrow> n)
              (mw_ref prop) (mw_mode prop)"
  let ?out = "apply_policy ops env eng ?a (execute_write mem prop content fm) w x"
  have held: "withheld x ?out" 
    using apply_policy_cases [of env eng ?a w "execute_write mem prop content fm" x ops] assms(1)
    by simp
  obtain res v y where o: "?out = (res, v, y)" by (cases ?out)
  show ?thesis
    using assms(2) held o report_withheld
    by (cases res) (auto simp: gated_write_def Let_def not_committed_def withheld_def
        split: if_splits)
qed

section \<open>The vault is confined to its root\<close>

lemma vault_path_confined:
  assumes "vault_path root ref = Inr path"
  shows "\<exists>rest. path = root @ rest \<and> ''..'' \<notin> set rest"
proof -
  from assms obtain parts where p: "path = resolve_path parts" "relative_to root path \<noteq> None"
    by (auto simp: vault_path_def Let_def split: option.splits)
  then have "path = root @ drop (length root) path"
    by (metis append_take_drop_id relative_to_def)
  moreover have "''..'' \<notin> set path" using p(1) resolve_no_dotdot by (simp add: resolve_path_def)
  ultimately show ?thesis by (metis Un_iff set_append)
qed


definition sample_vault :: vault_files where
  "sample_vault = [[''v'', ''Private'', ''plan.md''] \<mapsto> ''old'']"

lemma escaping_path:
  "vault_path [''v''] ''AI/Logs/../../Private/plan.md'' = Inr [''v'', ''Private'', ''plan.md'']"
  by (simp add: vault_path_def with_md_def join_path_def path_parts_def startswith_def endswith_def
      resolve_path_def relative_to_def)

lemma escaping_write:
  "markdown_write_note [''v''] ''AI/Logs/../../Private/plan.md'' ''x'' None ''append'' sample_vault =
     (Inr \<lparr>wr_ref = ''Private/plan.md'', wr_mode = ''append'', bytes_written = Some 2, committed = True,
           wr_status = Completed, wr_error = None\<rparr>,
      sample_vault([''v'', ''Private'', ''plan.md''] \<mapsto> ''old'' @ [CHR 0x0A] @ ''x''))"
  by (simp add: markdown_write_note_def escaping_path sample_vault_def)


text \<open>The automatic allowance for log files looks at the first characters of the reference only.
  A reference that starts with the log folder and climbs out of it is appended to any note of the
  vault with no approval, here against a human who rejects everything.\<close>

theorem log_allowance_escapes:
  "gated_write sqlite_ops (sample_env ''rejected'')
     (local_engine sqlite_ops 0 (sample_policy None)) (markdown_vault [''v''])
     \<lparr>mw_connector = ''markdown_vault'', mw_ref = ''AI/Logs/../../Private/plan.md'',
      mw_mode = ''append''\<rparr> ''x'' None sample_world sample_vault =
   (Inr \<lparr>wr_ref = ''Private/plan.md'', wr_mode = ''append'', bytes_written = Some 2, committed = True,
         wr_status = Completed, wr_error = None\<rparr>, sample_world,
    sample_vault([''v'', ''Private'', ''plan.md''] \<mapsto> ''old'' @ [CHR 0x0A] @ ''x''))"
proof -
  let ?a = "write_action ''markdown_vault'' ''AI/Logs/../../Private/plan.md'' ''append''"
  have b: "builtin_decision ?a =
      Some (mk_decision Allow ''builtin-logs'' ''Logs can be appended automatically'')"
    by (simp add: builtin_decision_def write_action_def lstrip_with_def startswith_def)
  have k: "derive_permission_key ?a =
      Some (memory_key ''markdown_vault'' ''append'' ''AI/Logs/../../Private/plan.md'')"
    unfolding derive_permission_key_Some
    by (simp add: write_action_def MEMORY_WRITE_MODES_def safe_connector_char_def is_lower_def
        ref_part_def ref_char_def py_isspace_def)
  have ev: "local_evaluate sqlite_ops 0 (sample_policy None) ?a sample_world =
      (mk_decision Allow ''builtin-logs'' ''Logs can be appended automatically'', sample_world)"
    using keyed_not_high [OF k] derive_key_valid [OF k]
    by (simp add: local_evaluate_eq k fallback_def b fetch_rule_def sqlite_ops_def sqlite_get_def
        validate_key_def sample_world_def)
  show ?thesis
    by (simp add: gated_write_def markdown_vault_def MEMORY_WRITE_MODES_def modes_of_attr_def
        apply_policy_def local_engine_def local_evaluator_def ev execute_write_def escaping_write
        report_write_def)
qed

theorem gated_write_needs_authority_witness:
  "\<not> committed (case fst (gated_write sqlite_ops (sample_env ''rejected'')
      (local_engine sqlite_ops 5 (sample_policy None)) (markdown_vault [''v''])
      \<lparr>mw_connector = [], mw_ref = ''a.md'', mw_mode = ''append''\<rparr> ''x'' None sample_world sample_vault)
     of Inr r \<Rightarrow> r)"
proof -
  let ?note = "\<lparr>mw_connector = [], mw_ref = ''a.md'', mw_mode = ''append''\<rparr>"
  let ?eng = "local_engine sqlite_ops 5 (sample_policy None)"
  let ?a = "write_action ''markdown_vault'' ''a.md'' ''append''"
  have k: "derive_permission_key ?a = Some (memory_key ''markdown_vault'' ''append'' ''a.md'')"
    unfolding derive_permission_key_Some
    by (simp add: write_action_def MEMORY_WRITE_MODES_def safe_connector_char_def is_lower_def
        ref_part_def ref_char_def py_isspace_def)
  have fb: "fallback ?a = mk_decision RequireApproval ''default'' ''Default taxonomy for write''"
    by (simp add: fallback_def builtin_decision_def default_decision_def taxonomy_reason_def
        write_action_def lstrip_with_def startswith_def)
  have ev: "local_evaluate sqlite_ops 5 (sample_policy None) ?a sample_world =
      (mk_decision RequireApproval ''default'' ''Default taxonomy for write'', sample_world)"
    using keyed_not_high [OF k] derive_key_valid [OF k]
    by (simp add: local_evaluate_eq k fb fetch_rule_def sqlite_ops_def sqlite_get_def
        validate_key_def sample_world_def session_grants_def)
  have n: "normalize_policy_feedback (interrupt_reply (sample_env ''rejected'') m) =
      Inr ''rejected: no reason provided''" for m
    by (simp add: sample_env_def normalize_policy_feedback_def strip_def py_lower_def lower_char_def
        py_isspace_def underscore_runs_def startswith_def)
  have un: "\<not> authorised (sample_env ''rejected'') ?eng ?a sample_world"
    by (simp add: authorised_def local_engine_def local_evaluator_def ev n approving_def)
  obtain r w' x' where out: "gated_write sqlite_ops (sample_env ''rejected'') ?eng
      (markdown_vault [''v'']) ?note ''x'' None sample_world sample_vault = (Inr r, w', x')"
    by (simp add: gated_write_def markdown_vault_def MEMORY_WRITE_MODES_def modes_of_attr_def
        apply_policy_def local_engine_def local_evaluator_def ev n startswith_def)
  show ?thesis
    using gated_write_needs_authority [OF _ out] un out by (simp add: markdown_vault_def)
qed

end
