(* ===== verification/Sandbox.thy ===== *)
theory Sandbox
  imports Py_Path
begin

text \<open>
  \<open>agent_os/sandbox.py\<close> and the file tools under \<open>agent_os/tools/\<close> that stay inside the sandbox.

  \<^item> \<open>os_env\<close> holds what the code reads: the file system with its symbolic links, the working
    directory, the variable \<open>AGENT_OS_SANDBOX\<close> and the context variable that overrides the root.
  \<^item> \<open>resolve_workspace_root\<close>, \<open>sandbox_scope\<close> and \<open>resolve_sandbox_path\<close> are the functions of
    \<open>sandbox.py\<close>; \<open>edit_file\<close>, \<open>read_file\<close> and \<open>grep\<close> are the tools. The result of a tool is the
    value it returns or the exception it raises.
  \<^item> Reading decodes UTF-8 and turns \<open>\r\n\<close> and \<open>\r\<close> into \<open>\n\<close>, as Python's text mode does. The order of
    the files in a \<open>grep\<close> is the order of the file system table.
  \<^item> The theorems: inside a scope no path leaves the workspace, not even through a link; an edit
    writes one file below the root and otherwise only makes missing directories above it, and
    reads back; a search reports only lines of files below the root.
\<close>

section \<open>Roots\<close>

record os_env =
  os_fs :: filesystem
  os_cwd :: "string list"
  os_sandbox_env :: "string option"
  sandbox_override :: "string list option"

text \<open>\<open>(base / s).resolve()\<close>. A path with a zero byte is refused by the system call.\<close>

definition resolve_from :: "filesystem \<Rightarrow> string list \<Rightarrow> string \<Rightarrow> string list result" where
  "resolve_from fs base s =
     (if CHR 0x00 \<in> set s then Inl (ValueError ''embedded null byte'')
      else path_resolve fs (join_path base s))"

definition is_dir :: "filesystem \<Rightarrow> string list \<Rightarrow> bool" where
  "is_dir fs p = (p = [] \<or> map_of fs p = Some Directory)"

definition is_file :: "filesystem \<Rightarrow> string list \<Rightarrow> bool" where
  "is_file fs p = (case map_of fs p of Some (File _) \<Rightarrow> True | _ \<Rightarrow> False)"

definition is_relative_to :: "string list \<Rightarrow> string list \<Rightarrow> bool" where
  "is_relative_to p root = (relative_to root p \<noteq> None)"

definition configured_sandbox_root :: "os_env \<Rightarrow> string list result" where
  "configured_sandbox_root os =
     resolve_from (os_fs os) (os_cwd os)
       (case os_sandbox_env os of None \<Rightarrow> ''./sandbox'' | Some v \<Rightarrow> v)"

definition get_sandbox_root :: "os_env \<Rightarrow> string list result" where
  "get_sandbox_root os =
     (case sandbox_override os of Some p \<Rightarrow> Inr p | None \<Rightarrow> configured_sandbox_root os)"

definition get_read_root :: "os_env \<Rightarrow> string list result" where
  "get_read_root os =
     (case sandbox_override os of
        Some p \<Rightarrow> Inr p
      | None \<Rightarrow>
          if opt_truthy (os_sandbox_env os)
          then resolve_from (os_fs os) (os_cwd os) (the (os_sandbox_env os))
          else path_resolve (os_fs os) (os_cwd os))"

definition repr_opt :: "string option \<Rightarrow> string" where
  "repr_opt s = py_repr (case s of None \<Rightarrow> PNone | Some v \<Rightarrow> PStr v)"

definition resolve_workspace_root :: "os_env \<Rightarrow> string option \<Rightarrow> string list result" where
  "resolve_workspace_root os workspace =
     bind_result (configured_sandbox_root os) (\<lambda>base.
       bind_result
         (case workspace of
            None \<Rightarrow> path_resolve (os_fs os) base
          | Some w \<Rightarrow> if strip w = [] then path_resolve (os_fs os) base
                      else resolve_from (os_fs os) base w)
         (\<lambda>resolved.
           if \<not> is_relative_to resolved base then
             Inl (ValueError (''Workspace '' @ repr_opt workspace @ '' resolves outside the sandbox''))
           else if \<not> is_dir (os_fs os) resolved then
             Inl (ValueError (''Workspace '' @ repr_opt workspace @ '' is not an existing directory''))
           else Inr resolved))"

definition sandbox_scope ::
  "string option \<Rightarrow> (string list \<Rightarrow> os_env \<Rightarrow> 'a result \<times> os_env) \<Rightarrow> os_env \<Rightarrow> 'a result \<times> os_env" where
  "sandbox_scope workspace body os =
     (case resolve_workspace_root os workspace of
        Inl e \<Rightarrow> (Inl e, os)
      | Inr resolved \<Rightarrow>
          (case body resolved (os\<lparr>sandbox_override := Some resolved\<rparr>) of
             (r, os') \<Rightarrow> (r, os'\<lparr>sandbox_override := sandbox_override os\<rparr>)))"

definition resolve_sandbox_path :: "os_env \<Rightarrow> string \<Rightarrow> string list result" where
  "resolve_sandbox_path os path =
     bind_result (get_sandbox_root os) (\<lambda>root.
       bind_result (resolve_from (os_fs os) root path) (\<lambda>resolved.
         if \<not> is_relative_to resolved root
         then Inl (ValueError (''Path '' @ path @ '' resolves outside the sandbox''))
         else Inr resolved))"

section \<open>The file tools\<close>

definition utf8_length :: "string \<Rightarrow> nat" where
  "utf8_length s = sum_list (map (\<lambda>c. if (of_char c :: nat) < 128 then 1 else 2) s)"

definition parents :: "string list \<Rightarrow> string list list" where
  "parents p = map (\<lambda>n. take n p) [1..<length p]"

text \<open>\<open>path.parent.mkdir(parents=True, exist_ok=True)\<close> for a path without links.\<close>

definition make_parents :: "filesystem \<Rightarrow> string list \<Rightarrow> filesystem result" where
  "make_parents fs p =
     (if list_ex (is_file fs) (parents p) then Inl (OtherError ''Not a directory'')
      else Inr (fs @ map (\<lambda>q. (q, Directory)) (filter (\<lambda>q. map_of fs q = None) (parents p))))"

definition edit_file :: "string \<Rightarrow> string \<Rightarrow> os_env \<Rightarrow> nat result \<times> os_env" where
  "edit_file path content os =
     (case resolve_sandbox_path os path of
        Inl e \<Rightarrow> (Inl e, os)
      | Inr p \<Rightarrow>
          if is_dir (os_fs os) p
          then (Inl (ValueError (''Path '' @ path @ '' resolves to a directory, cannot edit file'')), os)
          else case make_parents (os_fs os) p of
            Inl e \<Rightarrow> (Inl e, os)
          | Inr fs \<Rightarrow>
              (Inr (utf8_length content), os\<lparr>os_fs := AList.update p (File (Some content)) fs\<rparr>))"

text \<open>The end-of-line translation of text mode.\<close>

fun universal_newlines :: "string \<Rightarrow> string" where
  "universal_newlines [] = []"
| "universal_newlines (c # cs) =
     (if c = CHR 0x0D
      then (case cs of
              [] \<Rightarrow> [CHR 0x0A]
            | d # ds \<Rightarrow> if d = CHR 0x0A then CHR 0x0A # universal_newlines ds
                        else CHR 0x0A # universal_newlines cs)
      else c # universal_newlines cs)"

definition read_text :: "filesystem \<Rightarrow> string list \<Rightarrow> string result" where
  "read_text fs p =
     (case map_of fs p of
        Some (File (Some t)) \<Rightarrow> Inr (universal_newlines t)
      | Some (File None) \<Rightarrow> Inl (OtherError ''UnicodeDecodeError'')
      | _ \<Rightarrow> Inl (OtherError ''FileNotFoundError''))"

definition read_file :: "os_env \<Rightarrow> string \<Rightarrow> string result" where
  "read_file os path =
     bind_result (get_read_root os) (\<lambda>root.
       bind_result (resolve_from (os_fs os) root path) (\<lambda>target.
         if \<not> is_relative_to target root then Inl (ValueError ''Path is outside project root'')
         else if \<not> is_file (os_fs os) target then Inl (OtherError (''File not found: '' @ path))
         else read_text (os_fs os) target))"

section \<open>Searching\<close>

record grep_match =
  match_path :: string
  match_line :: nat
  match_text :: string

text \<open>The lines of a text, each with its end of line.\<close>

fun text_lines :: "string \<Rightarrow> string list" where
  "text_lines [] = []"
| "text_lines (c # cs) =
     (if c = CHR 0x0A then [c] # text_lines cs
      else (case text_lines cs of [] \<Rightarrow> [[c]] | l # ls \<Rightarrow> (c # l) # ls))"

fun contains :: "string \<Rightarrow> string \<Rightarrow> bool" where
  "contains query [] = (query = [])"
| "contains query (c # cs) = (startswith (c # cs) query \<or> contains query cs)"

definition rstrip_newline :: "string \<Rightarrow> string" where
  "rstrip_newline l = rev (dropWhile (\<lambda>c. c = CHR 0x0A) (rev l))"

definition skipped_directories :: "string list" where
  "skipped_directories = [''.git'', ''__pycache__'', ''.venv'']"

text \<open>What \<open>os.walk\<close> lists as a file below \<open>target\<close>: it descends into directories only, and a link to a
  directory is not a file.\<close>

definition walked_file :: "filesystem \<Rightarrow> string list \<Rightarrow> string list \<Rightarrow> bool" where
  "walked_file fs target q =
     (length target < length q \<and> is_relative_to q target \<and>
      list_all (\<lambda>n. is_dir fs (take n q)) [length target..<length q] \<and> \<not> is_dir fs q \<and>
      \<not> (is_link fs q \<and> (case path_resolve fs q of Inr r \<Rightarrow> is_dir fs r | Inl _ \<Rightarrow> False)))"

fun keep_inside :: "filesystem \<Rightarrow> string list \<Rightarrow> string list list \<Rightarrow> string list list result" where
  "keep_inside fs root [] = Inr []"
| "keep_inside fs root (q # qs) =
     bind_result (path_resolve fs q) (\<lambda>r.
       bind_result (keep_inside fs root qs) (\<lambda>rest.
         Inr (if is_relative_to r root then q # rest else rest)))"

definition files_to_search :: "filesystem \<Rightarrow> string list \<Rightarrow> string list \<Rightarrow> string list list result" where
  "files_to_search fs root target =
     (if is_file fs target then Inr [target]
      else keep_inside fs root
             (filter (\<lambda>q. walked_file fs target q \<and> set (butlast q) \<inter> set skipped_directories = {})
               (remdups (map fst fs))))"

definition path_str :: "string list \<Rightarrow> string" where
  "path_str p = (if p = [] then ''.'' else join ''/'' p)"

text \<open>A file that is not UTF-8 is passed over; one that does not exist, a dangling link, is not.\<close>

definition grep_in :: "filesystem \<Rightarrow> string list \<Rightarrow> string \<Rightarrow> string list \<Rightarrow> grep_match list result" where
  "grep_in fs root query q =
     bind_result (path_resolve fs q) (\<lambda>r.
       case map_of fs r of
         Some (File (Some t)) \<Rightarrow>
           Inr (map (\<lambda>(i, l). \<lparr>match_path = path_str (drop (length root) q), match_line = i,
                               match_text = rstrip_newline l\<rparr>)
                 (filter (\<lambda>(i, l). contains query l)
                   (List.enumerate 1 (text_lines (universal_newlines t)))))
       | Some (File None) \<Rightarrow> Inr []
       | Some Directory \<Rightarrow> Inr []
       | _ \<Rightarrow> Inl (OtherError (''No such file or directory: '' @ join ''/'' q)))"

fun grep_all :: "filesystem \<Rightarrow> string list \<Rightarrow> string \<Rightarrow> string list list \<Rightarrow> grep_match list result" where
  "grep_all fs root query [] = Inr []"
| "grep_all fs root query (q # qs) =
     bind_result (grep_in fs root query q) (\<lambda>ms.
       bind_result (grep_all fs root query qs) (\<lambda>rest. Inr (ms @ rest)))"

definition grep :: "os_env \<Rightarrow> string \<Rightarrow> string \<Rightarrow> grep_match list result" where
  "grep os query path =
     bind_result (get_read_root os) (\<lambda>root.
       bind_result (resolve_from (os_fs os) root path) (\<lambda>target.
         if \<not> is_relative_to target root then Inl (ValueError ''Path is outside project root'')
         else bind_result (files_to_search (os_fs os) root target)
                (grep_all (os_fs os) root query)))"

section \<open>Nothing leaves the sandbox\<close>

lemma is_relative_iff: "is_relative_to p root \<longleftrightarrow> (\<exists>rest. p = root @ rest)"
  by (auto simp: is_relative_to_def relative_to_def) (metis append_take_drop_id)

lemma resolve_from_link_free: "resolve_from fs base s = Inr p \<Longrightarrow> link_free fs p"
  by (auto simp: resolve_from_def path_resolve_link_free split: if_splits)

lemma resolve_from_cong: "link_of fs = link_of fs' \<Longrightarrow> resolve_from fs = resolve_from fs'"
  by (simp add: fun_eq_iff resolve_from_def path_resolve_cong [of fs fs'])

lemma workspace_root_facts:
  assumes "resolve_workspace_root os ws = Inr r"
  obtains base x where "configured_sandbox_root os = Inr base" "r = base @ x" "is_dir (os_fs os) r"
    "link_free (os_fs os) r"
proof -
  from assms obtain base where "configured_sandbox_root os = Inr base" "is_relative_to r base"
    "is_dir (os_fs os) r" "link_free (os_fs os) r"
    by (auto simp: resolve_workspace_root_def path_resolve_link_free resolve_from_link_free
        split: option.splits if_splits)
  then show ?thesis using that by (auto simp: is_relative_iff)
qed

lemma sandbox_path_facts:
  assumes "resolve_sandbox_path os path = Inr p" "get_sandbox_root os = Inr root"
  shows "(\<exists>rest. p = root @ rest) \<and> link_free (os_fs os) p"
  using assms by (auto simp: resolve_sandbox_path_def is_relative_iff resolve_from_link_free split: if_splits)

text \<open>C17: a scope confines. A workspace that is accepted is an existing directory below the configured
  sandbox, and inside its scope a path that is accepted is below the workspace with no symbolic
  link and no \<open>..\<close> on the way to it, whatever links the file system has.\<close>

theorem sandbox_scope_confines:
  assumes "resolve_workspace_root os ws = Inr r"
    and "resolve_sandbox_path (os\<lparr>sandbox_override := Some r\<rparr>) path = Inr p"
  shows "\<exists>base x rest. configured_sandbox_root os = Inr base \<and> r = base @ x \<and> is_dir (os_fs os) r \<and>
           p = r @ rest \<and> link_free (os_fs os) p"
proof -
  from assms(1) obtain base x where b: "configured_sandbox_root os = Inr base" "r = base @ x"
    "is_dir (os_fs os) r" by (rule workspace_root_facts)
  have "get_sandbox_root (os\<lparr>sandbox_override := Some r\<rparr>) = Inr r" by (simp add: get_sandbox_root_def)
  from sandbox_path_facts [OF assms(2) this] b show ?thesis by auto
qed

section \<open>Edits\<close>

lemma map_of_make_parents:
  assumes "make_parents fs p = Inr fs'"
  shows "map_of fs' q = (if map_of fs q = None \<and> q \<in> set (parents p) then Some Directory else map_of fs q)"
proof -
  have "map_of (map (\<lambda>q. (q, Directory)) qs) q = (if q \<in> set qs then Some Directory else None)" for qs
    by (induction qs) auto
  with assms show ?thesis
    by (auto simp: make_parents_def map_add_def split: if_splits option.splits)
qed

lemma not_in_parents: "p \<notin> set (parents p)"
  by (auto simp: parents_def) (metis length_take min.absorb4 nat_less_le)

text \<open>An edit inside a scope writes exactly one file, below the root, and otherwise only makes
  missing directories above it; the file then reads back as written, up to the end-of-line
  translation of text mode. An edit that fails changes nothing.\<close>

theorem edit_file_effect:
  assumes "sandbox_override os = Some root" "edit_file path content os = (res, os')"
  shows "case res of
           Inl _ \<Rightarrow> os' = os
         | Inr n \<Rightarrow> n = utf8_length content \<and>
             (\<exists>rest. (let p = root @ rest; before = map_of (os_fs os); after = map_of (os_fs os') in
                after p = Some (File (Some content)) \<and> link_free (os_fs os') p \<and>
                (\<forall>q. after q \<noteq> before q \<longrightarrow>
                      q = p \<or> q \<in> set (parents p) \<and> before q = None \<and> after q = Some Directory))) \<and>
             read_file os' path = Inr (universal_newlines content)"
proof (cases res)
  case (Inl e)
  with assms(2) show ?thesis by (auto simp: edit_file_def split: sum.splits if_splits)
next
  case (Inr n)
  with assms(2) obtain p fs where e: "resolve_sandbox_path os path = Inr p" "\<not> is_dir (os_fs os) p"
    "make_parents (os_fs os) p = Inr fs" "n = utf8_length content"
    "os' = os\<lparr>os_fs := AList.update p (File (Some content)) fs\<rparr>"
    by (auto simp: edit_file_def split: sum.splits if_splits)
  let ?new = "os_fs os'"
  have root: "get_sandbox_root os = Inr root" using assms(1) by (simp add: get_sandbox_root_def)
  from sandbox_path_facts [OF e(1) root] obtain rest where rest: "p = root @ rest"
    and lf: "link_free (os_fs os) p" by auto
  have after: "map_of ?new q = (if q = p then Some (File (Some content))
      else if map_of (os_fs os) q = None \<and> q \<in> set (parents p) then Some Directory
      else map_of (os_fs os) q)" for q
    using map_of_make_parents [OF e(3)] by (simp add: e(5) update_conv')
  have "p \<noteq> []" using e(2) by (auto simp: is_dir_def)
  then have "\<not> is_link (os_fs os) p" using lf by (cases p rule: rev_cases) (auto simp: link_free_snoc)
  then have links: "link_of ?new = link_of (os_fs os)"
    by (auto simp: fun_eq_iff link_of_def after is_link_def split: option.splits node.splits)
  have r: "resolve_from (os_fs os) root path = Inr p" "is_relative_to p root"
    using e(1) root by (auto simp: resolve_sandbox_path_def split: if_splits)
  have "get_read_root os' = Inr root" using assms(1) e(5) by (simp add: get_read_root_def)
  then have read: "read_file os' path = Inr (universal_newlines content)"
    using r by (simp add: read_file_def resolve_from_cong [OF links] is_file_def read_text_def after)
  show ?thesis
    using Inr e(4) rest after lf read link_free_cong [OF links]
    by (auto simp: Let_def intro!: exI [of _ rest])
qed

section \<open>Searches\<close>

lemma keep_inside_sub:
  "keep_inside fs root qs = Inr kept \<Longrightarrow>
     q \<in> set kept \<Longrightarrow> q \<in> set qs \<and> (\<exists>r. path_resolve fs q = Inr r \<and> is_relative_to r root)"
  by (induction qs arbitrary: kept) (auto split: if_splits)

lemma grep_all_sub:
  "grep_all fs root query qs = Inr ms \<Longrightarrow> m \<in> set ms \<Longrightarrow>
     \<exists>q\<in>set qs. \<exists>found. grep_in fs root query q = Inr found \<and> m \<in> set found"
proof (induction qs arbitrary: ms)
  case (Cons q qs)
  then obtain found rest where "grep_in fs root query q = Inr found"
    "grep_all fs root query qs = Inr rest" "ms = found @ rest" by auto
  with Cons show ?case by (cases "m \<in> set found") auto
qed simp

lemma grep_in_sub:
  assumes "grep_in fs root query q = Inr ms" "m \<in> set ms"
  shows "\<exists>r t l. path_resolve fs q = Inr r \<and> map_of fs r = Some (File (Some t)) \<and>
    l \<in> set (text_lines (universal_newlines t)) \<and> contains query l \<and> match_text m = rstrip_newline l"
proof -
  from assms obtain r where r: "path_resolve fs q = Inr r" by (auto simp: grep_in_def)
  from assms r obtain t where t: "map_of fs r = Some (File (Some t))"
    by (auto simp: grep_in_def split: option.splits node.splits)
  let ?ls = "text_lines (universal_newlines t)"
  from assms r t obtain i l where il: "(i, l) \<in> set (List.enumerate 1 ?ls)" "contains query l"
    "match_text m = rstrip_newline l"
    by (auto simp: grep_in_def)
  from il(1) have "l \<in> set (map snd (List.enumerate 1 ?ls))" by (metis image_eqI list.set_map snd_conv)
  then have "l \<in> set ?ls" by (simp only: map_snd_enumerate)
  with r t il show ?thesis by blast
qed

text \<open>A search reports lines of files below the root only: every match is a line that contains
  the query, of a file whose place, once links are followed, is below the read root.\<close>

theorem grep_confined:
  assumes "grep os query path = Inr ms" "get_read_root os = Inr root" "m \<in> set ms"
  shows "\<exists>rest t l. map_of (os_fs os) (root @ rest) = Some (File (Some t)) \<and>
           link_free (os_fs os) (root @ rest) \<and> l \<in> set (text_lines (universal_newlines t)) \<and>
           contains query l \<and> match_text m = rstrip_newline l"
proof -
  let ?fs = "os_fs os"
  from assms obtain target files where
    t: "resolve_from ?fs root path = Inr target" "is_relative_to target root"
      "files_to_search ?fs root target = Inr files" "grep_all ?fs root query files = Inr ms"
    by (auto simp: grep_def split: if_splits)
  from grep_all_sub [OF t(4) assms(3)] obtain q found where
    q: "q \<in> set files" "grep_in ?fs root query q = Inr found" "m \<in> set found" by blast
  from grep_in_sub [OF q(2,3)] obtain r t l where
    r: "path_resolve ?fs q = Inr r" "map_of ?fs r = Some (File (Some t))"
      "l \<in> set (text_lines (universal_newlines t))" "contains query l" "match_text m = rstrip_newline l"
    by metis
  have "is_relative_to r root"
  proof (cases "is_file ?fs target")
    case True
    then have "q = target" using t(3) q(1) by (auto simp: files_to_search_def)
    with r(1) t(1,2) show ?thesis using path_resolve_id [OF resolve_from_link_free [OF t(1)]] by simp
  next
    case False
    with t(3) q(1) r(1) show ?thesis
      using keep_inside_sub [of ?fs root _ files q] by (auto simp: files_to_search_def)
  qed
  with r path_resolve_link_free [OF r(1)] show ?thesis by (auto simp: is_relative_iff)
qed

lemma grep_all_fails:
  "q \<in> set qs \<Longrightarrow> grep_in fs root query q = Inl e \<Longrightarrow> \<exists>e'. grep_all fs root query qs = Inl e'"
proof (induction qs)
  case (Cons p qs)
  show ?case
  proof (cases "grep_in fs root query p")
    case (Inr ms)
    then have "p \<noteq> q" using Cons.prems(2) by auto
    then obtain e' where "grep_all fs root query qs = Inl e'" using Cons by auto
    with Inr show ?thesis by simp
  qed simp
qed simp

text \<open>One dangling link makes a search fail. A link in the searched directory whose target is
  below the root but does not exist raises out of \<open>grep\<close>, so that no match of any file is
  reported.\<close>

theorem grep_fails_on_dangling_link:
  assumes "get_read_root os = Inr root" "resolve_from (os_fs os) root path = Inr target"
    and "is_relative_to target root" "files_to_search (os_fs os) root target = Inr files"
    and "q \<in> set files" "path_resolve (os_fs os) q = Inr r" "map_of (os_fs os) r = None"
  shows "\<exists>e. grep os query path = Inl e"
proof -
  have "\<exists>e. grep_in (os_fs os) root query q = Inl e" using assms(6,7) by (simp add: grep_in_def)
  then obtain e where "grep_all (os_fs os) root query files = Inl e"
    using grep_all_fails [OF assms(5)] by blast
  then show ?thesis using assms(1-4) by (simp add: grep_def)
qed

section \<open>Samples\<close>

definition sample_fs :: filesystem where
  "sample_fs =
     [([''s''], Directory), ([''s'', ''w''], Directory),
      ([''s'', ''w'', ''a''], File (Some (''hit'' @ [CHR 0x0D, CHR 0x0A]))),
      ([''s'', ''w'', ''in''], Link ''a''), ([''s'', ''w'', ''out''], Link ''/etc''),
      ([''etc''], Directory), ([''etc'', ''pw''], File (Some ''hit''))]"

definition sample_os :: "filesystem \<Rightarrow> os_env" where
  "sample_os fs = \<lparr>os_fs = fs, os_cwd = [], os_sandbox_env = Some ''/s'', sandbox_override = None\<rparr>"

lemma sample_scope:
  "resolve_workspace_root (sample_os sample_fs) (Some ''w'') = Inr [''s'', ''w'']"
  "resolve_sandbox_path ((sample_os sample_fs)\<lparr>sandbox_override := Some [''s'', ''w'']\<rparr>) ''./x/../in'' =
     Inr [''s'', ''w'', ''a'']"
  "resolve_sandbox_path ((sample_os sample_fs)\<lparr>sandbox_override := Some [''s'', ''w'']\<rparr>) ''out/pw'' =
     Inl (ValueError ''Path out/pw resolves outside the sandbox'')"
  by code_simp+

theorem sandbox_scope_confines_witness:
  "\<exists>base x rest. configured_sandbox_root (sample_os sample_fs) = Inr base \<and> [''s'', ''w''] = base @ x \<and>
     is_dir (os_fs (sample_os sample_fs)) [''s'', ''w''] \<and>
     [''s'', ''w'', ''a''] = [''s'', ''w''] @ rest \<and> link_free (os_fs (sample_os sample_fs)) [''s'', ''w'', ''a'']"
  by (rule sandbox_scope_confines [OF sample_scope(1,2)])

lemma sample_edit:
  "fst (edit_file ''in'' ''new'' ((sample_os sample_fs)\<lparr>sandbox_override := Some [''s'', ''w'']\<rparr>)) = Inr 3"
  by code_simp

theorem edit_file_effect_witness:
  "read_file (snd (edit_file ''in'' ''new'' ((sample_os sample_fs)\<lparr>sandbox_override := Some [''s'', ''w'']\<rparr>)))
     ''in'' = Inr (universal_newlines ''new'')"
proof -
  let ?os = "(sample_os sample_fs)\<lparr>sandbox_override := Some [''s'', ''w'']\<rparr>"
  obtain os' where e: "edit_file ''in'' ''new'' ?os = (Inr 3, os')"
    using sample_edit by (metis prod.collapse)
  from edit_file_effect [OF _ e, of "[''s'', ''w'']"] e show ?thesis by simp
qed

lemma sample_grep:
  "grep (sample_os sample_fs) ''hi'' ''w'' =
     Inr [\<lparr>match_path = ''w/a'', match_line = 1, match_text = ''hit''\<rparr>,
          \<lparr>match_path = ''w/in'', match_line = 1, match_text = ''hit''\<rparr>]"
  "get_read_root (sample_os sample_fs) = Inr [''s'']"
  by code_simp+

theorem grep_confined_witness:
  "\<exists>rest t l. map_of (os_fs (sample_os sample_fs)) ([''s''] @ rest) = Some (File (Some t)) \<and>
     link_free (os_fs (sample_os sample_fs)) ([''s''] @ rest) \<and>
     l \<in> set (text_lines (universal_newlines t)) \<and> contains ''hi'' l \<and> ''hit'' = rstrip_newline l"
  using grep_confined [OF sample_grep, of "\<lparr>match_path = ''w/in'', match_line = 1, match_text = ''hit''\<rparr>"]
  by simp

definition dangling_os :: os_env where
  "dangling_os = sample_os (([''s'', ''w'', ''old''], Link ''gone'') # sample_fs)"

theorem grep_fails_on_dangling_link_witness:
  "\<exists>e. grep dangling_os ''hi'' ''w'' = Inl e"
proof (rule grep_fails_on_dangling_link)
  show "get_read_root dangling_os = Inr [''s'']" by code_simp
  show "resolve_from (os_fs dangling_os) [''s''] ''w'' = Inr [''s'', ''w'']" by code_simp
  show "is_relative_to [''s'', ''w''] [''s'']" by code_simp
  show "files_to_search (os_fs dangling_os) [''s''] [''s'', ''w''] =
    Inr [[''s'', ''w'', ''old''], [''s'', ''w'', ''a''], [''s'', ''w'', ''in'']]" by code_simp
  show "[''s'', ''w'', ''old''] \<in> set [[''s'', ''w'', ''old''], [''s'', ''w'', ''a''], [''s'', ''w'', ''in'']]" by simp
  show "path_resolve (os_fs dangling_os) [''s'', ''w'', ''old''] = Inr [''s'', ''w'', ''gone'']" by code_simp
  show "map_of (os_fs dangling_os) [''s'', ''w'', ''gone''] = None" by code_simp
qed

end
