(* ===== verification/Py_Float.thy ===== *)
theory Py_Float
  imports Complex_Main "HOL-Library.Log_Nat" Py_Prelude
begin

text \<open>
  Python's \<open>float\<close> where the program computes with it: ratios of counts and their differences.

  \<^item> A value is the rational number it stands for. \<open>to_double\<close> rounds a rational to the nearest
    IEEE double, ties to even: 53 bits, without subnormal numbers and overflow, which ratios of
    counts do not reach. An operation of the source rounds its exact result.
  \<^item> \<open>round4\<close> is \<open>repr(round(x, 4))\<close>.
\<close>

definition round_half_even :: "rat \<Rightarrow> int" where
  "round_half_even x =
     (let f = \<lfloor>x\<rfloor>; d = x - of_int f
      in if d < 1 / 2 then f else if 1 / 2 < d then f + 1 else if even f then f else f + 1)"

definition pow2 :: "int \<Rightarrow> rat" where
  "pow2 k = (if 0 \<le> k then 2 ^ nat k else 1 / 2 ^ nat (- k))"

text \<open>The \<open>k\<close> with \<open>2 ^ k \<le> \<bar>x\<bar> < 2 ^ (k + 1)\<close>.\<close>

definition binade :: "rat \<Rightarrow> int" where
  "binade x =
     (let (p, q) = quotient_of \<bar>x\<bar>; k = bitlen p - bitlen q
      in if pow2 k \<le> \<bar>x\<bar> then k else k - 1)"

definition to_double :: "rat \<Rightarrow> rat" where
  "to_double x =
     (if x = 0 then 0
      else (let u = pow2 (binade x - 52) in of_int (round_half_even (x / u)) * u))"

definition float_sub :: "rat \<Rightarrow> rat \<Rightarrow> rat" where
  "float_sub x y = to_double (x - y)"

text \<open>The digits after the point, without zeros at the end but for the first.\<close>

definition fraction_digits :: "nat \<Rightarrow> string" where
  "fraction_digits n =
     (let ds = [digit_char (n div 1000 mod 10), digit_char (n div 100 mod 10), digit_char (n div 10 mod 10),
                digit_char (n mod 10)]
      in hd ds # rev (dropWhile (\<lambda>c. c = CHR ''0'') (rev (tl ds))))"

definition round4 :: "rat \<Rightarrow> string" where
  "round4 x =
     (let k = round_half_even (x * 10000); m = nat \<bar>k\<bar>
      in (if k < 0 then ''-'' else []) @ nat_str (m div 10000) @ ''.'' @ fraction_digits (m mod 10000))"

lemma to_double_0 [simp]: "to_double 0 = 0"
  by (simp add: to_double_def)

lemma pow2_pos [simp]: "0 < pow2 k" "0 \<le> pow2 k"
  by (simp_all add: pow2_def)

lemma round_half_even_mono: "x \<le> y \<Longrightarrow> round_half_even x \<le> round_half_even y"
proof -
  assume le: "x \<le> y"
  have f: "\<lfloor>x\<rfloor> \<le> \<lfloor>y\<rfloor>" using le by (rule floor_mono)
  have b: "round_half_even z = \<lfloor>z\<rfloor> \<or> round_half_even z = \<lfloor>z\<rfloor> + 1" for z
    by (auto simp: round_half_even_def Let_def)
  show ?thesis
  proof (cases "\<lfloor>x\<rfloor> = \<lfloor>y\<rfloor>")
    case True
    then show ?thesis using le by (auto simp: round_half_even_def Let_def)
  next
    case False
    with f have "\<lfloor>x\<rfloor> + 1 \<le> \<lfloor>y\<rfloor>" by simp
    with b [of x] b [of y] show ?thesis by auto
  qed
qed

lemma round_half_even_of_int [simp]: "round_half_even (of_int k) = k"
  by (simp add: round_half_even_def)

lemma to_double_nonneg: "0 \<le> x \<Longrightarrow> 0 \<le> to_double x"
  using round_half_even_mono [of 0 "x / pow2 (binade x - 52)"] round_half_even_of_int [of 0]
  by (auto simp: to_double_def Let_def)

end
