(* ===== verification/Skills.thy ===== *)
theory Skills
  imports Policy Py_Float
begin

text \<open>
  \<open>agent_os/skills.py\<close> and \<open>agent_os/default_registry.py\<close>: the registry of tools the dispatcher
  chooses from, and the parser of explicit commands.

  \<^item> A \<open>skill\<close> is a \<open>RegisteredSkill\<close>; its handler is any value, and what \<open>inspect\<close> or a
    LangChain tool says of the arguments of a handler is the parameter \<open>sig_of\<close>. A registry is the
    dictionary of its skills in the order of registration.
  \<^item> \<open>mk_skill\<close> is the constructor with its checks; \<open>register\<close>, \<open>register_many\<close>, \<open>get_skill\<close> and
    \<open>deterministic_match\<close> are the methods of \<open>SkillRegistry\<close>; \<open>parse_tier1_request\<close> reads a command,
    with \<open>shlex.split\<close> for the arguments of \<open>bash\<close>; \<open>build_default_registry\<close> has the four native
    tools and whatever MCP tools do not collide.
  \<^item> The theorems: the first word of a task never fits two skills; a batch is registered whole or not
    at all, exactly as one by one; no list of MCP tools can take a native command away; and a command
    that is read is a certain decision for the skill it names.
\<close>

section \<open>Skills and the registry\<close>

record 'h skill =
  skill_name :: string
  skill_aliases :: "string list"
  skill_handler :: 'h

type_synonym 'h registry = "(string \<times> 'h skill) list"

definition normal_word :: "string \<Rightarrow> string" where
  "normal_word s = py_lower (strip s)"

definition mk_skill :: "string \<Rightarrow> string list \<Rightarrow> 'h \<Rightarrow> 'h skill result" where
  "mk_skill name als h =
     (let n = normal_word name;
          as = map normal_word als
      in if n = [] then Inl (ValueError ''Skill name must not be empty'')
         else if [] \<in> set as then Inl (ValueError ''Skill aliases must not be empty'')
         else if n \<in> set as then Inl (ValueError ''Skill aliases must not duplicate the canonical name'')
         else if \<not> distinct as then Inl (ValueError ''Skill aliases must be unique'')
         else Inr \<lparr>skill_name = n, skill_aliases = as, skill_handler = h\<rparr>)"

definition matches :: "'h skill \<Rightarrow> string \<Rightarrow> bool" where
  "matches s command =
     (case split_ws (normal_word command) of
        [] \<Rightarrow> False
      | w # _ \<Rightarrow> w = skill_name s \<or> w \<in> set (skill_aliases s))"

fun alias_clash :: "'h skill \<Rightarrow> string list \<Rightarrow> string option" where
  "alias_clash old [] = None"
| "alias_clash old (a # as) =
     (if a = skill_name old \<or> a \<in> set (skill_aliases old)
      then Some (''Alias '' @ a @ '' already used by '' @ skill_name old) else alias_clash old as)"

fun collision :: "'h skill \<Rightarrow> 'h skill list \<Rightarrow> string option" where
  "collision s [] = None"
| "collision s (old # rest) =
     (if skill_name s \<in> set (skill_aliases old)
      then Some (''Skill name '' @ skill_name s @ '' is already used as an alias for '' @ skill_name old)
      else case alias_clash old (skill_aliases s) of
             Some m \<Rightarrow> Some m
           | None \<Rightarrow> collision s rest)"

definition register :: "'h skill \<Rightarrow> 'h registry \<Rightarrow> 'h registry result" where
  "register s reg =
     (if dict_get reg (skill_name s) \<noteq> None
      then Inl (ValueError (''Skill canonical name already registered: '' @ skill_name s))
      else case collision s (map snd reg) of
             Some m \<Rightarrow> Inl (ValueError m)
           | None \<Rightarrow> Inr (dict_set (skill_name s) s reg))"

fun register_all :: "'h skill list \<Rightarrow> 'h registry \<Rightarrow> 'h registry result" where
  "register_all [] reg = Inr reg"
| "register_all (s # ss) reg = bind_result (register s reg) (register_all ss)"

text \<open>The batch is tried on a shadow registry that starts empty and is given the present skills
  first; only then is the live registry changed.\<close>

definition register_many :: "'h skill list \<Rightarrow> 'h registry \<Rightarrow> unit result \<times> 'h registry" where
  "register_many ss reg =
     (case bind_result (register_all (map snd reg) []) (register_all ss) of
        Inl e \<Rightarrow> (Inl e, reg)
      | Inr _ \<Rightarrow> (Inr (), fold (\<lambda>s. dict_set (skill_name s) s) ss reg))"

definition get_skill :: "string \<Rightarrow> 'h registry \<Rightarrow> 'h skill option" where
  "get_skill name reg = dict_get reg (normal_word name)"

definition skill_names :: "'h registry \<Rightarrow> string list" where
  "skill_names reg = map fst reg"

definition deterministic_match :: "string \<Rightarrow> 'h registry \<Rightarrow> 'h skill option" where
  "deterministic_match command reg = find (\<lambda>s. matches s command) (map snd reg)"

section \<open>Explicit commands\<close>

text \<open>\<open>shlex.split\<close> in its POSIX mode with white space splitting and no comments, as the state
  machine of \<open>shlex.read_token\<close>: between words, in a word, in quotes, and after a backslash
  (in a word or in double quotes).\<close>

datatype sh_state = Sh_space | Sh_word | Sh_quote char | Sh_escape "char option"

definition sh_space_char :: "char \<Rightarrow> bool" where
  "sh_space_char c = (c = CHR '' '' \<or> c = CHR 0x09 \<or> c = CHR 0x0D \<or> c = CHR 0x0A)"

definition sh_quote_char :: "char \<Rightarrow> bool" where
  "sh_quote_char c = (c = CHR 0x27 \<or> c = CHR 0x22)"

fun shlex_from :: "sh_state \<Rightarrow> string \<Rightarrow> bool \<Rightarrow> string \<Rightarrow> string list result" where
  "shlex_from st tok quoted [] =
     (case st of
        Sh_space \<Rightarrow> Inr []
      | Sh_word \<Rightarrow> Inr (if tok = [] \<and> \<not> quoted then [] else [tok])
      | Sh_quote _ \<Rightarrow> Inl (ValueError ''No closing quotation'')
      | Sh_escape _ \<Rightarrow> Inl (ValueError ''No escaped character''))"
| "shlex_from st tok quoted (c # cs) =
     (case st of
        Sh_space \<Rightarrow>
          if sh_space_char c then shlex_from Sh_space [] False cs
          else if c = CHR 0x5C then shlex_from (Sh_escape None) [] False cs
          else if sh_quote_char c then shlex_from (Sh_quote c) [] False cs
          else shlex_from Sh_word [c] False cs
      | Sh_word \<Rightarrow>
          if sh_space_char c
          then (if tok = [] \<and> \<not> quoted then shlex_from Sh_space [] False cs
                else bind_result (shlex_from Sh_space [] False cs) (\<lambda>ws. Inr (tok # ws)))
          else if sh_quote_char c then shlex_from (Sh_quote c) tok quoted cs
          else if c = CHR 0x5C then shlex_from (Sh_escape None) tok quoted cs
          else shlex_from Sh_word (tok @ [c]) quoted cs
      | Sh_quote q \<Rightarrow>
          if c = q then shlex_from Sh_word tok True cs
          else if c = CHR 0x5C \<and> q = CHR 0x22 then shlex_from (Sh_escape (Some q)) tok True cs
          else shlex_from (Sh_quote q) (tok @ [c]) True cs
      | Sh_escape outer \<Rightarrow>
          (case outer of
             None \<Rightarrow> shlex_from Sh_word (tok @ [c]) quoted cs
           | Some q \<Rightarrow>
               shlex_from (Sh_quote q)
                 (tok @ (if c \<noteq> CHR 0x5C \<and> c \<noteq> q then [CHR 0x5C, c] else [c])) quoted cs))"

definition shlex_split :: "string \<Rightarrow> string list result" where
  "shlex_split s = shlex_from Sh_space [] False s"

text \<open>What Python can tell of a handler: the properties of the input schema of a LangChain tool, or
  the parameters of a callable, each with whether it is variadic.\<close>

datatype handler_kind = Tool_schema "string list" | Signature "(string \<times> bool) list"

definition single_text_argument_name :: "handler_kind \<Rightarrow> string option" where
  "single_text_argument_name k =
     (case k of
        Tool_schema ps \<Rightarrow> if length ps = 1 then Some (hd ps) else None
      | Signature ps \<Rightarrow>
          (let plain = filter (\<lambda>p. \<not> snd p) ps
           in if length plain = 1 then Some (fst (hd plain)) else None))"

record router_decision =
  rd_tool :: "string option"
  rd_confidence :: rat
  rd_arguments :: pydict

definition certain :: "string \<Rightarrow> pydict \<Rightarrow> router_decision" where
  "certain name args = \<lparr>rd_tool = Some name, rd_confidence = 1, rd_arguments = args\<rparr>"

text \<open>\<open>s.split('::', 1)\<close>, \<open>None\<close> where the separator is absent.\<close>

fun split_colons :: "string \<Rightarrow> (string \<times> string) option" where
  "split_colons [] = None"
| "split_colons (c # cs) =
     (if startswith (c # cs) ''::'' then Some ([], drop 1 cs)
      else map_option (apfst ((#) c)) (split_colons cs))"

definition parse_write_file :: "string \<Rightarrow> router_decision result" where
  "parse_write_file args =
     (case split_colons args of
        None \<Rightarrow> Inl (ValueError ''Malformed write command: missing '::' separator'')
      | Some (p, c) \<Rightarrow>
          if strip p = [] then Inl (ValueError ''Missing path for write command'')
          else if strip c = [] then Inl (ValueError ''Missing content for write command'')
          else Inr (certain ''write_file'' [(''path'', PStr (strip p)), (''content'', PStr (strip c))]))"

definition parse_bash :: "string \<Rightarrow> router_decision result" where
  "parse_bash args =
     (case shlex_split args of
        Inl e \<Rightarrow> Inl (ValueError (''Malformed bash command: '' @ exn_message e))
      | Inr [] \<Rightarrow> Inl (ValueError ''Empty bash command'')
      | Inr ws \<Rightarrow> Inr (certain ''bash'' [(''cmd_args'', PList (map PStr ws))]))"

definition parse_memory_write :: "string \<Rightarrow> router_decision result" where
  "parse_memory_write args =
     (case split_colons args of
        None \<Rightarrow> Inl (ValueError ''Malformed memory write command: missing '::' separator'')
      | Some (destination, content) \<Rightarrow>
          if strip content = [] then Inl (ValueError ''Missing content for memory write command'')
          else
            (let decide = (\<lambda>md ref. certain ''memory_write''
                   [(''ref'', PStr ref), (''content'', PStr (strip content)), (''mode'', PStr md)]);
                 malformed = Inl (ValueError (''Malformed memory write command. Use '' @
                   ''memory_write [{append|create|overwrite}] <ref> :: <content>''))
             in case split_ws (strip destination) of
                  [ref] \<Rightarrow> Inr (decide ''create'' ref)
                | [md, ref] \<Rightarrow>
                    if md \<in> set MEMORY_WRITE_MODES then Inr (decide md ref) else malformed
                | _ \<Rightarrow> malformed))"

text \<open>\<open>text.strip().split(maxsplit=1)\<close>: what follows the first word, stripped; empty when there is
  only one word.\<close>

definition arguments_text :: "string \<Rightarrow> string" where
  "arguments_text command = strip (dropWhile (\<lambda>c. \<not> py_isspace c) (strip command))"

definition parse_tier1_request ::
  "('h \<Rightarrow> handler_kind) \<Rightarrow> string \<Rightarrow> 'h registry \<Rightarrow> router_decision option result" where
  "parse_tier1_request sig_of command reg =
     (case deterministic_match command reg of
        None \<Rightarrow> Inr None
      | Some s \<Rightarrow>
          (let args = arguments_text command
           in if args = [] then Inl (ValueError (''Missing arguments for command '' @ skill_name s))
              else if skill_name s = ''read_file'' then
                Inr (Some (certain ''read_file'' [(''path'', PStr args)]))
              else if skill_name s = ''write_file'' then
                bind_result (parse_write_file args) (\<lambda>d. Inr (Some d))
              else if skill_name s = ''bash'' then
                bind_result (parse_bash args) (\<lambda>d. Inr (Some d))
              else if skill_name s = ''memory_write'' then
                bind_result (parse_memory_write args) (\<lambda>d. Inr (Some d))
              else
                (case single_text_argument_name (sig_of (skill_handler s)) of
                   None \<Rightarrow> Inr None
                 | Some a \<Rightarrow> Inr (Some (certain (skill_name s) [(a, PStr args)])))))"

section \<open>The default registry\<close>

record 'h native_handlers =
  h_read_file :: 'h
  h_edit_file :: 'h
  h_bash :: 'h
  h_memory_write :: 'h

definition native_skills :: "'h native_handlers \<Rightarrow> 'h skill list" where
  "native_skills h =
     [\<lparr>skill_name = ''read_file'', skill_aliases = [''read''], skill_handler = h_read_file h\<rparr>,
      \<lparr>skill_name = ''write_file'', skill_aliases = [''write'', ''edit''], skill_handler = h_edit_file h\<rparr>,
      \<lparr>skill_name = ''bash'', skill_aliases = [], skill_handler = h_bash h\<rparr>,
      \<lparr>skill_name = ''memory_write'', skill_aliases = [''memory-write''], skill_handler = h_memory_write h\<rparr>]"

text \<open>An MCP tool that cannot be registered is skipped with a warning.\<close>

definition add_mcp_tool :: "string \<times> 'h \<Rightarrow> 'h registry \<Rightarrow> 'h registry" where
  "add_mcp_tool t reg =
     (case bind_result (mk_skill (fst t) [] (snd t)) (\<lambda>s. register s reg) of
        Inl _ \<Rightarrow> reg | Inr reg' \<Rightarrow> reg')"

definition build_default_registry :: "'h native_handlers \<Rightarrow> (string \<times> 'h) list \<Rightarrow> 'h registry result" where
  "build_default_registry h mcp_tools =
     bind_result (register_all (native_skills h) []) (\<lambda>reg. Inr (fold add_mcp_tool mcp_tools reg))"


section \<open>Commands are unambiguous\<close>

definition command_words :: "'h skill \<Rightarrow> string list" where
  "command_words s = skill_name s # skill_aliases s"

definition skill_ok :: "'h skill \<Rightarrow> bool" where
  "skill_ok s = (distinct (command_words s) \<and> [] \<notin> set (command_words s))"

definition registry_ok :: "'h registry \<Rightarrow> bool" where
  "registry_ok reg =
     (map fst reg = map (skill_name \<circ> snd) reg \<and> distinct (concat (map (command_words \<circ> snd) reg)))"

lemma mk_skill_ok: "mk_skill n as h = Inr s \<Longrightarrow> skill_ok s"
  by (auto simp: mk_skill_def Let_def skill_ok_def command_words_def split: if_splits)

lemma registry_ok_Nil [simp]: "registry_ok []"
  by (simp add: registry_ok_def)

lemma alias_clash_None_iff:
  "alias_clash old as = None \<longleftrightarrow> set as \<inter> set (command_words old) = {}"
  by (induction as) (auto simp: command_words_def)

lemma collision_None_iff:
  "collision s olds = None \<longleftrightarrow>
     (\<forall>old\<in>set olds. skill_name s \<notin> set (skill_aliases old) \<and>
        set (skill_aliases s) \<inter> set (command_words old) = {})"
  by (induction olds) (auto simp: alias_clash_None_iff [symmetric] split: option.splits if_splits)

text \<open>What a registration succeeds on, and what it does: it appends.\<close>

definition fits :: "'h skill \<Rightarrow> 'h registry \<Rightarrow> bool" where
  "fits s reg = (set (command_words s) \<inter> (\<Union>old\<in>set (map snd reg). set (command_words old)) = {})"

lemma update_new: "dict_get reg k = None \<Longrightarrow> dict_set k v reg = reg @ [(k, v)]"
  by (induction reg) (auto split: if_splits)

lemma name_taken:
  assumes "map fst reg = map (skill_name \<circ> snd) reg"
  shows "dict_get reg n = None \<longleftrightarrow> n \<notin> skill_name ` set (map snd reg)"
proof -
  have "fst ` set reg = (skill_name \<circ> snd) ` set reg" using arg_cong [OF assms, of set] by simp
  then show ?thesis by (simp add: map_of_eq_None_iff image_comp)
qed

lemma register_eq:
  assumes "registry_ok reg"
  shows "register s reg = (if fits s reg then Inr (reg @ [(skill_name s, s)]) else
           Inl (if dict_get reg (skill_name s) \<noteq> None
                then ValueError (''Skill canonical name already registered: '' @ skill_name s)
                else ValueError (the (collision s (map snd reg)))))"
proof -
  have names: "map fst reg = map (skill_name \<circ> snd) reg" using assms by (simp add: registry_ok_def)
  have "fits s reg \<longleftrightarrow> dict_get reg (skill_name s) = None \<and> collision s (map snd reg) = None"
    unfolding name_taken [OF names] collision_None_iff by (auto simp: fits_def command_words_def)
  then show ?thesis by (auto simp: register_def update_new split: option.splits)
qed

lemma register_keeps:
  assumes "registry_ok reg" "skill_ok s" "register s reg = Inr reg'"
  shows "registry_ok reg'"
  using assms by (fastforce simp: register_eq registry_ok_def skill_ok_def fits_def split: if_splits)

lemma register_all_keeps:
  "registry_ok reg \<Longrightarrow> list_all skill_ok ss \<Longrightarrow> register_all ss reg = Inr reg' \<Longrightarrow> registry_ok reg'"
  by (induction ss arbitrary: reg) (auto dest: register_keeps)

lemma register_all_appends:
  assumes "registry_ok reg" "list_all skill_ok ss" "register_all ss reg = Inr reg'"
  shows "reg' = reg @ map (\<lambda>s. (skill_name s, s)) ss"
  using assms
proof (induction ss arbitrary: reg)
  case (Cons s ss)
  then obtain mid where mid: "register s reg = Inr mid" "register_all ss mid = Inr reg'" by auto
  have "mid = reg @ [(skill_name s, s)]"
    using mid(1) register_eq [OF Cons.prems(1), of s] by (simp split: if_splits)
  moreover have "registry_ok mid" using Cons.prems mid(1) register_keeps by auto
  ultimately show ?case using Cons.IH [OF _ _ mid(2)] Cons.prems(2) by simp
qed simp

lemma shared_word:
  assumes "distinct (concat (map command_words ss))" "s \<in> set ss" "s' \<in> set ss"
    and "w \<in> set (command_words s)" "w \<in> set (command_words s')"
  shows "s = s'"
  using assms by (induction ss) auto

lemma matches_word: "matches s c \<Longrightarrow> matches s' c \<Longrightarrow> \<exists>w. w \<in> set (command_words s) \<and> w \<in> set (command_words s')"
  by (auto simp: matches_def command_words_def split: list.splits)

lemma match_unique:
  assumes "registry_ok reg" "s \<in> set (map snd reg)" "s' \<in> set (map snd reg)" "matches s c" "matches s' c"
  shows "s = s'"
proof -
  have "distinct (concat (map command_words (map snd reg)))" using assms(1) by (simp add: registry_ok_def)
  with shared_word assms(2,3) matches_word [OF assms(4,5)] show ?thesis by blast
qed

lemma find_in: "find P xs = Some x \<Longrightarrow> x \<in> set xs \<and> P x"
  by (auto simp: find_Some_iff)

lemma match_of_member:
  assumes "registry_ok reg" "s \<in> set (map snd reg)" "matches s c"
  shows "deterministic_match c reg = Some s"
proof (cases "find (\<lambda>s. matches s c) (map snd reg)")
  case None
  with assms(2,3) show ?thesis by (metis find_None_iff)
next
  case (Some s')
  from find_in [OF this] have "s' = s" using match_unique [OF assms(1) _ assms(2) _ assms(3)] by blast
  with Some show ?thesis by (simp add: deterministic_match_def)
qed

text \<open>The registries the program can build: skills come from their constructor.\<close>

definition made :: "'h skill \<Rightarrow> bool" where
  "made s = (\<exists>n as h. mk_skill n as h = Inr s)"

inductive built :: "'h registry \<Rightarrow> bool" where
  built_empty: "built []"
| built_register: "built reg \<Longrightarrow> made s \<Longrightarrow> register s reg = Inr reg' \<Longrightarrow> built reg'"
| built_many: "built reg \<Longrightarrow> list_all made ss \<Longrightarrow> register_many ss reg = (res, reg') \<Longrightarrow> built reg'"

lemma made_ok: "made s \<Longrightarrow> skill_ok s"
  by (auto simp: made_def dest: mk_skill_ok)

lemma register_all_append:
  "register_all (xs @ ys) reg = bind_result (register_all xs reg) (register_all ys)"
proof (induction xs arbitrary: reg)
  case (Cons x xs)
  then show ?case by (cases "register x reg") simp_all
qed simp

text \<open>Replaying a registry on an empty one gives it back, so the shadow is the registry itself.\<close>

lemma replay: "registry_ok reg \<Longrightarrow> register_all (map snd reg) [] = Inr reg"
proof (induction reg rule: rev_induct)
  case (snoc x xs)
  obtain n s where x: "x = (n, s)" by (cases x)
  have xs: "registry_ok xs" and "n = skill_name s" and "fits s xs"
    using snoc.prems x by (auto simp: registry_ok_def fits_def)
  then show ?case using snoc.IH x by (simp add: register_all_append register_eq [OF xs])
qed simp

lemma fold_dict_set:
  assumes "registry_ok reg" "list_all skill_ok ss" "register_all ss reg = Inr reg'"
  shows "fold (\<lambda>s. dict_set (skill_name s) s) ss reg = reg'"
  using assms
proof (induction ss arbitrary: reg)
  case (Cons s ss)
  then obtain mid where mid: "register s reg = Inr mid" "register_all ss mid = Inr reg'" by auto
  then have "dict_set (skill_name s) s reg = mid"
    by (auto simp: register_def split: if_splits option.splits)
  moreover have "registry_ok mid" using Cons.prems mid(1) register_keeps by auto
  ultimately show ?case using Cons.IH [OF _ _ mid(2)] Cons.prems(2) by simp
qed simp

lemma register_many_eq:
  assumes "registry_ok reg" "list_all skill_ok ss"
  shows "register_many ss reg =
           (case register_all ss reg of Inl e \<Rightarrow> (Inl e, reg) | Inr reg' \<Rightarrow> (Inr (), reg'))"
  using assms fold_dict_set [OF assms] by (auto simp: register_many_def replay split: sum.splits)

lemma built_ok: "built reg \<Longrightarrow> registry_ok reg"
proof (induction rule: built.induct)
  case (built_many reg ss res reg')
  then have "list_all skill_ok ss" by (auto simp: list_all_iff made_ok)
  with built_many show ?case
    by (auto simp: register_many_eq split: sum.splits dest: register_all_keeps)
qed (auto dest: register_keeps made_ok)

section \<open>Correctness\<close>

text \<open>A command never fits two skills. In every registry the program can build, the skill that
  answers to the first word of a text is the same in whatever order the skills were registered:
  it is found whenever there is one, and no other skill answers to that word.\<close>

theorem command_is_unambiguous:
  assumes "built reg" "s \<in> set (map snd reg)" "matches s command"
  shows "deterministic_match command reg = Some s \<and>
         (\<forall>s'\<in>set (map snd reg). matches s' command \<longrightarrow> s' = s)"
  using match_of_member [OF built_ok assms(2,3)] match_unique [OF built_ok _ assms(2) _ assms(3)] assms(1)
  by blast

text \<open>A batch of skills is registered as if one by one, but whole or not at all: when any of them
  collides, with the registry or within the batch, the error is the one of the first collision
  and the live registry is unchanged.\<close>

theorem register_many_atomic:
  assumes "built reg" "list_all made ss"
  shows "register_many ss reg =
           (case register_all ss reg of Inl e \<Rightarrow> (Inl e, reg) | Inr reg' \<Rightarrow> (Inr (), reg'))"
proof (rule register_many_eq)
  show "registry_ok reg" using assms(1) by (rule built_ok)
  show "list_all skill_ok ss" using assms(2) by (auto simp: list_all_iff made_ok)
qed

lemma native_registered:
  "register_all (native_skills h) [] = Inr (map (\<lambda>s. (skill_name s, s)) (native_skills h))"
  by (simp add: native_skills_def register_def)

lemma native_ok: "registry_ok (map (\<lambda>s. (skill_name s, s)) (native_skills h))"
  by (simp add: native_skills_def registry_ok_def command_words_def)

lemma mcp_appends:
  assumes "registry_ok reg"
  shows "registry_ok (fold add_mcp_tool ts reg) \<and> (\<exists>more. fold add_mcp_tool ts reg = reg @ more)"
  using assms
proof (induction ts arbitrary: reg)
  case (Cons t ts)
  have "registry_ok (add_mcp_tool t reg) \<and> (\<exists>more. add_mcp_tool t reg = reg @ more)"
  proof (cases "bind_result (mk_skill (fst t) [] (snd t)) (\<lambda>s. register s reg)")
    case (Inr reg')
    then obtain s where s: "mk_skill (fst t) [] (snd t) = Inr s" "register s reg = Inr reg'" by auto
    then show ?thesis
      using Cons.prems register_keeps [OF Cons.prems mk_skill_ok] register_eq [OF Cons.prems, of s] Inr
      by (auto simp: add_mcp_tool_def split: if_splits)
  qed (simp add: add_mcp_tool_def Cons.prems)
  with Cons.IH show ?case by (metis append_assoc comp_apply fold_simps(2))
qed simp

text \<open>No MCP server can take over a native command. Whatever tools the servers offer, the default
  registry is built, its first skills are the native ones, and every text whose first word is a
  name or an alias of a native tool is dispatched to that tool.\<close>

theorem native_commands_protected:
  assumes "s \<in> set (native_skills h)" "matches s command"
  shows "\<exists>reg. build_default_registry h mcp_tools = Inr reg \<and> take 4 (map snd reg) = native_skills h \<and>
           deterministic_match command reg = Some s"
proof -
  let ?n = "map (\<lambda>s. (skill_name s, s)) (native_skills h)"
  let ?reg = "fold add_mcp_tool mcp_tools ?n"
  obtain more where ok: "registry_ok ?reg" and more: "?reg = ?n @ more"
    using mcp_appends [OF native_ok] by blast
  have "build_default_registry h mcp_tools = Inr ?reg"
    by (simp add: build_default_registry_def native_registered)
  moreover have "take 4 (map snd ?reg) = native_skills h" using more by (simp add: native_skills_def)
  moreover have "deterministic_match command ?reg = Some s"
    by (rule match_of_member [OF ok _ assms(2)]) (use assms(1) more in \<open>auto simp: image_image\<close>)
  ultimately show ?thesis by blast
qed

text \<open>A command that is read is a certain decision for the skill it names: the decision carries
  the canonical name of the one matching skill and full confidence, so the dispatcher acts on it
  without asking a model; a text is left to the model only when it starts with no registered word
  or the skill does not take one text argument.\<close>

theorem tier1_decides_for_the_match:
  assumes "parse_tier1_request sig_of command reg = Inr d"
  shows "case d of
           None \<Rightarrow>
             (case deterministic_match command reg of
                None \<Rightarrow> True | Some s \<Rightarrow> single_text_argument_name (sig_of (skill_handler s)) = None)
         | Some rd \<Rightarrow> rd_confidence rd = 1 \<and>
             (\<exists>s. deterministic_match command reg = Some s \<and> rd_tool rd = Some (skill_name s))"
  using assms
  by (auto simp: parse_tier1_request_def parse_write_file_def parse_bash_def parse_memory_write_def
        certain_def Let_def split: option.splits if_splits sum.splits list.splits)


section \<open>Witnesses\<close>

definition sample_natives :: "nat native_handlers" where
  "sample_natives = \<lparr>h_read_file = 1, h_edit_file = 2, h_bash = 3, h_memory_write = 4\<rparr>"

definition sample_registry :: "nat registry" where
  "sample_registry = map (\<lambda>s. (skill_name s, s)) (native_skills sample_natives)"

lemma made_normal:
  "n \<noteq> [] \<Longrightarrow> distinct (n # as) \<Longrightarrow> [] \<notin> set as \<Longrightarrow> map normal_word (n # as) = n # as \<Longrightarrow>
   made \<lparr>skill_name = n, skill_aliases = as, skill_handler = h\<rparr>"
  unfolding made_def
  by (rule exI [of _ n], rule exI [of _ as], rule exI [of _ h]) (simp add: mk_skill_def)

lemma native_words_normal:
  "map normal_word [''read_file'', ''read''] = [''read_file'', ''read'']"
  "map normal_word [''write_file'', ''write'', ''edit''] = [''write_file'', ''write'', ''edit'']"
  "map normal_word [''bash''] = [''bash'']"
  "map normal_word [''memory_write'', ''memory-write''] = [''memory_write'', ''memory-write'']"
  by code_simp+

lemma native_made: "list_all made (native_skills h)"
  unfolding native_skills_def list.pred_inject
  by (intro conjI TrueI made_normal native_words_normal) simp_all

lemma sample_registry_built: "built sample_registry"
proof (rule built_many [OF built_empty native_made])
  show "register_many (native_skills sample_natives) [] = (Inr (), sample_registry)"
    by (simp add: register_many_eq native_registered sample_registry_def list_all_iff
          native_made [unfolded list_all_iff, rule_format] made_ok)
qed

lemma sample_bash:
  "map snd sample_registry ! 2 = native_skills sample_natives ! 2"
  "matches (native_skills sample_natives ! 2) ''  BASH ls -l''"
  by (simp add: sample_registry_def native_skills_def, code_simp)

theorem command_is_unambiguous_witness:
  "deterministic_match ''  BASH ls -l'' sample_registry = Some (native_skills sample_natives ! 2)"
proof -
  have "native_skills sample_natives ! 2 \<in> set (map snd sample_registry)"
    by (simp add: sample_registry_def native_skills_def)
  from command_is_unambiguous [OF sample_registry_built this sample_bash(2)] show ?thesis by simp
qed

theorem register_many_atomic_witness:
  "register_many (native_skills sample_natives) sample_registry =
     (Inl (ValueError ''Skill canonical name already registered: read_file''), sample_registry)"
  unfolding register_many_atomic [OF sample_registry_built native_made]
  by (simp add: sample_registry_def native_skills_def register_def)

theorem native_commands_protected_witness:
  "\<exists>reg. build_default_registry sample_natives [(''Read'', 7), (''search'', 8)] = Inr reg \<and>
     deterministic_match ''  BASH ls -l'' reg = Some (native_skills sample_natives ! 2)"
proof -
  have "native_skills sample_natives ! 2 \<in> set (native_skills sample_natives)" by (simp add: native_skills_def)
  from native_commands_protected [OF this sample_bash(2), of "[(''Read'', 7), (''search'', 8)]"]
  show ?thesis by blast
qed

lemma sample_tier1:
  "parse_tier1_request (\<lambda>_. Tool_schema [])
     (''bash grep -n '' @ [CHR 0x22] @ ''a b'' @ [CHR 0x22] @ '' f'') sample_registry =
     Inr (Some (certain ''bash'' [(''cmd_args'',
       PList [PStr ''grep'', PStr ''-n'', PStr ''a b'', PStr ''f''])]))"
  by code_simp

theorem tier1_decides_for_the_match_witness:
  "\<exists>s. deterministic_match (''bash grep -n '' @ [CHR 0x22] @ ''a b'' @ [CHR 0x22] @ '' f'') sample_registry = Some s \<and>
       skill_name s = ''bash''"
  using tier1_decides_for_the_match [OF sample_tier1] by (auto simp: certain_def)

end
