(* ===== verification/Skill_Packages.thy ===== *)
theory Skill_Packages
  imports Sandbox Skills
begin

text \<open>
  \<open>agent_os/skill_packages.py\<close> and \<open>agent_os/plugins.py\<close>: skills from directories with a manifest and
  from entry points of installed distributions.

  \<^item> A \<open>py_host\<close> holds what lies outside the repository: \<open>tomllib\<close>, the execution of a Python file,
    which returns the attributes of the module and may change files, home directories and the
    working directory. Installed entry points are an argument: per group, names and what loading
    them gives. Contents of files are their bytes here; \<open>File None\<close> is a file that cannot be read.
  \<^item> \<open>discover\<close> and \<open>resolve_plugin\<close> are the methods of \<open>PluginRegistry\<close> (its cache is not modelled,
    the entry points do not change while a process runs).
  \<^item> \<open>load_package\<close>, \<open>load_from_directories\<close> and \<open>load_from_entry_points\<close> are the methods of
    \<open>SkillPackageLoader\<close>. They return the outcome, the registry and the file system.
  \<^item> The theorems: a package is registered whole or not at all, one skill per handler; it runs Python
    files below its own directory only; and packages and plugins only ever add skills, so that they
    cannot take a command away from a skill that is already there.
\<close>

section \<open>Paths as the system calls see them\<close>

definition os_node :: "filesystem \<Rightarrow> string list \<Rightarrow> node option" where
  "os_node fs p =
     (case path_resolve fs p of
        Inr r \<Rightarrow> if r = [] then Some Directory else map_of fs r
      | Inl _ \<Rightarrow> None)"

definition os_exists :: "filesystem \<Rightarrow> string list \<Rightarrow> bool" where
  "os_exists fs p = (os_node fs p \<noteq> None)"

definition os_is_dir :: "filesystem \<Rightarrow> string list \<Rightarrow> bool" where
  "os_is_dir fs p = (os_node fs p = Some Directory)"

definition os_is_file :: "filesystem \<Rightarrow> string list \<Rightarrow> bool" where
  "os_is_file fs p = (case os_node fs p of Some (File _) \<Rightarrow> True | _ \<Rightarrow> False)"

definition os_read :: "filesystem \<Rightarrow> string list \<Rightarrow> string result" where
  "os_read fs p =
     (case os_node fs p of
        Some (File (Some b)) \<Rightarrow> Inr b
      | Some (File None) \<Rightarrow> Inl (OtherError ''PermissionError'')
      | Some _ \<Rightarrow> Inl (OtherError ''IsADirectoryError'')
      | None \<Rightarrow> Inl (OtherError ''FileNotFoundError''))"

text \<open>The names in a directory.\<close>

definition children :: "filesystem \<Rightarrow> string list \<Rightarrow> string list" where
  "children fs p =
     (case path_resolve fs p of
        Inr r \<Rightarrow> map (\<lambda>q. hd (drop (length r) q))
                   (filter (\<lambda>q. length q = Suc (length r) \<and> take (length r) q = r) (remdups (map fst fs)))
      | Inl _ \<Rightarrow> [])"

definition abs_str :: "string list \<Rightarrow> string" where
  "abs_str p = CHR ''/'' # join ''/'' p"

section \<open>Entry points\<close>

type_synonym 'o entry_points = "string \<Rightarrow> (string \<times> 'o result) list"

fun collect_names :: "string \<Rightarrow> (string \<times> 'o) list \<Rightarrow> (string \<times> 'o) list \<Rightarrow> (string \<times> 'o) list result" where
  "collect_names grp found [] = Inr found"
| "collect_names grp found ((n, x) # eps) =
     (if strip n \<in> set (map fst found)
      then Inl (ValueError (''Duplicate plugin name '' @ strip n @ '' discovered in entry point group '' @ grp))
      else collect_names grp (found @ [(strip n, x)]) eps)"

definition discover :: "'o entry_points \<Rightarrow> string \<Rightarrow> (string \<times> 'o result) list result" where
  "discover eps grp = collect_names grp [] (eps grp)"

definition list_available :: "'o entry_points \<Rightarrow> string \<Rightarrow> string list result" where
  "list_available eps grp = bind_result (discover eps grp) (\<lambda>d. Inr (sort (map fst d)))"

definition resolve_plugin :: "'o entry_points \<Rightarrow> string \<Rightarrow> string \<Rightarrow> 'o result" where
  "resolve_plugin eps grp name =
     bind_result (discover eps grp) (\<lambda>found.
       case dict_get found (strip name) of
         None \<Rightarrow> Inl (ValueError (''Plugin '' @ strip name @ '' not found in group '' @ grp @
                   ''. Available plugins: '' @
                   (let names = join '', '' (sort (map fst found)) in if names = [] then ''none'' else names)))
       | Some (Inl e) \<Rightarrow> Inl (ValueError (''Failed to load plugin '' @ strip name @ '': '' @ exn_message e))
       | Some (Inr x) \<Rightarrow> Inr x)"

section \<open>Packages\<close>

text \<open>An attribute of a module: a tool or another callable, or any other value.\<close>

datatype 'h attribute = Callable 'h | Not_callable

record 'h py_host =
  host_toml :: "string \<Rightarrow> pydict result"
  host_exec :: "string list \<Rightarrow> filesystem \<Rightarrow> (string \<times> 'h attribute) list result \<times> filesystem"
  host_home :: "string \<Rightarrow> string list option"
  host_cwd :: "string list"

text \<open>\<open>str.isidentifier\<close>.\<close>

definition ident_start :: "char \<Rightarrow> bool" where
  "ident_start c = (let n = (of_char c :: nat) in is_lower c \<or> is_upper c \<or> c = CHR ''_'' \<or> n = 170 \<or> n = 181 \<or>
     n = 186 \<or> (192 \<le> n \<and> n \<le> 214) \<or> (216 \<le> n \<and> n \<le> 246) \<or> 248 \<le> n)"

definition ident_char :: "char \<Rightarrow> bool" where
  "ident_char c = (ident_start c \<or> is_digit c \<or> (of_char c :: nat) = 183)"

definition isidentifier :: "string \<Rightarrow> bool" where
  "isidentifier s = (case s of [] \<Rightarrow> False | c # cs \<Rightarrow> ident_start c \<and> list_all ident_char cs)"

definition nonempty_str :: "pyval option \<Rightarrow> bool" where
  "nonempty_str v = (case v of Some (PStr s) \<Rightarrow> strip s \<noteq> [] | _ \<Rightarrow> False)"

definition parse_entrypoint :: "string \<Rightarrow> pyval option \<Rightarrow> (string list \<times> string) result" where
  "parse_entrypoint manifest v =
     (let bad = Inl (ValueError (''Invalid entrypoint '' @ py_repr (case v of None \<Rightarrow> PNone | Some x \<Rightarrow> x) @
                  '' in '' @ manifest @ ''; expected 'module:function' ''))
      in case v of
           Some (PStr s) \<Rightarrow>
             (case split_on CHR '':'' s of
                [m, f] \<Rightarrow>
                  if m \<noteq> [] \<and> list_all isidentifier (split_on CHR ''.'' m) \<and> isidentifier f
                  then Inr (split_on CHR ''.'' m, f) else bad
              | _ \<Rightarrow> bad)
         | _ \<Rightarrow> bad)"

definition module_file :: "string list \<Rightarrow> string list \<Rightarrow> string list" where
  "module_file dir parts = dir @ butlast parts @ [List.last parts @ ''.py'']"

fun strings_of :: "pyval list \<Rightarrow> string list option" where
  "strings_of [] = Some []"
| "strings_of (PStr s # vs) = (if strip s = [] then None else map_option ((#) s) (strings_of vs))"
| "strings_of _ = None"

definition match_words :: "pyval option \<Rightarrow> string list option" where
  "match_words v = (case v of Some (PList (x # xs)) \<Rightarrow> strings_of (x # xs) | _ \<Rightarrow> None)"

definition load_handler ::
  "'h py_host \<Rightarrow> string list \<Rightarrow> pyval \<Rightarrow> filesystem \<Rightarrow> 'h skill result \<times> filesystem" where
  "load_handler host dir conf fs =
     (let manifest = abs_str (dir @ [''manifest.toml'']) in
      case conf of
        PDict d \<Rightarrow>
          (case parse_entrypoint manifest (dict_get d ''entrypoint'') of
             Inl e \<Rightarrow> (Inl e, fs)
           | Inr (parts, func) \<Rightarrow>
               if \<not> os_is_file fs (module_file dir parts)
               then (Inl (ValueError (''Module '' @ abs_str (module_file dir parts) @ '' not found in '' @ manifest)), fs)
               else (case host_exec host (module_file dir parts) fs of
                 (Inl e, fs') \<Rightarrow> (Inl (ValueError (''Failed to load from '' @ manifest @ '': '' @ exn_message e)), fs')
               | (Inr attrs, fs') \<Rightarrow>
                   (case dict_get attrs func of
                      None \<Rightarrow> (Inl (ValueError (''Function '' @ func @ '' not found in '' @ abs_str (module_file dir parts))), fs')
                    | Some Not_callable \<Rightarrow> (Inl (ValueError (''Handler is not callable in '' @ manifest)), fs')
                    | Some (Callable h) \<Rightarrow>
                        (case match_words (dict_get d ''match'') of
                           None \<Rightarrow> (Inl (ValueError (''Handler needs non-empty match values in '' @ manifest)), fs')
                         | Some ws \<Rightarrow> (mk_skill (hd ws) (tl ws) h, fs')))))
      | _ \<Rightarrow> (Inl (ValueError (''Handler entries must be tables in '' @ manifest)), fs))"

fun load_handlers ::
  "'h py_host \<Rightarrow> string list \<Rightarrow> pyval list \<Rightarrow> filesystem \<Rightarrow> 'h skill list result \<times> filesystem" where
  "load_handlers host dir [] fs = (Inr [], fs)"
| "load_handlers host dir (conf # confs) fs =
     (case load_handler host dir conf fs of
        (Inl e, fs') \<Rightarrow> (Inl e, fs')
      | (Inr s, fs') \<Rightarrow>
          (case load_handlers host dir confs fs' of
             (Inl e, fs'') \<Rightarrow> (Inl e, fs'')
           | (Inr ss, fs'') \<Rightarrow> (Inr (s # ss), fs'')))"

text \<open>The handlers a manifest declares, after the checks on its \<open>[skill]\<close> table.\<close>

definition manifest_handlers :: "'h py_host \<Rightarrow> string list \<Rightarrow> filesystem \<Rightarrow> pyval list result" where
  "manifest_handlers host dir fs =
     (let mf = dir @ [''manifest.toml'']; m = abs_str mf in
      if \<not> os_is_file fs mf then Inl (ValueError (''Skill manifest not found: '' @ m))
      else case bind_result (os_read fs mf) (host_toml host) of
        Inl e \<Rightarrow> Inl (ValueError (''Failed to parse manifest '' @ m @ '': '' @ exn_message e))
      | Inr manifest \<Rightarrow>
          (case dict_get manifest ''skill'' of
             Some (PDict meta) \<Rightarrow>
               if \<not> nonempty_str (dict_get meta ''name'')
               then Inl (ValueError (''[skill].name must be non-empty in '' @ m))
               else if \<not> nonempty_str (dict_get meta ''version'')
               then Inl (ValueError (''[skill].version must be non-empty in '' @ m))
               else (case dict_get meta ''handlers'' of
                       Some (PList (h # hs)) \<Rightarrow> Inr (h # hs)
                     | _ \<Rightarrow> Inl (ValueError (''[skill] must define at least one handler in '' @ m)))
           | _ \<Rightarrow> Inl (ValueError (''Missing [skill] table in '' @ m))))"

type_synonym 'h loading = "'h registry \<times> filesystem"

definition load_package :: "'h py_host \<Rightarrow> string list \<Rightarrow> 'h loading \<Rightarrow> unit result \<times> 'h loading" where
  "load_package host dir st =
     (case manifest_handlers host dir (snd st) of
        Inl e \<Rightarrow> (Inl e, st)
      | Inr hs \<Rightarrow>
          (case load_handlers host dir hs (snd st) of
             (Inl e, fs) \<Rightarrow> (Inl e, (fst st, fs))
           | (Inr ss, fs) \<Rightarrow>
               (case register_many ss (fst st) of (r, reg) \<Rightarrow> (r, (reg, fs)))))"

fun load_each :: "'h py_host \<Rightarrow> string list list \<Rightarrow> 'h loading \<Rightarrow> unit result \<times> 'h loading" where
  "load_each host [] st = (Inr (), st)"
| "load_each host (d # ds) st =
     (if os_is_dir (snd st) d
      then (case load_package host d st of
              (Inl e, st') \<Rightarrow> (Inl e, st')
            | (Inr _, st') \<Rightarrow> load_each host ds st')
      else load_each host ds st)"

fun load_from_directories :: "'h py_host \<Rightarrow> string list \<Rightarrow> 'h loading \<Rightarrow> unit result \<times> 'h loading" where
  "load_from_directories host [] st = (Inr (), st)"
| "load_from_directories host (root_dir # rest) st =
     (let p = join_path (host_cwd host) root_dir in
      if \<not> os_is_dir (snd st) p then load_from_directories host rest st
      else case load_each host (map (\<lambda>n. p @ [n]) (sort (children (snd st) p))) st of
             (Inl e, st') \<Rightarrow> (Inl e, st')
           | (Inr _, st') \<Rightarrow> load_from_directories host rest st')"

section \<open>Skills from entry points\<close>

text \<open>What an entry point gives: a path, a skill, skills, or a factory of one of these.\<close>

datatype 'h product =
    Path_product string
  | Skill_product "'h skill"
  | Skills_product "'h skill list"
  | Other_product

datatype 'h skill_target = Ready "'h product" | Factory "'h product result"

definition register_one :: "'h skill \<Rightarrow> 'h loading \<Rightarrow> unit result \<times> 'h loading" where
  "register_one s st =
     (case register s (fst st) of
        Inl e \<Rightarrow> (Inl e, st)
      | Inr reg \<Rightarrow> (Inr (), (reg, snd st)))"

definition take_product ::
  "'h py_host \<Rightarrow> string \<Rightarrow> string \<Rightarrow> 'h product \<Rightarrow> 'h loading \<Rightarrow> unit result \<times> 'h loading" where
  "take_product host bad_path bad_type given st =
     (case given of
        Path_product s \<Rightarrow>
          (let p = join_path (host_cwd host) s in
           if os_is_dir (snd st) p \<and> os_is_file (snd st) (p @ [''manifest.toml''])
           then load_package host p st else (Inl (ValueError bad_path), st))
      | Skill_product s \<Rightarrow> register_one s st
      | Skills_product ss \<Rightarrow>
          (case register_many ss (fst st) of (r, reg) \<Rightarrow> (r, (reg, snd st)))
      | Other_product \<Rightarrow> (Inl (ValueError bad_type), st))"

definition take_target :: "'h py_host \<Rightarrow> string \<Rightarrow> 'h skill_target \<Rightarrow> 'h loading \<Rightarrow> unit result \<times> 'h loading" where
  "take_target host ep t st =
     (case t of
        Ready given \<Rightarrow>
          take_product host (''Skill package plugin '' @ ep @ '' path is not a valid skill package directory.'')
            (''Skill package plugin '' @ ep @ '' returned unsupported object'') given st
      | Factory (Inl e) \<Rightarrow>
          (Inl (ValueError (''Failed to instantiate skill package plugin '' @ ep @ '': '' @ exn_message e)), st)
      | Factory (Inr given) \<Rightarrow>
          take_product host (''Skill package factory '' @ ep @ '' returned invalid path'')
            (''Skill package plugin '' @ ep @ '' factory returned unsupported type'') given st)"

fun take_targets ::
  "'h py_host \<Rightarrow> (string \<Rightarrow> 'h skill_target result) \<Rightarrow> string list \<Rightarrow> 'h loading \<Rightarrow> unit result \<times> 'h loading" where
  "take_targets host res [] st = (Inr (), st)"
| "take_targets host res (ep # eps) st =
     (case res ep of
        Inl e \<Rightarrow> (Inl (ValueError (''Failed to load skill package plugin '' @ ep @ '': '' @ exn_message e)), st)
      | Inr t \<Rightarrow>
          (case take_target host ep t st of
             (Inl e, st') \<Rightarrow> (Inl e, st')
           | (Inr _, st') \<Rightarrow> take_targets host res eps st'))"

definition load_from_entry_points ::
  "'h py_host \<Rightarrow> 'h skill_target entry_points \<Rightarrow> 'h loading \<Rightarrow> unit result \<times> 'h loading" where
  "load_from_entry_points host eps st =
     (case discover eps ''agent_os.skill_packages'' of
        Inl e \<Rightarrow> (Inl (ValueError (''Plugin discovery failed for group agent_os.skill_packages: '' @ exn_message e)), st)
      | Inr found \<Rightarrow>
          take_targets host (resolve_plugin eps ''agent_os.skill_packages'') (map fst found) st)"

section \<open>Packages and plugins only add skills\<close>

definition only_adds :: "'h registry \<Rightarrow> 'h registry \<Rightarrow> bool" where
  "only_adds reg reg' = (registry_ok reg \<longrightarrow> registry_ok reg' \<and> (\<exists>more. reg' = reg @ more))"

named_theorems adds \<open>operations that only add skills\<close>

lemma only_adds_refl [simp, adds]: "only_adds reg reg"
  by (simp add: only_adds_def)

lemma only_adds_trans: "only_adds a b \<Longrightarrow> only_adds b c \<Longrightarrow> only_adds a c"
  by (auto simp: only_adds_def)

lemma register_adds [adds]: "register s reg = Inr reg' \<Longrightarrow> skill_ok s \<Longrightarrow> only_adds reg reg'"
  using register_keeps [of reg s reg'] register_eq [of reg s] by (auto simp: only_adds_def split: if_splits)

lemma register_many_adds [adds]:
  "register_many ss reg = (r, reg') \<Longrightarrow> list_all skill_ok ss \<Longrightarrow> only_adds reg reg'"
  using register_all_keeps [of reg ss] register_all_appends [of reg ss]
  by (auto simp: only_adds_def register_many_eq split: sum.splits)

lemma load_handler_ok: "load_handler host dir conf fs = (Inr s, fs') \<Longrightarrow> skill_ok s"
  by (auto simp: load_handler_def Let_def dest: mk_skill_ok
      split: pyval.splits sum.splits prod.splits if_splits option.splits attribute.splits)

lemma load_handlers_ok:
  "load_handlers host dir hs fs = (Inr ss, fs') \<Longrightarrow> list_all skill_ok ss \<and> length ss = length hs"
proof (induction hs arbitrary: fs ss fs')
  case (Cons conf confs)
  from Cons.prems obtain s fs1 rest where l: "load_handler host dir conf fs = (Inr s, fs1)"
    "load_handlers host dir confs fs1 = (Inr rest, fs')" "ss = s # rest"
    by (auto split: sum.splits prod.splits)
  with Cons.IH [OF l(2)] load_handler_ok [OF l(1)] show ?case by simp
qed simp

lemma load_package_adds [adds]: "load_package host dir st = (r, st') \<Longrightarrow> only_adds (fst st) (fst st')"
  by (auto simp: load_package_def dest: load_handlers_ok intro: register_many_adds
      split: sum.splits prod.splits)

lemma load_each_adds [adds]: "load_each host ds st = (r, st') \<Longrightarrow> only_adds (fst st) (fst st')"
proof (induction host ds st rule: load_each.induct)
  case (2 host d ds st)
  then show ?case
    by (auto split: if_splits prod.splits sum.splits intro: only_adds_trans [OF load_package_adds] load_package_adds)
qed simp

lemma load_from_directories_adds [adds]:
  "load_from_directories host ds st = (r, st') \<Longrightarrow> only_adds (fst st) (fst st')"
proof (induction host ds st rule: load_from_directories.induct)
  case (2 host d ds st)
  then show ?case
    by (auto simp: Let_def split: if_splits prod.splits sum.splits
        intro: only_adds_trans [OF load_each_adds] load_each_adds)
qed simp

text \<open>The skills that entry points give are made by their constructor.\<close>

fun product_made :: "'h product \<Rightarrow> bool" where
  "product_made (Skill_product s) = made s"
| "product_made (Skills_product ss) = list_all made ss"
| "product_made _ = True"

fun target_made :: "'h skill_target \<Rightarrow> bool" where
  "target_made (Ready x) = product_made x"
| "target_made (Factory (Inr x)) = product_made x"
| "target_made (Factory (Inl e)) = True"

definition entry_points_made :: "'h skill_target entry_points \<Rightarrow> bool" where
  "entry_points_made eps = (\<forall>grp n t. (n, Inr t) \<in> set (eps grp) \<longrightarrow> target_made t)"

lemma take_product_adds:
  assumes "take_product host a b x st = (r, st')" "product_made x"
  shows "only_adds (fst st) (fst st')"
proof (cases x)
  case (Path_product s)
  with assms show ?thesis by (auto simp: take_product_def Let_def intro: load_package_adds split: if_splits)
next
  case (Skill_product s)
  with assms show ?thesis
    by (auto simp: take_product_def register_one_def intro: register_adds made_ok split: sum.splits)
next
  case (Skills_product ss)
  then have "list_all skill_ok ss" using assms(2) by (auto simp: list_all_iff intro: made_ok)
  with Skills_product assms(1) show ?thesis
    by (auto simp: take_product_def intro: register_many_adds split: prod.splits)
next
  case Other_product
  with assms show ?thesis by (simp add: take_product_def)
qed

lemma take_target_adds:
  "take_target host ep t st = (r, st') \<Longrightarrow> target_made t \<Longrightarrow> only_adds (fst st) (fst st')"
  by (cases t) (auto simp: take_target_def split: sum.splits dest: take_product_adds)

lemma collect_names_set:
  "collect_names grp found eps = Inr d \<Longrightarrow> set d = set found \<union> (\<lambda>(n, x). (strip n, x)) ` set eps"
  by (induction grp found eps rule: collect_names.induct) (auto split: if_splits)

lemma collect_names_distinct:
  "collect_names grp found eps = Inr d \<Longrightarrow> distinct (map fst found) \<Longrightarrow> distinct (map fst d)"
  by (induction grp found eps rule: collect_names.induct) (auto split: if_splits)

lemma resolve_plugin_made:
  assumes "resolve_plugin eps grp n = Inr t" "entry_points_made eps"
  shows "target_made t"
proof -
  from assms(1) obtain found where found: "discover eps grp = Inr found" by (auto simp: resolve_plugin_def)
  with assms(1) have "dict_get found (strip n) = Some (Inr t)"
    by (cases "dict_get found (strip n)") (auto simp: resolve_plugin_def split: sum.split_asm)
  with found have "\<exists>m. (m, Inr t) \<in> set (eps grp)"
    by (auto simp: discover_def dest!: collect_names_set map_of_SomeD)
  with assms(2) show ?thesis by (auto simp: entry_points_made_def)
qed

lemma take_targets_adds:
  "take_targets host res names st = (r, st') \<Longrightarrow> (\<And>n t. res n = Inr t \<Longrightarrow> target_made t) \<Longrightarrow>
     only_adds (fst st) (fst st')"
proof (induction host res names st rule: take_targets.induct)
  case (2 host res ep eps st)
  show ?case
  proof (cases "res ep")
    case (Inl e)
    with 2 show ?thesis by auto
  next
    case (Inr t)
    obtain r1 st1 where one: "take_target host ep t st = (r1, st1)" by (cases "take_target host ep t st")
    have a: "only_adds (fst st) (fst st1)" using take_target_adds [OF one] 2(3) Inr by blast
    show ?thesis
    proof (cases r1)
      case Inl
      with a one 2(2) Inr show ?thesis by auto
    next
      case (Inr u)
      with 2 one \<open>res ep = Inr t\<close> have "only_adds (fst st1) (fst st')" by fastforce
      with a show ?thesis by (rule only_adds_trans)
    qed
  qed
qed auto

lemma load_from_entry_points_adds:
  "load_from_entry_points host eps st = (r, st') \<Longrightarrow> entry_points_made eps \<Longrightarrow> only_adds (fst st) (fst st')"
  by (auto simp: load_from_entry_points_def dest: resolve_plugin_made intro: take_targets_adds split: sum.splits)

lemma only_adds_match:
  assumes "only_adds reg reg'" "built reg" "deterministic_match command reg = Some s"
  shows "deterministic_match command reg' = Some s"
proof -
  from assms(1,2) obtain more where more: "reg' = reg @ more" by (auto simp: only_adds_def dest: built_ok)
  have "find p (xs @ ys) = (case find p xs of None \<Rightarrow> find p ys | Some x \<Rightarrow> Some x)" for p and xs ys :: "'a skill list"
    by (induction xs) auto
  with assms(3) show ?thesis by (simp add: deterministic_match_def more)
qed

section \<open>What loading does\<close>

text \<open>Packages and plugins never take a command away. Whatever skill packages, directories and
  entry points are loaded into a registry the program can build, and however the loading ends, the
  skills that were there stay, and a command that one of them answers is still dispatched to it.\<close>

theorem packages_only_add:
  assumes "built (fst st)" "entry_points_made eps"
    and "load_package host dir st = (r, st') \<or> load_from_directories host dirs st = (r, st') \<or>
         load_from_entry_points host eps st = (r, st')"
  shows "(\<exists>more. fst st' = fst st @ more) \<and>
    (\<forall>command s. deterministic_match command (fst st) = Some s \<longrightarrow>
       deterministic_match command (fst st') = Some s)"
proof -
  from assms(2,3) have adds: "only_adds (fst st) (fst st')"
    using load_package_adds load_from_directories_adds load_from_entry_points_adds by blast
  with built_ok [OF assms(1)] only_adds_match [OF adds assms(1)] show ?thesis by (auto simp: only_adds_def)
qed

text \<open>C28: A package is registered whole or not at all. When loading fails, the registry is as before,
  whichever handler was at fault; when it succeeds, one skill per declared handler was added, in
  the order of the manifest, and there is at least one.\<close>

theorem package_whole_or_nothing:
  assumes "built (fst st)" "load_package host dir st = (r, st')"
  shows "case r of
           Inl _ \<Rightarrow> fst st' = fst st
         | Inr _ \<Rightarrow> \<exists>hs ss. manifest_handlers host dir (snd st) = Inr hs \<and> length ss = length hs \<and> ss \<noteq> [] \<and>
             fst (load_handlers host dir hs (snd st)) = Inr ss \<and>
             map snd (fst st') = map snd (fst st) @ ss"
proof (cases r)
  case (Inl e)
  with assms(2) show ?thesis
    by (auto simp: load_package_def register_many_def split: sum.splits prod.splits)
next
  case (Inr u)
  with assms(2) obtain hs ss fs where l: "manifest_handlers host dir (snd st) = Inr hs"
    "load_handlers host dir hs (snd st) = (Inr ss, fs)" "register_many ss (fst st) = (Inr u, fst st')"
    by (auto simp: load_package_def split: sum.splits prod.splits)
  have ok: "list_all skill_ok ss" "length ss = length hs" using load_handlers_ok [OF l(2)] by auto
  have "hs \<noteq> []" using l(1)
    by (auto simp: manifest_handlers_def Let_def split: if_splits sum.splits option.splits pyval.splits list.splits)
  moreover have "fst st' = fst st @ map (\<lambda>s. (skill_name s, s)) ss"
    using l(3) register_all_appends [OF built_ok [OF assms(1)] ok(1)] built_ok [OF assms(1)] ok(1)
    by (auto simp: register_many_eq split: sum.splits)
  ultimately show ?thesis using l ok Inr by (auto simp: o_def)
qed

lemma split_on_not_Nil [simp]: "split_on c s \<noteq> []"
  by (induction s) (auto split: list.splits)

text \<open>The file of a module lies below the package.\<close>

lemma module_file_below: "is_relative_to (module_file dir parts) dir"
  by (simp add: module_file_def is_relative_iff)

lemma load_handler_cong:
  assumes "host_toml host = host_toml host'" "\<And>p. is_relative_to p dir \<Longrightarrow> host_exec host p = host_exec host' p"
  shows "load_handler host dir conf = load_handler host' dir conf"
proof
  fix fs
  have "host_exec host (module_file dir parts) = host_exec host' (module_file dir parts)" for parts
    using assms(2) module_file_below by blast
  then show "load_handler host dir conf fs = load_handler host' dir conf fs"
    by (simp add: load_handler_def Let_def split: pyval.split sum.split prod.split)
qed

lemma load_handlers_cong:
  assumes "host_toml host = host_toml host'" "\<And>p. is_relative_to p dir \<Longrightarrow> host_exec host p = host_exec host' p"
  shows "load_handlers host dir confs fs = load_handlers host' dir confs fs"
  using load_handler_cong [OF assms] by (induction confs arbitrary: fs) (simp_all split: prod.splits sum.splits)

text \<open>Loading a package executes Python files below the package only. Two worlds that agree on
  what executing the files below the package does load it with the same result, whatever
  executing any other file would do; in particular no entry point of a manifest reaches a file
  outside of the package's directory, since the parts of a module name are identifiers.\<close>

theorem package_code_confined:
  assumes "host_toml host = host_toml host'"
    and "\<And>p. is_relative_to p dir \<Longrightarrow> host_exec host p = host_exec host' p"
    and "parse_entrypoint manifest v = Inr (parts, func)"
  shows "load_package host dir st = load_package host' dir st \<and>
    is_relative_to (module_file dir parts) dir \<and> ''..'' \<notin> set (drop (length dir) (module_file dir parts)) \<and>
    (\<forall>part\<in>set (drop (length dir) (module_file dir parts)). CHR ''/'' \<notin> set part)"
proof -
  have same: "manifest_handlers host dir fs = manifest_handlers host' dir fs" for fs
    by (simp add: manifest_handlers_def assms(1) Let_def)
  have idents: "list_all isidentifier parts" "parts \<noteq> []"
    using assms(3)
    by (auto simp: parse_entrypoint_def Let_def split: option.splits pyval.splits list.splits if_splits)
  have clean: "\<not> ident_char CHR ''.''" "\<not> ident_char CHR ''/''" by code_simp+
  have part: "CHR ''.'' \<notin> set p \<and> CHR ''/'' \<notin> set p" if "p \<in> set parts" for p
  proof -
    from that idents(1) have "isidentifier p" by (simp add: list_all_iff)
    then have "list_all ident_char p"
      by (cases p) (auto simp: isidentifier_def ident_char_def list_all_iff)
    with clean show ?thesis by (auto simp: list_all_iff)
  qed
  have names: "set (drop (length dir) (module_file dir parts)) \<subseteq> set parts \<union> {List.last parts @ ''.py''}"
    by (auto simp: module_file_def dest: in_set_butlastD)
  have last_in: "List.last parts \<in> set parts" using idents(2) by simp
  have "p \<noteq> ''..'' \<and> CHR ''/'' \<notin> set p" if "p \<in> set (drop (length dir) (module_file dir parts))" for p
    using subsetD [OF names that] part last_in by fastforce
  moreover have "load_handlers host dir hs fs = load_handlers host' dir hs fs" for hs fs
    using assms(1,2) by (rule load_handlers_cong)
  then have "load_package host dir st = load_package host' dir st"
    by (simp add: load_package_def same split: sum.split)
  ultimately show ?thesis using module_file_below by blast
qed

section \<open>Witnesses\<close>

definition sample_manifest :: pydict where
  "sample_manifest = [(''skill'', PDict [(''name'', PStr ''p''), (''version'', PStr ''1''),
     (''handlers'', PList [PDict [(''entrypoint'', PStr ''m:f''), (''match'', PList [PStr ''go''])]])])]"

definition sample_python :: "nat py_host" where
  "sample_python = \<lparr>host_toml = (\<lambda>_. Inr sample_manifest),
     host_exec = (\<lambda>p fs. if p = [''p'', ''m.py''] then (Inr [(''f'', Callable 7)], fs)
                         else (Inl (OtherError ''SyntaxError''), fs)),
     host_home = (\<lambda>_. None), host_cwd = []\<rparr>"

definition package_files :: filesystem where
  "package_files = [([''p''], Directory), ([''p'', ''manifest.toml''], File (Some [])),
     ([''p'', ''m.py''], File (Some []))]"

definition one_skill :: "nat registry" where
  "one_skill = [(''hi'', \<lparr>skill_name = ''hi'', skill_aliases = [], skill_handler = 1\<rparr>)]"

lemma one_skill_built: "built one_skill"
proof (rule built_register [OF built_empty])
  show "made \<lparr>skill_name = ''hi'', skill_aliases = [], skill_handler = 1::nat\<rparr>"
    by (rule made_normal) (simp_all, code_simp)
  show "register \<lparr>skill_name = ''hi'', skill_aliases = [], skill_handler = 1\<rparr> [] = Inr one_skill"
    by (simp add: register_def one_skill_def)
qed

lemma sample_package_load:
  "load_package sample_python [''p''] (one_skill, package_files) =
     (Inr (), (one_skill @ [(''go'', \<lparr>skill_name = ''go'', skill_aliases = [], skill_handler = 7\<rparr>)], package_files))"
  by code_simp

lemma sample_package_dispatch:
  "deterministic_match ''hi'' one_skill = Some \<lparr>skill_name = ''hi'', skill_aliases = [], skill_handler = 1\<rparr>"
  by code_simp

theorem packages_only_add_witness:
  "\<exists>st'. load_package sample_python [''p''] (one_skill, package_files) = (Inr (), st') \<and>
     deterministic_match ''hi'' (fst st') = deterministic_match ''hi'' one_skill"
proof -
  have e: "entry_points_made (\<lambda>_. [])" by (simp add: entry_points_made_def)
  show ?thesis
    using packages_only_add [of "(one_skill, package_files)", OF _ e disjI1 [OF sample_package_load]]
      one_skill_built sample_package_load sample_package_dispatch by simp
qed

theorem package_whole_or_nothing_witness:
  "\<exists>st' ss. load_package sample_python [''p''] (one_skill, package_files) = (Inr (), st') \<and> ss \<noteq> [] \<and>
     map snd (fst st') = map snd one_skill @ ss"
  using package_whole_or_nothing [of "(one_skill, package_files)", OF _ sample_package_load]
    one_skill_built sample_package_load by auto

lemma sample_entrypoint: "parse_entrypoint [] (Some (PStr ''m:f'')) = Inr ([''m''], ''f'')"
  by code_simp

theorem package_code_confined_witness:
  "load_package sample_python [''p''] (one_skill, package_files) =
     load_package (sample_python\<lparr>host_exec := \<lambda>p fs. if is_relative_to p [''p''] then host_exec sample_python p fs
       else (Inr [], [])\<rparr>) [''p''] (one_skill, package_files) \<and>
   is_relative_to (module_file [''p''] [''m'']) [''p'']"
  using package_code_confined [where host = sample_python and dir = "[''p'']" and st = "(one_skill, package_files)"
      and host' = "sample_python\<lparr>host_exec := \<lambda>p fs. if is_relative_to p [''p''] then host_exec sample_python p fs
       else (Inr [], [])\<rparr>", OF _ _ sample_entrypoint] by simp

end
