(* ===== verification/Db_Paths.thy ===== *)
theory Db_Paths
  imports Py_Prelude
begin

text \<open>
  Where the databases live: the \<open>_get_db_path\<close> functions of \<open>agent_os/runs.py\<close>,
  \<open>agent_os/schedules.py\<close>, \<open>agent_os/sessions.py\<close> and \<open>agent_os/public_concierge.py\<close>.

  \<^item> The process environment is a map from names to values (\<open>os.getenv\<close>).
  \<^item> \<open>splitext\<close> is \<open>os.path.splitext\<close> on POSIX paths.
  \<^item> The theorem is the reason for the derivation: a synchronous writer and the asynchronous
    checkpointer must not share a file, so the derived names are pairwise different.
\<close>

type_synonym environ = "string \<Rightarrow> string option"

definition CHECKPOINT_DB_ENV :: string where
  "CHECKPOINT_DB_ENV = ''AGENT_OS_CHECKPOINTS_DB''"

definition DEFAULT_CHECKPOINT_DB :: string where
  "DEFAULT_CHECKPOINT_DB = ''./checkpoints.db''"

definition getenv_or :: "environ \<Rightarrow> string \<Rightarrow> string \<Rightarrow> string" where
  "getenv_or env k d = (case env k of None \<Rightarrow> d | Some v \<Rightarrow> v)"

text \<open>The base name is split at its last dot, unless only dots stand before it.\<close>

definition splitext :: "string \<Rightarrow> string \<times> string" where
  "splitext p =
     (let base = rev (takeWhile (\<lambda>c. c \<noteq> CHR ''/'') (rev p));
          ext = rev (takeWhile (\<lambda>c. c \<noteq> CHR ''.'') (rev base));
          stem = take (length base - length ext - 1) base
      in if CHR ''.'' \<in> set base \<and> list_ex (\<lambda>c. c \<noteq> CHR ''.'') stem
         then (take (length p - length ext - 1) p, drop (length p - length ext - 1) p)
         else (p, []))"

definition derived_db_path :: "string \<Rightarrow> string \<Rightarrow> string" where
  "derived_db_path tag checkpoint_path =
     (if checkpoint_path = '':memory:'' then checkpoint_path
      else (case splitext checkpoint_path of
              (root, ext) \<Rightarrow> root @ tag @ (if ext = [] then ''.db'' else ext)))"

definition sessions_db_path :: "environ \<Rightarrow> string" where
  "sessions_db_path env = getenv_or env CHECKPOINT_DB_ENV DEFAULT_CHECKPOINT_DB"

definition runs_db_path :: "environ \<Rightarrow> string" where
  "runs_db_path env =
     (if opt_truthy (env ''AGENT_OS_RUNS_DB'') then the (env ''AGENT_OS_RUNS_DB'')
      else derived_db_path ''.runs'' (getenv_or env CHECKPOINT_DB_ENV DEFAULT_CHECKPOINT_DB))"

definition sched_db_path :: "environ \<Rightarrow> string" where
  "sched_db_path env =
     (if opt_truthy (env ''AGENT_OS_SCHED_DB'') then the (env ''AGENT_OS_SCHED_DB'')
      else derived_db_path ''.sched'' (getenv_or env CHECKPOINT_DB_ENV DEFAULT_CHECKPOINT_DB))"

definition public_concierge_db_path :: "environ \<Rightarrow> string" where
  "public_concierge_db_path env =
     or_str (env ''AGENT_OS_PUBLIC_CONCIERGE_DB'')
       (derived_db_path ''.public_concierge''
          (getenv_or env CHECKPOINT_DB_ENV DEFAULT_CHECKPOINT_DB))"

lemma splitext_append: "fst (splitext p) @ snd (splitext p) = p"
  by (simp add: splitext_def Let_def)

lemma derived_db_path_longer:
  assumes "p \<noteq> '':memory:''" "s \<noteq> []"
  shows "length p < length (derived_db_path s p)"
  using assms arg_cong [OF splitext_append [of p], of length]
  by (cases s) (auto simp: derived_db_path_def case_prod_beta)

lemma derived_db_path_inj:
  "p \<noteq> '':memory:'' \<Longrightarrow> derived_db_path s p = derived_db_path t p \<longleftrightarrow> s = t"
  by (auto simp: derived_db_path_def case_prod_beta)

text \<open>With no override set and a checkpoint database on disk, the checkpoint file, the run
  ledger, the scheduler database and the public concierge database are four different files.\<close>

theorem db_paths_distinct:
  assumes "env ''AGENT_OS_RUNS_DB'' = None" "env ''AGENT_OS_SCHED_DB'' = None"
    and "env ''AGENT_OS_PUBLIC_CONCIERGE_DB'' = None"
    and "sessions_db_path env \<noteq> '':memory:''"
  shows "distinct [sessions_db_path env, runs_db_path env, sched_db_path env,
           public_concierge_db_path env]"
proof -
  let ?p = "sessions_db_path env"
  have d: "runs_db_path env = derived_db_path ''.runs'' ?p"
    "sched_db_path env = derived_db_path ''.sched'' ?p"
    "public_concierge_db_path env = derived_db_path ''.public_concierge'' ?p"
    using assms(1-3)
    by (simp_all add: runs_db_path_def sched_db_path_def public_concierge_db_path_def
        sessions_db_path_def)
  have ne: "?p \<noteq> derived_db_path s ?p" if "s \<noteq> []" for s
    using derived_db_path_longer [OF assms(4) that] by auto
  show ?thesis using ne assms(4) unfolding d by (simp add: derived_db_path_inj)
qed

definition sample_environ :: environ where
  "sample_environ = (\<lambda>k. if k = ''AGENT_OS_CHECKPOINTS_DB'' then Some ''/data/a.b/state.sqlite'' else None)"

theorem db_paths_distinct_witness:
  "distinct [sessions_db_path sample_environ, runs_db_path sample_environ, sched_db_path sample_environ,
     public_concierge_db_path sample_environ] \<and>
   sched_db_path sample_environ = ''/data/a.b/state.sched.sqlite''"
proof
  have *: "sessions_db_path sample_environ = ''/data/a.b/state.sqlite''"
    by (simp add: sessions_db_path_def sample_environ_def getenv_or_def CHECKPOINT_DB_ENV_def)
  show "distinct [sessions_db_path sample_environ, runs_db_path sample_environ, sched_db_path sample_environ,
     public_concierge_db_path sample_environ]"
    by (rule db_paths_distinct) (simp_all add: *, simp_all add: sample_environ_def)
  show "sched_db_path sample_environ = ''/data/a.b/state.sched.sqlite''"
    by (simp add: sched_db_path_def sample_environ_def getenv_or_def CHECKPOINT_DB_ENV_def
        derived_db_path_def splitext_def)
qed

end
