(* ===== verification/Observations.thy ===== *)
theory Observations
  imports Py_Float Db_Paths
begin

text \<open>
  \<open>agent_os/observations.py\<close>: the store of labelled outcomes and of the strategy each run was given.

  \<^item> \<open>obs_store\<close> holds the two tables. Every public method of \<open>SqliteObservationStore\<close> is a definition
    with the checks it makes; an id and the time are arguments.
  \<^item> \<open>hashlib.sha256\<close> is the record \<open>hash_lib\<close> (the hexadecimal digest and the digest as a number).
  \<^item> \<open>task_signature_for_input\<close> is the text before the private context of a task, its words hashed.
  \<^item> The theorems: rows are bounded and normalised after any history; what is aggregated does not
    depend on any free text; an assignment never changes once it is made; exploration spreads runs
    evenly; and the advisory text keeps its limits, though a row of recent unlabelled runs hides
    all labelled evidence.
\<close>

section \<open>Limits and checks\<close>

definition MAX_EVIDENCE_CHARS :: nat where "MAX_EVIDENCE_CHARS = 500"

definition MAX_APPROACH_CHARS :: nat where "MAX_APPROACH_CHARS = 120"

definition MAX_ARTIFACT_REFS :: nat where "MAX_ARTIFACT_REFS = 8"

definition MAX_ARTIFACT_REF_CHARS :: nat where "MAX_ARTIFACT_REF_CHARS = 160"

definition MAX_ADVISORIES :: nat where "MAX_ADVISORIES = 3"

definition MAX_ADVISORY_CHARS :: nat where "MAX_ADVISORY_CHARS = 900"

definition OUTCOME_SIGNALS :: "string list" where
  "OUTCOME_SIGNALS = [''accepted'', ''rejected'', ''edited'', ''unknown'']"

definition bounded_text :: "pyval \<Rightarrow> string \<Rightarrow> nat \<Rightarrow> bool \<Rightarrow> string option result" where
  "bounded_text v field limit required =
     (let missing = (if required then Inl (ValueError (field @ '' is required'')) else Inr None)
      in case v of
           PNone \<Rightarrow> missing
         | PStr s \<Rightarrow>
             (let normalized = join '' '' (split_ws s)
              in if normalized = [] then missing
                 else if length normalized > limit
                 then Inl (ValueError (field @ '' exceeds '' @ nat_str limit @ '' characters''))
                 else Inr (Some normalized))
         | _ \<Rightarrow> Inl (ValueError (field @ '' must be a string'')))"

fun validate_refs :: "pyval list \<Rightarrow> string list result" where
  "validate_refs [] = Inr []"
| "validate_refs (v # vs) =
     bind_result (bounded_text v ''artifact_refs entry'' MAX_ARTIFACT_REF_CHARS True) (\<lambda>ref.
       bind_result (validate_refs vs) (\<lambda>rest. Inr (the ref # rest)))"

definition validate_artifact_refs :: "pyval \<Rightarrow> string list result" where
  "validate_artifact_refs v =
     (case v of
        PNone \<Rightarrow> Inr []
      | PList vs \<Rightarrow>
          if length vs > MAX_ARTIFACT_REFS
          then Inl (ValueError (''artifact_refs exceeds '' @ nat_str MAX_ARTIFACT_REFS @ '' entries''))
          else validate_refs vs
      | _ \<Rightarrow> Inl (ValueError ''artifact_refs must be a list of strings''))"

section \<open>Task signatures\<close>

record hash_lib =
  sha256_hex :: "string \<Rightarrow> string"
  sha256_int :: "string \<Rightarrow> nat"

definition TASK_SIGNATURE_PREFIX :: string where
  "TASK_SIGNATURE_PREFIX = ''sha256:v1:''"

definition PRIVATE_CONTEXT_MARKER :: string where
  "PRIVATE_CONTEXT_MARKER = ''private application context:''"

definition SIGNATURE_STOPWORDS :: "string list" where
  "SIGNATURE_STOPWORDS =
     [''a'', ''an'', ''and'', ''for'', ''in'', ''of'', ''on'', ''or'', ''the'', ''to'', ''with'', ''please'',
      ''private'', ''application'', ''context'', ''requested'', ''workspace'']"

definition hex_char :: "char \<Rightarrow> bool" where
  "hex_char c = (is_digit c \<or> (97 \<le> (of_char c :: nat) \<and> (of_char c :: nat) \<le> 102))"

text \<open>\<open>[^\W_]\<close>: letters and digits.\<close>

definition alnum_char :: "char \<Rightarrow> bool" where
  "alnum_char c =
     (let n = (of_char c :: nat)
      in is_digit c \<or> is_lower c \<or> is_upper c \<or> n \<in> {170, 178, 179, 181, 185, 186, 188, 189, 190} \<or>
         (192 \<le> n \<and> n \<noteq> 215 \<and> n \<noteq> 247))"

text \<open>\<open>re.findall\<close> of a class repeated: the maximal runs of its characters.\<close>

fun runs_of :: "(char \<Rightarrow> bool) \<Rightarrow> string \<Rightarrow> string \<Rightarrow> string list" where
  "runs_of p acc [] = (if acc = [] then [] else [rev acc])"
| "runs_of p acc (c # cs) =
     (if p c then runs_of p (c # acc) cs
      else (if acc = [] then runs_of p [] cs else rev acc # runs_of p [] cs))"

text \<open>\<open>s.split(m, maxsplit=1)[0]\<close>\<close>

fun before_first :: "string \<Rightarrow> string \<Rightarrow> string" where
  "before_first m [] = []"
| "before_first m (c # cs) = (if startswith (c # cs) m then [] else c # before_first m cs)"

definition RLit :: "string \<Rightarrow> rexp" where
  "RLit s = foldr (\<lambda>c r. RSeq (RChr c) r) s ROne"

text \<open>The pattern up to its colon. Neither class before the colon contains a colon, so the colon of
  a match is the first one of the text.\<close>

definition TASK_ENVELOPE_RE :: rexp where
  "TASK_ENVELOPE_RE =
     (let space = RPlus (RCls py_isspace)
      in RSeq (RLit ''simonos'') (RSeq space (RSeq (RLit ''private'') (RSeq space (RSeq (RLit ''task'')
           (RSeq space (RPlus (RCls (\<lambda>c. c \<noteq> CHR '':'' \<and> c \<noteq> CHR 0x0A)))))))))"

definition strip_envelope :: "string \<Rightarrow> string" where
  "strip_envelope s =
     (if CHR '':'' \<in> set s \<and> fullmatch TASK_ENVELOPE_RE (takeWhile (\<lambda>c. c \<noteq> CHR '':'') s)
      then dropWhile py_isspace (after_first CHR '':'' s) else s)"

definition task_signature_for_input :: "hash_lib \<Rightarrow> pyval \<Rightarrow> string option" where
  "task_signature_for_input h task =
     (case task of
        PStr t \<Rightarrow>
          (let raw = strip t
           in if raw = [] then None
              else
                (let task_body = strip_envelope (before_first PRIVATE_CONTEXT_MARKER (py_lower raw));
                     tokens = filter (\<lambda>w. w \<notin> set SIGNATURE_STOPWORDS) (runs_of alnum_char [] task_body)
                 in if tokens = [] then None
                    else Some (TASK_SIGNATURE_PREFIX @ sha256_hex h (join '' '' tokens))))
      | _ \<Rightarrow> None)"

definition valid_signature :: "string \<Rightarrow> bool" where
  "valid_signature s =
     (startswith s TASK_SIGNATURE_PREFIX \<and> length s = length TASK_SIGNATURE_PREFIX + 64 \<and>
      list_all hex_char (drop (length TASK_SIGNATURE_PREFIX) s))"

definition validate_task_signature :: "pyval \<Rightarrow> string option result" where
  "validate_task_signature v =
     (case v of
        PNone \<Rightarrow> Inr None
      | PStr s \<Rightarrow> if valid_signature s then Inr (Some s)
                  else Inl (ValueError ''task_signature must be a sha256:v1 digest'')
      | _ \<Rightarrow> Inl (ValueError ''task_signature must be a sha256:v1 digest''))"

section \<open>The tables\<close>

record observation_row =
  ob_id :: string
  ob_schema_version :: int
  ob_workspace_id :: string
  ob_run_id :: "string option"
  ob_thread_id :: "string option"
  ob_task_kind :: string
  ob_task_signature :: "string option"
  ob_approach :: string
  ob_artifact_refs :: "string list"
  ob_outcome_signal :: string
  ob_outcome_evidence :: "string option"
  ob_source :: string
  ob_created_at :: string
  ob_updated_at :: string

record strategy_assignment =
  sa_run_id :: string
  sa_workspace_id :: string
  sa_task_kind :: string
  sa_strategy_id :: string
  sa_strategy_version :: int
  sa_selection_reason :: string
  sa_selector_version :: string
  sa_evidence_summary :: "pydict option"
  sa_selected_at :: string

record obs_store =
  observations_tbl :: "observation_row list"
  assignments_tbl :: "strategy_assignment list"

record observation_args =
  oa_workspace_id :: pyval
  oa_run_id :: pyval
  oa_thread_id :: pyval
  oa_task_kind :: pyval
  oa_task_signature :: pyval
  oa_approach :: pyval
  oa_artifact_refs :: pyval
  oa_outcome_signal :: string
  oa_outcome_evidence :: pyval
  oa_source :: pyval

definition observation_of :: "string \<Rightarrow> string \<Rightarrow> observation_args \<Rightarrow> observation_row result" where
  "observation_of uuid now a =
     bind_result (bounded_text (oa_workspace_id a) ''workspace_id'' 400 True) (\<lambda>workspace.
     bind_result (bounded_text (oa_task_kind a) ''task_kind'' 80 True) (\<lambda>task.
     bind_result (bounded_text (oa_approach a) ''approach'' MAX_APPROACH_CHARS True) (\<lambda>strategy.
     bind_result (bounded_text (oa_source a) ''source'' 80 True) (\<lambda>origin.
     bind_result (bounded_text (oa_outcome_evidence a) ''outcome_evidence'' MAX_EVIDENCE_CHARS False) (\<lambda>evidence.
     bind_result (bounded_text (oa_run_id a) ''run_id'' 100 False) (\<lambda>safe_run_id.
     bind_result (bounded_text (oa_thread_id a) ''thread_id'' 160 False) (\<lambda>safe_thread_id.
     bind_result (validate_task_signature (oa_task_signature a)) (\<lambda>safe_signature.
     bind_result (validate_artifact_refs (oa_artifact_refs a)) (\<lambda>refs.
       if oa_outcome_signal a \<notin> set OUTCOME_SIGNALS
       then Inl (ValueError ''outcome_signal must be accepted, rejected, edited, or unknown'')
       else Inr \<lparr>ob_id = uuid, ob_schema_version = 1, ob_workspace_id = the workspace,
              ob_run_id = safe_run_id, ob_thread_id = safe_thread_id, ob_task_kind = the task,
              ob_task_signature = safe_signature, ob_approach = the strategy, ob_artifact_refs = refs,
              ob_outcome_signal = oa_outcome_signal a, ob_outcome_evidence = evidence,
              ob_source = the origin, ob_created_at = now, ob_updated_at = now\<rparr>)))))))))"

definition create_observation ::
  "string \<Rightarrow> string \<Rightarrow> observation_args \<Rightarrow> obs_store \<Rightarrow> observation_row result \<times> obs_store" where
  "create_observation uuid now a s =
     (case observation_of uuid now a of
        Inl e \<Rightarrow> (Inl e, s)
      | Inr row \<Rightarrow>
          if lookup ob_id uuid (observations_tbl s) \<noteq> None
          then (Inl (OtherError ''UNIQUE constraint failed: observations.observation_id''), s)
          else (Inr row, s\<lparr>observations_tbl := observations_tbl s @ [row]\<rparr>))"

definition get_observation :: "string \<Rightarrow> obs_store \<Rightarrow> observation_row option" where
  "get_observation i s = lookup ob_id i (observations_tbl s)"

definition clamp :: "int \<Rightarrow> int \<Rightarrow> int \<Rightarrow> nat" where
  "clamp lo hi n = nat (max lo (min n hi))"

definition list_observations ::
  "string option \<Rightarrow> string option \<Rightarrow> int \<Rightarrow> obs_store \<Rightarrow> observation_row list" where
  "list_observations workspace kind limit s =
     take (clamp 1 100 limit)
       (order_desc ob_created_at
         (filter (\<lambda>r. (case workspace of None \<Rightarrow> True | Some w \<Rightarrow> ob_workspace_id r = w) \<and>
                      (case kind of None \<Rightarrow> True | Some k \<Rightarrow> ob_task_kind r = k))
           (observations_tbl s)))"

definition record_outcome ::
  "string \<Rightarrow> string \<Rightarrow> string \<Rightarrow> pyval \<Rightarrow> obs_store \<Rightarrow> observation_row option result \<times> obs_store" where
  "record_outcome now i signal evidence s =
     (if signal \<notin> {''accepted'', ''rejected'', ''edited''}
      then (Inl (ValueError ''signal must be accepted, rejected, or edited''), s)
      else case bounded_text evidence ''evidence'' MAX_EVIDENCE_CHARS False of
        Inl e \<Rightarrow> (Inl e, s)
      | Inr safe_evidence \<Rightarrow>
          (let t = update_where (\<lambda>r. ob_id r = i)
                     (\<lambda>r. r\<lparr>ob_outcome_signal := signal, ob_outcome_evidence := safe_evidence,
                            ob_updated_at := now\<rparr>) (observations_tbl s);
               s' = s\<lparr>observations_tbl := t\<rparr>
           in (Inr (if rowcount (\<lambda>r. ob_id r = i) (observations_tbl s) \<noteq> 1 then None
                    else get_observation i s'), s')))"

section \<open>Aggregates\<close>

record outcome_pattern =
  pt_workspace_id :: string
  pt_task_kind :: string
  pt_strategy_id :: string
  pt_accepted_count :: nat
  pt_rejected_count :: nat
  pt_edited_count :: nat
  pt_unknown_count :: nat
  pt_labelled_count :: nat
  pt_outcome_score :: rat
  pt_last_labelled_at :: "string option"
  pt_confidence :: string

definition count_signal :: "string \<Rightarrow> observation_row list \<Rightarrow> nat" where
  "count_signal sig rows = rowcount (\<lambda>r. ob_outcome_signal r = sig) rows"

definition outcome_score :: "nat \<Rightarrow> nat \<Rightarrow> nat \<Rightarrow> rat" where
  "outcome_score accepted edited labelled =
     (if labelled = 0 then 0 else to_double ((of_nat accepted + of_nat edited / 2) / of_nat labelled))"

definition last_labelled :: "observation_row list \<Rightarrow> string option" where
  "last_labelled rows =
     (case map ob_updated_at (filter (\<lambda>r. ob_outcome_signal r \<noteq> ''unknown'') rows) of
        [] \<Rightarrow> None
      | t # ts \<Rightarrow> Some (fold max ts t))"

definition pattern_of :: "string \<Rightarrow> string \<Rightarrow> observation_row list \<Rightarrow> string \<Rightarrow> outcome_pattern" where
  "pattern_of workspace kind tbl strategy =
     (let rows = filter (\<lambda>r. ob_workspace_id r = workspace \<and> ob_task_kind r = kind \<and> ob_approach r = strategy) tbl;
          accepted = count_signal ''accepted'' rows;
          rejected = count_signal ''rejected'' rows;
          edited = count_signal ''edited'' rows;
          labelled = accepted + rejected + edited
      in \<lparr>pt_workspace_id = workspace, pt_task_kind = kind, pt_strategy_id = strategy,
          pt_accepted_count = accepted, pt_rejected_count = rejected, pt_edited_count = edited,
          pt_unknown_count = count_signal ''unknown'' rows, pt_labelled_count = labelled,
          pt_outcome_score = outcome_score accepted edited labelled, pt_last_labelled_at = last_labelled rows,
          pt_confidence = (if 5 \<le> labelled then ''actionable'' else if 0 < labelled then ''exploratory''
                           else ''insufficient'')\<rparr>)"

definition aggregate_patterns ::
  "string \<Rightarrow> string \<Rightarrow> string list \<Rightarrow> obs_store \<Rightarrow> outcome_pattern list" where
  "aggregate_patterns workspace kind strategy_ids s =
     map (pattern_of workspace kind (observations_tbl s)) strategy_ids"

record task_signature_pattern =
  tp_workspace_id :: string
  tp_task_kind :: string
  tp_task_signature :: string
  tp_accepted_count :: nat
  tp_rejected_count :: nat
  tp_edited_count :: nat
  tp_occurrence_count :: nat
  tp_outcome_score :: rat
  tp_sample_run_ids :: "string list"

definition labelled_row :: "observation_row \<Rightarrow> bool" where
  "labelled_row r = (ob_outcome_signal r \<in> {''accepted'', ''rejected'', ''edited''})"

definition signature_pattern ::
  "string \<Rightarrow> nat \<Rightarrow> observation_row list \<Rightarrow> string \<times> string \<Rightarrow> task_signature_pattern" where
  "signature_pattern workspace samples rows g =
     (let grp = filter (\<lambda>r. ob_task_kind r = fst g \<and> ob_task_signature r = Some (snd g)) rows;
          accepted = count_signal ''accepted'' grp;
          rejected = count_signal ''rejected'' grp;
          edited = count_signal ''edited'' grp;
          n = accepted + rejected + edited
      in \<lparr>tp_workspace_id = workspace, tp_task_kind = fst g, tp_task_signature = snd g,
          tp_accepted_count = accepted, tp_rejected_count = rejected, tp_edited_count = edited,
          tp_occurrence_count = n, tp_outcome_score = outcome_score accepted edited n,
          tp_sample_run_ids =
            take samples (map (\<lambda>r. the (ob_run_id r))
              (rev (sort_key ob_created_at (sort_key ob_id (filter (\<lambda>r. ob_run_id r \<noteq> None) grp)))))\<rparr>)"

definition aggregate_task_signatures :: "string \<Rightarrow> int \<Rightarrow> obs_store \<Rightarrow> task_signature_pattern list" where
  "aggregate_task_signatures workspace sample_limit s =
     (let rows = filter (\<lambda>r. ob_workspace_id r = workspace \<and> ob_task_signature r \<noteq> None \<and> labelled_row r)
                   (observations_tbl s);
          groups = remdups (map (\<lambda>r. (ob_task_kind r, the (ob_task_signature r))) rows)
      in filter (\<lambda>p. tp_occurrence_count p \<noteq> 0)
           (map (signature_pattern workspace (clamp 1 10 sample_limit) rows)
             (sort_key fst (sort_key snd groups))))"

section \<open>Strategy assignments\<close>

definition get_strategy_assignment :: "string \<Rightarrow> obs_store \<Rightarrow> strategy_assignment option" where
  "get_strategy_assignment run s = lookup sa_run_id run (assignments_tbl s)"

definition is_int_value :: "pyval \<Rightarrow> bool" where
  "is_int_value v = (case v of PInt _ \<Rightarrow> True | _ \<Rightarrow> False)"

definition is_float_value :: "pyval \<Rightarrow> bool" where
  "is_float_value v = (case v of PFloat _ \<Rightarrow> True | _ \<Rightarrow> False)"

definition dict_of :: "(pyval \<Rightarrow> bool) \<Rightarrow> pyval option \<Rightarrow> bool" where
  "dict_of p v = (case v of Some (PDict d) \<Rightarrow> list_all (\<lambda>(_, x). p x) d | _ \<Rightarrow> False)"

definition validate_evidence_summary :: "pydict \<Rightarrow> unit result" where
  "validate_evidence_summary d =
     (if set (map fst d) \<noteq> {''labelled_counts'', ''scores'', ''winner'', ''threshold_met'', ''margin''}
      then Inl (ValueError ''evidence_summary must contain exactly: labelled_counts, scores, winner, threshold_met, margin'')
      else if \<not> dict_of is_int_value (dict_get d ''labelled_counts'')
      then Inl (ValueError ''evidence_summary.labelled_counts must be dict[str, int]'')
      else if \<not> dict_of is_float_value (dict_get d ''scores'')
      then Inl (ValueError ''evidence_summary.scores must be dict[str, float]'')
      else if \<not> (case dict_get d ''winner'' of Some (PStr _) \<Rightarrow> True | _ \<Rightarrow> False)
      then Inl (ValueError ''evidence_summary.winner must be a string'')
      else if \<not> (case dict_get d ''threshold_met'' of Some (PBool _) \<Rightarrow> True | _ \<Rightarrow> False)
      then Inl (ValueError ''evidence_summary.threshold_met must be a boolean'')
      else if \<not> (case dict_get d ''margin'' of Some (PFloat _) \<Rightarrow> True | _ \<Rightarrow> False)
      then Inl (ValueError ''evidence_summary.margin must be a float'')
      else Inr ())"

definition assign_strategy ::
  "string \<Rightarrow> string \<Rightarrow> string \<Rightarrow> string \<Rightarrow> string \<Rightarrow> int \<Rightarrow> string \<Rightarrow> string \<Rightarrow> pydict option \<Rightarrow> obs_store
     \<Rightarrow> string result \<times> obs_store" where
  "assign_strategy now workspace kind run strategy version reason selector evidence s =
     (case (case evidence of None \<Rightarrow> Inr () | Some d \<Rightarrow> validate_evidence_summary d) of
        Inl e \<Rightarrow> (Inl e, s)
      | Inr _ \<Rightarrow>
          (case lookup sa_run_id run (assignments_tbl s) of
             Some row \<Rightarrow> (Inr (sa_strategy_id row), s)
           | None \<Rightarrow>
               (Inr strategy, s\<lparr>assignments_tbl := assignments_tbl s @
                  [\<lparr>sa_run_id = run, sa_workspace_id = workspace, sa_task_kind = kind,
                    sa_strategy_id = strategy, sa_strategy_version = version,
                    sa_selection_reason = reason, sa_selector_version = selector,
                    sa_evidence_summary = evidence, sa_selected_at = now\<rparr>]\<rparr>)))"

definition assigned_count :: "string \<Rightarrow> string \<Rightarrow> obs_store \<Rightarrow> string \<Rightarrow> nat" where
  "assigned_count workspace kind s strategy =
     rowcount (\<lambda>r. sa_workspace_id r = workspace \<and> sa_task_kind r = kind \<and> sa_strategy_id r = strategy)
       (assignments_tbl s)"

definition least_assigned :: "(string \<Rightarrow> nat) \<Rightarrow> string list \<Rightarrow> string list" where
  "least_assigned cnt ids = sort (filter (\<lambda>i. cnt i = Min (set (map cnt ids))) ids)"

definition assign_balanced_exploration ::
  "hash_lib \<Rightarrow> string \<Rightarrow> string \<Rightarrow> string \<Rightarrow> string \<Rightarrow> string list \<Rightarrow> (string \<times> int) list \<Rightarrow> string
     \<Rightarrow> obs_store \<Rightarrow> string result \<times> obs_store" where
  "assign_balanced_exploration h now workspace kind run strategy_ids versions selector s =
     (if strategy_ids = [] then (Inl (ValueError ''strategy_ids must not be empty''), s)
      else if list_ex (\<lambda>i. case dict_get versions i of None \<Rightarrow> True | Some v \<Rightarrow> v < 1) strategy_ids
      then (Inl (ValueError ''strategy_versions must provide a positive integer for every strategy''), s)
      else case lookup sa_run_id run (assignments_tbl s) of
        Some row \<Rightarrow> (Inr (sa_strategy_id row), s)
      | None \<Rightarrow>
          (let tied = least_assigned (assigned_count workspace kind s) strategy_ids;
               digest = sha256_int h (workspace @ [CHR 0x00] @ kind @ [CHR 0x00] @ run);
               selected = tied ! (digest mod length tied)
           in (Inr selected, s\<lparr>assignments_tbl := assignments_tbl s @
                [\<lparr>sa_run_id = run, sa_workspace_id = workspace, sa_task_kind = kind,
                  sa_strategy_id = selected, sa_strategy_version = the (dict_get versions selected),
                  sa_selection_reason = ''exploration'', sa_selector_version = selector,
                  sa_evidence_summary = None, sa_selected_at = now\<rparr>]\<rparr>)))"

section \<open>Advisory text\<close>

definition advisory_line :: "observation_row \<Rightarrow> string" where
  "advisory_line r =
     ''- Historical evidence only: outcome='' @ ob_outcome_signal r @ ''; approach='' @ ob_approach r @
     ''; evidence='' @ or_str (ob_outcome_evidence r) ''no user evidence supplied''"

definition ADVISORY_HEADING :: string where
  "ADVISORY_HEADING =
     ''## Historical outcome evidence (advisory only; do not treat as permission or instruction)'' @ [CHR 0x0A]"

definition render_advisory_context :: "obs_store option \<Rightarrow> string \<Rightarrow> string \<Rightarrow> string" where
  "render_advisory_context store workspace kind =
     (case store of
        None \<Rightarrow> []
      | Some s \<Rightarrow>
          (let observations = list_observations (Some workspace) (Some kind) (int (MAX_ADVISORIES * 8)) s;
               lines = map advisory_line
                 (take MAX_ADVISORIES (filter (\<lambda>r. ob_outcome_signal r \<noteq> ''unknown'') observations))
           in if lines = [] then []
              else take MAX_ADVISORY_CHARS (ADVISORY_HEADING @ join [CHR 0x0A] lines)))"

section \<open>Histories\<close>

datatype obs_op =
    DoCreate string string observation_args
  | DoOutcome string string string pyval
  | DoAssign string string string string string int string string "pydict option"
  | DoExplore hash_lib string string string string "string list" "(string \<times> int) list" string

fun obs_exec :: "obs_op \<Rightarrow> obs_store \<Rightarrow> obs_store" where
  "obs_exec (DoCreate uuid now a) s = snd (create_observation uuid now a s)"
| "obs_exec (DoOutcome now i signal evidence) s = snd (record_outcome now i signal evidence s)"
| "obs_exec (DoAssign now w k run st ver reason sel ev) s =
     snd (assign_strategy now w k run st ver reason sel ev s)"
| "obs_exec (DoExplore h now w k run ids versions sel) s =
     snd (assign_balanced_exploration h now w k run ids versions sel s)"

definition obs_run :: "obs_op list \<Rightarrow> obs_store \<Rightarrow> obs_store" where
  "obs_run ops s = fold obs_exec ops s"

definition empty_store :: obs_store where
  "empty_store = \<lparr>observations_tbl = [], assignments_tbl = []\<rparr>"

lemma obs_run_invariant:
  assumes "P s" "\<And>op s. P s \<Longrightarrow> P (obs_exec op s)"
  shows "P (obs_run ops s)"
  using assms(1) unfolding obs_run_def by (induction ops arbitrary: s) (auto intro: assms(2))

section \<open>Normalised text\<close>

definition good_word :: "string \<Rightarrow> bool" where
  "good_word w = (w \<noteq> [] \<and> list_all (\<lambda>c. \<not> py_isspace c) w)"

lemma split_ws_aux_words:
  "list_all (\<lambda>c. \<not> py_isspace c) acc \<Longrightarrow> list_all good_word (split_ws_aux acc s)"
proof (induction s arbitrary: acc)
  case (Cons c s)
  then show ?case by (cases "py_isspace c"; cases "acc = []") (simp_all add: good_word_def)
qed (simp add: good_word_def)

lemma split_ws_words: "list_all good_word (split_ws s)"
  unfolding split_ws_def by (rule split_ws_aux_words) simp

lemma split_ws_aux_word:
  "list_all (\<lambda>c. \<not> py_isspace c) w \<Longrightarrow> split_ws_aux acc (w @ rest) = split_ws_aux (rev w @ acc) rest"
  by (induction w arbitrary: acc) auto

lemma split_ws_join: "list_all good_word ws \<Longrightarrow> split_ws (join '' '' ws) = ws"
  unfolding split_ws_def
proof (induction ws rule: induct_list012)
  case (2 w)
  then show ?case using split_ws_aux_word [of w "[]" "[]"] by (simp add: good_word_def)
next
  case (3 w v ws)
  have "py_isspace CHR '' ''" by code_simp
  with 3 split_ws_aux_word [of w "[]" "'' '' @ join '' '' (v # ws)"] show ?case
    by (simp add: good_word_def)
qed simp

definition normal_text :: "nat \<Rightarrow> string \<Rightarrow> bool" where
  "normal_text limit t = (t \<noteq> [] \<and> length t \<le> limit \<and> join '' '' (split_ws t) = t)"

definition normal_opt :: "nat \<Rightarrow> string option \<Rightarrow> bool" where
  "normal_opt limit v = (case v of None \<Rightarrow> True | Some t \<Rightarrow> normal_text limit t)"

lemma bounded_text_normal:
  "bounded_text v field limit required = Inr t \<Longrightarrow> normal_opt limit t \<and> (required \<longrightarrow> t \<noteq> None)"
  by (auto simp: bounded_text_def Let_def normal_opt_def normal_text_def split_ws_join split_ws_words
      split: pyval.splits if_splits)

lemma bounded_text_required:
  "bounded_text v field limit True = Inr t \<Longrightarrow> normal_text limit (the t)"
  using bounded_text_normal [of v field limit True t] by (auto simp: normal_opt_def)

lemma validate_refs_normal:
  "validate_refs vs = Inr refs \<Longrightarrow>
     length refs = length vs \<and> list_all (normal_text MAX_ARTIFACT_REF_CHARS) refs"
  by (induction vs arbitrary: refs) (auto simp: bounded_text_required)

definition row_ok :: "observation_row \<Rightarrow> bool" where
  "row_ok r =
     (normal_text 400 (ob_workspace_id r) \<and> normal_text 80 (ob_task_kind r) \<and>
      normal_text MAX_APPROACH_CHARS (ob_approach r) \<and> normal_text 80 (ob_source r) \<and>
      normal_opt MAX_EVIDENCE_CHARS (ob_outcome_evidence r) \<and> normal_opt 100 (ob_run_id r) \<and>
      normal_opt 160 (ob_thread_id r) \<and>
      (case ob_task_signature r of None \<Rightarrow> True | Some sig \<Rightarrow> valid_signature sig) \<and>
      length (ob_artifact_refs r) \<le> MAX_ARTIFACT_REFS \<and>
      list_all (normal_text MAX_ARTIFACT_REF_CHARS) (ob_artifact_refs r) \<and>
      ob_outcome_signal r \<in> set OUTCOME_SIGNALS)"

lemma validate_task_signature_ok:
  "validate_task_signature v = Inr sig \<Longrightarrow> (case sig of None \<Rightarrow> True | Some x \<Rightarrow> valid_signature x)"
  by (auto simp: validate_task_signature_def split: pyval.splits if_splits)

lemma validate_artifact_refs_ok:
  "validate_artifact_refs v = Inr refs \<Longrightarrow>
     length refs \<le> MAX_ARTIFACT_REFS \<and> list_all (normal_text MAX_ARTIFACT_REF_CHARS) refs"
  by (auto simp: validate_artifact_refs_def dest: validate_refs_normal split: pyval.splits if_splits)

lemma observation_of_ok:
  assumes "observation_of uuid now a = Inr r"
  shows "row_ok r \<and> ob_id r = uuid"
proof -
  from assms obtain w k st src ev run thread sig refs where
    "bounded_text (oa_workspace_id a) ''workspace_id'' 400 True = Inr w"
    "bounded_text (oa_task_kind a) ''task_kind'' 80 True = Inr k"
    "bounded_text (oa_approach a) ''approach'' MAX_APPROACH_CHARS True = Inr st"
    "bounded_text (oa_source a) ''source'' 80 True = Inr src"
    "bounded_text (oa_outcome_evidence a) ''outcome_evidence'' MAX_EVIDENCE_CHARS False = Inr ev"
    "bounded_text (oa_run_id a) ''run_id'' 100 False = Inr run"
    "bounded_text (oa_thread_id a) ''thread_id'' 160 False = Inr thread"
    "validate_task_signature (oa_task_signature a) = Inr sig"
    "validate_artifact_refs (oa_artifact_refs a) = Inr refs"
    "oa_outcome_signal a \<in> set OUTCOME_SIGNALS"
    "r = \<lparr>ob_id = uuid, ob_schema_version = 1, ob_workspace_id = the w,
              ob_run_id = run, ob_thread_id = thread, ob_task_kind = the k,
              ob_task_signature = sig, ob_approach = the st, ob_artifact_refs = refs,
              ob_outcome_signal = oa_outcome_signal a, ob_outcome_evidence = ev,
              ob_source = the src, ob_created_at = now, ob_updated_at = now\<rparr>"
    unfolding observation_of_def bind_result_Inr_iff by (elim exE conjE) (simp split: if_splits)
  then show ?thesis
    using bounded_text_required bounded_text_normal validate_task_signature_ok validate_artifact_refs_ok
    by (simp add: row_ok_def)
qed

definition store_ok :: "obs_store \<Rightarrow> bool" where
  "store_ok s = (unique_key ob_id (observations_tbl s) \<and> list_all row_ok (observations_tbl s) \<and>
     unique_key sa_run_id (assignments_tbl s))"

lemma record_outcome_row_ok:
  assumes "signal \<in> {''accepted'', ''rejected'', ''edited''}" "normal_opt MAX_EVIDENCE_CHARS ev" "row_ok r"
  shows "row_ok (r\<lparr>ob_outcome_signal := signal, ob_outcome_evidence := ev, ob_updated_at := now\<rparr>)"
proof -
  have "signal \<in> set OUTCOME_SIGNALS" using assms(1) by (auto simp: OUTCOME_SIGNALS_def)
  with assms(2,3) show ?thesis unfolding row_ok_def by simp
qed

lemma create_ok:
  assumes "store_ok s"
  shows "store_ok (snd (create_observation uuid now a s))"
proof (cases "observation_of uuid now a")
  case (Inr r)
  then have "row_ok r" "ob_id r = uuid" using observation_of_ok by auto
  with Inr assms show ?thesis
    by (cases "lookup ob_id uuid (observations_tbl s)")
       (auto simp: create_observation_def store_ok_def intro: unique_key_insert)
qed (simp add: create_observation_def assms)

lemma record_outcome_ok:
  assumes "store_ok s"
  shows "store_ok (snd (record_outcome now i signal ev s))"
proof (cases "signal \<in> {''accepted'', ''rejected'', ''edited''}")
  case ok: True
  show ?thesis
  proof (cases "bounded_text ev ''evidence'' MAX_EVIDENCE_CHARS False")
    case (Inl e)
    with ok assms show ?thesis unfolding record_outcome_def by simp
  next
    case (Inr t)
    then have t: "normal_opt MAX_EVIDENCE_CHARS t" using bounded_text_normal by blast
    let ?f = "\<lambda>r. r\<lparr>ob_outcome_signal := signal, ob_outcome_evidence := t, ob_updated_at := now\<rparr>"
    have "snd (record_outcome now i signal ev s) =
        s\<lparr>observations_tbl := update_where (\<lambda>r. ob_id r = i) ?f (observations_tbl s)\<rparr>"
      using ok Inr unfolding record_outcome_def by (simp add: Let_def)
    moreover have "list_all row_ok (update_where (\<lambda>r. ob_id r = i) ?f (observations_tbl s))"
      using assms record_outcome_row_ok [OF ok t]
      by (auto simp: store_ok_def update_where_def list_all_iff)
    ultimately show ?thesis
      using assms by (simp add: store_ok_def unique_key_update_where)
  qed
next
  case False
  then show ?thesis using assms unfolding record_outcome_def by simp
qed

definition adds_row :: "strategy_assignment \<Rightarrow> obs_store \<Rightarrow> obs_store \<Rightarrow> bool" where
  "adds_row row s s' =
     (observations_tbl s' = observations_tbl s \<and> assignments_tbl s' = assignments_tbl s @ [row])"

lemma assign_effect:
  "snd (assign_strategy now w k run st ver reason sel ev s) = s \<or>
   (lookup sa_run_id run (assignments_tbl s) = None \<and>
    (\<exists>row. sa_run_id row = run \<and> sa_workspace_id row = w \<and> sa_task_kind row = k \<and> sa_strategy_id row = st \<and>
       adds_row row s (snd (assign_strategy now w k run st ver reason sel ev s))))"
  by (auto simp: assign_strategy_def adds_row_def split: sum.splits option.splits)

lemma least_assigned_min:
  assumes "i \<in> set (least_assigned cnt ids)" "j \<in> set ids"
  shows "i \<in> set ids \<and> cnt i \<le> cnt j"
  using assms by (auto simp: least_assigned_def)

lemma least_assigned_nonempty: "ids \<noteq> [] \<Longrightarrow> least_assigned cnt ids \<noteq> []"
proof -
  assume "ids \<noteq> []"
  then have "Min (set (map cnt ids)) \<in> set (map cnt ids)" by (intro Min_in) auto
  then obtain i where "i \<in> set ids" "cnt i = Min (set (map cnt ids))" by auto
  then have "i \<in> set (least_assigned cnt ids)" by (simp add: least_assigned_def)
  then show ?thesis by auto
qed

lemma explore_effect:
  "snd (assign_balanced_exploration h now w k run ids versions sel s) = s \<or>
   (lookup sa_run_id run (assignments_tbl s) = None \<and>
    (\<exists>row. sa_run_id row = run \<and> sa_workspace_id row = w \<and> sa_task_kind row = k \<and>
       sa_strategy_id row \<in> set (least_assigned (assigned_count w k s) ids) \<and>
       adds_row row s (snd (assign_balanced_exploration h now w k run ids versions sel s))))"
proof (cases "ids = [] \<or> list_ex (\<lambda>i. case dict_get versions i of None \<Rightarrow> True | Some v \<Rightarrow> v < 1) ids \<or>
    lookup sa_run_id run (assignments_tbl s) \<noteq> None")
  case False
  let ?tied = "least_assigned (assigned_count w k s) ids"
  have "?tied ! (n mod length ?tied) \<in> set ?tied" for n
    using least_assigned_nonempty [of ids "assigned_count w k s"] False
    by (intro nth_mem) simp
  with False show ?thesis by (intro disjI2) (auto simp: assign_balanced_exploration_def adds_row_def Let_def)
qed (auto simp: assign_balanced_exploration_def)

lemma obs_exec_ok: "store_ok s \<Longrightarrow> store_ok (obs_exec op s)"
proof (cases op)
  case (DoAssign now w k run st ver reason sel ev)
  assume "store_ok s"
  with DoAssign assign_effect [of now w k run st ver reason sel ev s] show ?thesis
    by (auto simp: store_ok_def adds_row_def intro: unique_key_insert)
next
  case (DoExplore h now w k run ids versions sel)
  assume "store_ok s"
  with DoExplore explore_effect [of h now w k run ids versions sel s] show ?thesis
    by (auto simp: store_ok_def adds_row_def intro: unique_key_insert)
qed (simp_all add: create_ok record_outcome_ok)

text \<open>Stored evidence stays bounded. After any history of calls, accepted or refused, every
  observation has non-empty, white-space normalised texts within the limits of the store, one of
  the four outcome signals and a well-formed signature if any; ids are unique, and a run has at
  most one strategy assignment.\<close>

theorem observations_bounded: "store_ok (obs_run ops empty_store)"
proof (rule obs_run_invariant)
  show "store_ok empty_store" by (simp add: store_ok_def empty_store_def)
qed (rule obs_exec_ok)

section \<open>Exploration\<close>

text \<open>No other way of assigning is used in the scope, and exploration always has the same choice.\<close>

fun explores_only :: "string \<Rightarrow> string \<Rightarrow> string list \<Rightarrow> obs_op \<Rightarrow> bool" where
  "explores_only w k ids (DoAssign _ w' k' _ _ _ _ _ _) = ((w', k') \<noteq> (w, k))"
| "explores_only w k ids (DoExplore _ _ w' k' _ ids' _ _) = ((w', k') \<noteq> (w, k) \<or> ids' = ids)"
| "explores_only w k ids _ = True"

definition balanced :: "string \<Rightarrow> string \<Rightarrow> string list \<Rightarrow> obs_store \<Rightarrow> bool" where
  "balanced w k ids s =
     (\<forall>i\<in>set ids. \<forall>j\<in>set ids. assigned_count w k s i \<le> assigned_count w k s j + 1)"

lemma assigned_count_insert:
  "adds_row row s s' \<Longrightarrow> assigned_count w k s' i =
     assigned_count w k s i +
       (if sa_workspace_id row = w \<and> sa_task_kind row = k \<and> sa_strategy_id row = i then 1 else 0)"
  by (simp add: assigned_count_def rowcount_def adds_row_def)

lemma assigned_count_frame [simp]:
  "assigned_count w k (snd (create_observation uuid now a s)) = assigned_count w k s"
  "assigned_count w k (snd (record_outcome now i signal ev s)) = assigned_count w k s"
  by (auto simp: fun_eq_iff assigned_count_def create_observation_def record_outcome_def Let_def
      split: sum.splits)

lemma obs_exec_balanced:
  assumes "explores_only w k ids op" "balanced w k ids s"
  shows "balanced w k ids (obs_exec op s)"
proof (cases op)
  case (DoCreate uuid now a)
  with assms(2) show ?thesis by (simp add: balanced_def)
next
  case (DoOutcome now i signal ev)
  with assms(2) show ?thesis by (simp add: balanced_def)
next
  case (DoAssign now w' k' run st ver reason sel ev)
  with assms assign_effect [of now w' k' run st ver reason sel ev s] show ?thesis
    by (auto simp: balanced_def assigned_count_insert)
next
  case (DoExplore h now w' k' run ids' versions sel)
  from explore_effect [of h now w' k' run ids' versions sel s]
  show ?thesis
  proof (elim disjE conjE exE)
    assume "snd (assign_balanced_exploration h now w' k' run ids' versions sel s) = s"
    with DoExplore assms(2) show ?thesis by simp
  next
    fix row
    assume row: "sa_workspace_id row = w'" "sa_task_kind row = k'"
      "sa_strategy_id row \<in> set (least_assigned (assigned_count w' k' s) ids')"
      "adds_row row s (snd (assign_balanced_exploration h now w' k' run ids' versions sel s))"
    show ?thesis
    proof (cases "(w', k') = (w, k)")
      case True
      then have "ids' = ids" using assms(1) DoExplore by simp
      then have "assigned_count w k s (sa_strategy_id row) \<le> assigned_count w k s j" if "j \<in> set ids" for j
        using least_assigned_min [OF row(3)] that True by simp
      with True DoExplore row assms(2) show ?thesis by (force simp: balanced_def assigned_count_insert)
    next
      case False
      with DoExplore row assms(2) show ?thesis by (auto simp: balanced_def assigned_count_insert)
    qed
  qed
qed

text \<open>Exploration is fair. In a workspace and task kind where strategies are assigned by
  exploration only, the numbers of runs that any two strategies were given never differ by more
  than one, whatever the digests of the runs are and however often a run asks again.\<close>

theorem exploration_balanced:
  assumes "list_all (explores_only w k ids) ops" "i \<in> set ids" "j \<in> set ids"
  shows "assigned_count w k (obs_run ops empty_store) i \<le> assigned_count w k (obs_run ops empty_store) j + 1"
proof -
  have "balanced w k ids (obs_run ops s)" if "balanced w k ids s" for s
    using that assms(1) unfolding obs_run_def
    by (induction ops arbitrary: s) (auto intro: obs_exec_balanced)
  moreover have "balanced w k ids empty_store"
    by (simp add: balanced_def empty_store_def assigned_count_def rowcount_def)
  ultimately show ?thesis using assms(2,3) by (simp add: balanced_def)
qed

section \<open>Free text takes no part\<close>

text \<open>What a row says apart from its texts.\<close>

definition label_of :: "observation_row \<Rightarrow> string \<times> string \<times> string \<times> string \<times> string" where
  "label_of r = (ob_workspace_id r, ob_task_kind r, ob_approach r, ob_outcome_signal r, ob_updated_at r)"

lemma filter_by_label:
  assumes "map f xs = map f ys" "\<And>x. P x = Q (f x)"
  shows "map f (filter P xs) = map f (filter P ys)"
proof -
  have "P = Q \<circ> f" using assms(2) by auto
  then show ?thesis using assms(1) by (metis filter_map)
qed

lemma map_by_label:
  assumes "map f xs = map f ys" "\<And>x. g x = h (f x)"
  shows "map g xs = map g ys"
proof -
  have "g = h \<circ> f" using assms(2) by auto
  then show ?thesis using assms(1) by (metis map_map)
qed

lemma count_signal_label:
  assumes "map label_of xs = map label_of ys"
  shows "count_signal sig xs = count_signal sig ys"
proof -
  have "map label_of (filter (\<lambda>r. ob_outcome_signal r = sig) xs) =
      map label_of (filter (\<lambda>r. ob_outcome_signal r = sig) ys)"
    by (rule filter_by_label [OF assms, where Q = "\<lambda>(_, _, _, s, _). s = sig"]) (simp add: label_of_def)
  then show ?thesis unfolding count_signal_def rowcount_def by (rule map_eq_imp_length_eq)
qed

lemma last_labelled_label: "map label_of xs = map label_of ys \<Longrightarrow> last_labelled xs = last_labelled ys"
proof -
  assume "map label_of xs = map label_of ys"
  then have "map label_of (filter (\<lambda>r. ob_outcome_signal r \<noteq> ''unknown'') xs) =
      map label_of (filter (\<lambda>r. ob_outcome_signal r \<noteq> ''unknown'') ys)"
    by (rule filter_by_label [where Q = "\<lambda>(_, _, _, s, _). s \<noteq> ''unknown''"]) (simp add: label_of_def)
  then have "map ob_updated_at (filter (\<lambda>r. ob_outcome_signal r \<noteq> ''unknown'') xs) =
      map ob_updated_at (filter (\<lambda>r. ob_outcome_signal r \<noteq> ''unknown'') ys)"
    by (rule map_by_label [where h = "\<lambda>(_, _, _, _, t). t"]) (simp add: label_of_def)
  then show ?thesis by (simp only: last_labelled_def)
qed

lemma aggregate_by_label:
  assumes "map label_of (observations_tbl s) = map label_of (observations_tbl s')"
  shows "aggregate_patterns w k ids s = aggregate_patterns w k ids s'"
proof -
  have rows: "map label_of (filter (\<lambda>r. ob_workspace_id r = w \<and> ob_task_kind r = k \<and> ob_approach r = st)
        (observations_tbl s)) =
      map label_of (filter (\<lambda>r. ob_workspace_id r = w \<and> ob_task_kind r = k \<and> ob_approach r = st)
        (observations_tbl s'))" for st
    by (rule filter_by_label [OF assms, where Q = "\<lambda>(a, b, c, _, _). a = w \<and> b = k \<and> c = st"])
       (simp add: label_of_def)
  have "pattern_of w k (observations_tbl s) st = pattern_of w k (observations_tbl s') st" for st
    unfolding pattern_of_def Let_def count_signal_label [OF rows [of st]] last_labelled_label [OF rows [of st]] ..
  then show ?thesis by (simp add: aggregate_patterns_def)
qed

section \<open>Advisory text\<close>

text \<open>The advisory text keeps its limits and shows labelled evidence only: it has at most 900
  characters, starts with the heading that denies it authority, and has the lines of at most three
  labelled observations of that workspace and task kind, cut at the limit; or it is empty.\<close>

theorem advisory_bounded:
  "length (render_advisory_context store w k) \<le> 900 \<and>
   (render_advisory_context store w k = [] \<or>
    (\<exists>s rows. store = Some s \<and> length rows \<le> 3 \<and> set rows \<subseteq> set (observations_tbl s) \<and>
       list_all (\<lambda>r. ob_workspace_id r = w \<and> ob_task_kind r = k \<and> ob_outcome_signal r \<noteq> ''unknown'') rows \<and>
       render_advisory_context store w k =
         ADVISORY_HEADING @
         take (900 - length ADVISORY_HEADING) (join [CHR 0x0A] (map advisory_line rows))))"
proof (cases store)
  case (Some s)
  let ?rows = "take MAX_ADVISORIES (filter (\<lambda>r. ob_outcome_signal r \<noteq> ''unknown'')
      (list_observations (Some w) (Some k) (int (MAX_ADVISORIES * 8)) s))"
  have heading: "length ADVISORY_HEADING \<le> 900" by (simp add: ADVISORY_HEADING_def)
  have sub: "set ?rows \<subseteq> {r \<in> set (observations_tbl s). ob_workspace_id r = w \<and> ob_task_kind r = k \<and>
      ob_outcome_signal r \<noteq> ''unknown''}"
    by (auto simp: list_observations_def dest!: in_set_takeD)
  have "length ?rows \<le> 3" by (simp add: MAX_ADVISORIES_def)
  moreover have "set ?rows \<subseteq> set (observations_tbl s)" using sub by blast
  moreover have "list_all (\<lambda>r. ob_workspace_id r = w \<and> ob_task_kind r = k \<and> ob_outcome_signal r \<noteq> ''unknown'') ?rows"
    using sub by (auto simp: list_all_iff)
  moreover have "render_advisory_context store w k = [] \<or> render_advisory_context store w k =
      ADVISORY_HEADING @ take (900 - length ADVISORY_HEADING) (join [CHR 0x0A] (map advisory_line ?rows))"
    using heading by (simp add: render_advisory_context_def Some Let_def MAX_ADVISORY_CHARS_def)
  moreover have "length (render_advisory_context store w k) \<le> 900"
    unfolding render_advisory_context_def MAX_ADVISORY_CHARS_def Let_def Some
    by (simp del: take_append)
  ultimately show ?thesis using Some by blast
qed (simp add: render_advisory_context_def)

lemma take_filter_none:
  "list_all (\<lambda>x. \<not> P x) (take n xs) \<Longrightarrow> filter P (take n xs) = []"
  by (induction xs arbitrary: n) (auto simp: list_all_iff filter_empty_conv)

text \<open>Unlabelled runs hide the evidence. When the 24 most recent observations of a workspace and
  task kind carry no label, which is how every finished run is recorded, the advisory text is empty
  whatever labelled observations came before them.\<close>

theorem advisory_crowded_out:
  assumes "list_all (\<lambda>r. ob_outcome_signal r = ''unknown'')
      (take 24 (order_desc ob_created_at
        (filter (\<lambda>r. ob_workspace_id r = w \<and> ob_task_kind r = k) (observations_tbl s))))"
  shows "render_advisory_context (Some s) w k = []"
  using assms
  by (simp add: render_advisory_context_def list_observations_def clamp_def MAX_ADVISORIES_def Let_def
      take_filter_none)

section \<open>Signatures\<close>

lemma before_first_append:
  assumes "m \<noteq> []"
  shows "before_first m (b @ m @ x) = before_first m (b @ m @ y)"
proof (induction b)
  case Nil
  obtain c cs where "m = c # cs" using assms by (cases m) auto
  then show ?case by (simp add: startswith_def)
next
  case (Cons c b)
  have "take (length m) ((c # b @ m) @ z) = take (length m) (c # b @ m)" for z
    unfolding take_append by simp
  then have "startswith (c # b @ m @ x) m = startswith (c # b @ m @ y) m"
    by (simp add: startswith_def del: take_append)
  with Cons show ?case by simp
qed

lemma py_lower_append: "py_lower (a @ b) = py_lower a @ py_lower b"
  by (simp add: py_lower_def)

lemma dropWhile_stop: "\<not> P c \<Longrightarrow> dropWhile P (xs @ c # ys) = dropWhile P xs @ c # ys"
  by (induction xs) auto

lemma strip_marked:
  assumes "m \<noteq> []" "\<not> py_isspace (last m)" "\<not> py_isspace (hd m)"
  shows "strip (b @ m @ x) = dropWhile py_isspace b @ m @ rev (dropWhile py_isspace (rev x))"
proof -
  have front: "dropWhile py_isspace (b @ m @ x) = dropWhile py_isspace b @ m @ x"
    using assms(1,3) by (cases m) (auto simp: dropWhile_stop)
  have rm: "rev m = last m # rev (butlast m)" using assms(1) by (metis append_butlast_last_id rev_eq_Cons_iff rev_rev_ident)
  have "dropWhile py_isspace (rev x @ rev m @ z) = dropWhile py_isspace (rev x) @ rev m @ z" for z
    unfolding rm using assms(2) by (simp add: dropWhile_stop)
  then show ?thesis by (simp add: strip_def front)
qed

text \<open>A signature does not see the private context. Two tasks that agree up to the marker of the
  private context have the same signature, whatever follows the marker, so that nothing of it can
  be recovered from a stored observation.\<close>

theorem signature_ignores_private_context:
  assumes "py_lower marker = PRIVATE_CONTEXT_MARKER"
  shows "task_signature_for_input h (PStr (b @ marker @ x)) = task_signature_for_input h (PStr (b @ marker @ y))"
proof -
  have m: "marker \<noteq> []" "lower_char (last marker) = CHR '':''" "lower_char (hd marker) = CHR ''p''"
    using assms by (auto simp: py_lower_def PRIVATE_CONTEXT_MARKER_def last_map [symmetric] hd_map [symmetric]
        dest: arg_cong [of _ _ length])
  have sp: "\<not> py_isspace c" if "lower_char c \<in> {CHR '':'', CHR ''p''}" for c
    using that by (auto simp: lower_char_def py_isspace_def Let_def split: if_splits)
  have st: "strip (b @ marker @ z) = dropWhile py_isspace b @ marker @ rev (dropWhile py_isspace (rev z))" for z
    by (rule strip_marked) (use m sp in auto)
  have "before_first PRIVATE_CONTEXT_MARKER (py_lower (strip (b @ marker @ x))) =
      before_first PRIVATE_CONTEXT_MARKER (py_lower (strip (b @ marker @ y)))"
    unfolding st py_lower_append assms by (rule before_first_append) (simp add: PRIVATE_CONTEXT_MARKER_def)
  moreover have "strip (b @ marker @ z) \<noteq> []" for z using m(1) by (simp add: st)
  ultimately show ?thesis by (simp add: task_signature_for_input_def Let_def)
qed

section \<open>Samples\<close>

definition sample_hash :: hash_lib where
  "sample_hash = \<lparr>sha256_hex = (\<lambda>_. replicate 64 CHR ''0''), sha256_int = length\<rparr>"

definition sample_explore :: "string \<Rightarrow> obs_op" where
  "sample_explore run = DoExplore sample_hash ''t'' ''w'' ''workflow'' run [''a'', ''b''] [(''a'', 1), (''b'', 1)] ''v1.0''"

theorem exploration_balanced_witness:
  "assigned_count ''w'' ''workflow'' (obs_run (map sample_explore [''1'', ''2'', ''3'']) empty_store) ''a''
     \<le> assigned_count ''w'' ''workflow'' (obs_run (map sample_explore [''1'', ''2'', ''3'']) empty_store) ''b'' + 1"
  by (rule exploration_balanced [of _ _ "[''a'', ''b'']"]) (simp_all add: sample_explore_def)

definition sample_row :: "string \<Rightarrow> string \<Rightarrow> string \<Rightarrow> observation_row" where
  "sample_row i time signal =
     \<lparr>ob_id = i, ob_schema_version = 1, ob_workspace_id = ''w'', ob_run_id = None, ob_thread_id = None,
      ob_task_kind = ''workflow'', ob_task_signature = None, ob_approach = ''a'', ob_artifact_refs = [],
      ob_outcome_signal = signal, ob_outcome_evidence = None, ob_source = ''s'', ob_created_at = time,
      ob_updated_at = time\<rparr>"

definition crowded_store :: obs_store where
  "crowded_store = \<lparr>observations_tbl = sample_row ''x'' ''1'' ''accepted'' #
     map (\<lambda>n. sample_row (nat_str n) ''2'' ''unknown'') [0..<24], assignments_tbl = []\<rparr>"

theorem advisory_crowded_out_witness:
  "render_advisory_context (Some crowded_store) ''w'' ''workflow'' = [] \<and>
   ob_outcome_signal (hd (observations_tbl crowded_store)) = ''accepted''"
proof
  show "render_advisory_context (Some crowded_store) ''w'' ''workflow'' = []"
    by (rule advisory_crowded_out) code_simp
  show "ob_outcome_signal (hd (observations_tbl crowded_store)) = ''accepted''" by code_simp
qed

theorem signature_ignores_private_context_witness:
  "task_signature_for_input sample_hash (PStr (''Fix it '' @ ''Private application context:'' @ '' secret'')) =
   task_signature_for_input sample_hash (PStr (''Fix it '' @ ''Private application context:'' @ '' other''))"
  by (rule signature_ignores_private_context) code_simp

end
