(* ===== verification/Validation.thy ===== *)
theory Validation
  imports Policy Observations Sandbox
begin

text \<open>
  \<open>agent_os/validation.py\<close>, \<open>agent_os/semantic_judge.py\<close> and the self check of
  \<open>agent_os/nodes/executor.py\<close>, with the plan and report models of \<open>agent_os/schemas.py\<close>.

  \<^item> A plan and a report are records; the coding fields of the subclasses are optional parts.
  \<^item> A rule is checked against a dictionary of evidence by \<open>run_validation\<close>; \<open>re.search\<close> on a pattern
    from a plan is the parameter \<open>re_search\<close>, a language model judge is a function argument that may
    raise, and the reply of the model behind \<open>judge\<close> is an argument.
  \<^item> \<open>criterion_rule\<close> turns a sentence of a plan into a rule, \<open>execution_evidence\<close> collects what a report
    offers as evidence, \<open>attach_self_check\<close> puts the two together.
  \<^item> The theorems: a rule passes only on evidence of its kind and otherwise fails closed; the result
    depends on independent evidence only; the self check changes nothing else of a report; and two
    ways in which a deterministic check accepts what did not happen.
\<close>

section \<open>Plans and reports\<close>

record coding_plan =
  cp_files :: "string list"
  cp_changes :: "string list"
  cp_verify_cmd :: string

record plan_artifact =
  pl_summary :: string
  pl_steps :: "string list"
  pl_proposed_actions :: "action_proposal list"
  pl_acceptance_criteria :: "string list"
  pl_metadata :: pydict
  pl_coding :: "coding_plan option"

record coding_result =
  cr_diff :: string
  cr_verify_output :: string

record report =
  rp_status :: exec_status
  rp_outputs :: pydict
  rp_artifacts :: "string list"
  rp_errors :: "string list"
  rp_usage :: pydict
  rp_self_check :: pydict
  rp_coding :: "coding_result option"

definition report_success :: "report \<Rightarrow> bool" where
  "report_success r = (rp_status r = Completed)"

section \<open>Rules and their checks\<close>

datatype rule_kind = Deterministic | Llm

record validation_rule =
  vr_id :: string
  vr_description :: string
  vr_kind :: rule_kind
  vr_check :: "string option"
  vr_param :: "string option"

record validation_result =
  va_rule_id :: string
  va_passed :: bool
  va_method :: rule_kind
  va_evidence :: string

fun text_of :: "pyval option \<Rightarrow> string" where
  "text_of (Some (PStr s)) = s"
| "text_of _ = []"

definition artifacts_of :: "pydict \<Rightarrow> string list" where
  "artifacts_of ctx =
     (case dict_get ctx ''artifacts'' of
        Some (PStr s) \<Rightarrow> [s]
      | Some (PList vs) \<Rightarrow> concat (map (\<lambda>v. case v of PStr s \<Rightarrow> [s] | _ \<Rightarrow> []) vs)
      | _ \<Rightarrow> [])"

definition actual_output :: "pydict \<Rightarrow> string" where
  "actual_output ctx =
     join [CHR 0x0A] (filter (\<lambda>p. p \<noteq> [])
       (text_of (dict_get ctx ''verify_output'') # text_of (dict_get ctx ''diff'') # artifacts_of ctx))"

text \<open>\<open>isinstance(x, int)\<close> holds of a \<open>bool\<close> too.\<close>

fun int_of_value :: "pyval \<Rightarrow> int option" where
  "int_of_value (PInt n) = Some n"
| "int_of_value (PBool b) = Some (if b then 1 else 0)"
| "int_of_value _ = None"

definition verify_outcomes :: "pydict \<Rightarrow> pyval" where
  "verify_outcomes ctx =
     (case dict_get ctx ''verify_commands'' of
        Some v \<Rightarrow> v
      | None \<Rightarrow> (case dict_get ctx ''verify_cmds'' of Some v \<Rightarrow> v | None \<Rightarrow> PDict []))"

definition exit_code_of :: "pydict \<Rightarrow> pyval" where
  "exit_code_of d =
     (case dict_get d ''exit_code'' of
        Some v \<Rightarrow> v
      | None \<Rightarrow> (case dict_get d ''returncode'' of Some v \<Rightarrow> v | None \<Rightarrow> PNone))"

definition verify_command :: "string \<Rightarrow> pydict \<Rightarrow> bool \<times> string" where
  "verify_command param ctx =
     (case (case verify_outcomes ctx of PDict cs \<Rightarrow> dict_get cs param | _ \<Rightarrow> None) of
        None \<Rightarrow> (False, ''No supplied verification result for: '' @ param)
      | Some (PBool b) \<Rightarrow> (b, param @ '': supplied boolean result='' @ py_str (PBool b) @ ''.'')
      | Some (PInt n) \<Rightarrow> (n = 0, param @ '': exit_code='' @ int_str n @ ''.'')
      | Some (PDict outcome) \<Rightarrow>
          (let output = (let a = text_of (dict_get outcome ''output'')
                         in if a = [] then text_of (dict_get outcome ''stdout'') else a)
           in case int_of_value (exit_code_of outcome) of
                None \<Rightarrow> (False, param @ '': supplied result has no integer exit status.'')
              | Some n \<Rightarrow>
                  (n = 0, param @ '': exit_code='' @ py_str (exit_code_of outcome) @
                     (if output = [] then [] else ''; output='' @ output)))
      | Some _ \<Rightarrow> (False, param @ '': supplied result has no exit status.''))"

definition file_exists :: "string \<Rightarrow> pydict \<Rightarrow> bool \<times> string" where
  "file_exists param ctx =
     (if param \<in> set (artifacts_of ctx) then (True, ''Found '' @ param @ '' in supplied artifacts.'')
      else if contains param (text_of (dict_get ctx ''diff''))
      then (True, ''Found '' @ param @ '' in supplied diff.'')
      else (False, param @ '' is absent from supplied artifacts and diff.''))"

definition regex_check ::
  "(string \<Rightarrow> string \<Rightarrow> bool result) \<Rightarrow> string \<Rightarrow> pydict \<Rightarrow> bool \<times> string" where
  "regex_check re_search param ctx =
     (case re_search param (actual_output ctx) of
        Inl e \<Rightarrow> (False, ''Invalid regex '' @ py_repr (PStr param) @ '': '' @ exn_message e @ ''.'')
      | Inr b \<Rightarrow> (b, ''Regex '' @ py_repr (PStr param) @
                     (if b then '' matched'' else '' did not match'') @ '' supplied output.''))"

definition contains_check :: "string \<Rightarrow> pydict \<Rightarrow> bool \<times> string" where
  "contains_check param ctx =
     (let b = contains param (actual_output ctx)
      in (b, ''Text '' @ py_repr (PStr param) @
             (if b then '' was found in'' else '' was absent from'') @ '' supplied output.''))"

text \<open>Every checker first refuses a rule without a parameter.\<close>

definition with_param ::
  "string \<Rightarrow> (string \<Rightarrow> pydict \<Rightarrow> bool \<times> string) \<Rightarrow> validation_rule \<Rightarrow> pydict \<Rightarrow> bool \<times> string" where
  "with_param missing check rule ctx =
     (case vr_param rule of
        Some (c # cs) \<Rightarrow> check (c # cs) ctx
      | _ \<Rightarrow> (False, missing))"

definition deterministic_checker ::
  "(string \<Rightarrow> string \<Rightarrow> bool result) \<Rightarrow> string \<Rightarrow> (validation_rule \<Rightarrow> pydict \<Rightarrow> bool \<times> string) option" where
  "deterministic_checker re_search name =
     (if name = ''verify_cmd''
      then Some (with_param ''verify_cmd requires the command key in param.'' verify_command)
      else if name = ''file_exists''
      then Some (with_param ''file_exists requires the expected path in param.'' file_exists)
      else if name = ''regex''
      then Some (with_param ''regex requires the pattern in param.'' (regex_check re_search))
      else if name = ''contains''
      then Some (with_param ''contains requires the expected text in param.'' contains_check)
      else None)"

section \<open>Judges\<close>

text \<open>What a judge returns: a tuple or any other value.\<close>

datatype judged = Judged pyval | Judged_tuple "pyval list"

type_synonym llm_judge = "validation_rule \<Rightarrow> pydict \<Rightarrow> judged result"

fun exn_name :: "py_exn \<Rightarrow> string" where
  "exn_name (ValueError _) = ''ValueError''"
| "exn_name (KeyError _) = ''KeyError''"
| "exn_name (TypeError _) = ''TypeError''"
| "exn_name (OverflowError _) = ''OverflowError''"
| "exn_name (OtherError _) = ''Exception''"

definition independent_evidence :: "pydict \<Rightarrow> pydict" where
  "independent_evidence ctx =
     concat (map (\<lambda>k. case dict_get ctx k of None \<Rightarrow> [] | Some v \<Rightarrow> [(k, v)])
       [''verify_output'', ''diff'', ''artifacts''])"

definition run_llm_judge :: "validation_rule \<Rightarrow> pydict \<Rightarrow> llm_judge option \<Rightarrow> validation_result result" where
  "run_llm_judge rule ctx judge =
     (let answer = (\<lambda>b e. \<lparr>va_rule_id = vr_id rule, va_passed = b, va_method = Llm, va_evidence = e\<rparr>)
      in case judge of
           None \<Rightarrow> Inr (answer False ''No LLM judge was injected for this semantic rule.'')
         | Some j \<Rightarrow>
             (case j rule (independent_evidence ctx) of
                Inl e \<Rightarrow> Inr (answer False (''LLM judge failed: '' @ exn_name e @ ''.''))
              | Inr (Judged_tuple [p, e]) \<Rightarrow> Inr (answer (truthy p) (py_str e))
              | Inr (Judged_tuple _) \<Rightarrow> Inl (ValueError ''wrong number of values to unpack'')
              | Inr (Judged v) \<Rightarrow>
                  Inr (answer (truthy v) ''LLM judge evaluated the supplied independent evidence.'')))"

definition run_rule ::
  "(string \<Rightarrow> string \<Rightarrow> bool result) \<Rightarrow> validation_rule \<Rightarrow> pydict \<Rightarrow> llm_judge option \<Rightarrow> validation_result result" where
  "run_rule re_search rule ctx judge =
     (if vr_kind rule = Llm then run_llm_judge rule ctx judge
      else
        (let (b, e) =
           (case deterministic_checker re_search (or_str (vr_check rule) []) of
              None \<Rightarrow> (False, ''Unknown deterministic checker: '' @
                         (case vr_check rule of None \<Rightarrow> ''None'' | Some c \<Rightarrow> py_repr (PStr c)) @ ''.'')
            | Some check \<Rightarrow> check rule ctx)
         in Inr \<lparr>va_rule_id = vr_id rule, va_passed = b, va_method = Deterministic, va_evidence = e\<rparr>))"

fun run_validation ::
  "(string \<Rightarrow> string \<Rightarrow> bool result) \<Rightarrow> validation_rule list \<Rightarrow> pydict \<Rightarrow> llm_judge option
     \<Rightarrow> validation_result list result" where
  "run_validation re_search [] ctx judge = Inr []"
| "run_validation re_search (rule # rest) ctx judge =
     bind_result (run_rule re_search rule ctx judge) (\<lambda>r.
     bind_result (run_validation re_search rest ctx judge) (\<lambda>rs. Inr (r # rs)))"

definition kind_str :: "rule_kind \<Rightarrow> string" where
  "kind_str k = (case k of Deterministic \<Rightarrow> ''deterministic'' | Llm \<Rightarrow> ''llm'')"

definition result_dump :: "validation_result \<Rightarrow> pyval" where
  "result_dump r =
     PDict [(''rule_id'', PStr (va_rule_id r)), (''passed'', PBool (va_passed r)),
            (''method'', PStr (kind_str (va_method r))), (''evidence'', PStr (va_evidence r))]"

definition summarize :: "validation_result list \<Rightarrow> pydict" where
  "summarize rs =
     [(''total'', PInt (int (length rs))), (''met'', PInt (int (length (filter va_passed rs)))),
      (''results'', PList (map result_dump rs))]"

text \<open>The judge of \<open>semantic_judge.py\<close>: the prompt it sends, and how it reads the reply. The reply is
  the text of the model, or the failure of the call; a call that takes longer than its limit
  has no reply.\<close>

definition format_evidence_context :: "pydict \<Rightarrow> string" where
  "format_evidence_context ctx =
     (let part = (\<lambda>k title. case dict_get ctx k of
                     None \<Rightarrow> [] | Some v \<Rightarrow> if truthy v then [title @ py_str v] else []);
          arts = (case dict_get ctx ''artifacts'' of
                    None \<Rightarrow> []
                  | Some v \<Rightarrow>
                      if \<not> truthy v then []
                      else [''=== Generated Artifacts ==='' @ [CHR 0x0A] @
                        (case v of
                           PList vs \<Rightarrow> join [CHR 0x0A] (map (\<lambda>a. ''- '' @ py_str a) vs)
                         | _ \<Rightarrow> py_str v)]);
          parts = part ''verify_output'' (''=== Verify Command Output ==='' @ [CHR 0x0A]) @
                  part ''diff'' (''=== Code / File Diff ==='' @ [CHR 0x0A]) @ arts
      in if parts = [] then ''(No execution evidence provided)'' else join [CHR 0x0A, CHR 0x0A] parts)"

definition line_break :: "char \<Rightarrow> bool" where
  "line_break c = (let n = (of_char c :: nat) in (10 \<le> n \<and> n \<le> 13) \<or> (28 \<le> n \<and> n \<le> 30) \<or> n = 133)"

definition nonempty_lines :: "string \<Rightarrow> string list" where
  "nonempty_lines s = filter (\<lambda>l. l \<noteq> []) (map strip (runs_of (\<lambda>c. \<not> line_break c) [] (strip s)))"

definition word_char :: "char \<Rightarrow> bool" where
  "word_char c = (alnum_char c \<or> c = CHR ''_'')"

definition begins_with_word :: "string \<Rightarrow> string \<Rightarrow> bool" where
  "begins_with_word w s =
     (startswith s w \<and> (case drop (length w) s of [] \<Rightarrow> True | c # _ \<Rightarrow> \<not> word_char c))"

definition parse_judge_response :: "string \<Rightarrow> bool \<times> string" where
  "parse_judge_response response =
     (case nonempty_lines response of
        [] \<Rightarrow> (False, ''Judge returned empty response.'')
      | l # ls \<Rightarrow>
          (let reasoning = (case ls of [] \<Rightarrow> l | l2 # _ \<Rightarrow> l2);
               head = py_upper l
           in if begins_with_word ''PASS'' head then (True, reasoning)
              else if begins_with_word ''FAIL'' head then (False, reasoning)
              else (False, ''Indeterminate judge response: '' @ l)))"

datatype model_reply = Reply string | Timed_out | Call_failed py_exn

definition semantic_judge :: "(validation_rule \<Rightarrow> string \<Rightarrow> model_reply) \<Rightarrow> llm_judge" where
  "semantic_judge model rule evidence =
     Inr (let (b, why) =
            (case model rule (format_evidence_context evidence) of
               Reply t \<Rightarrow> parse_judge_response t
             | Timed_out \<Rightarrow> (False, ''LLM judge timeout'')
             | Call_failed e \<Rightarrow> (False, ''LLM judge execution error: '' @ exn_name e))
          in Judged_tuple [PBool b, PStr why])"

section \<open>The self check of a report\<close>

text \<open>\<open>_EXPLICIT_CHECK\<close> on stripped text: a keyword in any case, a colon, and a rest without a line
  break.\<close>

definition explicit_check :: "string \<Rightarrow> (string \<times> string) option" where
  "explicit_check s =
     (case find (\<lambda>k. startswith (py_lower s) k \<and>
                     startswith (dropWhile py_isspace (drop (length k) s)) '':'')
             [''file_exists'', ''regex'', ''contains'', ''verify_cmd''] of
        None \<Rightarrow> None
      | Some k \<Rightarrow>
          (let rest = dropWhile py_isspace (tl (dropWhile py_isspace (drop (length k) s)))
           in if rest = [] \<or> CHR 0x0A \<in> set rest then None else Some (k, strip rest)))"

text \<open>\<open>_FILE_EXISTS\<close> at a position; the Vietnamese alternatives of the pattern have characters beyond
  the range of the strings considered here.\<close>

definition path_char :: "char \<Rightarrow> bool" where
  "path_char c = (word_char c \<or> c = CHR ''.'' \<or> c = CHR ''/'' \<or> c = CHR ''-'')"

definition skip_quote :: "string \<Rightarrow> string" where
  "skip_quote s = (case s of c # cs \<Rightarrow> if c = CHR 0x60 \<or> c = CHR 0x22 \<or> c = CHR 0x27 then cs else s | [] \<Rightarrow> [])"

definition file_exists_here :: "string \<Rightarrow> string option" where
  "file_exists_here s =
     (if \<not> startswith (py_lower s) ''file'' then None
      else
        (let a = drop 4 s;
             b = skip_quote (dropWhile py_isspace a);
             path = takeWhile path_char b;
             c = skip_quote (drop (length path) b);
             d = dropWhile py_isspace c;
             verb = find (\<lambda>v. startswith (py_lower d) v \<and>
                       (case drop (length v) d of
                          [] \<Rightarrow> True | x # _ \<Rightarrow> x \<in> {CHR ''.'', CHR ''!'', CHR ''?''} \<or> py_isspace x))
                      [''exists'', ''is present'']
         in if a \<noteq> dropWhile py_isspace a \<and> path \<noteq> [] \<and> c \<noteq> d \<and> verb \<noteq> None then Some path else None))"

fun file_exists_search :: "string \<Rightarrow> string option" where
  "file_exists_search [] = None"
| "file_exists_search (c # cs) =
     (case file_exists_here (c # cs) of Some p \<Rightarrow> Some p | None \<Rightarrow> file_exists_search cs)"

definition criterion_rule :: "nat \<Rightarrow> string \<Rightarrow> validation_rule" where
  "criterion_rule index criterion =
     (let normalized = strip criterion;
          rule = (\<lambda>k c p. \<lparr>vr_id = ''criterion-'' @ nat_str index, vr_description = normalized,
                     vr_kind = k, vr_check = c, vr_param = p\<rparr>)
      in case explicit_check normalized of
           Some (check, param) \<Rightarrow> rule Deterministic (Some check) (Some param)
         | None \<Rightarrow>
             (case file_exists_search normalized of
                Some path \<Rightarrow> rule Deterministic (Some ''file_exists'') (Some path)
              | None \<Rightarrow> rule Llm None None))"

text \<open>\<open>_VERIFY_EXIT_CODE\<close> at a position that no word character precedes.\<close>

fun exit_keyword :: "string list \<Rightarrow> string \<Rightarrow> string option" where
  "exit_keyword [] s = None"
| "exit_keyword (k # ks) s =
     (if startswith (py_lower s) k then
        (let r = dropWhile py_isspace (drop (length k) s)
         in case r of
              c # cs \<Rightarrow> if c = CHR '':'' \<or> c = CHR ''='' then Some (dropWhile py_isspace cs)
                        else exit_keyword ks s
            | [] \<Rightarrow> exit_keyword ks s)
      else exit_keyword ks s)"

definition exit_code_here :: "string \<Rightarrow> int option" where
  "exit_code_here s =
     (case exit_keyword [''exit_code'', ''exit code'', ''exitcode'', ''returncode''] s of
        None \<Rightarrow> None
      | Some r \<Rightarrow>
          (let neg = startswith r ''-'';
               body = (if neg then tl r else r);
               ds = takeWhile is_digit body
           in if ds = [] \<or> (case drop (length ds) body of [] \<Rightarrow> False | c # _ \<Rightarrow> word_char c) then None
              else Some (let n = foldl (\<lambda>n d. n * 10 + (of_char d - 48)) (0::int) ds
                         in if neg then - n else n)))"

fun exit_code_search :: "bool \<Rightarrow> string \<Rightarrow> int option" where
  "exit_code_search in_word [] = None"
| "exit_code_search in_word (c # cs) =
     (case (if in_word then None else exit_code_here (c # cs)) of
        Some n \<Rightarrow> Some n
      | None \<Rightarrow> exit_code_search (word_char c) cs)"

definition execution_evidence :: "plan_artifact \<Rightarrow> report \<Rightarrow> pydict" where
  "execution_evidence plan r =
     (let (diff, output) = (case rp_coding r of None \<Rightarrow> ([], []) | Some c \<Rightarrow> (cr_diff c, cr_verify_output c))
      in [(''verify_output'', PStr output), (''diff'', PStr diff),
          (''artifacts'', PList (map PStr (rp_artifacts r)))] @
         (case pl_coding plan of
            None \<Rightarrow> []
          | Some c \<Rightarrow>
              (case exit_code_search False output of
                 None \<Rightarrow> []
               | Some n \<Rightarrow> [(''verify_commands'',
                   PDict [(cp_verify_cmd c, PDict [(''exit_code'', PInt n), (''output'', PStr output)])])])))"

definition criteria_rules :: "string list \<Rightarrow> validation_rule list" where
  "criteria_rules cs =
     map (\<lambda>(i, c). criterion_rule i c) (filter (\<lambda>(i, c). strip c \<noteq> []) (enumerate 1 cs))"

definition attach_self_check ::
  "(string \<Rightarrow> string \<Rightarrow> bool result) \<Rightarrow> llm_judge option \<Rightarrow> report \<Rightarrow> plan_artifact \<Rightarrow> report result" where
  "attach_self_check re_search judge r plan =
     (let vrules = criteria_rules (pl_acceptance_criteria plan)
      in if vrules = [] then Inr r
         else bind_result (run_validation re_search vrules (execution_evidence plan r) judge)
                (\<lambda>rs. Inr (r\<lparr>rp_self_check := summarize rs\<rparr>)))"


section \<open>A rule passes on evidence only\<close>

text \<open>A supplied result that counts as success.\<close>

fun success_value :: "pyval \<Rightarrow> bool" where
  "success_value (PBool b) = b"
| "success_value (PInt n) = (n = 0)"
| "success_value (PDict d) = (int_of_value (exit_code_of d) = Some 0)"
| "success_value _ = False"

definition verified :: "string \<Rightarrow> pydict \<Rightarrow> bool" where
  "verified p ctx =
     (case verify_outcomes ctx of
        PDict cs \<Rightarrow> (case dict_get cs p of None \<Rightarrow> False | Some v \<Rightarrow> success_value v) | _ \<Rightarrow> False)"

text \<open>What each deterministic check asks of the evidence.\<close>

definition evidence_for :: "(string \<Rightarrow> string \<Rightarrow> bool result) \<Rightarrow> string \<Rightarrow> string \<Rightarrow> pydict \<Rightarrow> bool" where
  "evidence_for re_search check p ctx =
     (if check = ''verify_cmd'' then verified p ctx
      else if check = ''file_exists'' then
        p \<in> set (artifacts_of ctx) \<or> contains p (text_of (dict_get ctx ''diff''))
      else if check = ''regex'' then re_search p (actual_output ctx) = Inr True
      else if check = ''contains'' then contains p (actual_output ctx)
      else False)"

lemma verify_command_passed:
  "fst (verify_command p ctx) \<longleftrightarrow> verified p ctx"
  by (simp add: verify_command_def verified_def Let_def split: pyval.splits option.splits)

lemma checker_passed:
  assumes "deterministic_checker re_search check = Some f"
  shows "fst (f rule ctx) \<longleftrightarrow> (\<exists>c cs. vr_param rule = Some (c # cs) \<and> evidence_for re_search check (c # cs) ctx)"
  using assms
  by (auto simp: deterministic_checker_def with_param_def evidence_for_def verify_command_passed
        file_exists_def regex_check_def contains_check_def Let_def
        split: if_splits option.splits list.splits sum.splits)

lemma unknown_checker: "deterministic_checker re_search check = None \<Longrightarrow> \<not> evidence_for re_search check p ctx"
  by (auto simp: deterministic_checker_def evidence_for_def split: if_splits)

lemma or_str_Nil: "or_str c [] = (case c of None \<Rightarrow> [] | Some x \<Rightarrow> x)"
  by (cases c) auto

text \<open>C29: a rule passes exactly on evidence of its kind, and fails closed. A deterministic rule passes
  when its check is one of the four and the evidence supplied for its non-empty parameter is
  there: a success for exactly that command, the path among the artifacts or in the diff, a match,
  or the text. A semantic rule passes when a judge was injected and returned a truthy verdict. A
  missing parameter, an unknown check, a failing judge and missing evidence all fail.\<close>

theorem passes_on_evidence_only:
  assumes "run_rule re_search rule ctx judge = Inr r"
  shows "va_rule_id r = vr_id rule \<and> va_method r = vr_kind rule \<and>
    (va_passed r \<longleftrightarrow>
      (case vr_kind rule of
         Deterministic \<Rightarrow>
           (\<exists>check p. vr_check rule = Some check \<and> vr_param rule = Some p \<and> p \<noteq> [] \<and>
              evidence_for re_search check p ctx)
       | Llm \<Rightarrow>
           (\<exists>j v. judge = Some j \<and> truthy v \<and>
              (j rule (independent_evidence ctx) = Inr (Judged v) \<or>
               (\<exists>e. j rule (independent_evidence ctx) = Inr (Judged_tuple [v, e]))))))"
proof (cases "vr_kind rule")
  case Llm
  with assms show ?thesis
    by (auto simp: run_rule_def run_llm_judge_def Let_def
          split: option.splits sum.splits judged.splits list.splits)
next
  case Deterministic
  let ?check = "or_str (vr_check rule) []"
  have no_check: "\<not> evidence_for re_search [] p ctx" for p by (simp add: evidence_for_def)
  have "va_passed r \<longleftrightarrow> (\<exists>c cs. vr_param rule = Some (c # cs) \<and> evidence_for re_search ?check (c # cs) ctx)"
  proof (cases "deterministic_checker re_search ?check")
    case None
    with assms Deterministic unknown_checker show ?thesis by (auto simp: run_rule_def)
  next
    case (Some f)
    with assms Deterministic checker_passed [OF Some, of rule ctx] show ?thesis
      by (auto simp: run_rule_def Let_def split: prod.splits)
  qed
  moreover have "va_rule_id r = vr_id rule" "va_method r = vr_kind rule"
    using assms Deterministic by (auto simp: run_rule_def Let_def split: prod.splits)
  ultimately show ?thesis using Deterministic no_check
    by (auto simp: or_str_Nil neq_Nil_conv split: option.splits)
qed

section \<open>The self check\<close>

lemma run_validation_total:
  assumes "judge = None \<or> (\<exists>m. judge = Some (semantic_judge m))"
  shows "\<exists>rs. run_validation re_search vs ctx judge = Inr rs \<and> map va_rule_id rs = map vr_id vs"
proof (induction vs)
  case (Cons v vs)
  have "\<exists>r. run_rule re_search v ctx judge = Inr r \<and> va_rule_id r = vr_id v"
    using assms by (auto simp: run_rule_def run_llm_judge_def semantic_judge_def Let_def split: prod.splits)
  with Cons show ?case by auto
qed simp

lemma attach_eq:
  "attach_self_check re_search judge r plan =
     (if criteria_rules (pl_acceptance_criteria plan) = [] then Inr r
      else bind_result (run_validation re_search (criteria_rules (pl_acceptance_criteria plan))
             (execution_evidence plan r) judge) (\<lambda>rs. Inr (r\<lparr>rp_self_check := summarize rs\<rparr>)))"
  by (simp add: attach_self_check_def Let_def)

text \<open>The self check is only an attachment. With the semantic judge of the program or with none,
  whatever the model replies, it returns a report that differs from the given one in the field
  \<open>self_check\<close> alone, so that it cannot change where the graph goes; that field counts one result
  per non-blank criterion, in their order, and no more met than there are.\<close>

theorem self_check_only_attaches:
  assumes "judge = None \<or> (\<exists>m. judge = Some (semantic_judge m))"
  shows "\<exists>check. attach_self_check re_search judge r plan = Inr (r\<lparr>rp_self_check := check\<rparr>) \<and>
     (check = rp_self_check r \<and> criteria_rules (pl_acceptance_criteria plan) = [] \<or>
      (\<exists>rs. check = summarize rs \<and>
         map va_rule_id rs = map vr_id (criteria_rules (pl_acceptance_criteria plan)) \<and>
         dict_get check ''total'' = Some (PInt (int (length (criteria_rules (pl_acceptance_criteria plan))))) \<and>
         (\<exists>met \<le> length rs. dict_get check ''met'' = Some (PInt (int met)))))"
proof (cases "criteria_rules (pl_acceptance_criteria plan) = []")
  case True
  then show ?thesis by (auto simp: attach_eq intro!: exI [of _ "rp_self_check r"])
next
  case False
  obtain rs where rs: "run_validation re_search (criteria_rules (pl_acceptance_criteria plan))
      (execution_evidence plan r) judge = Inr rs"
    "map va_rule_id rs = map vr_id (criteria_rules (pl_acceptance_criteria plan))"
    using run_validation_total [OF assms] by blast
  have "length rs = length (criteria_rules (pl_acceptance_criteria plan))"
    using arg_cong [OF rs(2), of length] by simp
  with False rs length_filter_le [of va_passed rs] show ?thesis
    by (auto simp: attach_eq summarize_def intro!: exI [of _ "summarize rs"] exI [of _ rs])
qed

section \<open>Witnesses and a limit\<close>

definition sample_rule :: validation_rule where
  "sample_rule = \<lparr>vr_id = ''criterion-1'', vr_description = ''contains: ok'', vr_kind = Deterministic,
     vr_check = Some ''contains'', vr_param = Some ''ok''\<rparr>"

lemma sample_rule_run:
  "run_rule (\<lambda>_ _. Inr False) sample_rule [(''diff'', PStr ''all ok'')] None =
     Inr \<lparr>va_rule_id = ''criterion-1'', va_passed = True, va_method = Deterministic,
          va_evidence = ''Text '' @ [CHR 0x27] @ ''ok'' @ [CHR 0x27] @ '' was found in supplied output.''\<rparr>"
  by code_simp

theorem passes_on_evidence_only_witness:
  "evidence_for (\<lambda>_ _. Inr False) ''contains'' ''ok'' [(''diff'', PStr ''all ok'')]"
  using passes_on_evidence_only [OF sample_rule_run] by (simp add: sample_rule_def)

definition sample_plan :: "string list \<Rightarrow> plan_artifact" where
  "sample_plan criteria = \<lparr>pl_summary = ''s'', pl_steps = [], pl_proposed_actions = [],
     pl_acceptance_criteria = criteria, pl_metadata = [],
     pl_coding = Some \<lparr>cp_files = [], cp_changes = [], cp_verify_cmd = ''make test''\<rparr>\<rparr>"

definition sample_report :: "string \<Rightarrow> string \<Rightarrow> report" where
  "sample_report diff output = \<lparr>rp_status = Completed, rp_outputs = [], rp_artifacts = [], rp_errors = [],
     rp_usage = [], rp_self_check = [], rp_coding = Some \<lparr>cr_diff = diff, cr_verify_output = output\<rparr>\<rparr>"

theorem self_check_only_attaches_witness:
  "\<exists>check. attach_self_check (\<lambda>_ _. Inr False) None (sample_report [] []) (sample_plan [''contains: ok'']) =
     Inr ((sample_report [] [])\<lparr>rp_self_check := check\<rparr>)"
  using self_check_only_attaches [of None "\<lambda>_ _. Inr False" "sample_report [] []" "sample_plan [''contains: ok'']"]
  by blast

text \<open>The self check can report success for what failed. A plan that asks for a command and a file
  is counted as met in full by a report whose command printed an exit code of 0 for a first step
  and of 1 for the last, and whose diff deletes the file: the first exit code in the text counts,
  and a path counts as existing when the diff mentions it.\<close>

theorem self_check_false_pass:
  "case attach_self_check (\<lambda>_ _. Inr False) None
     (sample_report ''deleted file a.py'' ''lint exit code: 0, test exit code: 1'')
     (sample_plan [''verify_cmd: make test'', ''File a.py exists.'']) of
     Inl _ \<Rightarrow> False
   | Inr r \<Rightarrow> dict_get (rp_self_check r) ''met'' = Some (PInt 2) \<and>
              dict_get (rp_self_check r) ''total'' = Some (PInt 2)"
  by code_simp

end
