(* ===== verification/Vault.thy ===== *)
theory Vault
  imports Memory_Gate Skill_Packages Validation Py_Float
begin

text \<open>
  The reading side of \<open>agent_os/connectors.py\<close>: notes, search and index of the Markdown vault, the
  \<open>filesystem\<close> connector, the \<open>gbrain\<close> connector, and the normal form of search hits.

  \<^item> The vault is a directory of a file system with symbolic links. \<open>vault_entries\<close> is what
    \<open>rglob("*.md")\<close> finds, in the order of the table of the file system.
  \<^item> The index file holds a \<open>vault_index\<close>; reading and writing it as JSON, the times of files, the
    size of a file that is not UTF-8, the logarithm and the clock are the library. Other arithmetic
    is that of doubles.
  \<^item> The \<open>gbrain\<close> server is a function from a request to its reply.
  \<^item> The theorems: the notes that are listed lie in the vault and are not hidden; building the index
    unasked is bounded; an index that was just built is ready; hits are ranked and few; \<open>gbrain\<close>
    only overwrites, below \<open>agentos/\<close>; and a note is read from outside the vault.
\<close>

section \<open>Texts\<close>

fun find_sub :: "string \<Rightarrow> string \<Rightarrow> nat option" where
  "find_sub t [] = (if t = [] then Some 0 else None)"
| "find_sub t (c # cs) = (if startswith (c # cs) t then Some 0 else map_option Suc (find_sub t cs))"

definition slice :: "nat \<Rightarrow> nat \<Rightarrow> string \<Rightarrow> string" where
  "slice a b s = take (b - a) (drop a s)"

text \<open>\<open>xs[:limit]\<close>\<close>

definition slice_to :: "int \<Rightarrow> 'a list \<Rightarrow> 'a list" where
  "slice_to n xs = (if 0 \<le> n then take (nat n) xs else take (length xs - nat (- n)) xs)"

definition frontmatter_line :: "string \<Rightarrow> (string \<times> string) list \<Rightarrow> (string \<times> string) list" where
  "frontmatter_line l fm =
     (case split_on CHR '':'' l of
        k # v # vs \<Rightarrow> dict_set (strip k) (strip (join '':'' (v # vs))) fm
      | _ \<Rightarrow> fm)"

definition parse_frontmatter :: "string \<Rightarrow> (string \<times> string) list" where
  "parse_frontmatter content =
     (if startswith content (''---'' @ [CHR 0x0A])
      then (case find_sub (CHR 0x0A # ''---'') (drop 4 content) of
              None \<Rightarrow> []
            | Some n \<Rightarrow> fold frontmatter_line (split_on CHR 0x0A (take n (drop 4 content))) [])
      else [])"

definition tokenize :: "string \<Rightarrow> string list" where
  "tokenize text = runs_of word_char [] (py_lower text)"

text \<open>The pattern \<open>^(#{1,6})\s+(.+)$\<close> at the start of a line: level, heading and length of the match. When
  only white space follows, the white space is shared between \<open>\s+\<close> and \<open>.+\<close>, the longest \<open>\s+\<close> first.\<close>

definition heading_at :: "string \<Rightarrow> (nat \<times> string \<times> nat) option" where
  "heading_at s =
     (let level = length (takeWhile (\<lambda>c. c = CHR ''#'') s); rest = drop level s;
          ws = takeWhile py_isspace rest; body = drop (length ws) rest
      in if level = 0 \<or> 6 < level \<or> ws = [] then None
         else if body \<noteq> [] then
           (let h = takeWhile (\<lambda>c. c \<noteq> CHR 0x0A) body in Some (level, strip h, level + length ws + length h))
         else (case filter (\<lambda>i. ws ! i \<noteq> CHR 0x0A) (rev [1..<length ws]) of
                 [] \<Rightarrow> None
               | i # _ \<Rightarrow> (let h = takeWhile (\<lambda>c. c \<noteq> CHR 0x0A) (drop i ws) in Some (level, strip h, level + i + length h))))"

record heading =
  hd_level :: nat
  hd_text :: string
  hd_start :: nat
  hd_end :: nat

function headings_from :: "nat \<Rightarrow> bool \<Rightarrow> string \<Rightarrow> heading list" where
  "headings_from pos start [] = []"
| "headings_from pos start (c # cs) =
     (case (if start then heading_at (c # cs) else None) of
        Some (level, h, n) \<Rightarrow>
          \<lparr>hd_level = level, hd_text = h, hd_start = pos, hd_end = pos + n\<rparr> #
          headings_from (pos + Suc (n - 1)) False (drop (n - 1) cs)
      | None \<Rightarrow> headings_from (Suc pos) (c = CHR 0x0A) cs)"
  by pat_completeness auto

termination by (relation "measure (\<lambda>(pos, start, s). length s)") auto

definition extract_headings :: "string \<Rightarrow> heading list" where
  "extract_headings content = headings_from 0 True content"

text \<open>\<open>re.search(r"^#\s+(.+)$", content, re.MULTILINE)\<close>\<close>

fun first_h1 :: "bool \<Rightarrow> string \<Rightarrow> string option" where
  "first_h1 start [] = None"
| "first_h1 start (c # cs) =
     (case (if start then heading_at (c # cs) else None) of
        Some (level, h, n) \<Rightarrow> if level = 1 then Some h else first_h1 (c = CHR 0x0A) cs
      | None \<Rightarrow> first_h1 (c = CHR 0x0A) cs)"

definition note_title :: "string \<Rightarrow> string option" where
  "note_title content =
     (case dict_get (parse_frontmatter content) ''title'' of
        Some t \<Rightarrow> if t = [] then first_h1 True content else Some t
      | None \<Rightarrow> first_h1 True content)"

text \<open>\<open>re.findall(r"\[\[(.*?)\]\]", content)\<close>\<close>

definition link_close :: "string \<Rightarrow> nat option" where
  "link_close s =
     (case find_sub '']]'' s of Some n \<Rightarrow> (if CHR 0x0A \<in> set (take n s) then None else Some n) | None \<Rightarrow> None)"

function wikilinks :: "string \<Rightarrow> string list" where
  "wikilinks [] = []"
| "wikilinks (c # cs) =
     (case (if startswith (c # cs) ''[['' then link_close (drop 1 cs) else None) of
        Some n \<Rightarrow> take n (drop 1 cs) # wikilinks (drop (n + 3) cs)
      | None \<Rightarrow> wikilinks cs)"
  by pat_completeness auto

termination by (relation "measure length") auto

definition best_position :: "string \<Rightarrow> string list \<Rightarrow> nat option" where
  "best_position low tokens =
     fold (\<lambda>t best. case find_sub t low of
             None \<Rightarrow> best
           | Some p \<Rightarrow> (case best of None \<Rightarrow> Some p | Some b \<Rightarrow> if p < b then Some p else Some b)) tokens None"

definition first_heading :: "heading list \<Rightarrow> string option" where
  "first_heading hs = (case hs of [] \<Rightarrow> None | h # _ \<Rightarrow> Some (hd_text h))"

definition generate_match_snippet :: "string \<Rightarrow> string list \<Rightarrow> nat \<Rightarrow> string \<times> string option" where
  "generate_match_snippet content tokens max_len =
     (let hs = extract_headings content in
      case (if tokens = [] then None else best_position (py_lower content) tokens) of
        None \<Rightarrow> (strip (take max_len content), first_heading hs)
      | Some best \<Rightarrow>
          (let half = max_len div 2; start = best - half; stop = min (length content) (best + half);
               body = strip (slice start stop content);
               h = (case rev (takeWhile (\<lambda>h. hd_start h \<le> best) hs) of [] \<Rightarrow> None | x # _ \<Rightarrow> Some (hd_text x))
           in ((if 0 < start then ''...'' else []) @ body @ (if stop < length content then ''...'' else []),
               (case h of None \<Rightarrow> first_heading hs | Some t \<Rightarrow> if t = [] then first_heading hs else Some t))))"

section \<open>Files of the vault\<close>

text \<open>Opening a file for reading: every directory on the way must be one.\<close>

definition open_text :: "filesystem \<Rightarrow> string list \<Rightarrow> string result" where
  "open_text fs p =
     (if list_ex (\<lambda>n. CHR 0x00 \<in> set n) p then Inl (ValueError ''embedded null byte'')
      else case List.find (\<lambda>n. \<not> os_is_dir fs (take n p)) [0..<length p] of
        Some n \<Rightarrow>
          (case path_resolve fs (take n p) of
             Inl e \<Rightarrow> Inl e
           | Inr _ \<Rightarrow> Inl (OtherError (if os_exists fs (take n p) then ''NotADirectoryError'' else ''FileNotFoundError'')))
      | None \<Rightarrow>
          (case path_resolve fs p of
             Inl e \<Rightarrow> Inl e
           | Inr _ \<Rightarrow> bind_result (os_read fs p) (\<lambda>t. Inr (universal_newlines t))))"

definition suffix_of :: "string \<Rightarrow> string" where
  "suffix_of name = drop (length (stem name)) name"

definition is_indexable_note_path :: "string list \<Rightarrow> string list \<Rightarrow> bool" where
  "is_indexable_note_path p base =
     (case relative_to base p of
        None \<Rightarrow> False
      | Some rel \<Rightarrow> list_all (\<lambda>n. \<not> startswith n ''.'') rel \<and> (p \<noteq> [] \<and> py_lower (suffix_of (last p)) = ''.md''))"

definition vault_entries :: "filesystem \<Rightarrow> string list \<Rightarrow> string list list" where
  "vault_entries fs base =
     filter (\<lambda>q. is_relative_to q base \<and> q \<noteq> base \<and> list_all (\<lambda>n. is_dir fs (take n q)) [length base..<length q] \<and>
                 endswith (last q) ''.md'') (remdups (map fst fs))"

definition indexable_entries :: "filesystem \<Rightarrow> string list \<Rightarrow> string list list" where
  "indexable_entries fs base = filter (\<lambda>q. is_indexable_note_path q base) (vault_entries fs base)"

definition ref_of :: "string list \<Rightarrow> string list \<Rightarrow> string" where
  "ref_of base q = path_str (drop (length base) q)"

section \<open>Reading and listing\<close>

record vault_note =
  nt_ref :: string
  nt_content :: string
  nt_frontmatter :: "(string \<times> string) list"
  nt_links :: "string list"

definition read_note :: "filesystem \<Rightarrow> string list \<Rightarrow> string \<Rightarrow> vault_note result" where
  "read_note fs base ref =
     bind_result (with_md (join_path base ref)) (\<lambda>p.
       case open_text fs p of
         Inr content \<Rightarrow> Inr \<lparr>nt_ref = ref, nt_content = content, nt_frontmatter = parse_frontmatter content,
                            nt_links = wikilinks content\<rparr>
       | Inl e \<Rightarrow> Inl (if e = OtherError ''FileNotFoundError'' then ValueError (''Note not found: '' @ ref) else e))"

definition list_notes :: "filesystem \<Rightarrow> string list \<Rightarrow> (string \<times> string option) list" where
  "list_notes fs base =
     map (\<lambda>q. (ref_of base q, case open_text fs q of Inr content \<Rightarrow> note_title content | Inl _ \<Rightarrow> None))
       (indexable_entries fs base)"

section \<open>The index\<close>

record doc_entry =
  de_mtime :: rat
  de_len :: nat
  de_title :: "string option"
  de_freqs :: "(string \<times> nat) list"

record vault_index =
  vi_updated_at :: string
  vi_avg :: rat
  vi_docs :: "(string \<times> doc_entry) list"

record vault_lib =
  vl_load :: "string \<Rightarrow> vault_index option"
  vl_dump :: "vault_index \<Rightarrow> string"
  vl_mtime :: "string list \<Rightarrow> rat"
  vl_opaque_size :: "string list \<Rightarrow> int"
  vl_log :: "rat \<Rightarrow> rat"
  vl_now :: string

definition index_path :: "string list \<Rightarrow> string list" where
  "index_path base = base @ [''.agentos_vault_index.json'']"

definition MAX_AUTO_INDEX_FILES :: int where "MAX_AUTO_INDEX_FILES = 50"
definition MAX_AUTO_INDEX_BYTES :: int where "MAX_AUTO_INDEX_BYTES = 1000000"

text \<open>\<open>p.stat()\<close> follows links.\<close>

definition stat_size :: "vault_lib \<Rightarrow> filesystem \<Rightarrow> string list \<Rightarrow> int option" where
  "stat_size lib fs p =
     (case os_node fs p of
        Some (File (Some t)) \<Rightarrow> Some (int (utf8_length t))
      | Some _ \<Rightarrow> Some (vl_opaque_size lib p)
      | None \<Rightarrow> None)"

fun auto_build_within :: "vault_lib \<Rightarrow> filesystem \<Rightarrow> int \<Rightarrow> int \<Rightarrow> string list list \<Rightarrow> bool" where
  "auto_build_within lib fs n bytes [] = True"
| "auto_build_within lib fs n bytes (p # ps) =
     (if MAX_AUTO_INDEX_FILES < n + 1 then False
      else case stat_size lib fs p of
        None \<Rightarrow> auto_build_within lib fs (n + 1) bytes ps
      | Some sz \<Rightarrow>
          if MAX_AUTO_INDEX_BYTES < bytes + sz then False else auto_build_within lib fs (n + 1) (bytes + sz) ps)"

definition should_auto_build_index :: "vault_lib \<Rightarrow> filesystem \<Rightarrow> string list \<Rightarrow> bool" where
  "should_auto_build_index lib fs base = auto_build_within lib fs 0 0 (indexable_entries fs base)"

fun term_freqs :: "string list \<Rightarrow> (string \<times> nat) list \<Rightarrow> (string \<times> nat) list" where
  "term_freqs [] tf = tf"
| "term_freqs (t # ts) tf = term_freqs ts (dict_set t ((case dict_get tf t of None \<Rightarrow> 0 | Some n \<Rightarrow> n) + 1) tf)"

definition doc_of :: "vault_lib \<Rightarrow> string list \<Rightarrow> string \<Rightarrow> doc_entry" where
  "doc_of lib p content =
     \<lparr>de_mtime = vl_mtime lib p, de_len = length (tokenize content), de_title = note_title content,
      de_freqs = term_freqs (tokenize content) []\<rparr>"

record index_result =
  ir_indexed :: nat
  ir_deleted :: nat
  ir_errors :: "string list"
  ir_doc_count :: nat
  ir_avg :: rat

record index_work =
  iw_docs :: "(string \<times> doc_entry) list"
  iw_errors :: "string list"
  iw_indexed :: nat
  iw_deleted :: nat

definition loaded_docs :: "vault_lib \<Rightarrow> filesystem \<Rightarrow> string list \<Rightarrow> (string \<times> doc_entry) list" where
  "loaded_docs lib fs base =
     (case (if os_is_file fs (index_path base) then open_text fs (index_path base) else Inl (OtherError [])) of
        Inl _ \<Rightarrow> []
      | Inr t \<Rightarrow> (case vl_load lib t of None \<Rightarrow> [] | Some i \<Rightarrow> vi_docs i))"

definition index_note :: "vault_lib \<Rightarrow> filesystem \<Rightarrow> string \<Rightarrow> string \<Rightarrow> string list \<Rightarrow> index_work \<Rightarrow> index_work" where
  "index_note lib fs shown ref p w =
     (case open_text fs p of
        Inl e \<Rightarrow> w\<lparr>iw_errors := iw_errors w @ [''Failed to index '' @ shown @ '': '' @ exn_message e]\<rparr>
      | Inr content \<Rightarrow> w\<lparr>iw_docs := dict_set ref (doc_of lib p content) (iw_docs w), iw_indexed := iw_indexed w + 1\<rparr>)"

definition drop_doc :: "string \<Rightarrow> index_work \<Rightarrow> index_work" where
  "drop_doc ref w =
     (if dict_get (iw_docs w) ref = None then w
      else w\<lparr>iw_docs := AList.delete ref (iw_docs w), iw_deleted := iw_deleted w + 1\<rparr>)"

fun index_refs :: "vault_lib \<Rightarrow> filesystem \<Rightarrow> string list \<Rightarrow> string list \<Rightarrow> index_work \<Rightarrow> index_work result" where
  "index_refs lib fs base [] w = Inr w"
| "index_refs lib fs base (ref # refs) w =
     bind_result (with_md (join_path base ref)) (\<lambda>p.
       case relative_to base p of
         None \<Rightarrow> Inl (ValueError (abs_str p @ '' is not in the subpath of '' @ abs_str base))
       | Some rel \<Rightarrow>
           index_refs lib fs base refs
             (if \<not> os_is_file fs p \<or> \<not> is_indexable_note_path p base then drop_doc (path_str rel) w
              else index_note lib fs ref (path_str rel) p w))"

definition index_all :: "vault_lib \<Rightarrow> filesystem \<Rightarrow> string list \<Rightarrow> index_work \<Rightarrow> index_work" where
  "index_all lib fs base w =
     (let found = indexable_entries fs base;
          w1 = fold (\<lambda>q. index_note lib fs (ref_of base q) (ref_of base q) q) found w;
          gone = filter (\<lambda>k. k \<notin> ref_of base ` set found) (map fst (iw_docs w1))
      in fold drop_doc gone w1)"

text \<open>\<open>round(x, 2)\<close> of a double\<close>

definition round2 :: "rat \<Rightarrow> rat" where
  "round2 x = to_double (of_int (round_half_even (x * 100)) / 100)"

definition avg_doc_len :: "(string \<times> doc_entry) list \<Rightarrow> rat" where
  "avg_doc_len docs =
     (if docs = [] then 0 else to_double (of_nat (sum_list (map (de_len \<circ> snd) docs)) / of_nat (length docs)))"

text \<open>\<open>open(path, "w")\<close> and \<open>write\<close>\<close>

definition write_text :: "filesystem \<Rightarrow> string list \<Rightarrow> string \<Rightarrow> filesystem result" where
  "write_text fs p t =
     (case path_resolve fs p of
        Inl e \<Rightarrow> Inl e
      | Inr r \<Rightarrow>
          if is_dir fs r then Inl (OtherError ''IsADirectoryError'')
          else if \<not> is_dir fs (butlast r) then Inl (OtherError ''FileNotFoundError'')
          else Inr (AList.update r (File (Some t)) fs))"

definition save_index :: "vault_lib \<Rightarrow> string list \<Rightarrow> index_work \<Rightarrow> filesystem \<Rightarrow> index_result \<times> filesystem" where
  "save_index lib base w fs =
     (let docs = iw_docs w; avg = round2 (avg_doc_len docs);
          result = (\<lambda>errs. \<lparr>ir_indexed = iw_indexed w, ir_deleted = iw_deleted w, ir_errors = errs,
                            ir_doc_count = length docs, ir_avg = avg\<rparr>)
      in case write_text fs (index_path base) (vl_dump lib \<lparr>vi_updated_at = vl_now lib, vi_avg = avg, vi_docs = docs\<rparr>) of
           Inl e \<Rightarrow> (result (iw_errors w @ [''Failed to save index file: '' @ exn_message e]), fs)
         | Inr fs' \<Rightarrow> (result (iw_errors w), fs'))"

definition index_vault ::
  "vault_lib \<Rightarrow> string list \<Rightarrow> string list option \<Rightarrow> filesystem \<Rightarrow> index_result result \<times> filesystem" where
  "index_vault lib base refs fs =
     (let w = \<lparr>iw_docs = loaded_docs lib fs base, iw_errors = [], iw_indexed = 0, iw_deleted = 0\<rparr> in
      case refs of
        None \<Rightarrow> (case save_index lib base (index_all lib fs base w) fs of (r, fs') \<Rightarrow> (Inr r, fs'))
      | Some rs \<Rightarrow>
          (case index_refs lib fs base rs w of
             Inl e \<Rightarrow> (Inl e, fs)
           | Inr w' \<Rightarrow> (case save_index lib base w' fs of (r, fs') \<Rightarrow> (Inr r, fs'))))"

definition reindex :: "vault_lib \<Rightarrow> string list \<Rightarrow> filesystem \<Rightarrow> index_result result \<times> filesystem" where
  "reindex lib base fs =
     index_vault lib base None (if os_is_file fs (index_path base) then AList.delete (index_path base) fs else fs)"

datatype index_health = Unindexed | Ready_index | Stale_index | Broken_index

record index_report =
  rp_health :: index_health
  rp_count :: nat
  rp_path :: string
  rp_last :: "string option"

text \<open>The loop of \<open>index_status\<close>: \<open>Inl\<close> when \<open>stat\<close> raises, otherwise whether it found something newer, and how
  many notes it saw.\<close>

fun look_for_changes ::
  "vault_lib \<Rightarrow> filesystem \<Rightarrow> string list \<Rightarrow> (string \<times> doc_entry) list \<Rightarrow> nat \<Rightarrow> string list list \<Rightarrow> (bool \<times> nat) result" where
  "look_for_changes lib fs base docs n [] = Inr (False, n)"
| "look_for_changes lib fs base docs n (p # ps) =
     (case dict_get docs (ref_of base p) of
        None \<Rightarrow> Inr (True, n + 1)
      | Some d \<Rightarrow>
          (case os_node fs p of
             None \<Rightarrow> Inl (OtherError ''FileNotFoundError'')
           | Some _ \<Rightarrow> if de_mtime d < vl_mtime lib p then Inr (True, n + 1)
                       else look_for_changes lib fs base docs (n + 1) ps))"

definition index_status :: "vault_lib \<Rightarrow> string list \<Rightarrow> filesystem \<Rightarrow> index_report" where
  "index_status lib base fs =
     (let report = (\<lambda>h n l. \<lparr>rp_health = h, rp_count = n, rp_path = abs_str (index_path base), rp_last = l\<rparr>) in
      if \<not> os_is_file fs (index_path base) then report Unindexed 0 None
      else case open_text fs (index_path base) of
        Inl _ \<Rightarrow> report Broken_index 0 None
      | Inr t \<Rightarrow>
          (case vl_load lib t of
             None \<Rightarrow> report Broken_index 0 None
           | Some i \<Rightarrow>
               (case look_for_changes lib fs base (vi_docs i) 0 (indexable_entries fs base) of
                  Inl _ \<Rightarrow> report Broken_index 0 None
                | Inr (stale, n) \<Rightarrow>
                    report (if stale \<or> n \<noteq> length (vi_docs i) then Stale_index else Ready_index)
                      (length (vi_docs i)) (Some (vi_updated_at i)))))"

section \<open>Search\<close>

definition empty_index :: vault_index where
  "empty_index = \<lparr>vi_updated_at = [], vi_avg = 0, vi_docs = []\<rparr>"

definition load_index :: "vault_lib \<Rightarrow> string list \<Rightarrow> filesystem \<Rightarrow> vault_index option" where
  "load_index lib base fs =
     (if os_is_file fs (index_path base)
      then (case open_text fs (index_path base) of Inl _ \<Rightarrow> None | Inr t \<Rightarrow> vl_load lib t) else None)"

definition load_or_build_index :: "vault_lib \<Rightarrow> string list \<Rightarrow> filesystem \<Rightarrow> vault_index \<times> filesystem" where
  "load_or_build_index lib base fs =
     (case load_index lib base fs of
        Some i \<Rightarrow> (i, fs)
      | None \<Rightarrow>
          if should_auto_build_index lib fs base
          then (case index_vault lib base None fs of (_, fs') \<Rightarrow>
                  ((case load_index lib base fs' of Some i \<Rightarrow> i | None \<Rightarrow> empty_index), fs'))
          else (empty_index, fs))"

record search_hit =
  sh_ref :: string
  sh_title :: "string option"
  sh_snippet :: string
  sh_score :: rat
  sh_heading :: "string option"

definition dadd :: "rat \<Rightarrow> rat \<Rightarrow> rat" where "dadd x y = to_double (x + y)"
definition dmul :: "rat \<Rightarrow> rat \<Rightarrow> rat" where "dmul x y = to_double (x * y)"
definition ddiv :: "rat \<Rightarrow> rat \<Rightarrow> rat" where "ddiv x y = to_double (x / y)"

definition idf_of :: "vault_lib \<Rightarrow> (string \<times> doc_entry) list \<Rightarrow> string \<Rightarrow> rat" where
  "idf_of lib docs t =
     (let n = length (filter (\<lambda>(_, d). dict_get (de_freqs d) t \<noteq> None) docs)
      in vl_log lib (dadd (ddiv (dadd (of_int (int (length docs) - int n)) (1 / 2)) (dadd (of_nat n) (1 / 2))) 1))"

definition token_score :: "(string \<Rightarrow> rat) \<Rightarrow> rat \<Rightarrow> doc_entry \<Rightarrow> string \<Rightarrow> rat \<Rightarrow> rat" where
  "token_score idf avg d t score =
     (let tf = (case dict_get (de_freqs d) t of None \<Rightarrow> 0 | Some n \<Rightarrow> n) in
      if tf = 0 then score
      else (let denom = dadd (of_nat tf) (dmul (3 / 2) (dadd (1 / 4) (dmul (3 / 4) (ddiv (of_nat (de_len d)) avg))))
            in dadd score (ddiv (dmul (idf t) (dmul (of_nat tf) (5 / 2))) denom)))"

definition doc_score :: "vault_lib \<Rightarrow> vault_index \<Rightarrow> string list \<Rightarrow> doc_entry \<Rightarrow> rat" where
  "doc_score lib i tokens d =
     fold (token_score (idf_of lib (vi_docs i)) (if vi_avg i = 0 then 1 else vi_avg i) d) tokens 0"

definition ranked :: "vault_lib \<Rightarrow> vault_index \<Rightarrow> string list \<Rightarrow> (rat \<times> string \<times> string option) list" where
  "ranked lib i tokens =
     sort_key (\<lambda>(s, _). - s)
       (filter (\<lambda>(s, _). 0 < s) (map (\<lambda>(ref, d). (doc_score lib i tokens d, ref, de_title d)) (vi_docs i)))"

definition hit_of :: "filesystem \<Rightarrow> string list \<Rightarrow> string list \<Rightarrow> rat \<times> string \<times> string option \<Rightarrow> search_hit" where
  "hit_of fs base tokens found =
     (case found of (score, ref, title) \<Rightarrow>
        (case (case open_text fs (join_path base ref) of
                 Inl _ \<Rightarrow> ([], None) | Inr content \<Rightarrow> generate_match_snippet content tokens 200) of
           (snippet, h) \<Rightarrow>
             \<lparr>sh_ref = ref, sh_title = title, sh_snippet = snippet,
              sh_score = to_double (of_int (round_half_even (score * 10000)) / 10000),
              sh_heading = (case h of Some t \<Rightarrow> if t = [] then None else Some t | None \<Rightarrow> None)\<rparr>))"

definition search_vault ::
  "vault_lib \<Rightarrow> string list \<Rightarrow> string \<Rightarrow> int \<Rightarrow> filesystem \<Rightarrow> search_hit list \<times> filesystem" where
  "search_vault lib base query limit fs =
     (let tokens = tokenize query in
      if tokens = [] then ([], fs)
      else (case load_or_build_index lib base fs of
              (i, fs') \<Rightarrow> (map (hit_of fs' base tokens) (slice_to limit (ranked lib i tokens)), fs')))"

section \<open>The \<open>filesystem\<close> connector and search hits\<close>

definition dict_or :: "pyval \<Rightarrow> string \<Rightarrow> pydict \<Rightarrow> pyval" where
  "dict_or v k d = (case dict_get d k of None \<Rightarrow> v | Some x \<Rightarrow> x)"

definition failed_with :: "string \<Rightarrow> pyval execution_result" where
  "failed_with e = \<lparr>status = Failed, outputs = [], artifacts = [], errors = [e]\<rparr>"

definition completed_with :: "pydict \<Rightarrow> pyval execution_result" where
  "completed_with out = \<lparr>status = Completed, outputs = out, artifacts = [], errors = []\<rparr>"

definition FILESYSTEM_ACTIONS :: "string list" where
  "FILESYSTEM_ACTIONS = [''read'', ''list'', ''stat'']"

text \<open>What an action finds at a path that was accepted.\<close>

definition filesystem_action :: "vault_lib \<Rightarrow> filesystem \<Rightarrow> string \<Rightarrow> string list \<Rightarrow> pydict result" where
  "filesystem_action lib fs action p =
     (if action = ''read'' then bind_result (open_text fs p) (\<lambda>t. Inr [(''content'', PStr t)])
      else if action = ''list'' then
        (if is_dir fs p then Inr [(''items'', PList (map PStr (children fs p)))]
         else Inl (OtherError (if os_exists fs p then ''NotADirectoryError'' else ''FileNotFoundError'')))
      else (case stat_size lib fs p of
              None \<Rightarrow> Inl (OtherError ''FileNotFoundError'')
            | Some n \<Rightarrow> Inr [(''size'', PInt n), (''is_dir'', PBool (is_dir fs p))]))"

definition filesystem_invoke :: "vault_lib \<Rightarrow> os_env \<Rightarrow> string \<Rightarrow> pydict \<Rightarrow> pyval execution_result result" where
  "filesystem_invoke lib os action args =
     (if action \<notin> set FILESYSTEM_ACTIONS then Inr (failed_with (''Unsupported action: '' @ action))
      else case dict_or PNone ''path'' args of
        PStr path \<Rightarrow>
          (if path = [] then Inr (failed_with ''Missing argument: path'')
           else case resolve_sandbox_path os path of
             Inl (ValueError m) \<Rightarrow> Inr (failed_with m)
           | Inl e \<Rightarrow> Inl e
           | Inr p \<Rightarrow>
               (case filesystem_action lib (os_fs os) action p of
                  Inl e \<Rightarrow> Inr (failed_with (''Filesystem error: '' @ exn_message e))
                | Inr out \<Rightarrow> Inr (completed_with out)))
      | v \<Rightarrow> if truthy v then Inl (TypeError ''argument should be a str or an os.PathLike object'')
             else Inr (failed_with ''Missing argument: path''))"

record memory_hit =
  mh_ref :: string
  mh_title :: "string option"
  mh_snippet :: string
  mh_score :: "pyval option"
  mh_source :: pydict

datatype raw_hit = Hit memory_hit | Raw pyval

definition hit_keys :: "string list" where
  "hit_keys = [''ref'', ''path'', ''slug'', ''title'', ''snippet'', ''content'', ''score'', ''source'']"

definition not_none :: "pyval \<Rightarrow> pyval option" where
  "not_none v = (if v = PNone then None else Some v)"

text \<open>\<open>as_float\<close> is \<open>float(x)\<close>, \<open>None\<close> when it raises \<open>ValueError\<close> or \<open>TypeError\<close>.\<close>

fun normalize_memory_hit :: "(pyval \<Rightarrow> pyval option) \<Rightarrow> raw_hit \<Rightarrow> memory_hit" where
  "normalize_memory_hit as_float (Hit h) = h"
| "normalize_memory_hit as_float (Raw (PDict d)) =
     \<lparr>mh_ref = py_str (dict_or (dict_or (dict_or (PStr ''unknown'') ''slug'' d) ''path'' d) ''ref'' d),
      mh_title = map_option py_str (not_none (dict_or PNone ''title'' d)),
      mh_snippet = py_str (dict_or (dict_or (PStr []) ''content'' d) ''snippet'' d),
      mh_score = (case not_none (dict_or PNone ''score'' d) of None \<Rightarrow> None | Some v \<Rightarrow> as_float v),
      mh_source = (case dict_or PNone ''source'' d of PDict s \<Rightarrow> s | _ \<Rightarrow> filter (\<lambda>(k, _). k \<notin> set hit_keys) d)\<rparr>"
| "normalize_memory_hit as_float (Raw v) =
     \<lparr>mh_ref = py_str v, mh_title = None, mh_snippet = py_str v, mh_score = None, mh_source = []\<rparr>"

section \<open>The \<open>gbrain\<close> connector\<close>

datatype post_outcome = Url_error string | Post_raises py_exn | Post_body string

text \<open>The server answers a request after those that were sent before; \<open>gb_loads\<close> is \<open>json.loads\<close>.\<close>

type_synonym rpc_request = "string \<times> pydict"

record gbrain_lib =
  gb_token :: "string option"
  gb_post :: "rpc_request list \<Rightarrow> rpc_request \<Rightarrow> post_outcome"
  gb_loads :: "string \<Rightarrow> pyval option"
  gb_now :: string

text \<open>\<open>if "result" in data: return data["result"]\<close>\<close>

fun result_in :: "pyval \<Rightarrow> pyval option result" where
  "result_in (PDict d) = Inr (dict_get d ''result'')"
| "result_in (PList xs) =
     (if PStr ''result'' \<in> set xs then Inl (TypeError ''list indices must be integers or slices, not str'') else Inr None)"
| "result_in (PStr s) =
     (if contains ''result'' s then Inl (TypeError ''string indices must be integers, not str'') else Inr None)"
| "result_in _ = Inl (TypeError ''argument is not iterable'')"

fun sse_result :: "(string \<Rightarrow> pyval option) \<Rightarrow> string list \<Rightarrow> pyval option result" where
  "sse_result loads [] = Inr None"
| "sse_result loads (l # ls) =
     (if startswith l ''data: '' then
        (case loads (drop 6 l) of
           None \<Rightarrow> sse_result loads ls
         | Some v \<Rightarrow> bind_result (result_in v) (\<lambda>r. case r of Some x \<Rightarrow> Inr (Some x) | None \<Rightarrow> sse_result loads ls))
      else sse_result loads ls)"

definition reply_value :: "(string \<Rightarrow> pyval option) \<Rightarrow> string \<Rightarrow> pyval result" where
  "reply_value loads content =
     bind_result (sse_result loads (split_on CHR 0x0A content)) (\<lambda>r.
       case r of
         Some x \<Rightarrow> Inr x
       | None \<Rightarrow>
           (case loads content of
              None \<Rightarrow> Inr (PStr content)
            | Some v \<Rightarrow> bind_result (result_in v) (\<lambda>r. Inr (case r of Some x \<Rightarrow> x | None \<Rightarrow> PStr content))))"

definition call_rpc :: "gbrain_lib \<Rightarrow> string \<Rightarrow> pydict \<Rightarrow> rpc_request list \<Rightarrow> pyval result \<times> rpc_request list" where
  "call_rpc lib rpc params sent =
     (if \<not> opt_truthy (gb_token lib) then (Inl (OtherError ''gbrain not configured''), sent)
      else ((case gb_post lib sent (rpc, params) of
               Url_error m \<Rightarrow> Inl (OtherError (''Gbrain error: '' @ m))
             | Post_raises e \<Rightarrow> Inl e
             | Post_body t \<Rightarrow> reply_value (gb_loads lib) t), sent @ [(rpc, params)]))"

text \<open>The list that a tool call returned as the text of its first content, under a key or bare.\<close>

definition listed_under :: "(string \<Rightarrow> pyval option) \<Rightarrow> string \<Rightarrow> pyval \<Rightarrow> pyval result" where
  "listed_under loads key res =
     (case res of
        PDict d \<Rightarrow>
          (case dict_or PNone ''content'' d of
             PList (c # _) \<Rightarrow>
               (case c of
                  PDict cd \<Rightarrow>
                    (case dict_or (PStr []) ''text'' cd of
                       PStr text \<Rightarrow>
                         (case loads text of
                            Some (PDict p) \<Rightarrow> Inr (dict_or (PList []) key p)
                          | Some (PList xs) \<Rightarrow> Inr (PList xs)
                          | _ \<Rightarrow> Inr (PList []))
                     | _ \<Rightarrow> Inr (PList []))
                | _ \<Rightarrow> Inl (OtherError ''AttributeError''))
           | _ \<Rightarrow> Inr (PList []))
      | PList xs \<Rightarrow> Inr (PList xs)
      | _ \<Rightarrow> Inr (PList []))"

fun first_200 :: "pyval \<Rightarrow> pyval result" where
  "first_200 (PStr s) = Inr (PStr (take 200 s))"
| "first_200 (PList xs) = Inr (PList (take 200 xs))"
| "first_200 _ = Inl (TypeError ''object is not subscriptable'')"

fun gbrain_hits :: "pyval list \<Rightarrow> pydict list result" where
  "gbrain_hits [] = Inr []"
| "gbrain_hits (PDict d # hs) =
     bind_result (first_200 (dict_or (PStr []) ''chunk_text'' d)) (\<lambda>snippet.
     bind_result (gbrain_hits hs) (\<lambda>rest.
       Inr ([(''ref'', dict_or (PStr []) ''slug'' d), (''title'', dict_or PNone ''title'' d), (''snippet'', snippet),
             (''score'', dict_or PNone ''score'' d)] # rest)))"
| "gbrain_hits (_ # hs) = gbrain_hits hs"

fun gbrain_pages :: "pyval list \<Rightarrow> pydict list" where
  "gbrain_pages [] = []"
| "gbrain_pages (PDict d # ps) =
     [(''ref'', dict_or (PStr []) ''slug'' d), (''title'', dict_or PNone ''title'' d)] # gbrain_pages ps"
| "gbrain_pages (_ # ps) = gbrain_pages ps"

definition call_tool :: "gbrain_lib \<Rightarrow> string \<Rightarrow> pydict \<Rightarrow> rpc_request list \<Rightarrow> pyval result \<times> rpc_request list" where
  "call_tool lib tool_name args sent =
     call_rpc lib ''tools/call'' [(''name'', PStr tool_name), (''arguments'', PDict args)] sent"

definition gbrain_search :: "gbrain_lib \<Rightarrow> string \<Rightarrow> int \<Rightarrow> rpc_request list \<Rightarrow> pydict list result \<times> rpc_request list" where
  "gbrain_search lib query limit sent =
     (case call_tool lib ''query'' [(''query'', PStr query), (''limit'', PInt limit)] sent of
        (r, sent') \<Rightarrow>
          (bind_result r (\<lambda>res. bind_result (listed_under (gb_loads lib) ''hits'' res) (\<lambda>v.
             case v of PList hs \<Rightarrow> gbrain_hits hs | _ \<Rightarrow> Inr [])), sent'))"

definition gbrain_list_notes :: "gbrain_lib \<Rightarrow> pydict \<Rightarrow> rpc_request list \<Rightarrow> pydict list result \<times> rpc_request list" where
  "gbrain_list_notes lib filters sent =
     (case call_tool lib ''list_pages'' filters sent of
        (r, sent') \<Rightarrow>
          (bind_result r (\<lambda>res. bind_result (listed_under (gb_loads lib) ''pages'' res) (\<lambda>v.
             Inr (case v of PList ps \<Rightarrow> gbrain_pages ps | _ \<Rightarrow> []))), sent'))"

definition set_default :: "string \<Rightarrow> pyval \<Rightarrow> pydict \<Rightarrow> pydict" where
  "set_default k v d = (if dict_get d k = None then d @ [(k, v)] else d)"

definition gbrain_write_note ::
  "gbrain_lib \<Rightarrow> string \<Rightarrow> string \<Rightarrow> pydict option \<Rightarrow> string \<Rightarrow> rpc_request list
     \<Rightarrow> memory_write_result result \<times> rpc_request list" where
  "gbrain_write_note lib ref content fm md sent =
     (if md \<noteq> ''overwrite''
      then (Inl (OtherError ''GbrainConnector only supports explicit overwrite: its put_page operation is an upsert and cannot safely implement create or append.''), sent)
      else
        (let slug = (if startswith ref ''agentos/'' then ref else ''agentos/'' @ ref);
             merged = set_default ''source'' (PStr ''default'') (set_default ''via'' (PStr ''agent-os-v1.4'')
                       (set_default ''created'' (PStr (gb_now lib)) (set_default ''agent'' (PStr ''agent-os'')
                         (case fm of None \<Rightarrow> [] | Some d \<Rightarrow> d))));
             final = serialize_markdown_with_frontmatter content merged
         in case call_tool lib ''put_page'' [(''slug'', PStr slug), (''content'', PStr final)] sent of
              (Inl e, sent') \<Rightarrow> (Inl e, sent')
            | (Inr _, sent') \<Rightarrow>
                (Inr \<lparr>wr_ref = slug, wr_mode = md, bytes_written = Some (utf8_length final), committed = True,
                      wr_status = Completed, wr_error = None\<rparr>, sent')))"

definition gbrain :: "gbrain_lib \<Rightarrow> rpc_request list writable_memory" where
  "gbrain lib = \<lparr>memory_name = Some ''gbrain'', supported_write_modes = Modes [''overwrite''], write_note = gbrain_write_note lib\<rparr>"

section \<open>What is listed, searched and indexed unasked\<close>

text \<open>Every note that is listed lies in the vault: its reference is the path of an entry strictly below the
  vault's directory, reached through real directories only, with a name in \<open>.md\<close>, and neither it nor a
  directory on the way is hidden.\<close>

theorem listed_notes_visible:
  assumes "(ref, title) \<in> set (list_notes fs base)"
  shows "\<exists>rel. rel \<noteq> [] \<and> ref = join ''/'' rel \<and> base @ rel \<in> fst ` set fs \<and> endswith (last rel) ''.md'' \<and>
    (\<forall>n\<in>set rel. \<not> startswith n ''.'') \<and> (\<forall>k<length rel. is_dir fs (base @ take k rel))"
proof -
  from assms obtain q where q: "q \<in> set (indexable_entries fs base)" "ref = ref_of base q"
    by (auto simp: list_notes_def)
  then obtain rel where rel: "q = base @ rel" "rel \<noteq> []"
    by (auto simp: indexable_entries_def vault_entries_def is_relative_iff)
  with q have "\<forall>n\<in>{length base..<length q}. is_dir fs (take n q)" "endswith (last rel) ''.md''" "q \<in> fst ` set fs"
    "\<forall>n\<in>set rel. \<not> startswith n ''.''"
    by (auto simp: indexable_entries_def vault_entries_def is_indexable_note_path_def relative_to_def list_all_iff)
  moreover have "is_dir fs (base @ take k rel)" if "k < length rel" for k
    using bspec [OF calculation(1), of "length base + k"] that by (simp add: rel(1))
  ultimately show ?thesis using q(2) rel by (intro exI [of _ rel]) (auto simp: ref_of_def path_str_def)
qed

lemma auto_build_within_bounds:
  "auto_build_within lib fs n bytes ps \<Longrightarrow> n \<le> MAX_AUTO_INDEX_FILES \<Longrightarrow> bytes \<le> MAX_AUTO_INDEX_BYTES \<Longrightarrow>
     n + int (length ps) \<le> MAX_AUTO_INDEX_FILES \<and>
     bytes + sum_list (map (\<lambda>p. case stat_size lib fs p of None \<Rightarrow> 0 | Some s \<Rightarrow> s) ps) \<le> MAX_AUTO_INDEX_BYTES"
proof (induction ps arbitrary: n bytes)
  case (Cons p ps)
  show ?case
  proof (cases "stat_size lib fs p")
    case None
    with Cons.prems have "n + 1 \<le> MAX_AUTO_INDEX_FILES" "auto_build_within lib fs (n + 1) bytes ps"
      by (auto split: if_splits)
    from Cons.IH [OF this(2,1) Cons.prems(3)] None show ?thesis by simp
  next
    case (Some sz)
    with Cons.prems have "n + 1 \<le> MAX_AUTO_INDEX_FILES" "bytes + sz \<le> MAX_AUTO_INDEX_BYTES"
      "auto_build_within lib fs (n + 1) (bytes + sz) ps"
      by (auto split: if_splits)
    from Cons.IH [OF this(3,1,2)] Some show ?thesis by simp
  qed
qed simp

text \<open>A search that finds no index does not scan a big vault: it writes an index only when the vault has at
  most fifty notes of at most a million bytes together; otherwise it answers nothing and changes nothing.\<close>

theorem cold_search_bounded:
  assumes "load_index lib base fs = None" "search_vault lib base query limit fs = (hits, fs')"
  shows "length (indexable_entries fs base) \<le> 50 \<and>
      sum_list (map (\<lambda>p. case stat_size lib fs p of None \<Rightarrow> 0 | Some s \<Rightarrow> s) (indexable_entries fs base)) \<le> 1000000 \<or>
    hits = [] \<and> fs' = fs"
proof (cases "should_auto_build_index lib fs base")
  case True
  then show ?thesis
    using auto_build_within_bounds [of lib fs 0 0 "indexable_entries fs base"]
    by (simp add: should_auto_build_index_def MAX_AUTO_INDEX_FILES_def MAX_AUTO_INDEX_BYTES_def)
next
  case False
  then have "load_or_build_index lib base fs = (empty_index, fs)" using assms(1) by (simp add: load_or_build_index_def)
  then have "hits = [] \<and> fs' = fs"
    using assms(2) by (auto simp: search_vault_def Let_def ranked_def empty_index_def slice_to_def split: if_splits)
  then show ?thesis by blast
qed

lemma distinct_map_sorted: "distinct (map g (sort_key f xs)) \<longleftrightarrow> distinct (map g xs)"
  by (simp add: distinct_map)

lemma sorted_down: "sorted (map (\<lambda>x. - f x :: rat) xs) \<Longrightarrow> sorted (rev (map f xs))"
  by (simp add: sorted_map sorted_wrt_rev sorted_wrt_map)

text \<open>The hits of a search are documents of the index with a positive score, each at most once, the best
  first, and at most as many as asked for.\<close>

theorem search_ranked:
  assumes "search_vault lib base query limit fs = (hits, fs')" "0 \<le> limit" "load_or_build_index lib base fs = (i, fs')"
    and "distinct (map fst (vi_docs i))"
  shows "int (length hits) \<le> limit \<and> distinct (map sh_ref hits) \<and>
    (\<exists>scores. length scores = length hits \<and> sorted (rev scores) \<and>
       (\<forall>k<length hits. 0 < scores ! k \<and>
          (\<exists>d. dict_get (vi_docs i) (sh_ref (hits ! k)) = Some d \<and> scores ! k = doc_score lib i (tokenize query) d)))"
proof (cases "tokenize query = []")
  case True
  with assms show ?thesis by (auto simp: search_vault_def)
next
  case False
  let ?rows = "map (\<lambda>(ref, d). (doc_score lib i (tokenize query) d, ref, de_title d)) (vi_docs i)"
  let ?ranked = "ranked lib i (tokenize query)" let ?top = "take (nat limit) ?ranked"
  have hits: "hits = map (hit_of fs' base (tokenize query)) ?top"
    using assms False by (auto simp: search_vault_def Let_def slice_to_def)
  have ref: "sh_ref (hit_of fs' base ts x) = fst (snd x)" for ts x
    by (cases x) (auto simp: hit_of_def split: prod.split sum.split)
  have same: "map (\<lambda>x. fst (snd x)) ?rows = map fst (vi_docs i)" by (simp add: comp_def split_beta)
  have "distinct (map (\<lambda>x. fst (snd x)) ?rows)" unfolding same by (rule assms(4))
  then have "distinct (map (\<lambda>x. fst (snd x)) ?ranked)"
    unfolding ranked_def distinct_map_sorted by (rule distinct_map_filter)
  then have "distinct (take (nat limit) (map (\<lambda>x. fst (snd x)) ?ranked))" by (rule distinct_take)
  then have "distinct (map sh_ref hits)" by (simp add: hits comp_def ref take_map)
  moreover have "int (length hits) \<le> limit" using assms(2) by (simp add: hits)
  moreover have "sorted (rev (map fst ?top))"
  proof (rule sorted_down)
    have "sorted (map (\<lambda>x. - fst x) ?ranked)" unfolding ranked_def case_prod_beta' by (rule sorted_sort_key)
    then show "sorted (map (\<lambda>x. - fst x) ?top)" by (metis sorted_wrt_take take_map)
  qed
  moreover have "0 < map fst ?top ! k \<and>
      (\<exists>d. dict_get (vi_docs i) (sh_ref (hits ! k)) = Some d \<and> map fst ?top ! k = doc_score lib i (tokenize query) d)"
    if "k < length hits" for k
  proof -
    have k: "k < length ?top" using that by (simp add: hits)
    then have "?top ! k \<in> set ?ranked" using nth_mem in_set_takeD by fast
    then obtain r d where "(r, d) \<in> set (vi_docs i)" "?top ! k = (doc_score lib i (tokenize query) d, r, de_title d)"
      "0 < doc_score lib i (tokenize query) d"
      by (auto simp: ranked_def)
    moreover from this(1) assms(4) have "dict_get (vi_docs i) r = Some d" by simp
    ultimately show ?thesis using k by (auto simp: hits ref)
  qed
  ultimately show ?thesis by (intro conjI exI [of _ "map fst ?top"]) (auto simp: hits)
qed

section \<open>\<open>gbrain\<close> only overwrites\<close>

text \<open>A write of the \<open>gbrain\<close> connector in any mode but \<open>overwrite\<close> sends nothing. In mode \<open>overwrite\<close> it sends
  nothing without a token, otherwise exactly one \<open>put_page\<close> of a page below \<open>agentos/\<close>; and it reports
  success only after that.\<close>

theorem gbrain_overwrites_only:
  assumes "gbrain_write_note lib ref content fm md sent = (r, sent')"
  shows "(sent' = sent \<and> (\<exists>e. r = Inl e)) \<or>
      (md = ''overwrite'' \<and> opt_truthy (gb_token lib) \<and>
       (\<exists>slug text. startswith slug ''agentos/'' \<and>
          sent' = sent @ [(''tools/call'', [(''name'', PStr ''put_page''),
                    (''arguments'', PDict [(''slug'', PStr slug), (''content'', PStr text)])])] \<and>
          (\<forall>x. r = Inr x \<longrightarrow> wr_ref x = slug)))"
proof -
  have slug: "startswith (if startswith ref ''agentos/'' then ref else ''agentos/'' @ ref) ''agentos/''"
    by (simp add: startswith_def)
  show ?thesis
  proof (cases "md = ''overwrite'' \<and> opt_truthy (gb_token lib)")
    case False
    with assms show ?thesis
      by (auto simp: gbrain_write_note_def call_tool_def call_rpc_def Let_def split: if_splits prod.splits sum.splits)
  next
    case True
    with assms slug show ?thesis
      by (auto simp: gbrain_write_note_def call_tool_def call_rpc_def Let_def simp del: startswith_def split: prod.splits sum.splits)
  qed
qed

lemma gbrain_refuses_other_modes:
  assumes "md \<in> set MEMORY_WRITE_MODES" "md \<noteq> ''overwrite''"
  shows "\<exists>x. gated_write ops env eng (gbrain lib) \<lparr>mw_connector = c, mw_ref = ref, mw_mode = md\<rparr> content fm w sent = (Inr x, w, sent) \<and>
          \<not> committed x"
  using assms by (simp add: gated_write_def gbrain_def modes_of_attr_def not_committed_def)

section \<open>An index that was just built is ready\<close>

lemma index_note_docs:
  assumes "open_text fs p = Inr c"
  shows "iw_docs (index_note lib fs shown ref p w) = dict_set ref (doc_of lib p c) (iw_docs w)"
    "iw_errors (index_note lib fs shown ref p w) = iw_errors w"
  using assms by (simp_all add: index_note_def)

lemma fold_index_note:
  assumes "\<And>q. q \<in> set qs \<Longrightarrow> \<exists>c. open_text fs q = Inr c" "distinct (map (ref_of base) qs)"
    and "w' = fold (\<lambda>q. index_note lib fs (ref_of base q) (ref_of base q) q) qs w"
  shows "(\<forall>q\<in>set qs. \<exists>c. open_text fs q = Inr c \<and> dict_get (iw_docs w') (ref_of base q) = Some (doc_of lib q c)) \<and>
    (\<forall>k. k \<notin> ref_of base ` set qs \<longrightarrow> dict_get (iw_docs w') k = dict_get (iw_docs w) k) \<and>
    (distinct (map fst (iw_docs w)) \<longrightarrow> distinct (map fst (iw_docs w'))) \<and> iw_errors w' = iw_errors w"
  using assms
proof (induction qs arbitrary: w)
  case (Cons q qs)
  from Cons.prems(1) obtain c where c: "open_text fs q = Inr c" by force
  let ?w = "index_note lib fs (ref_of base q) (ref_of base q) q w"
  note IH = Cons.IH [of ?w]
  have "w' = fold (\<lambda>q. index_note lib fs (ref_of base q) (ref_of base q) q) qs ?w" using Cons.prems(3) by simp
  with IH Cons.prems(1,2) have later: "\<forall>x\<in>set qs. \<exists>c. open_text fs x = Inr c \<and> dict_get (iw_docs w') (ref_of base x) = Some (doc_of lib x c)"
    "\<forall>k. k \<notin> ref_of base ` set qs \<longrightarrow> dict_get (iw_docs w') k = dict_get (iw_docs ?w) k"
    "distinct (map fst (iw_docs ?w)) \<longrightarrow> distinct (map fst (iw_docs w'))" "iw_errors w' = iw_errors ?w"
    by simp_all
  moreover have "ref_of base q \<notin> ref_of base ` set qs" using Cons.prems(2) by auto
  ultimately show ?case
    using c by (auto simp: index_note_docs [OF c] update_conv' distinct_update)
qed simp

lemma fold_drop_doc:
  "dict_get (iw_docs (fold drop_doc ks w)) k = (if k \<in> set ks then None else dict_get (iw_docs w) k) \<and>
   (distinct (map fst (iw_docs w)) \<longrightarrow> distinct (map fst (iw_docs (fold drop_doc ks w)))) \<and>
   iw_errors (fold drop_doc ks w) = iw_errors w"
proof (induction ks arbitrary: w)
  case (Cons x ks)
  have "dict_get (iw_docs (drop_doc x w)) k = (if k = x then None else dict_get (iw_docs w) k)"
    by (auto simp: drop_doc_def delete_conv')
  moreover have "distinct (map fst (iw_docs w)) \<longrightarrow> distinct (map fst (iw_docs (drop_doc x w)))"
    by (simp add: drop_doc_def distinct_delete)
  moreover have "iw_errors (drop_doc x w) = iw_errors w" by (simp add: drop_doc_def)
  ultimately show ?case using Cons.IH [of "drop_doc x w"] by auto
qed simp

lemma index_all_exact:
  assumes "\<And>q. q \<in> set (indexable_entries fs base) \<Longrightarrow> \<exists>c. open_text fs q = Inr c"
    and "distinct (map (ref_of base) (indexable_entries fs base))" "distinct (map fst (iw_docs w))"
    and w': "w' = index_all lib fs base w"
  shows "iw_errors w' = iw_errors w" "length (iw_docs w') = length (indexable_entries fs base)"
    "\<forall>q\<in>set (indexable_entries fs base). \<exists>c. open_text fs q = Inr c \<and> dict_get (iw_docs w') (ref_of base q) = Some (doc_of lib q c)"
proof -
  let ?found = "indexable_entries fs base"
  define w1 where "w1 = fold (\<lambda>q. index_note lib fs (ref_of base q) (ref_of base q) q) ?found w"
  note f = fold_index_note [OF assms(1,2) w1_def]
  let ?gone = "filter (\<lambda>k. k \<notin> ref_of base ` set ?found) (map fst (iw_docs w1))"
  have w'_eq: "w' = fold drop_doc ?gone w1" by (simp add: w' index_all_def Let_def w1_def)
  note d = fold_drop_doc [of ?gone w1, folded w'_eq]
  show "iw_errors w' = iw_errors w" using f d by simp
  show each: "\<forall>q\<in>set ?found. \<exists>c. open_text fs q = Inr c \<and> dict_get (iw_docs w') (ref_of base q) = Some (doc_of lib q c)"
    using f d by auto
  have "set (map fst (iw_docs w')) = ref_of base ` set ?found"
  proof
    show "set (map fst (iw_docs w')) \<subseteq> ref_of base ` set ?found"
    proof
      fix k assume "k \<in> set (map fst (iw_docs w'))"
      then have some: "dict_get (iw_docs w') k \<noteq> None" by (simp add: map_of_eq_None_iff)
      with d have "k \<notin> set ?gone" "dict_get (iw_docs w1) k \<noteq> None" by (auto split: if_splits)
      then show "k \<in> ref_of base ` set ?found" by (auto simp: map_of_eq_None_iff)
    qed
    show "ref_of base ` set ?found \<subseteq> set (map fst (iw_docs w'))"
      using each by (force simp: map_of_eq_None_iff dest!: map_of_SomeD)
  qed
  moreover have "distinct (map fst (iw_docs w'))" using f d assms(3) by blast
  ultimately show "length (iw_docs w') = length ?found"
    using assms(2) by (metis distinct_card length_map list.set_map)
qed

lemma changes_none:
  "(\<And>q. q \<in> set ps \<Longrightarrow> \<exists>d. dict_get docs (ref_of base q) = Some d \<and> \<not> de_mtime d < vl_mtime lib q \<and> os_node fs q \<noteq> None) \<Longrightarrow>
     look_for_changes lib fs base docs n ps = Inr (False, n + length ps)"
proof (induction ps arbitrary: n)
  case (Cons p ps)
  from Cons.prems [of p] obtain d where "dict_get docs (ref_of base p) = Some d" "\<not> de_mtime d < vl_mtime lib p" "os_node fs p \<noteq> None"
    by auto
  moreover have "look_for_changes lib fs base docs (n + 1) ps = Inr (False, n + 1 + length ps)"
    using Cons.prems by (intro Cons.IH) auto
  ultimately show ?case by auto
qed simp

lemma link_free_end: "link_free fs q \<Longrightarrow> q \<noteq> [] \<Longrightarrow> link_of fs q = None"
  using bspec [of "{1..length q}" "\<lambda>n. \<not> is_link fs (take n q)" "length q"]
  by (simp add: link_free_def Suc_le_eq is_link_iff)

lemma os_at: "link_free fs p \<Longrightarrow> os_node fs p = (if p = [] then Some Directory else map_of fs p)"
  by (simp add: os_node_def path_resolve_id)

lemma remdups_snoc: "k \<notin> set xs \<Longrightarrow> remdups (xs @ [k]) = remdups xs @ [k]"
  by (induction xs) auto

text \<open>A file that is written at a path without links changes nothing but that path.\<close>

lemma written_file:
  assumes "link_free fs p" "p \<noteq> []" "\<not> is_dir fs p" "fs' = AList.update p (File (Some t)) fs"
  shows "map_of fs' q = (if q = p then Some (File (Some t)) else map_of fs q)" "is_dir fs' q = is_dir fs q"
    "link_of fs' = link_of fs" "path_resolve fs' = path_resolve fs"
proof -
  show at: "map_of fs' q = (if q = p then Some (File (Some t)) else map_of fs q)" for q
    by (simp add: assms(4) update_conv')
  show "is_dir fs' q = is_dir fs q" using assms(2,3) by (auto simp: is_dir_def at)
  show links: "link_of fs' = link_of fs"
    using link_free_end [OF assms(1,2)] by (auto simp: link_of_def at fun_eq_iff)
  show "path_resolve fs' = path_resolve fs" using path_resolve_cong [OF links] by blast
qed

lemma entries_after_write:
  assumes "link_free fs p" "p \<noteq> []" "\<not> is_dir fs p" "fs' = AList.update p (File (Some t)) fs" "\<not> endswith (last p) ''.md''"
  shows "indexable_entries fs' base = indexable_entries fs base"
proof -
  note w = written_file [OF assms(1-4)]
  have keys: "map fst fs' = (if p \<in> set (map fst fs) then map fst fs else map fst fs @ [p])"
    by (simp add: assms(4) update_keys)
  have "vault_entries fs' base = vault_entries fs base"
  proof (cases "p \<in> set (map fst fs)")
    case True
    then show ?thesis by (simp add: vault_entries_def keys w(2))
  next
    case False
    with keys have "remdups (map fst fs') = remdups (map fst fs) @ [p]" using remdups_snoc by metis
    then show ?thesis using assms(5) by (simp add: vault_entries_def w(2))
  qed
  then show ?thesis by (simp add: indexable_entries_def)
qed

definition built_index :: "vault_lib \<Rightarrow> filesystem \<Rightarrow> string list \<Rightarrow> vault_index" where
  "built_index lib fs base =
     (let docs = iw_docs (index_all lib fs base
            \<lparr>iw_docs = loaded_docs lib fs base, iw_errors = [], iw_indexed = 0, iw_deleted = 0\<rparr>)
      in \<lparr>vi_updated_at = vl_now lib, vi_avg = round2 (avg_doc_len docs), vi_docs = docs\<rparr>)"

text \<open>C38: Right after a full index of a vault whose notes can all be read, the index has exactly the notes of the
  vault, no error is reported, and the status is \<open>ready\<close>. The hypotheses on the library are that JSON
  reads back the index that was written and that the keys of an object are distinct.\<close>

theorem built_index_ready:
  assumes json: "vl_load lib (universal_newlines (vl_dump lib (built_index lib fs base))) = Some (built_index lib fs base)"
    and keys: "distinct (map fst (loaded_docs lib fs base))"
    and place: "link_free fs (index_path base)" "\<not> is_dir fs (index_path base)"
      "\<And>n. n \<le> length base \<Longrightarrow> is_dir fs (take n base)" "\<forall>n\<in>set base. CHR 0x00 \<notin> set n"
    and readable: "\<And>q. q \<in> set (indexable_entries fs base) \<Longrightarrow> \<exists>c. open_text fs q = Inr c"
    and refs: "distinct (map (ref_of base) (indexable_entries fs base))"
    and run: "index_vault lib base None fs = (Inr r, fs')"
  shows "ir_errors r = [] \<and> ir_doc_count r = length (indexable_entries fs base) \<and>
    rp_health (index_status lib base fs') = Ready_index \<and>
    rp_count (index_status lib base fs') = length (indexable_entries fs base)"
proof -
  let ?p = "index_path base" and ?w0 = "\<lparr>iw_docs = loaded_docs lib fs base, iw_errors = [], iw_indexed = 0, iw_deleted = 0\<rparr>"
  have name: "\<not> endswith (last ?p) ''.md''" "?p \<noteq> []" "butlast ?p = base" "length ?p = length base + 1"
    by (simp_all add: index_path_def endswith_def startswith_def)
  have d0: "distinct (map fst (iw_docs ?w0))" using keys by simp
  define w where "w = index_all lib fs base ?w0"
  note exact = index_all_exact [OF readable refs d0 w_def]
  define i where "i = \<lparr>vi_updated_at = vl_now lib, vi_avg = round2 (avg_doc_len (iw_docs w)), vi_docs = iw_docs w\<rparr>"
  have built: "built_index lib fs base = i" by (simp add: built_index_def i_def w_def Let_def)
  define fs1 where "fs1 = AList.update ?p (File (Some (vl_dump lib i))) fs"
  have "is_dir fs base" using place(3) [of "length base"] by simp
  then have "write_text fs ?p (vl_dump lib i) = Inr fs1"
    using place(1,2) by (simp add: write_text_def path_resolve_id name(3) fs1_def)
  with run have fs': "fs' = fs1" and r: "ir_errors r = []" "ir_doc_count r = length (indexable_entries fs base)"
    using exact(1,2) by (auto simp: index_vault_def save_index_def Let_def i_def w_def)
  note wr = written_file [OF place(1) name(2) place(2) fs1_def]
  have free: "link_free fs1 ?p" using link_free_cong [OF wr(3)] place(1) by simp
  have prefix: "os_is_dir fs1 (take n ?p)" if "n < length ?p" for n
  proof -
    from that have "take n ?p = take n base" "n \<le> length base" by (auto simp: index_path_def)
    with place(3) wr(2) have "is_dir fs1 (take n ?p)" by simp
    moreover have "link_free fs1 (take n ?p)" using free by (rule link_free_take)
    ultimately show ?thesis by (auto simp: os_is_dir_def os_at is_dir_def)
  qed
  have "open_text fs1 ?p = Inr (universal_newlines (vl_dump lib i))"
  proof -
    have "List.find (\<lambda>n. \<not> os_is_dir fs1 (take n ?p)) [0..<length ?p] = None" using prefix by (auto simp: find_None_iff)
    moreover have "\<not> list_ex (\<lambda>n. CHR 0x00 \<in> set n) ?p" using place(4) by (auto simp: list_ex_iff index_path_def)
    moreover have "os_read fs1 ?p = Inr (vl_dump lib i)" using free name(2) wr(1) [of ?p] by (simp add: os_read_def os_at)
    ultimately show ?thesis using free by (simp add: open_text_def path_resolve_id)
  qed
  moreover have "os_is_file fs1 ?p" using free name(2) wr(1) [of ?p] by (simp add: os_is_file_def os_at)
  moreover have "look_for_changes lib fs1 base (vi_docs i) 0 (indexable_entries fs base) = Inr (False, 0 + length (indexable_entries fs base))"
  proof (rule changes_none)
    fix q assume q: "q \<in> set (indexable_entries fs base)"
    from bspec [OF exact(3) q] obtain c where c: "open_text fs q = Inr c" "dict_get (vi_docs i) (ref_of base q) = Some (doc_of lib q c)"
      by (auto simp: i_def)
    from c(1) obtain x where "path_resolve fs q = Inr x" "os_node fs q \<noteq> None"
      by (auto simp: open_text_def os_read_def split: if_splits option.splits sum.splits)
    then have "os_node fs1 q \<noteq> None" using wr(1) [of x] by (auto simp: os_node_def wr(4) split: if_splits)
    with c(2) show "\<exists>d. dict_get (vi_docs i) (ref_of base q) = Some d \<and> \<not> de_mtime d < vl_mtime lib q \<and> os_node fs1 q \<noteq> None"
      by (simp add: doc_of_def)
  qed
  moreover have "indexable_entries fs1 base = indexable_entries fs base"
    by (rule entries_after_write [OF place(1) name(2) place(2) fs1_def name(1)])
  ultimately have "rp_health (index_status lib base fs1) = Ready_index \<and>
      rp_count (index_status lib base fs1) = length (indexable_entries fs base)"
    using json built exact(2) by (simp add: index_status_def Let_def i_def)
  with r fs' show ?thesis by simp
qed

section \<open>Reading leaves the vault\<close>

definition vault_files_sample :: filesystem where
  "vault_files_sample = [([''v''], Directory), ([''v'', ''a.md''], File (Some (''# T'' @ [CHR 0x0A] @ ''one two''))),
     ([''key.md''], File (Some ''secret''))]"

text \<open>Reading does not check where a reference leads: \<open>read_note\<close> returns a note above the vault for a
  reference with \<open>..\<close>, which writing refuses.\<close>

theorem read_note_leaves_vault:
  "read_note vault_files_sample [''v''] ''../key'' =
     Inr \<lparr>nt_ref = ''../key'', nt_content = ''secret'', nt_frontmatter = [], nt_links = []\<rparr> \<and>
   (\<exists>m. vault_path [''v''] ''../key'' = Inl (ValueError m))"
proof -
  have "read_note vault_files_sample [''v''] ''../key'' =
     Inr \<lparr>nt_ref = ''../key'', nt_content = ''secret'', nt_frontmatter = [], nt_links = []\<rparr>" by code_simp
  moreover have "(case vault_path [''v''] ''../key'' of Inl (ValueError _) \<Rightarrow> True | _ \<Rightarrow> False)" by code_simp
  ultimately show ?thesis by (auto split: sum.splits py_exn.splits)
qed

section \<open>Witnesses\<close>

definition plain_vault_lib :: vault_lib where
  "plain_vault_lib = \<lparr>vl_load = (\<lambda>_. None), vl_dump = (\<lambda>_. ''J''), vl_mtime = (\<lambda>_. 5), vl_opaque_size = (\<lambda>_. 0),
     vl_log = (\<lambda>x. x), vl_now = ''now''\<rparr>"

definition sample_vault_lib :: vault_lib where
  "sample_vault_lib = plain_vault_lib\<lparr>vl_load := (\<lambda>t. if t = ''J''
     then Some (built_index plain_vault_lib vault_files_sample [''v'']) else None)\<rparr>"

lemma sample_entries: "indexable_entries vault_files_sample [''v''] = [[''v'', ''a.md'']]"
  by code_simp

lemma sample_note: "open_text vault_files_sample [''v'', ''a.md''] = Inr (''# T'' @ [CHR 0x0A] @ ''one two'')"
  by code_simp

lemma sample_unindexed: "loaded_docs lib vault_files_sample [''v''] = []" "load_index lib [''v''] vault_files_sample = None"
proof -
  have "\<not> os_is_file vault_files_sample (index_path [''v''])" by code_simp
  then show "loaded_docs lib vault_files_sample [''v''] = []" "load_index lib [''v''] vault_files_sample = None"
    by (simp_all add: loaded_docs_def load_index_def)
qed

lemma sample_built:
  "built_index sample_vault_lib vault_files_sample [''v''] = built_index plain_vault_lib vault_files_sample [''v'']"
proof -
  have "index_note sample_vault_lib = index_note plain_vault_lib"
    by (simp add: fun_eq_iff index_note_def doc_of_def sample_vault_lib_def split: sum.split)
  then show ?thesis by (simp add: built_index_def index_all_def sample_unindexed Let_def sample_vault_lib_def)
qed

theorem listed_notes_visible_witness:
  "\<exists>title. (''a.md'', title) \<in> set (list_notes vault_files_sample [''v'']) \<and> (\<exists>rel. ''a.md'' = join ''/'' rel)"
proof -
  have "ref_of [''v''] [''v'', ''a.md''] = ''a.md''" by code_simp
  then obtain title where t: "(''a.md'', title) \<in> set (list_notes vault_files_sample [''v''])"
    by (auto simp: list_notes_def sample_entries)
  from listed_notes_visible [OF t] t show ?thesis by blast
qed

theorem cold_search_bounded_witness:
  "\<exists>hits fs'. search_vault plain_vault_lib [''v''] ''one'' 3 vault_files_sample = (hits, fs') \<and>
     (length (indexable_entries vault_files_sample [''v'']) \<le> 50 \<or> hits = [])"
proof -
  obtain hits fs' where h: "search_vault plain_vault_lib [''v''] ''one'' 3 vault_files_sample = (hits, fs')" by fastforce
  from cold_search_bounded [OF sample_unindexed(2) h] h show ?thesis by blast
qed

theorem search_ranked_witness:
  "\<exists>hits fs'. search_vault plain_vault_lib [''v''] ''one'' 3 vault_files_sample = (hits, fs') \<and> length hits \<le> 3"
proof -
  obtain hits fs' where h: "search_vault plain_vault_lib [''v''] ''one'' 3 vault_files_sample = (hits, fs')" by fastforce
  have t: "tokenize ''one'' \<noteq> []" by code_simp
  obtain i where i: "load_or_build_index plain_vault_lib [''v''] vault_files_sample = (i, fs')"
    using h t by (auto simp: search_vault_def Let_def split: prod.splits)
  have "i = empty_index"
    using i by (auto simp: load_or_build_index_def load_index_def plain_vault_lib_def split: if_splits prod.splits sum.splits)
  then have "distinct (map fst (vi_docs i))" by (simp add: empty_index_def)
  from search_ranked [OF h _ i this] have "int (length hits) \<le> 3" by simp
  with h show ?thesis by fastforce
qed

theorem built_index_ready_witness:
  "\<exists>r fs'. index_vault sample_vault_lib [''v''] None vault_files_sample = (Inr r, fs') \<and>
     rp_health (index_status sample_vault_lib [''v''] fs') = Ready_index"
proof -
  obtain r fs' where run: "index_vault sample_vault_lib [''v''] None vault_files_sample = (Inr r, fs')"
    by (cases "save_index sample_vault_lib [''v''] (index_all sample_vault_lib vault_files_sample [''v'']
        \<lparr>iw_docs = loaded_docs sample_vault_lib vault_files_sample [''v''], iw_errors = [], iw_indexed = 0, iw_deleted = 0\<rparr>)
        vault_files_sample") (auto simp: index_vault_def Let_def)
  have "vl_load sample_vault_lib (universal_newlines (vl_dump sample_vault_lib (built_index sample_vault_lib vault_files_sample [''v'']))) =
      Some (built_index sample_vault_lib vault_files_sample [''v''])"
    unfolding sample_built by (simp add: sample_vault_lib_def plain_vault_lib_def)
  moreover have "distinct (map fst (loaded_docs sample_vault_lib vault_files_sample [''v'']))" by (simp add: sample_unindexed)
  moreover have "link_free vault_files_sample (index_path [''v''])"
    by (auto simp: link_free_def index_path_def is_link_def vault_files_sample_def take_Cons' split: if_splits)
  moreover have "\<not> is_dir vault_files_sample (index_path [''v''])" by code_simp
  moreover have "is_dir vault_files_sample (take n [''v''])" if "n \<le> length [''v'']" for n
    using that by (cases n) (auto simp: is_dir_def vault_files_sample_def)
  moreover have "\<forall>n\<in>set [''v'']. CHR 0x00 \<notin> set n" by simp
  moreover have "\<exists>c. open_text vault_files_sample q = Inr c" if "q \<in> set (indexable_entries vault_files_sample [''v''])" for q
    using that sample_note by (simp add: sample_entries)
  moreover have "distinct (map (ref_of [''v'']) (indexable_entries vault_files_sample [''v'']))" by (simp add: sample_entries)
  ultimately have "rp_health (index_status sample_vault_lib [''v''] fs') = Ready_index"
    using built_index_ready [OF _ _ _ _ _ _ _ _ run] by blast
  with run show ?thesis by blast
qed

theorem gbrain_overwrites_only_witness:
  "\<exists>slug text. startswith slug ''agentos/'' \<and>
     snd (gbrain_write_note \<lparr>gb_token = Some ''t'', gb_post = (\<lambda>_ _. Post_body []), gb_loads = (\<lambda>_. None), gb_now = ''now''\<rparr>
            ''r'' ''c'' None ''overwrite'' []) =
       [(''tools/call'', [(''name'', PStr ''put_page''),
          (''arguments'', PDict [(''slug'', PStr slug), (''content'', PStr text)])])]"
proof -
  let ?lib = "\<lparr>gb_token = Some ''t'', gb_post = (\<lambda>_ _. Post_body []), gb_loads = (\<lambda>_. None), gb_now = ''now''\<rparr>"
  obtain r sent' where w: "gbrain_write_note ?lib ''r'' ''c'' None ''overwrite'' [] = (r, sent')" by fastforce
  then have "sent' \<noteq> []"
    by (auto simp: gbrain_write_note_def call_tool_def call_rpc_def Let_def split: prod.splits sum.splits)
  with gbrain_overwrites_only [OF w] w show ?thesis by auto
qed

end
