(* ===== verification/Py_Datetime.thy ===== *)
theory Py_Datetime
  imports Py_Prelude
begin

text \<open>
  What the schedule and run stores use of Python's \<open>datetime\<close>: aware UTC datetimes, their ISO text
  and elapsed-time arithmetic.

  \<^item> A datetime is the number of microseconds since 0001-01-01T00:00:00 UTC. Python's range is
    the years 1 to 9999 (\<open>in_range\<close>); arithmetic that leaves it raises (\<open>datetime_add\<close>).
  \<^item> \<open>isoformat\<close> prints through the proleptic Gregorian calendar as \<open>datetime.isoformat\<close> does:
    the microseconds are left out when they are zero. \<open>fromisoformat\<close> reads that text back.
  \<^item> The stores keep these texts in their tables and let SQL compare them. \<open>isoformat_le_iff\<close> is
    the fact that makes this right: the order of the texts is the order of the instants.
\<close>

section \<open>The calendar\<close>

definition days_before_year :: "int \<Rightarrow> int" where
  "days_before_year y = (y - 1) * 365 + (y - 1) div 4 - (y - 1) div 100 + (y - 1) div 400"

definition leap :: "int \<Rightarrow> bool" where
  "leap y = (y mod 4 = 0 \<and> (y mod 100 \<noteq> 0 \<or> y mod 400 = 0))"

definition leap_day :: "int \<Rightarrow> int" where
  "leap_day y = (if leap y then 1 else 0)"

text \<open>Days before each month and the month of a day of the year (counted from 0); \<open>l\<close> is the
  leap day.\<close>

definition days_before_month :: "int \<Rightarrow> int \<Rightarrow> int" where
  "days_before_month l m =
     (if m \<le> 1 then 0 else if m = 2 then 31 else if m = 3 then 59 + l else if m = 4 then 90 + l
      else if m = 5 then 120 + l else if m = 6 then 151 + l else if m = 7 then 181 + l
      else if m = 8 then 212 + l else if m = 9 then 243 + l else if m = 10 then 273 + l
      else if m = 11 then 304 + l else if m = 12 then 334 + l else 365 + l)"

definition month_of :: "int \<Rightarrow> int \<Rightarrow> int" where
  "month_of l r =
     (if r < 31 then 1 else if r < 59 + l then 2 else if r < 90 + l then 3
      else if r < 120 + l then 4 else if r < 151 + l then 5 else if r < 181 + l then 6
      else if r < 212 + l then 7 else if r < 243 + l then 8 else if r < 273 + l then 9
      else if r < 304 + l then 10 else if r < 334 + l then 11 else 12)"

definition year_of :: "int \<Rightarrow> int" where
  "year_of n =
     (let y = n * 400 div 146097 + 1
      in if days_before_year (y + 1) \<le> n then y + 1 else y)"

definition ymd_of_days :: "int \<Rightarrow> int \<times> int \<times> int" where
  "ymd_of_days n =
     (let y = year_of n; r = n - days_before_year y; l = leap_day y; m = month_of l r
      in (y, m, r - days_before_month l m + 1))"

definition days_of_ymd :: "int \<Rightarrow> int \<Rightarrow> int \<Rightarrow> int" where
  "days_of_ymd y m d = days_before_year y + days_before_month (leap_day y) m + d - 1"

definition MAX_DAYS :: int where
  "MAX_DAYS = 3652059"

lemma div_pred:
  fixes y c :: int
  assumes "0 < c"
  shows "y div c = (y - 1) div c + (if c dvd y then 1 else 0)"
proof (cases "c dvd y")
  case True
  then obtain q where "y = c * q" by (rule dvdE)
  have "(y - 1) div c = q - 1"
    using assms \<open>y = c * q\<close>
    by (intro int_div_pos_eq [where r = "c - 1"]) (simp_all add: right_diff_distrib)
  moreover have "y div c = q" using assms \<open>y = c * q\<close> by simp
  ultimately show ?thesis using True by simp
next
  case False
  then have "0 < y mod c" using assms
    by (simp add: dvd_eq_mod_eq_0 order_less_le pos_mod_sign)
  moreover have "y - 1 = c * (y div c) + (y mod c - 1)" by (simp add: algebra_simps)
  ultimately have "(y - 1) div c = y div c"
    using assms pos_mod_bound [OF assms, of y]
    by (intro int_div_pos_eq [where r = "y mod c - 1"]) linarith+
  with False show ?thesis by simp
qed

lemma days_before_year_Suc: "days_before_year (y + 1) = days_before_year y + 365 + leap_day y"
proof -
  have gen: "y * 365 + u - v + w = (y - 1) * 365 + u' - v' + w' + 365 + (a - b + c)"
    if "u = u' + a" "v = v' + b" "w = w' + c" for u v w u' v' w' a b c using that by simp
  have incl: "(if a \<and> (\<not> b \<or> c) then 1 else 0) =
      (if a then 1 else 0) - (if b then 1 else 0) + (if c then 1 else (0::int))"
    if "b \<Longrightarrow> a" "c \<Longrightarrow> b" for a b c using that by auto
  have d: "y mod 100 = 0 \<Longrightarrow> y mod 4 = 0" "y mod 400 = 0 \<Longrightarrow> y mod 100 = 0"
    using dvd_trans [of 4 100 y] dvd_trans [of 100 400 y] by (auto simp: dvd_eq_mod_eq_0)
  have l: "leap_day y = (if 4 dvd y then 1 else 0) - (if 100 dvd y then 1 else 0) +
      (if 400 dvd y then 1 else 0)"
    unfolding leap_day_def leap_def dvd_eq_mod_eq_0 by (rule incl) (fact d)+
  have "days_before_year (y + 1) = y * 365 + y div 4 - y div 100 + y div 400"
    by (simp add: days_before_year_def)
  also have "\<dots> = days_before_year y + 365 + leap_day y"
    unfolding days_before_year_def l
    by (rule gen) (rule div_pred [OF zero_less_numeral])+
  finally show ?thesis .
qed

lemma days_before_year_mono: "a \<le> b \<Longrightarrow> days_before_year a \<le> days_before_year b"
proof (induction b rule: int_ge_induct)
  case (step i)
  have "0 \<le> leap_day i" by (simp add: leap_day_def)
  with step show ?case by (simp add: days_before_year_Suc)
qed simp

lemma leap_day_range: "0 \<le> leap_day y \<and> leap_day y \<le> 1"
  by (simp add: leap_day_def)

text \<open>The calendar estimate: no year starts before \<open>365.2425\<close> days per year say by two days or more,
  and none after it.\<close>

lemma days_before_year_bounds:
  fixes k :: int
  shows "400 * days_before_year (k + 1) \<le> 146097 * k + 396"
    and "146097 * k \<le> 400 * days_before_year (k + 1) + 699"
proof -
  have "4 * (k div 4) + k mod 4 = k" "100 * (k div 100) + k mod 100 = k"
    "400 * (k div 400) + k mod 400 = k" by simp_all
  moreover have "0 \<le> k mod 4" "k mod 4 < 4" "0 \<le> k mod 100" "k mod 100 < 100"
    "0 \<le> k mod 400" "k mod 400 < 400" by simp_all
  ultimately show "400 * days_before_year (k + 1) \<le> 146097 * k + 396"
    "146097 * k \<le> 400 * days_before_year (k + 1) + 699"
    unfolding days_before_year_def by simp_all
qed

lemma year_of_bounds:
  "days_before_year (year_of n) \<le> n \<and> n < days_before_year (year_of n + 1)"
proof -
  define k where "k = n * 400 div 146097"
  have k: "146097 * k \<le> n * 400" "n * 400 < 146097 * (k + 1)"
    using div_mult_mod_eq [of "n * 400" 146097] pos_mod_bound [of 146097 "n * 400"]
      pos_mod_sign [of 146097 "n * 400"]
    unfolding k_def by (simp_all add: algebra_simps)
  have lo: "days_before_year (k + 1) \<le> n" using days_before_year_bounds(1) [of k] k(1) by linarith
  have hi: "n \<le> days_before_year (k + 2) + 1"
    using days_before_year_bounds(2) [of "k + 1"] k(2) by (simp add: algebra_simps)
  have "days_before_year (k + 3) = days_before_year (k + 2) + 365 + leap_day (k + 2)"
    using days_before_year_Suc [of "k + 2"] by (simp add: algebra_simps)
  with hi leap_day_range [of "k + 2"] have "n < days_before_year (k + 3)" by linarith
  with lo hi show ?thesis
    unfolding year_of_def k_def [symmetric] Let_def by (simp add: algebra_simps)
qed

lemma month_of_bounds:
  assumes "0 \<le> l" "l \<le> 1" "0 \<le> r" "r < 365 + l"
  shows "1 \<le> month_of l r \<and> month_of l r \<le> 12 \<and> days_before_month l (month_of l r) \<le> r \<and>
         r < days_before_month l (month_of l r + 1) \<and>
         days_before_month l (month_of l r + 1) \<le> days_before_month l (month_of l r) + 31"
  using assms by (simp add: month_of_def days_before_month_def)

lemma days_before_month_mono:
  assumes "0 \<le> l" "l \<le> 1" "a \<le> b"
  shows "days_before_month l a \<le> days_before_month l b"
  using assms(3)
proof (induction b rule: int_ge_induct)
  case (step i)
  have "days_before_month l i \<le> days_before_month l (i + 1)"
    using assms(1,2) by (simp add: days_before_month_def)
  with step show ?case by linarith
qed simp

text \<open>The date of a day is a date: month and day are in range and the day is recovered from it.\<close>

lemma ymd_of_days_correct:
  assumes "ymd_of_days n = (y, m, d)"
  shows "days_of_ymd y m d = n" "1 \<le> m" "m \<le> 12" "1 \<le> d" "d \<le> 31" "y = year_of n"
proof -
  have y: "y = year_of n" using assms by (simp add: ymd_of_days_def Let_def)
  let ?r = "n - days_before_year y" and ?l = "leap_day y"
  have r: "0 \<le> ?r" "?r < 365 + ?l"
    using year_of_bounds [of n] y days_before_year_Suc [of y] by simp_all
  note b = month_of_bounds [OF conjunct1 [OF leap_day_range] conjunct2 [OF leap_day_range] r]
  have md: "m = month_of ?l ?r" "d = ?r - days_before_month ?l m + 1"
    using assms y by (auto simp: ymd_of_days_def Let_def)
  show "days_of_ymd y m d = n" using md by (simp add: days_of_ymd_def)
  show "1 \<le> m" "m \<le> 12" "1 \<le> d" "d \<le> 31" "y = year_of n" using md b y by simp_all
qed

lemma year_of_range: "0 \<le> n \<Longrightarrow> n < MAX_DAYS \<Longrightarrow> 1 \<le> year_of n \<and> year_of n \<le> 9999"
proof -
  assume n: "0 \<le> n" "n < MAX_DAYS"
  have "days_before_year 1 = 0" "days_before_year 10000 = MAX_DAYS"
    by (simp_all add: days_before_year_def MAX_DAYS_def)
  then show ?thesis
    using days_before_year_mono [of "year_of n + 1" 1] days_before_year_mono [of 10000 "year_of n"]
      year_of_bounds [of n] n by linarith
qed

section \<open>Fixed-width decimal numbers\<close>

fun pad :: "nat \<Rightarrow> int \<Rightarrow> string" where
  "pad 0 n = []"
| "pad (Suc w) n = pad w (n div 10) @ [digit_char (nat (n mod 10))]"

definition digit_val :: "char \<Rightarrow> int option" where
  "digit_val c = (if is_digit c then Some (of_char c - 48) else None)"

fun num_aux :: "int \<Rightarrow> string \<Rightarrow> int option" where
  "num_aux acc [] = Some acc"
| "num_aux acc (c # cs) =
     (case digit_val c of None \<Rightarrow> None | Some d \<Rightarrow> num_aux (acc * 10 + d) cs)"

definition num :: "string \<Rightarrow> int option" where
  "num s = (if s = [] then None else num_aux 0 s)"

lemma length_pad [simp]: "length (pad w n) = w"
  by (induction w n rule: pad.induct) auto

lemma of_char_digit_nat: "n < 10 \<Longrightarrow> of_char (digit_char n) = (48 + n :: nat)"
  by (simp add: digit_char_def)

lemma of_char_digit: "0 \<le> d \<Longrightarrow> d < 10 \<Longrightarrow> of_char (digit_char (nat d)) = (48 + d :: int)"
  using of_nat_of_char [where 'a = int, of "digit_char (nat d)"] of_char_digit_nat [of "nat d"]
  by simp

lemma digit_val_digit: "0 \<le> d \<Longrightarrow> d < 10 \<Longrightarrow> digit_val (digit_char (nat d)) = Some d"
  using of_char_digit_nat [of "nat d"] of_char_digit [of d]
  by (auto simp: digit_val_def is_digit_def)

lemma num_aux_append:
  "num_aux acc (xs @ ys) = (case num_aux acc xs of None \<Rightarrow> None | Some a \<Rightarrow> num_aux a ys)"
  by (induction acc xs rule: num_aux.induct) (auto split: option.splits)

lemma num_pad:
  assumes "0 \<le> n" "n < 10 ^ w" "0 < w"
  shows "num (pad w n) = Some n"
proof -
  have "num_aux acc (pad w n) = Some (acc * 10 ^ w + n)" if "0 \<le> n" "n < 10 ^ w" for acc
    using that
  proof (induction w n arbitrary: acc rule: pad.induct)
    case (2 w n)
    then have "num_aux acc (pad w (n div 10)) = Some (acc * 10 ^ w + n div 10)" by simp
    then show ?case
      by (simp add: num_aux_append digit_val_digit algebra_simps)
  qed simp
  with assms show ?thesis by (cases w) (auto simp: num_def)
qed

text \<open>Texts of equal length compare position by position; appending keeps the comparison.\<close>

lemma less_append_iff:
  fixes u v :: string
  assumes "length u = length v"
  shows "u @ s < v @ t \<longleftrightarrow> u < v \<or> (u = v \<and> s < t)"
  using assms
  by (induction u v rule: list_induct2) auto

lemma digit_char_less:
  "0 \<le> a \<Longrightarrow> a < 10 \<Longrightarrow> 0 \<le> b \<Longrightarrow> b < 10 \<Longrightarrow> digit_char (nat a) < digit_char (nat b) \<longleftrightarrow> a < b"
  using of_char_digit_nat [of "nat a"] of_char_digit_nat [of "nat b"]
  by (auto simp: less_char_def)

lemma divmod_less_iff:
  fixes a b k :: int
  assumes "0 < k"
  shows "a div k < b div k \<or> (a div k = b div k \<and> a mod k < b mod k) \<longleftrightarrow> a < b"
proof -
  have ab: "a = k * (a div k) + a mod k" "b = k * (b div k) + b mod k" by simp_all
  have le: "a div k \<le> b div k" if "a < b" using that assms by (simp add: zdiv_mono1)
  have ge: "b div k \<le> a div k" if "b \<le> a" using that assms by (simp add: zdiv_mono1)
  have eq: "a < b \<longleftrightarrow> a mod k < b mod k" if "a div k = b div k"
    using ab that by (metis add_less_cancel_left)
  show ?thesis using le ge eq by (metis linorder_not_less order_le_less)
qed

lemma pad_eq_iff:
  assumes "0 \<le> a" "a < 10 ^ w" "0 \<le> b" "b < 10 ^ w"
  shows "pad w a = pad w b \<longleftrightarrow> a = b"
proof (cases "w = 0")
  case True
  with assms show ?thesis by simp
next
  case False
  then have "num (pad w a) = Some a" "num (pad w b) = Some b" using assms by (simp_all add: num_pad)
  then show ?thesis by (metis option.inject)
qed

lemma pad_less_iff:
  "0 \<le> a \<Longrightarrow> a < 10 ^ w \<Longrightarrow> 0 \<le> b \<Longrightarrow> b < 10 ^ w \<Longrightarrow> pad w a < pad w b \<longleftrightarrow> a < b"
proof (induction w arbitrary: a b)
  case (Suc w)
  have r: "0 \<le> a div 10" "a div 10 < 10 ^ w" "0 \<le> b div 10" "b div 10 < 10 ^ w"
    using Suc.prems by (simp_all add: div_less_iff_less_mult mult.commute)
  have "pad w (a div 10) < pad w (b div 10) \<longleftrightarrow> a div 10 < b div 10" using Suc.IH r by blast
  then have "pad (Suc w) a < pad (Suc w) b \<longleftrightarrow>
      a div 10 < b div 10 \<or> (a div 10 = b div 10 \<and> a mod 10 < b mod 10)"
    by (simp add: less_append_iff digit_char_less pad_eq_iff [OF r])
  also have "\<dots> \<longleftrightarrow> a < b" by (rule divmod_less_iff) simp
  finally show ?case .
qed simp

section \<open>Datetimes and their ISO text\<close>

type_synonym datetime = int
type_synonym timedelta = int

definition DAY_US :: int where "DAY_US = 86400000000"
definition SECOND_US :: int where "SECOND_US = 1000000"

definition in_range :: "datetime \<Rightarrow> bool" where
  "in_range t = (0 \<le> t \<and> t < MAX_DAYS * DAY_US)"

definition datetime_add :: "datetime \<Rightarrow> timedelta \<Rightarrow> datetime result" where
  "datetime_add t d =
     (if in_range (t + d) then Inr (t + d) else Inl (OverflowError ''date value out of range''))"

text \<open>A \<open>timedelta\<close> is limited to 999999999 days.\<close>

definition mk_timedelta :: "int \<Rightarrow> timedelta result" where
  "mk_timedelta seconds =
     (if \<bar>seconds\<bar> div 86400 > 999999999
      then Inl (OverflowError ''days; must have magnitude <= 999999999'')
      else Inr (seconds * SECOND_US))"

definition date_text :: "int \<Rightarrow> string" where
  "date_text n = (case ymd_of_days n of (y, m, d) \<Rightarrow> pad 4 y @ ''-'' @ pad 2 m @ ''-'' @ pad 2 d)"

definition time_text :: "int \<Rightarrow> string" where
  "time_text sec =
     pad 2 (sec div 3600) @ '':'' @ pad 2 (sec mod 3600 div 60) @ '':'' @ pad 2 (sec mod 60)"

definition us_text :: "int \<Rightarrow> string" where
  "us_text us = (if us = 0 then [] else ''.'' @ pad 6 us) @ ''+00:00''"

definition isoformat :: "datetime \<Rightarrow> string" where
  "isoformat t =
     date_text (t div DAY_US) @ ''T'' @ time_text (t mod DAY_US div SECOND_US) @
     us_text (t mod SECOND_US)"

definition bad_iso :: "string \<Rightarrow> py_exn" where
  "bad_iso s = ValueError (''Invalid isoformat string: '' @ s)"

definition fromisoformat :: "string \<Rightarrow> datetime result" where
  "fromisoformat s =
     (let rest = drop 19 s;
          frac = startswith rest ''.'';
          us = (if frac then num (take 6 (drop 1 rest)) else Some 0);
          tz = (if frac then drop 7 rest else rest)
      in case (num (take 4 s), num (take 2 (drop 5 s)), num (take 2 (drop 8 s)),
               num (take 2 (drop 11 s)), num (take 2 (drop 14 s)), num (take 2 (drop 17 s)), us) of
           (Some y, Some m, Some d, Some h, Some mi, Some sec, Some u) \<Rightarrow>
             if tz = ''+00:00'' \<and> take 1 (drop 10 s) = ''T'' \<and>
                take 1 (drop 4 s) = ''-'' \<and> take 1 (drop 7 s) = ''-'' \<and>
                take 1 (drop 13 s) = '':'' \<and> take 1 (drop 16 s) = '':'' \<and>
                1 \<le> m \<and> m \<le> 12 \<and> 1 \<le> d \<and> h < 24 \<and> mi < 60 \<and> sec < 60 \<and>
                d \<le> days_before_month (leap_day y) (m + 1) - days_before_month (leap_day y) m
             then Inr (days_of_ymd y m d * DAY_US + (h * 3600 + mi * 60 + sec) * SECOND_US + u)
             else Inl (bad_iso s)
         | _ \<Rightarrow> Inl (bad_iso s))"

section \<open>The order of the texts is the order of the instants\<close>

lemma days_of_ymd_less_iff:
  assumes "ymd_of_days n = (y, m, d)" "ymd_of_days n' = (y', m', d')"
  shows "n < n' \<longleftrightarrow> y < y' \<or> (y = y' \<and> (m < m' \<or> (m = m' \<and> d < d')))"
proof -
  have *: "\<not> n' \<le> n"
    if eq: "ymd_of_days n = (y, m, d)" "ymd_of_days n' = (y', m', d')"
      and lt: "y < y' \<or> (y = y' \<and> (m < m' \<or> (m = m' \<and> d < d')))" for n y m d n' y' m' d'
  proof -
    note a = ymd_of_days_correct [OF eq(1)] and b = ymd_of_days_correct [OF eq(2)]
    show ?thesis
    proof (cases "y < y'")
      case True
      have "n < days_before_year (y + 1)" using year_of_bounds [of n] a(6) by simp
      also have "\<dots> \<le> days_before_year y'" using True by (intro days_before_year_mono) simp
      also have "\<dots> \<le> n'" using year_of_bounds [of n'] b(6) by simp
      finally show ?thesis by simp
    next
      case False
      with lt have y: "y = y'" and md: "m < m' \<or> (m = m' \<and> d < d')" by auto
      show ?thesis
      proof (cases "m = m'")
        case True
        with y md a(1) b(1) show ?thesis by (auto simp: days_of_ymd_def)
      next
        case False
        with md have "m + 1 \<le> m'" by simp
        let ?l = "leap_day y" and ?r = "n - days_before_year y"
        have r: "0 \<le> ?r" "?r < 365 + ?l"
          using year_of_bounds [of n] a(6) days_before_year_Suc [of y] by simp_all
        have m: "m = month_of ?l ?r"
          using eq(1) a(6) by (auto simp: ymd_of_days_def Let_def)
        have "?r < days_before_month ?l (m + 1)"
          using month_of_bounds [OF _ _ r] leap_day_range [of y] m by simp
        also have "\<dots> \<le> days_before_month ?l m'"
          using \<open>m + 1 \<le> m'\<close> leap_day_range [of y] by (intro days_before_month_mono) simp_all
        also have "\<dots> \<le> n' - days_before_year y"
          using b(1) b(4) y by (simp add: days_of_ymd_def)
        finally show ?thesis by simp
      qed
    qed
  qed
  have "n = n'" if "y = y'" "m = m'" "d = d'"
    using that ymd_of_days_correct(1) [OF assms(1)] ymd_of_days_correct(1) [OF assms(2)] by simp
  moreover have "y = y' \<and> m = m' \<and> d = d'" if "n = n'" using that assms by simp
  ultimately show ?thesis
    using * [OF assms] * [OF assms(2,1)] by linarith
qed

lemma date_text_length: "length (date_text n) = 10"
  by (simp add: date_text_def split: prod.splits)

lemma ymd_pads:
  assumes "ymd_of_days n = (y, m, d)" "0 \<le> n" "n < MAX_DAYS"
  shows "0 \<le> y" "y < 10 ^ 4" "0 \<le> m" "m < 10 ^ 2" "0 \<le> d" "d < 10 ^ 2"
  using ymd_of_days_correct [OF assms(1)] year_of_range [OF assms(2,3)] by simp_all

lemma date_text_less_iff:
  assumes "0 \<le> n" "n < MAX_DAYS" "0 \<le> n'" "n' < MAX_DAYS"
  shows "date_text n < date_text n' \<longleftrightarrow> n < n'"
proof -
  obtain y m d where n: "ymd_of_days n = (y, m, d)" by (cases "ymd_of_days n")
  obtain y' m' d' where n': "ymd_of_days n' = (y', m', d')" by (cases "ymd_of_days n'")
  note p = ymd_pads [OF n assms(1,2)] and p' = ymd_pads [OF n' assms(3,4)]
  show ?thesis
    unfolding days_of_ymd_less_iff [OF n n']
    by (simp add: date_text_def n n' less_append_iff
        pad_less_iff [OF p(1,2) p'(1,2)] pad_less_iff [OF p(3,4) p'(3,4)]
        pad_less_iff [OF p(5,6) p'(5,6)] pad_eq_iff [OF p(1,2) p'(1,2)]
        pad_eq_iff [OF p(3,4) p'(3,4)])
qed

lemma time_text_less_iff:
  assumes "0 \<le> a" "a < 86400" "0 \<le> b" "b < 86400"
  shows "time_text a < time_text b \<longleftrightarrow> a < b"
proof -
  have h: "0 \<le> s div 3600" "s div 3600 < 10 ^ 2" "0 \<le> s mod 3600 div 60" "s mod 3600 div 60 < 10 ^ 2"
    "0 \<le> s mod 60" "s mod 60 < 10 ^ 2" if "0 \<le> s" "s < 86400" for s :: int
    using that pos_mod_bound [of 3600 s] pos_mod_bound [of 60 s] pos_mod_sign [of 3600 s]
    by (simp_all add: div_less_iff_less_mult pos_imp_zdiv_nonneg_iff)
  note p = h [OF assms(1,2)] and p' = h [OF assms(3,4)]
  have m: "s mod 60 = s mod 3600 mod 60" for s :: int by (simp add: mod_mod_cancel)
  have "time_text a < time_text b \<longleftrightarrow> a div 3600 < b div 3600 \<or> (a div 3600 = b div 3600 \<and>
      (a mod 3600 div 60 < b mod 3600 div 60 \<or> (a mod 3600 div 60 = b mod 3600 div 60 \<and>
        a mod 3600 mod 60 < b mod 3600 mod 60)))"
    by (simp add: time_text_def less_append_iff
        pad_less_iff [OF p(1,2) p'(1,2)] pad_less_iff [OF p(3,4) p'(3,4)]
        pad_less_iff [OF p(5,6) p'(5,6)] pad_eq_iff [OF p(1,2) p'(1,2)]
        pad_eq_iff [OF p(3,4) p'(3,4)] m [symmetric])
  also have "\<dots> \<longleftrightarrow> a < b"
    by (simp only: divmod_less_iff [OF zero_less_numeral])
  finally show ?thesis .
qed

lemma us_text_less_iff:
  assumes "0 \<le> a" "a < SECOND_US" "0 \<le> b" "b < SECOND_US"
  shows "us_text a < us_text b \<longleftrightarrow> a < b"
proof -
  have r: "a < 10 ^ 6" "b < 10 ^ 6" using assms by (simp_all add: SECOND_US_def)
  have c: "CHR ''+'' < CHR ''.''" by (simp add: less_char_def)
  show ?thesis
    using assms c by (simp add: us_text_def less_append_iff pad_less_iff [OF assms(1) r(1) assms(3) r(2)]
        order_less_not_sym [OF c])
qed

lemma time_text_length: "length (time_text s) = 8"
  by (simp add: time_text_def)

lemma in_range_days:
  assumes "in_range t"
  shows "0 \<le> t div DAY_US" "t div DAY_US < MAX_DAYS"
proof -
  have "t div 86400000000 * 86400000000 + t mod 86400000000 = t" by simp
  moreover have "0 \<le> t mod 86400000000" "t mod 86400000000 < 86400000000" by simp_all
  ultimately show "0 \<le> t div DAY_US" "t div DAY_US < MAX_DAYS"
    using assms unfolding in_range_def DAY_US_def MAX_DAYS_def by linarith+
qed

lemma isoformat_less_iff:
  assumes "in_range a" "in_range b"
  shows "isoformat a < isoformat b \<longleftrightarrow> a < b"
proof -
  let ?D = "\<lambda>t::int. t div DAY_US" and ?S = "\<lambda>t::int. t mod DAY_US div SECOND_US"
    and ?U = "\<lambda>t::int. t mod SECOND_US"
  have K: "0 < DAY_US" "0 < SECOND_US" by (simp_all add: DAY_US_def SECOND_US_def)
  note d = in_range_days
  have s: "0 \<le> ?S t" "?S t < 86400" for t
    using K pos_mod_sign [OF K(1), of t] pos_mod_bound [OF K(1), of t]
    by (simp_all add: pos_imp_zdiv_nonneg_iff div_less_iff_less_mult SECOND_US_def DAY_US_def)
  have u: "0 \<le> ?U t" "?U t < SECOND_US" for t using K by simp_all
  have um: "?U t = t mod DAY_US mod SECOND_US" for t
    by (simp add: DAY_US_def SECOND_US_def mod_mod_cancel)
  have de: "date_text (?D a) = date_text (?D b) \<longleftrightarrow> ?D a = ?D b"
    using date_text_less_iff d assms by (metis less_irrefl linorder_neqE)
  have se: "time_text (?S a) = time_text (?S b) \<longleftrightarrow> ?S a = ?S b"
    using time_text_less_iff s by (metis less_irrefl linorder_neqE)
  have "isoformat a < isoformat b \<longleftrightarrow> ?D a < ?D b \<or> (?D a = ?D b \<and>
      (?S a < ?S b \<or> (?S a = ?S b \<and> t_mod_us a < t_mod_us b)))"
    if "t_mod_us = (\<lambda>t. t mod DAY_US mod SECOND_US)" for t_mod_us
    using that um u
    by (simp add: isoformat_def less_append_iff date_text_length time_text_length de se
        date_text_less_iff [OF d [OF assms(1)] d [OF assms(2)]] time_text_less_iff [OF s s]
        us_text_less_iff)
  then have "isoformat a < isoformat b \<longleftrightarrow> ?D a < ?D b \<or> (?D a = ?D b \<and>
      (?S a < ?S b \<or> (?S a = ?S b \<and> a mod DAY_US mod SECOND_US < b mod DAY_US mod SECOND_US)))"
    by blast
  also have "\<dots> \<longleftrightarrow> a < b" by (simp only: divmod_less_iff [OF K(2)] divmod_less_iff [OF K(1)])
  finally show ?thesis .
qed

lemma isoformat_eq_iff: "in_range a \<Longrightarrow> in_range b \<Longrightarrow> isoformat a = isoformat b \<longleftrightarrow> a = b"
  using isoformat_less_iff [of a b] isoformat_less_iff [of b a] by (metis less_irrefl linorder_neqE)

lemma isoformat_le_iff: "in_range a \<Longrightarrow> in_range b \<Longrightarrow> isoformat a \<le> isoformat b \<longleftrightarrow> a \<le> b"
  using isoformat_less_iff [of b a] by (metis linorder_not_less)

section \<open>Reading the text back\<close>

lemma isoformat_parts:
  assumes "ymd_of_days (t div DAY_US) = (y, m, d)"
  shows "isoformat t = pad 4 y @ ''-'' @ pad 2 m @ ''-'' @ pad 2 d @ ''T'' @
     pad 2 (t mod DAY_US div SECOND_US div 3600) @ '':'' @
     pad 2 (t mod DAY_US div SECOND_US mod 3600 div 60) @ '':'' @
     pad 2 (t mod DAY_US div SECOND_US mod 60) @ us_text (t mod SECOND_US)"
  by (simp add: isoformat_def date_text_def time_text_def assms)

lemma day_in_month:
  assumes "ymd_of_days n = (y, m, d)"
  shows "d \<le> days_before_month (leap_day y) (m + 1) - days_before_month (leap_day y) m"
proof -
  have y: "y = year_of n" and m: "m = month_of (leap_day y) (n - days_before_year y)"
    and d: "d = n - days_before_year y - days_before_month (leap_day y) m + 1"
    using assms by (auto simp: ymd_of_days_def Let_def)
  have "0 \<le> n - days_before_year y" "n - days_before_year y < 365 + leap_day y"
    using year_of_bounds [of n] y days_before_year_Suc [of y] by simp_all
  from month_of_bounds [OF _ _ this] leap_day_range [of y] m d show ?thesis by simp
qed

lemma us_text_parts:
  assumes "0 \<le> u" "u < SECOND_US"
  shows "startswith (us_text u) ''.'' \<longleftrightarrow> u \<noteq> 0"
    and "u \<noteq> 0 \<Longrightarrow> num (take 6 (drop 1 (us_text u))) = Some u"
    and "u \<noteq> 0 \<Longrightarrow> drop 7 (us_text u) = ''+00:00''"
    and "u = 0 \<Longrightarrow> us_text u = ''+00:00''"
  using assms num_pad [of u 6] by (simp_all add: us_text_def startswith_def SECOND_US_def)

lemma time_split:
  fixes s :: int
  shows "s div 3600 * 3600 + s mod 3600 div 60 * 60 + s mod 60 = s"
proof -
  have "s mod 60 = s mod 3600 mod 60" by (simp add: mod_mod_cancel)
  then have "s mod 3600 div 60 * 60 + s mod 60 = s mod 3600" by simp
  then show ?thesis using div_mult_mod_eq [of s 3600] by linarith
qed

lemma num_pad2: "0 \<le> n \<Longrightarrow> n < 60 \<Longrightarrow> num (pad 2 n) = Some n"
  by (rule num_pad) simp_all

lemma fromisoformat_fields:
  fixes y m d h mi sec u :: int
  assumes y: "0 \<le> y" "y < 10 ^ 4" and m: "1 \<le> m" "m \<le> 12"
    and d: "1 \<le> d" "d < 10 ^ 2"
      "d \<le> days_before_month (leap_day y) (m + 1) - days_before_month (leap_day y) m"
    and h: "0 \<le> h" "h < 24" and mi: "0 \<le> mi" "mi < 60" and sec: "0 \<le> sec" "sec < 60"
    and u: "0 \<le> u" "u < SECOND_US"
  shows "fromisoformat (pad 4 y @ ''-'' @ pad 2 m @ ''-'' @ pad 2 d @ ''T'' @ pad 2 h @ '':'' @
           pad 2 mi @ '':'' @ pad 2 sec @ us_text u) =
         Inr (days_of_ymd y m d * DAY_US + (h * 3600 + mi * 60 + sec) * SECOND_US + u)"
    (is "fromisoformat ?t = _")
proof -
  have parts: "take 4 ?t = pad 4 y" "take 2 (drop 5 ?t) = pad 2 m" "take 2 (drop 8 ?t) = pad 2 d"
    "take 2 (drop 11 ?t) = pad 2 h" "take 2 (drop 14 ?t) = pad 2 mi" "take 2 (drop 17 ?t) = pad 2 sec"
    "take 1 (drop 10 ?t) = ''T''" "take 1 (drop 4 ?t) = ''-''" "take 1 (drop 7 ?t) = ''-''"
    "take 1 (drop 13 ?t) = '':''" "take 1 (drop 16 ?t) = '':''" "drop 19 ?t = us_text u"
    by simp_all
  have nums: "num (pad 4 y) = Some y" "num (pad 2 m) = Some m" "num (pad 2 d) = Some d"
    "num (pad 2 h) = Some h" "num (pad 2 mi) = Some mi" "num (pad 2 sec) = Some sec"
    using num_pad [OF y] num_pad [of m 2] num_pad [of d 2] num_pad [of h 2] num_pad [of mi 2]
      num_pad [of sec 2] m d h mi sec by simp_all
  show ?thesis
    unfolding fromisoformat_def parts nums Let_def
    using us_text_parts [OF u] m d h mi sec by (cases "u = 0") simp_all
qed

lemma fromisoformat_isoformat:
  assumes "in_range t"
  shows "fromisoformat (isoformat t) = Inr t"
proof -
  define n s u where "n = t div DAY_US" and "s = t mod DAY_US div SECOND_US" and "u = t mod SECOND_US"
  obtain y m d where ymd: "ymd_of_days n = (y, m, d)" by (cases "ymd_of_days n")
  have nr: "0 \<le> n" "n < MAX_DAYS" using in_range_days [OF assms] by (simp_all add: n_def)
  note c = ymd_of_days_correct [OF ymd] and p = ymd_pads [OF ymd nr]
  have ur: "0 \<le> u" "u < SECOND_US" unfolding u_def SECOND_US_def by simp_all
  have "t mod DAY_US mod SECOND_US = u"
    by (simp add: DAY_US_def SECOND_US_def mod_mod_cancel u_def)
  then have "s * SECOND_US + u = t mod DAY_US" unfolding s_def by (metis div_mult_mod_eq)
  then have total: "n * DAY_US + s * SECOND_US + u = t" by (simp add: n_def add.assoc)
  have sr: "0 \<le> s" "s < 86400"
    using \<open>s * SECOND_US + u = t mod DAY_US\<close> ur pos_mod_bound [of DAY_US t] pos_mod_sign [of DAY_US t]
    unfolding SECOND_US_def DAY_US_def by linarith+
  have fields: "0 \<le> s div 3600" "s div 3600 < 24" "0 \<le> s mod 3600 div 60" "s mod 3600 div 60 < 60"
    "0 \<le> s mod 60" "s mod 60 < 60"
    using sr pos_mod_bound [of 3600 s] pos_mod_sign [of 3600 s]
    by (simp_all add: pos_imp_zdiv_nonneg_iff)
  have "isoformat t = pad 4 y @ ''-'' @ pad 2 m @ ''-'' @ pad 2 d @ ''T'' @ pad 2 (s div 3600) @ '':'' @
      pad 2 (s mod 3600 div 60) @ '':'' @ pad 2 (s mod 60) @ us_text u"
    using isoformat_parts [of t y m d] ymd by (simp add: n_def s_def u_def)
  then show ?thesis
    using fromisoformat_fields [OF p(1,2) c(2,3,4) p(6) day_in_month [OF ymd] fields ur]
    by (simp add: c(1) time_split total)
qed

end
