(* ===== verification/Schedule_Recurrence.thy ===== *)
theory Schedule_Recurrence
  imports Py_Datetime
begin

text \<open>
  \<open>agent_os/schedule_recurrence.py\<close>: when a schedule fires next.

  \<^item> \<open>INTERVAL_RE\<close> and \<open>parse_interval\<close> read an interval; \<open>next_run_at\<close> and
    \<open>coalesce_next_run\<close> compute fire times as instants (\<open>datetime\<close>).
  \<^item> The time zone database and the \<open>croniter\<close> package are the record \<open>cron_lib\<close>; what the code
    relies on, that a next occurrence lies strictly after the start, is \<open>cron_contract\<close>.
  \<^item> The theorems: intervals of any unit are read back, a fire time is strictly in the future, and
    the closed form that skips missed occurrences returns the first occurrence of the interval's
    grid after now, the one that repeated single steps would reach.
\<close>

section \<open>Intervals\<close>

definition is_unit_char :: "char \<Rightarrow> bool" where
  "is_unit_char c = (lower_char c \<in> {CHR ''s'', CHR ''m'', CHR ''h'', CHR ''d''})"

definition INTERVAL_RE :: rexp where
  "INTERVAL_RE = RSeq (RPlus (RCls is_digit)) (RSeq (RStar (RCls py_isspace)) (ROpt (RCls is_unit_char)))"

definition unit_seconds :: "char \<Rightarrow> int" where
  "unit_seconds c =
     (if c = CHR ''s'' then 1 else if c = CHR ''m'' then 60 else if c = CHR ''h'' then 3600 else 86400)"

definition invalid_interval :: py_exn where
  "invalid_interval =
     ValueError ''Invalid interval; expected a positive integer with optional unit (s/m/h/d)''"

text \<open>The groups of a match: the leading digits, and the last character when it is no digit.
  \<open>int\<close> refuses texts of more than 4300 digits.\<close>

definition parse_interval :: "string \<Rightarrow> timedelta result" where
  "parse_interval value =
     (let s = strip value
      in if \<not> fullmatch INTERVAL_RE s then Inl invalid_interval
         else
           (let ds = takeWhile is_digit s;
                u = (if is_digit (last s) then CHR ''s'' else lower_char (last s))
            in if length ds > 4300
               then Inl (ValueError ''Exceeds the limit (4300 digits) for integer string conversion'')
               else (case num ds of
                       None \<Rightarrow> Inl invalid_interval
                     | Some n \<Rightarrow>
                         (let total_seconds = n * unit_seconds u
                          in if total_seconds \<le> 0 then Inl (ValueError ''Interval must be positive'')
                             else mk_timedelta total_seconds))))"

section \<open>Cron\<close>

record cron_lib =
  zone_known :: "string \<Rightarrow> bool"
  cron_valid :: "string \<Rightarrow> bool"
  cron_get_next :: "string \<Rightarrow> string \<Rightarrow> datetime \<Rightarrow> datetime result"

definition cron_contract :: "cron_lib \<Rightarrow> bool" where
  "cron_contract lib =
     (\<forall>e tz t r. cron_get_next lib e tz t = Inr r \<longrightarrow> t < r \<and> in_range r)"

definition validate_cron :: "cron_lib \<Rightarrow> string \<Rightarrow> string \<Rightarrow> unit result" where
  "validate_cron lib expression tz =
     (if \<not> zone_known lib tz then Inl (ValueError ''Unknown timezone'')
      else if length (split_ws (strip expression)) \<noteq> 5
      then Inl (ValueError ''Invalid cron expression: must have exactly 5 fields'')
      else if \<not> cron_valid lib expression then Inl (ValueError ''Invalid cron expression'')
      else Inr ())"

definition next_run_at ::
  "cron_lib \<Rightarrow> string \<Rightarrow> string \<Rightarrow> string \<Rightarrow> datetime \<Rightarrow> datetime result" where
  "next_run_at lib trigger_kind trigger_value tz after =
     (if trigger_kind = ''cron'' then
        (if \<not> zone_known lib tz then Inl (KeyError ''No time zone found'')
         else cron_get_next lib trigger_value tz after)
      else if trigger_kind = ''interval'' then
        bind_result (parse_interval trigger_value) (\<lambda>delta. datetime_add after delta)
      else Inl (ValueError ''Unknown trigger_kind''))"

definition coalesce_next_run ::
  "cron_lib \<Rightarrow> string \<Rightarrow> string \<Rightarrow> string \<Rightarrow> datetime \<Rightarrow> datetime \<Rightarrow> datetime result" where
  "coalesce_next_run lib trigger_kind trigger_value tz persisted now =
     (if persisted > now then Inr persisted
      else if trigger_kind = ''cron'' then next_run_at lib trigger_kind trigger_value tz now
      else if trigger_kind = ''interval'' then
        bind_result (parse_interval trigger_value) (\<lambda>delta.
          let elapsed = now - persisted; skips = elapsed div delta + 1
          in datetime_add persisted (delta * skips))
      else Inl (ValueError ''Unknown trigger_kind''))"

section \<open>Facts about intervals\<close>

lemma mk_timedelta_pos: "mk_timedelta s = Inr d \<Longrightarrow> 0 < s \<Longrightarrow> 0 < d"
  by (auto simp: mk_timedelta_def SECOND_US_def split: if_splits)

lemma parse_interval_pos: "parse_interval v = Inr d \<Longrightarrow> 0 < d"
  by (auto simp: parse_interval_def Let_def mk_timedelta_pos split: if_splits option.splits)

lemma datetime_add_Inr: "datetime_add t d = Inr r \<longleftrightarrow> r = t + d \<and> in_range r"
  by (auto simp: datetime_add_def)

lemma next_run_after:
  assumes "cron_contract lib" "next_run_at lib tk tv tz after = Inr r"
  shows "after < r \<and> in_range r"
  using assms parse_interval_pos
  by (auto simp: next_run_at_def cron_contract_def datetime_add_Inr split: if_splits)

text \<open>The next multiple: \<open>p + d * ((n - p) div d + 1)\<close> is the first point of the grid \<open>p + k d\<close>
  after \<open>n\<close>.\<close>

lemma grid_next:
  fixes p n d :: int
  assumes "0 < d" "p \<le> n"
  defines "r \<equiv> p + d * ((n - p) div d + 1)"
  shows "n < r" "r \<le> n + d" "p < r" "\<And>k. n < p + d * k \<Longrightarrow> r \<le> p + d * k"
proof -
  let ?q = "(n - p) div d"
  have q: "d * ?q \<le> n - p" "n - p < d * ?q + d"
    using assms(1) by (simp_all add: minus_mod_eq_mult_div [symmetric])
  have r: "r = p + d * ?q + d" by (simp add: r_def algebra_simps)
  show "n < r" "r \<le> n + d" "p < r" using q r assms(1,2) by linarith+
  fix k assume "n < p + d * k"
  with q(1) have "d * ?q < d * k" by linarith
  then have "?q < k" using assms(1) by simp
  then have "d * (?q + 1) \<le> d * k" using assms(1) by simp
  then show "r \<le> p + d * k" by (simp add: r_def)
qed

lemma coalesce_after:
  assumes "cron_contract lib" "in_range persisted"
    and "coalesce_next_run lib tk tv tz persisted now = Inr r"
  shows "now < r \<and> in_range r"
proof (cases "persisted > now")
  case True
  with assms show ?thesis by (auto simp: coalesce_next_run_def)
next
  case False
  then have p: "persisted \<le> now" by simp
  show ?thesis
  proof (cases "tk = ''cron''")
    case True
    with False assms(3) have "next_run_at lib tk tv tz now = Inr r"
      by (simp add: coalesce_next_run_def)
    with assms(1) show ?thesis by (rule next_run_after)
  next
    case not_cron: False
    with False assms(3) obtain d where d: "parse_interval tv = Inr d"
      "r = persisted + d * ((now - persisted) div d + 1)" "in_range r"
      by (auto simp: coalesce_next_run_def Let_def datetime_add_Inr split: if_splits)
    with grid_next(1) [OF parse_interval_pos [OF d(1)] p] show ?thesis by simp
  qed
qed

text \<open>After missed fires an interval schedule is moved to the first point of its own grid after
  now: strictly in the future, at most one interval away, a whole number of intervals after the
  persisted time, and before every other such point. One step, however many fires were missed.\<close>

theorem coalesce_interval_first:
  assumes "parse_interval tv = Inr delta" "persisted \<le> now"
    and "coalesce_next_run lib ''interval'' tv tz persisted now = Inr r"
  shows "now < r \<and> r \<le> now + delta \<and> (\<exists>k>0. r = persisted + delta * k) \<and>
         (\<forall>k. now < persisted + delta * k \<longrightarrow> r \<le> persisted + delta * k)"
proof -
  let ?k = "(now - persisted) div delta + 1"
  have d: "0 < delta" using assms(1) by (rule parse_interval_pos)
  have r: "r = persisted + delta * ?k"
    using assms by (auto simp: coalesce_next_run_def Let_def datetime_add_Inr)
  have "0 < ?k" using d assms(2) by (simp add: pos_imp_zdiv_nonneg_iff add_nonneg_pos)
  with r grid_next(1,2,4) [OF d assms(2)] show ?thesis by auto
qed

text \<open>A cron library for the witnesses: every minute.\<close>

definition sample_cron :: cron_lib where
  "sample_cron = \<lparr>zone_known = (\<lambda>tz. tz = ''UTC''), cron_valid = (\<lambda>_. True),
     cron_get_next = (\<lambda>e tz t. datetime_add t (60 * SECOND_US))\<rparr>"

lemma sample_cron_contract: "cron_contract sample_cron"
  by (auto simp: cron_contract_def sample_cron_def datetime_add_Inr SECOND_US_def)

lemma sample_interval: "parse_interval ''10s'' = Inr 10000000"
  by (simp add: parse_interval_def strip_def py_isspace_def INTERVAL_RE_def is_digit_def is_unit_char_def
      lower_char_def num_def digit_val_def unit_seconds_def mk_timedelta_def SECOND_US_def)

lemma sample_coalesce:
  "coalesce_next_run sample_cron ''interval'' ''10s'' ''UTC'' 1000000 47000000 = Inr 51000000"
  by (simp add: coalesce_next_run_def sample_interval datetime_add_def in_range_def MAX_DAYS_def
      DAY_US_def)

theorem coalesce_interval_first_witness:
  "(47000000::int) < 51000000 \<and> (51000000::int) \<le> 47000000 + 10000000 \<and>
   (\<exists>k>0. 51000000 = (1000000::int) + 10000000 * k)"
  using coalesce_interval_first [OF sample_interval _ sample_coalesce] by simp

section \<open>Reading an interval back\<close>

lemma nat_str_num: "num_aux acc (nat_str n) = Some (acc * 10 ^ length (nat_str n) + int n)"
proof (induction n arbitrary: acc rule: nat_str.induct)
  case (1 n)
  have d: "num_aux a [digit_char (n mod 10)] = Some (a * 10 + int (n mod 10))" for a
    using digit_val_digit [of "int (n mod 10)"] by simp
  show ?case
  proof (cases "n < 10")
    case True
    with d [of acc] show ?thesis by (subst (1 2) nat_str.simps) simp
  next
    case False
    have "num_aux acc (nat_str n) = num_aux acc (nat_str (n div 10) @ [digit_char (n mod 10)])"
      using False by (subst nat_str.simps) simp
    also have "\<dots> = Some (acc * 10 ^ Suc (length (nat_str (n div 10))) + int n)"
      using 1 [OF False, of acc] d by (simp add: num_aux_append algebra_simps zmod_int zdiv_int)
    also have "Suc (length (nat_str (n div 10))) = length (nat_str n)"
      using False by (subst (2) nat_str.simps) simp
    finally show ?thesis .
  qed
qed

lemma nat_str_digits: "nat_str n \<noteq> [] \<and> list_all is_digit (nat_str n)"
proof (induction n rule: nat_str.induct)
  case (1 n)
  have "is_digit (digit_char k)" if "k < 10" for k
    using of_char_digit_nat [OF that] that by (simp add: is_digit_def)
  with 1 show ?case by (cases "n < 10") (auto simp: nat_str.simps [of n])
qed

lemma nat_str_length: "n < 10 ^ k \<Longrightarrow> 0 < k \<Longrightarrow> length (nat_str n) \<le> k"
proof (induction n arbitrary: k rule: nat_str.induct)
  case (1 n)
  show ?case
  proof (cases "n < 10")
    case True
    with 1(3) show ?thesis by (simp add: nat_str.simps [of n])
  next
    case False
    with 1(2,3) have "1 < k" by (cases "k = 1") auto
    then obtain j where k: "k = Suc j" "0 < j" by (cases k) auto
    with 1(2) have "n div 10 < 10 ^ j" by (simp add: div_less_iff_less_mult mult.commute)
    with 1(1) False k show ?thesis by (simp add: nat_str.simps [of n])
  qed
qed

lemma unit_not_digit: "is_unit_char u \<Longrightarrow> \<not> is_digit u \<and> \<not> py_isspace u"
proof -
  have "lower_char u = u" if "is_digit u \<or> py_isspace u"
    using that by (auto simp: lower_char_def is_digit_def py_isspace_def Let_def)
  then show "is_unit_char u \<Longrightarrow> \<not> is_digit u \<and> \<not> py_isspace u"
    by (auto simp: is_unit_char_def is_digit_def py_isspace_def)
qed

text \<open>Every positive number of seconds, minutes, hours or days that a \<open>timedelta\<close> can hold,
  written in decimal with its unit letter in either case, is read back as that duration.\<close>

theorem parse_interval_reads:
  assumes "0 < n" "is_unit_char u"
    and "int n * unit_seconds (lower_char u) div 86400 \<le> 999999999"
  shows "parse_interval (nat_str n @ [u]) = Inr (int n * unit_seconds (lower_char u) * SECOND_US)"
proof -
  let ?s = "nat_str n @ [u]" and ?k = "unit_seconds (lower_char u)"
  have dig: "nat_str n \<noteq> []" "list_all is_digit (nat_str n)" using nat_str_digits by auto
  have u: "\<not> is_digit u" "\<not> py_isspace u" using unit_not_digit [OF assms(2)] by auto
  have k: "1 \<le> ?k" "?k \<le> 86400" by (simp_all add: unit_seconds_def)
  have "\<not> py_isspace c" if "is_digit c" for c
    using that by (auto simp: is_digit_def py_isspace_def Let_def)
  then have "list_all (\<lambda>c. \<not> py_isspace c) ?s" using dig u by (auto simp: list_all_iff)
  then have strip: "strip ?s = ?s" by (rule strip_id)
  have "\<exists>a b. [u] = a @ b \<and> list_all py_isspace a \<and> b \<in> lang (ROpt (RCls is_unit_char))"
    by (rule exI [of _ "[]"], rule exI [of _ "[u]"]) (use assms(2) in simp)
  then have unit: "[u] \<in> lang (RSeq (RStar (RCls py_isspace)) (ROpt (RCls is_unit_char)))"
    by (simp add: star_cls)
  have "?s \<in> lang INTERVAL_RE"
    unfolding INTERVAL_RE_def lang_plus_seq
    by (rule exI [of _ "nat_str n"], rule exI [of _ "[u]"])
       (use dig unit in \<open>simp del: lang.simps\<close>)
  then have match: "fullmatch INTERVAL_RE ?s" by (simp add: fullmatch_iff_lang)
  have tw: "takeWhile is_digit ?s = nat_str n"
    using dig(2) u(1) by (simp add: takeWhile_append2 list_all_iff)
  have n: "num (nat_str n) = Some (int n)" using nat_str_num [of 0 n] dig(1) by (simp add: num_def)
  have "int n * 1 \<le> int n * ?k" using k(1) by (intro mult_left_mono) simp_all
  then have "int n < 1000000000000000"
    using assms(3) div_mult_mod_eq [of "int n * ?k" 86400] pos_mod_bound [of 86400 "int n * ?k"]
    by linarith
  then have "n < 10 ^ 15" by simp
  then have len: "length (nat_str n) \<le> 4300" using nat_str_length [of n 15] by simp
  have pos: "0 < int n * ?k" using assms(1) k(1) by simp
  show ?thesis
    unfolding parse_interval_def Let_def strip tw n
    using match len pos u(1) assms(3) by (simp add: mk_timedelta_def)
qed

theorem parse_interval_reads_witness:
  "parse_interval (nat_str 2 @ ''H'') = Inr (2 * 3600 * SECOND_US)"
proof -
  have u: "is_unit_char CHR ''H''" "lower_char CHR ''H'' = CHR ''h''"
    by (simp_all add: is_unit_char_def lower_char_def char_of_eq_iff)
  then show ?thesis using parse_interval_reads [of 2 "CHR ''H''"] by (simp add: unit_seconds_def)
qed

end
