(* ===== verification/Schedules.thy ===== *)
theory Schedules
  imports Schedule_Recurrence
begin

text \<open>
  \<open>agent_os/schedules.py\<close>: the durable schedule store.

  \<^item> A row of the table \<open>schedules\<close> is a \<open>schedule_row\<close>; the time columns hold ISO texts, as in
    the database, and SQL compares those texts. The record is generic in the \<open>enabled\<close> column: an
    integer in the table, a boolean in what \<open>_decode_row\<close> returns.
  \<^item> \<open>validate_app_callback_url\<close> uses \<open>urlsplit\<close> of the standard library, modelled for texts of
    code points below 256 (where the Unicode check of \<open>urllib\<close> does nothing). The check of an IP
    literal in brackets is the parameter \<open>bracketed_ok\<close> of the record \<open>url_lib\<close>.
  \<^item> One definition per operation. An operation that raises returns \<open>Inl\<close>; its transaction is
    rolled back then, so the table is the one before the call (\<open>sched_exec\<close>).
  \<^item> The locale \<open>due_queue\<close> is what the dispatcher relies on when it claims work in batches; it is
    interpreted on \<open>claim_due_schedules\<close>.
\<close>

section \<open>URLs\<close>

record url_lib =
  bracketed_ok :: "string \<Rightarrow> bool"

record split_result =
  url_scheme :: string
  url_netloc :: string

definition ascii_alpha :: "char \<Rightarrow> bool" where
  "ascii_alpha c = (is_lower c \<or> is_upper c)"

definition scheme_char :: "char \<Rightarrow> bool" where
  "scheme_char c = (ascii_alpha c \<or> is_digit c \<or> c \<in> {CHR ''+'', CHR ''-'', CHR ''.''})"

definition c0_or_space :: "char \<Rightarrow> bool" where
  "c0_or_space c = ((of_char c :: nat) \<le> 32)"

text \<open>\<open>s.partition(c)\<close>: before the first \<open>c\<close>, whether there is one, and what follows it.\<close>

definition partition_at :: "char \<Rightarrow> string \<Rightarrow> string \<times> bool \<times> string" where
  "partition_at c s = (takeWhile (\<lambda>x. x \<noteq> c) s, c \<in> set s, after_first c s)"

definition after_last :: "char \<Rightarrow> string \<Rightarrow> string" where
  "after_last c s = rev (takeWhile (\<lambda>x. x \<noteq> c) (rev s))"

definition urlsplit :: "url_lib \<Rightarrow> string \<Rightarrow> split_result result" where
  "urlsplit lib url =
     (let u = filter (\<lambda>c. c \<notin> {CHR 0x09, CHR 0x0D, CHR 0x0A}) (dropWhile c0_or_space url);
          (pre, found, post) = partition_at CHR '':'' u;
          ok = (found \<and> pre \<noteq> [] \<and> ascii_alpha (hd pre) \<and> list_all scheme_char pre);
          scheme = (if ok then py_lower pre else []);
          rest = (if ok then post else u)
      in if \<not> startswith rest ''//'' then Inr \<lparr>url_scheme = scheme, url_netloc = []\<rparr>
         else
           (let netloc = takeWhile (\<lambda>c. c \<notin> {CHR ''/'', CHR ''?'', CHR ''#''}) (drop 2 rest);
                open_br = CHR ''['' \<in> set netloc; close_br = CHR '']'' \<in> set netloc
            in if open_br \<noteq> close_br \<or> open_br \<and> \<not> bracketed_ok lib netloc
               then Inl (ValueError ''Invalid IPv6 URL'')
               else Inr \<lparr>url_scheme = scheme, url_netloc = netloc\<rparr>))"

text \<open>The property \<open>_hostinfo\<close> of a split result, and \<open>hostname\<close> and \<open>port\<close> read from it.\<close>

definition hostinfo :: "string \<Rightarrow> string \<times> string" where
  "hostinfo netloc =
     (let info = after_last CHR ''@'' netloc;
          (_, open_br, bracketed) = partition_at CHR ''['' info
      in if open_br
         then (case partition_at CHR '']'' bracketed of
                 (hostname, _, p) \<Rightarrow> (hostname, snd (snd (partition_at CHR '':'' p))))
         else (case partition_at CHR '':'' info of (hostname, _, p) \<Rightarrow> (hostname, p)))"

definition url_port :: "split_result \<Rightarrow> int option result" where
  "url_port u =
     (let p = snd (hostinfo (url_netloc u))
      in if p = [] then Inr None
         else if \<not> list_all is_digit p then Inl (ValueError ''Port could not be cast'')
         else (case num p of
                 None \<Rightarrow> Inl (ValueError ''Port could not be cast'')
               | Some n \<Rightarrow> if 0 \<le> n \<and> n \<le> 65535 then Inr (Some n)
                            else Inl (ValueError ''Port out of range 0-65535'')))"

definition url_error :: py_exn where
  "url_error = ValueError (''url must start with 'http://' or 'https://' and include a valid host'')"

definition validate_app_callback_url :: "url_lib \<Rightarrow> pyval \<Rightarrow> string result" where
  "validate_app_callback_url lib value =
     (case value of
        PStr s \<Rightarrow>
          (let v = strip s
           in case bind_result (urlsplit lib v) (\<lambda>u. bind_result (url_port u) (\<lambda>_. Inr u)) of
                Inl _ \<Rightarrow> Inl url_error
              | Inr u \<Rightarrow>
                  if py_lower (url_scheme u) \<notin> {''http'', ''https''} \<or>
                     fst (hostinfo (url_netloc u)) = [] \<or> list_ex py_isspace v
                  then Inl url_error else Inr v)
      | _ \<Rightarrow> Inl url_error)"

section \<open>Field validation\<close>

definition ALLOWED_KINDS :: "string list" where
  "ALLOWED_KINDS = [''run'', ''brief'', ''app_callback'']"

definition ALLOWED_TRIGGER_KINDS :: "string list" where
  "ALLOWED_TRIGGER_KINDS = [''cron'', ''interval'']"

definition RUN_PAYLOAD_KEYS :: "string list" where
  "RUN_PAYLOAD_KEYS = [''task'', ''workspace'']"

definition BRIEF_PAYLOAD_KEYS :: "string list" where
  "BRIEF_PAYLOAD_KEYS = []"

definition APP_CALLBACK_PAYLOAD_KEYS :: "string list" where
  "APP_CALLBACK_PAYLOAD_KEYS = [''url'', ''method'', ''headers'', ''body'']"

definition ALLOWED_HTTP_METHODS :: "string list" where
  "ALLOWED_HTTP_METHODS = [''GET'', ''POST'', ''PUT'', ''PATCH'', ''DELETE'']"

definition unknown_keys :: "pydict \<Rightarrow> string list \<Rightarrow> bool" where
  "unknown_keys payload allowed = list_ex (\<lambda>(k, _). k \<notin> set allowed) payload"

fun is_str :: "pyval \<Rightarrow> bool" where
  "is_str (PStr _) = True"
| "is_str _ = False"

fun is_dict :: "pyval \<Rightarrow> bool" where
  "is_dict (PDict _) = True"
| "is_dict _ = False"

fun is_str_dict :: "pyval \<Rightarrow> bool" where
  "is_str_dict (PDict d) = list_all (\<lambda>(_, v). is_str v) d"
| "is_str_dict _ = False"

text \<open>\<open>key in d and d[key] is not None\<close> implies the test.\<close>

definition unless_none :: "pydict \<Rightarrow> string \<Rightarrow> (pyval \<Rightarrow> bool) \<Rightarrow> bool" where
  "unless_none d k p = (case dict_get d k of None \<Rightarrow> True | Some v \<Rightarrow> v = PNone \<or> p v)"

definition validate_trigger :: "cron_lib \<Rightarrow> string \<Rightarrow> string \<Rightarrow> string \<Rightarrow> unit result" where
  "validate_trigger lib trigger_kind trigger_value timezone =
     (if trigger_kind = ''cron'' then validate_cron lib trigger_value timezone
      else bind_result (parse_interval trigger_value) (\<lambda>_.
        if timezone \<noteq> ''UTC''
        then Inl (ValueError ''Interval schedules are elapsed-time and reject non-UTC timezone'')
        else Inr ()))"

definition validate_callback_payload :: "url_lib \<Rightarrow> pydict \<Rightarrow> pydict result" where
  "validate_callback_payload ulib payload =
     (if unknown_keys payload APP_CALLBACK_PAYLOAD_KEYS
      then Inl (ValueError ''Unknown payload keys for kind=app_callback'')
      else case dict_get payload ''url'' of
        None \<Rightarrow> Inl (ValueError ''kind=app_callback requires 'url' in payload'')
      | Some url \<Rightarrow>
          if \<not> truthy url then Inl (ValueError ''kind=app_callback requires 'url' in payload'')
          else bind_result (validate_app_callback_url ulib url) (\<lambda>u.
            let p1 = dict_set ''url'' (PStr u) payload;
                meth = (case dict_get p1 ''method'' of
                          None \<Rightarrow> PStr ''POST''
                        | Some m \<Rightarrow> if truthy m then m else PStr ''POST'')
            in case meth of
                 PStr m \<Rightarrow>
                   if py_upper m \<notin> set ALLOWED_HTTP_METHODS
                   then Inl (ValueError ''method must be one of ALLOWED_HTTP_METHODS'')
                   else
                     (let p2 = dict_set ''method'' (PStr (py_upper m)) p1
                      in if \<not> unless_none p2 ''headers'' is_str_dict
                         then Inl (ValueError ''headers must be a dict of string key-value pairs'')
                         else if \<not> unless_none p2 ''body'' is_dict
                         then Inl (ValueError ''body must be a dict'')
                         else Inr p2)
               | _ \<Rightarrow> Inl (ValueError ''method must be one of ALLOWED_HTTP_METHODS'')))"

text \<open>The function mutates its \<open>payload\<close> argument; here it returns the payload as it leaves it.\<close>

definition validate_schedule_fields ::
  "cron_lib \<Rightarrow> url_lib \<Rightarrow> string \<Rightarrow> string \<Rightarrow> string \<Rightarrow> string \<Rightarrow> pydict \<Rightarrow> pydict result" where
  "validate_schedule_fields lib ulib kind trigger_kind trigger_value timezone payload =
     (if kind \<notin> set ALLOWED_KINDS then Inl (ValueError ''kind must be one of ALLOWED_KINDS'')
      else if trigger_kind \<notin> set ALLOWED_TRIGGER_KINDS
      then Inl (ValueError ''trigger_kind must be one of ALLOWED_TRIGGER_KINDS'')
      else bind_result (validate_trigger lib trigger_kind trigger_value timezone) (\<lambda>_.
        if kind = ''run'' then
          (if unknown_keys payload RUN_PAYLOAD_KEYS
           then Inl (ValueError ''Unknown payload keys for kind=run'')
           else if dict_get payload ''task'' = None
           then Inl (ValueError ''kind=run requires 'task' in payload'')
           else Inr payload)
        else if kind = ''brief'' then
          (if unknown_keys payload BRIEF_PAYLOAD_KEYS
           then Inl (ValueError ''Unknown payload keys for kind=brief'')
           else Inr payload)
        else validate_callback_payload ulib payload))"

section \<open>The table\<close>

record 'e schedule_row =
  schedule_id :: string
  sched_name :: string
  sched_kind :: string
  sched_trigger_kind :: string
  sched_trigger_value :: string
  sched_timezone :: string
  sched_payload :: pydict
  sched_enabled :: 'e
  sched_next_run_at :: string
  sched_last_run_at :: "string option"
  sched_last_status :: "string option"
  sched_last_error :: "string option"
  sched_created_at :: string
  sched_updated_at :: string

type_synonym sched_table = "int schedule_row list"
type_synonym schedule = "bool schedule_row"

definition decode_row :: "int schedule_row \<Rightarrow> schedule" where
  "decode_row r =
     \<lparr>schedule_id = schedule_id r, sched_name = sched_name r, sched_kind = sched_kind r,
      sched_trigger_kind = sched_trigger_kind r, sched_trigger_value = sched_trigger_value r,
      sched_timezone = sched_timezone r, sched_payload = sched_payload r,
      sched_enabled = (sched_enabled r \<noteq> 0), sched_next_run_at = sched_next_run_at r,
      sched_last_run_at = sched_last_run_at r, sched_last_status = sched_last_status r,
      sched_last_error = sched_last_error r, sched_created_at = sched_created_at r,
      sched_updated_at = sched_updated_at r\<rparr>"

definition int_of_bool :: "bool \<Rightarrow> int" where
  "int_of_bool b = (if b then 1 else 0)"

text \<open>The keyword arguments of \<open>create_schedule\<close>.\<close>

record schedule_args =
  arg_name :: string
  arg_kind :: string
  arg_trigger_kind :: string
  arg_trigger_value :: string
  arg_timezone :: string
  arg_payload :: "pydict option"
  arg_enabled :: bool

definition create_schedule ::
  "cron_lib \<Rightarrow> url_lib \<Rightarrow> string \<Rightarrow> datetime \<Rightarrow> schedule_args \<Rightarrow> sched_table
     \<Rightarrow> (string \<times> sched_table) result" where
  "create_schedule lib ulib uuid now a tbl =
     bind_result (validate_schedule_fields lib ulib (arg_kind a) (arg_trigger_kind a)
                    (arg_trigger_value a) (arg_timezone a)
                    (case arg_payload a of None \<Rightarrow> [] | Some p \<Rightarrow> p)) (\<lambda>payload.
     bind_result (next_run_at lib (arg_trigger_kind a) (arg_trigger_value a) (arg_timezone a) now)
       (\<lambda>computed_next.
        if lookup schedule_id uuid tbl \<noteq> None
        then Inl (OtherError ''UNIQUE constraint failed: schedules.schedule_id'')
        else Inr (uuid, tbl @
          [\<lparr>schedule_id = uuid, sched_name = arg_name a, sched_kind = arg_kind a,
            sched_trigger_kind = arg_trigger_kind a, sched_trigger_value = arg_trigger_value a,
            sched_timezone = arg_timezone a, sched_payload = payload,
            sched_enabled = int_of_bool (arg_enabled a),
            sched_next_run_at = isoformat computed_next, sched_last_run_at = None,
            sched_last_status = None, sched_last_error = None,
            sched_created_at = isoformat now, sched_updated_at = isoformat now\<rparr>])))"

definition get_schedule :: "string \<Rightarrow> sched_table \<Rightarrow> schedule option" where
  "get_schedule sid tbl = map_option decode_row (lookup schedule_id sid tbl)"

definition list_schedules :: "string option \<Rightarrow> bool option \<Rightarrow> sched_table \<Rightarrow> schedule list" where
  "list_schedules kind enabled tbl =
     map decode_row (order_desc sched_created_at
       (filter (\<lambda>r. (case kind of None \<Rightarrow> True | Some k \<Rightarrow> sched_kind r = k) \<and>
                    (case enabled of None \<Rightarrow> True | Some e \<Rightarrow> sched_enabled r = int_of_bool e)) tbl))"

definition remove_schedule :: "string \<Rightarrow> sched_table \<Rightarrow> bool \<times> sched_table" where
  "remove_schedule sid tbl =
     (rowcount (\<lambda>r. schedule_id r = sid) tbl > 0, delete_where (\<lambda>r. schedule_id r = sid) tbl)"

definition set_schedule_enabled ::
  "datetime \<Rightarrow> string \<Rightarrow> bool \<Rightarrow> sched_table \<Rightarrow> bool \<times> sched_table" where
  "set_schedule_enabled now sid enabled tbl =
     (rowcount (\<lambda>r. schedule_id r = sid) tbl > 0,
      update_where (\<lambda>r. schedule_id r = sid)
        (\<lambda>r. r\<lparr>sched_enabled := int_of_bool enabled, sched_updated_at := isoformat now\<rparr>) tbl)"

definition due_row :: "datetime \<Rightarrow> int schedule_row \<Rightarrow> bool" where
  "due_row now r = (sched_enabled r = 1 \<and> sched_next_run_at r \<le> isoformat now)"

text \<open>\<open>LIMIT ?\<close>: a negative limit is no limit.\<close>

definition sql_limit :: "int \<Rightarrow> 'r list \<Rightarrow> 'r list" where
  "sql_limit n rows = (if n < 0 then rows else take (nat n) rows)"

definition select_due :: "datetime \<Rightarrow> int \<Rightarrow> sched_table \<Rightarrow> sched_table" where
  "select_due now limit tbl =
     sql_limit limit (order_asc sched_next_run_at (filter (due_row now) tbl))"

definition advance :: "datetime \<Rightarrow> datetime \<Rightarrow> int schedule_row \<Rightarrow> int schedule_row" where
  "advance now new_next r =
     r\<lparr>sched_next_run_at := isoformat new_next, sched_last_run_at := Some (isoformat now),
       sched_updated_at := isoformat now\<rparr>"

fun claim_rows ::
  "cron_lib \<Rightarrow> datetime \<Rightarrow> sched_table \<Rightarrow> sched_table \<Rightarrow> (schedule list \<times> sched_table) result" where
  "claim_rows lib now [] tbl = Inr ([], tbl)"
| "claim_rows lib now (row # rows) tbl =
     bind_result (fromisoformat (sched_next_run_at row)) (\<lambda>persisted.
     bind_result (coalesce_next_run lib (sched_trigger_kind row) (sched_trigger_value row)
                    (sched_timezone row) persisted now) (\<lambda>new_next.
     bind_result (claim_rows lib now rows
                    (update_where (\<lambda>r. schedule_id r = schedule_id row) (advance now new_next) tbl))
       (\<lambda>(claimed, tbl'). Inr (decode_row row # claimed, tbl'))))"

definition claim_due_schedules ::
  "cron_lib \<Rightarrow> datetime \<Rightarrow> int \<Rightarrow> sched_table \<Rightarrow> (schedule list \<times> sched_table) result" where
  "claim_due_schedules lib now limit tbl = claim_rows lib now (select_due now limit tbl) tbl"

definition record_schedule_result ::
  "datetime \<Rightarrow> string \<Rightarrow> string \<Rightarrow> string option \<Rightarrow> sched_table \<Rightarrow> sched_table" where
  "record_schedule_result now sid status error tbl =
     update_where (\<lambda>r. schedule_id r = sid)
       (\<lambda>r. r\<lparr>sched_last_status := Some status, sched_last_error := error,
          sched_updated_at := isoformat now\<rparr>) tbl"

section \<open>The invariant\<close>

definition iso_ok :: "string \<Rightarrow> bool" where
  "iso_ok s = (case fromisoformat s of Inl _ \<Rightarrow> False | Inr t \<Rightarrow> in_range t \<and> isoformat t = s)"

definition row_ok :: "int schedule_row \<Rightarrow> bool" where
  "row_ok r =
     (sched_kind r \<in> set ALLOWED_KINDS \<and> sched_trigger_kind r \<in> set ALLOWED_TRIGGER_KINDS \<and>
      sched_enabled r \<in> {0, 1} \<and> iso_ok (sched_next_run_at r))"

definition sched_inv :: "sched_table \<Rightarrow> bool" where
  "sched_inv tbl = (unique_key schedule_id tbl \<and> list_all row_ok tbl)"

lemma iso_ok_isoformat [simp]: "in_range t \<Longrightarrow> iso_ok (isoformat t)"
  by (simp add: iso_ok_def fromisoformat_isoformat)

lemma iso_okE:
  assumes "iso_ok s"
  obtains t where "in_range t" "s = isoformat t" "fromisoformat s = Inr t"
  using assms by (auto simp: iso_ok_def split: sum.splits)

lemma sched_inv_row: "sched_inv tbl \<Longrightarrow> r \<in> set tbl \<Longrightarrow> row_ok r"
  by (simp add: sched_inv_def list_all_iff)

lemma advance_simps [simp]:
  "schedule_id (advance now n r) = schedule_id r"
  "sched_next_run_at (advance now n r) = isoformat n"
  "sched_kind (advance now n r) = sched_kind r"
  "sched_trigger_kind (advance now n r) = sched_trigger_kind r"
  "sched_enabled (advance now n r) = sched_enabled r"
  by (simp_all add: advance_def)

lemma decode_row_id [simp]: "schedule_id (decode_row r) = schedule_id r"
  by (simp add: decode_row_def)

section \<open>Claiming\<close>

text \<open>What a batch of claims does to the table: the claimed rows move to the fire times \<open>nxt\<close>.\<close>

definition moved ::
  "datetime \<Rightarrow> string set \<Rightarrow> (string \<Rightarrow> datetime) \<Rightarrow> int schedule_row \<Rightarrow> int schedule_row" where
  "moved now ids nxt r = (if schedule_id r \<in> ids then advance now (nxt (schedule_id r)) r else r)"

lemma moved_id [simp]: "schedule_id (moved now ids nxt r) = schedule_id r"
  by (simp add: moved_def)

lemma claim_rows_spec:
  assumes "cron_contract lib" "distinct (map schedule_id rows)" "list_all row_ok rows"
    and "claim_rows lib now rows tbl = Inr (claimed, tbl')"
  shows "claimed = map decode_row rows \<and>
         (\<exists>nxt. (\<forall>i\<in>schedule_id ` set rows. now < nxt i \<and> in_range (nxt i)) \<and>
                tbl' = map (moved now (schedule_id ` set rows) nxt) tbl)"
  using assms(2-)
proof (induction rows arbitrary: tbl claimed)
  case (Cons row rows)
  from Cons.prems obtain p n cl where
    p: "fromisoformat (sched_next_run_at row) = Inr p" and
    n: "coalesce_next_run lib (sched_trigger_kind row) (sched_trigger_value row)
          (sched_timezone row) p now = Inr n" and
    rest: "claim_rows lib now rows
      (update_where (\<lambda>r. schedule_id r = schedule_id row) (advance now n) tbl) = Inr (cl, tbl')" and
    cl: "claimed = decode_row row # cl"
    by auto
  from Cons.prems have "iso_ok (sched_next_run_at row)" by (simp add: row_ok_def)
  with p have "in_range p" by (auto elim: iso_okE)
  with n assms(1) have new: "now < n" "in_range n" using coalesce_after by blast+
  from Cons.IH [OF _ _ rest] Cons.prems obtain nxt where
    IH: "cl = map decode_row rows"
      "\<forall>i\<in>schedule_id ` set rows. now < nxt i \<and> in_range (nxt i)"
      "tbl' = map (moved now (schedule_id ` set rows) nxt)
         (update_where (\<lambda>r. schedule_id r = schedule_id row) (advance now n) tbl)"
    by auto
  have notin: "schedule_id row \<notin> schedule_id ` set rows" using Cons.prems by simp
  have "tbl' = map (moved now (schedule_id ` set (row # rows)) (nxt(schedule_id row := n))) tbl"
    unfolding IH(3) update_where_def map_map comp_def
    by (rule map_cong [OF refl]) (use notin in \<open>auto simp: moved_def\<close>)
  with IH(1,2) cl new notin show ?case
    by (intro conjI exI [of _ "nxt(schedule_id row := n)"]) (auto simp: fun_upd_def)
qed (simp add: moved_def map_idI)

lemma select_due_set: "set (select_due now limit tbl) \<subseteq> {r \<in> set tbl. due_row now r}"
  by (auto simp: select_due_def sql_limit_def split: if_splits dest: in_set_takeD)

lemma distinct_map_take: "distinct (map f xs) \<Longrightarrow> distinct (map f (take n xs))"
  by (metis distinct_take take_map)

lemma select_due_distinct:
  assumes "unique_key schedule_id tbl"
  shows "distinct (map schedule_id (select_due now limit tbl))"
proof -
  have "distinct (map schedule_id (filter (due_row now) tbl))"
    using assms by (simp add: unique_key_def distinct_map_filter)
  then have "distinct (map schedule_id (order_asc sched_next_run_at (filter (due_row now) tbl)))"
    by (simp add: order_asc_def distinct_map)
  then show ?thesis by (simp add: select_due_def sql_limit_def distinct_map_take)
qed

text \<open>The facts every statement about a claim starts from.\<close>

lemma claim_due_spec:
  assumes "cron_contract lib" "sched_inv tbl"
    and "claim_due_schedules lib now limit tbl = Inr (claimed, tbl')"
  obtains nxt where "claimed = map decode_row (select_due now limit tbl)"
    "\<forall>i\<in>schedule_id ` set (select_due now limit tbl). now < nxt i \<and> in_range (nxt i)"
    "tbl' = map (moved now (schedule_id ` set (select_due now limit tbl)) nxt) tbl"
proof -
  have "list_all row_ok (select_due now limit tbl)"
    using select_due_set assms(2) by (fastforce simp: sched_inv_def list_all_iff)
  moreover have "distinct (map schedule_id (select_due now limit tbl))"
    using assms(2) by (simp add: sched_inv_def select_due_distinct)
  ultimately show ?thesis
    using claim_rows_spec [OF assms(1), of "select_due now limit tbl" now tbl] assms(3) that
    by (fastforce simp: claim_due_schedules_def)
qed

definition due_ids :: "datetime \<Rightarrow> sched_table \<Rightarrow> string list" where
  "due_ids now tbl = map schedule_id (filter (due_row now) tbl)"

lemma moved_ok:
  assumes "row_ok r" "\<And>i. i \<in> ids \<Longrightarrow> in_range (nxt i)"
  shows "row_ok (moved now ids nxt r)"
  using assms by (simp add: moved_def row_ok_def)

lemma claim_keeps_inv:
  assumes "cron_contract lib" "sched_inv tbl"
    and "claim_due_schedules lib now limit tbl = Inr (claimed, tbl')"
  shows "sched_inv tbl'"
proof -
  from assms obtain nxt where
    n: "\<forall>i\<in>schedule_id ` set (select_due now limit tbl). now < nxt i \<and> in_range (nxt i)"
    and t: "tbl' = map (moved now (schedule_id ` set (select_due now limit tbl)) nxt) tbl"
    by (rule claim_due_spec) blast
  have "map schedule_id tbl' = map schedule_id tbl" by (simp add: t comp_def)
  moreover have "list_all row_ok tbl'"
    using assms(2) n by (auto simp: t sched_inv_def list_all_iff intro!: moved_ok)
  ultimately show ?thesis using assms(2) by (simp add: sched_inv_def unique_key_def)
qed

text \<open>A claimed row is not due again at the same or an earlier time; every other row is as before.\<close>

lemma moved_not_due:
  assumes "in_range t" "t \<le> now" "now < nxt (schedule_id r)" "in_range (nxt (schedule_id r))"
    and "schedule_id r \<in> ids"
  shows "\<not> due_row t (moved now ids nxt r)"
  using assms by (simp add: moved_def due_row_def isoformat_le_iff)

lemma claim_due_ids:
  assumes "cron_contract lib" "sched_inv tbl" "in_range t" "t \<le> now"
    and "claim_due_schedules lib now limit tbl = Inr (claimed, tbl')"
  shows "due_ids t tbl' = filter (\<lambda>i. i \<notin> schedule_id ` set claimed) (due_ids t tbl)"
proof -
  from assms(1,2,5) obtain nxt where
    c: "claimed = map decode_row (select_due now limit tbl)" and
    n: "\<forall>i\<in>schedule_id ` set (select_due now limit tbl). now < nxt i \<and> in_range (nxt i)"
    and tb: "tbl' = map (moved now (schedule_id ` set (select_due now limit tbl)) nxt) tbl"
    by (rule claim_due_spec) blast
  let ?ids = "schedule_id ` set (select_due now limit tbl)"
  have ids: "schedule_id ` set claimed = ?ids" by (simp add: c image_image)
  have due: "due_row t (moved now ?ids nxt r) \<longleftrightarrow> due_row t r \<and> schedule_id r \<notin> ?ids" for r
    using moved_not_due [OF assms(3,4), of nxt r ?ids] n by (auto simp: moved_def)
  show ?thesis
    unfolding due_ids_def tb filter_map comp_def ids
    by (simp add: due filter_map comp_def conj_commute)
qed

lemma length_sql_limit: "length (sql_limit (int n) rows) = min (length rows) n"
  by (simp add: sql_limit_def min.commute)

lemma claim_count:
  assumes "cron_contract lib" "sched_inv tbl"
    and "claim_due_schedules lib now (int n) tbl = Inr (claimed, tbl')"
  shows "length claimed = min (length (due_ids now tbl)) n"
  using claim_due_spec [OF assms]
  by (metis due_ids_def length_map length_order(1) length_sql_limit select_due_def)

text \<open>A claim is exclusive. Every claimed schedule was enabled and due, there are at most
  \<open>limit\<close> of them and all are different; afterwards a second claim at the same or an earlier time,
  with any limit, returns none of them, so no occurrence is dispatched twice.\<close>

theorem claim_exclusive:
  assumes "cron_contract lib" "sched_inv tbl" "in_range now" "in_range now'" "now' \<le> now"
    and "claim_due_schedules lib now (int n) tbl = Inr (claimed, tbl')"
    and "claim_due_schedules lib now' limit' tbl' = Inr (claimed', tbl'')"
  shows "schedule_id ` set claimed \<subseteq> set (due_ids now tbl) \<and> length claimed \<le> n \<and>
         distinct (map schedule_id claimed) \<and>
         schedule_id ` set claimed \<inter> schedule_id ` set claimed' = {}"
proof -
  from assms(1,2,6) obtain nxt where c: "claimed = map decode_row (select_due now (int n) tbl)"
    by (rule claim_due_spec) blast
  have inv': "sched_inv tbl'" using assms(1,2,6) by (rule claim_keeps_inv)
  from assms(1) inv' assms(7) obtain nxt' where
    c': "claimed' = map decode_row (select_due now' limit' tbl')"
    by (rule claim_due_spec) blast
  have "schedule_id ` set claimed' \<subseteq> set (due_ids now' tbl')"
    using select_due_set [of now' limit' tbl'] by (auto simp: c' due_ids_def)
  also have "set (due_ids now' tbl') \<inter> schedule_id ` set claimed = {}"
    using claim_due_ids [OF assms(1,2,4,5,6)] by auto
  finally have disj: "schedule_id ` set claimed \<inter> schedule_id ` set claimed' = {}" by blast
  have "schedule_id ` set claimed \<subseteq> set (due_ids now tbl)"
    using select_due_set [of now "int n" tbl] by (auto simp: c due_ids_def)
  moreover have "distinct (map schedule_id claimed)"
    using assms(2) by (simp add: c comp_def sched_inv_def select_due_distinct)
  ultimately show ?thesis using disj claim_count [OF assms(1,2,6)] by simp
qed

text \<open>A claim changes nothing else. The table keeps its rows and their order; a row that was
  not claimed is unchanged, and a claimed one moves to a fire time strictly after now, with only
  \<open>last_run_at\<close> and \<open>updated_at\<close> stamped besides.\<close>

theorem claim_frame:
  assumes "cron_contract lib" "sched_inv tbl" "i < length tbl"
    and "claim_due_schedules lib now limit tbl = Inr (claimed, tbl')"
  shows "length tbl' = length tbl \<and>
         (if schedule_id (tbl ! i) \<in> schedule_id ` set claimed
          then \<exists>t. now < t \<and> in_range t \<and>
            tbl' ! i = (tbl ! i)\<lparr>sched_next_run_at := isoformat t,
              sched_last_run_at := Some (isoformat now), sched_updated_at := isoformat now\<rparr>
          else tbl' ! i = tbl ! i)"
proof -
  from assms(1,2,4) obtain nxt where
    c: "claimed = map decode_row (select_due now limit tbl)" and
    n: "\<forall>i\<in>schedule_id ` set (select_due now limit tbl). now < nxt i \<and> in_range (nxt i)" and
    t: "tbl' = map (moved now (schedule_id ` set (select_due now limit tbl)) nxt) tbl"
    by (rule claim_due_spec) blast
  have ids: "schedule_id ` set claimed = schedule_id ` set (select_due now limit tbl)"
    by (simp add: c image_image)
  let ?r = "tbl ! i"
  have at: "tbl' ! i = moved now (schedule_id ` set claimed) nxt ?r"
    using assms(3) by (simp add: t ids)
  show ?thesis
  proof (cases "schedule_id ?r \<in> schedule_id ` set claimed")
    case True
    with n ids have "now < nxt (schedule_id ?r)" "in_range (nxt (schedule_id ?r))" by auto
    with True at show ?thesis by (auto simp: t moved_def advance_def)
  next
    case False
    with at show ?thesis by (simp add: t moved_def)
  qed
qed

text \<open>No due schedule is passed over. If an enabled schedule that is due is not in a batch, the
  batch is full and everything in it was due no later than that schedule.\<close>

theorem claim_oldest_first:
  assumes "cron_contract lib" "sched_inv tbl"
    and "claim_due_schedules lib now (int n) tbl = Inr (claimed, tbl')"
    and "r \<in> set tbl" "due_row now r" "schedule_id r \<notin> schedule_id ` set claimed"
  shows "length claimed = n \<and> (\<forall>s\<in>set claimed. sched_next_run_at s \<le> sched_next_run_at r)"
proof -
  let ?q = "order_asc sched_next_run_at (filter (due_row now) tbl)"
  from assms(1-3) obtain nxt where "claimed = map decode_row (select_due now (int n) tbl)"
    by (rule claim_due_spec) blast
  then have c: "claimed = map decode_row (take n ?q)" by (simp add: select_due_def sql_limit_def)
  have "r \<in> set ?q" using assms(4,5) by simp
  moreover have "r \<notin> set (take n ?q)" using assms(6) unfolding c set_map image_image decode_row_id by blast
  moreover have "set ?q = set (take n ?q) \<union> set (drop n ?q)" by (metis append_take_drop_id set_append)
  ultimately have r: "r \<in> set (drop n ?q)" by blast
  then have "n < length ?q" by (metis drop_all empty_iff list.set(1) not_le_imp_less)
  moreover have "sched_next_run_at s \<le> sched_next_run_at r" if "s \<in> set (take n ?q)" for s
  proof -
    have "sorted (map sched_next_run_at (take n ?q @ drop n ?q))" by simp
    then show ?thesis using that r by (simp only: map_append sorted_append) simp
  qed
  ultimately show ?thesis by (auto simp: c decode_row_def)
qed

section \<open>Claiming in rounds\<close>

fun rounds ::
  "(nat \<Rightarrow> 's \<Rightarrow> 'e + ('k list \<times> 's)) \<Rightarrow> nat \<Rightarrow> nat \<Rightarrow> 's \<Rightarrow> 'e + ('k list \<times> 's)" where
  "rounds claim n 0 s = Inr ([], s)"
| "rounds claim n (Suc k) s =
     bind_result (claim n s) (\<lambda>(ks, s1).
     bind_result (rounds claim n k s1) (\<lambda>(ks', s2). Inr (ks @ ks', s2)))"

locale due_queue =
  fixes claim :: "nat \<Rightarrow> 's \<Rightarrow> 'e + ('k list \<times> 's)"
    and due :: "'s \<Rightarrow> 'k list"
    and invar :: "'s \<Rightarrow> bool"
  assumes distinct_due: "invar s \<Longrightarrow> distinct (due s)"
    and claim_invar: "invar s \<Longrightarrow> claim n s = Inr (ks, s') \<Longrightarrow> invar s'"
    and claim_distinct: "invar s \<Longrightarrow> claim n s = Inr (ks, s') \<Longrightarrow> distinct ks \<and> set ks \<subseteq> set (due s)"
    and claim_length: "invar s \<Longrightarrow> claim n s = Inr (ks, s') \<Longrightarrow> length ks = min (length (due s)) n"
    and claim_due: "invar s \<Longrightarrow> claim n s = Inr (ks, s') \<Longrightarrow> due s' = filter (\<lambda>k. k \<notin> set ks) (due s)"
begin

lemma due_rest_length:
  assumes "invar s" "claim n s = Inr (ks, s')"
  shows "length (due s') = length (due s) - length ks"
proof -
  note d = claim_distinct [OF assms] distinct_due [OF assms(1)]
  have "set (due s') = set (due s) - set ks" using claim_due [OF assms] by auto
  then have "card (set (due s')) = card (set (due s)) - card (set ks)"
    using d by (simp add: card_Diff_subset)
  with d distinct_due [OF claim_invar [OF assms]] show ?thesis by (simp add: distinct_card)
qed

lemma rounds_spec:
  "invar s \<Longrightarrow> rounds claim n k s = Inr (ks, s') \<Longrightarrow>
   invar s' \<and> distinct ks \<and> set ks \<subseteq> set (due s) \<and> length ks = min (length (due s)) (k * n) \<and>
   due s' = filter (\<lambda>i. i \<notin> set ks) (due s)"
proof (induction k arbitrary: s ks)
  case (Suc k)
  then obtain k1 s1 k2 where c: "claim n s = Inr (k1, s1)"
    and r: "rounds claim n k s1 = Inr (k2, s')" and ks: "ks = k1 @ k2"
    by auto
  note a = claim_invar [OF Suc.prems(1) c] claim_distinct [OF Suc.prems(1) c]
    claim_length [OF Suc.prems(1) c] claim_due [OF Suc.prems(1) c]
    due_rest_length [OF Suc.prems(1) c]
  note b = Suc.IH [OF a(1) r]
  have "set k2 \<inter> set k1 = {}" using a(4) b by auto
  moreover have "length ks = min (length (due s)) (Suc k * n)" using a(3,5) b by (simp add: ks)
  ultimately show ?case using a b by (auto simp: ks)
qed simp

text \<open>Enough rounds hand out every due key exactly once and leave nothing due.\<close>

lemma rounds_drain:
  assumes "invar s" "rounds claim n k s = Inr (ks, s')" "length (due s) \<le> k * n"
  shows "distinct ks \<and> set ks = set (due s) \<and> due s' = []"
proof -
  note r = rounds_spec [OF assms(1,2)]
  have "card (set ks) = card (set (due s))"
    using r assms(3) distinct_due [OF assms(1)] by (simp add: distinct_card)
  then have "set ks = set (due s)" using r by (simp add: card_subset_eq)
  with r show ?thesis by (auto simp: filter_empty_conv)
qed

end

definition claim_ids ::
  "cron_lib \<Rightarrow> datetime \<Rightarrow> nat \<Rightarrow> sched_table \<Rightarrow> (string list \<times> sched_table) result" where
  "claim_ids lib now n tbl =
     bind_result (claim_due_schedules lib now (int n) tbl)
       (\<lambda>(claimed, tbl'). Inr (map schedule_id claimed, tbl'))"

definition claimable :: "cron_lib \<Rightarrow> datetime \<Rightarrow> sched_table \<Rightarrow> bool" where
  "claimable lib now tbl = (cron_contract lib \<and> in_range now \<and> sched_inv tbl)"

lemma claim_ids_Inr:
  "claim_ids lib now n tbl = Inr (ids, tbl') \<longleftrightarrow>
   (\<exists>cl. claim_due_schedules lib now (int n) tbl = Inr (cl, tbl') \<and> ids = map schedule_id cl)"
  by (auto simp: claim_ids_def)

interpretation schedule_queue: due_queue "claim_ids lib now" "due_ids now" "claimable lib now"
proof
  fix tbl n ids tbl'
  assume inv: "claimable lib now tbl"
  then have i: "cron_contract lib" "in_range now" "sched_inv tbl" by (auto simp: claimable_def)
  show "distinct (due_ids now tbl)"
    using i(3) by (simp add: due_ids_def sched_inv_def unique_key_def distinct_map_filter)
  assume "claim_ids lib now n tbl = Inr (ids, tbl')"
  then obtain cl where c: "claim_due_schedules lib now (int n) tbl = Inr (cl, tbl')"
    and ids: "ids = map schedule_id cl" by (auto simp: claim_ids_Inr)
  from i(1,3) c obtain nxt where cl: "cl = map decode_row (select_due now (int n) tbl)"
    by (rule claim_due_spec) blast
  show "claimable lib now tbl'" using claim_keeps_inv [OF i(1,3) c] i by (simp add: claimable_def)
  show "distinct ids \<and> set ids \<subseteq> set (due_ids now tbl)"
    using select_due_distinct [of tbl now "int n"] select_due_set [of now "int n" tbl] i(3)
    by (auto simp: ids cl sched_inv_def due_ids_def comp_def)
  show "length ids = min (length (due_ids now tbl)) n"
    using claim_count [OF i(1,3) c] by (simp add: ids)
  show "due_ids now tbl' = filter (\<lambda>i. i \<notin> set ids) (due_ids now tbl)"
    using claim_due_ids [OF i(1,3,2) order_refl c] by (simp add: ids)
qed

text \<open>C34: claiming in rounds of \<open>n\<close> at one instant, \<open>k\<close> rounds with \<open>k * n\<close> at least the number of
  due schedules hand out every due schedule exactly once, and nothing is due afterwards.\<close>

theorem claim_rounds_drain:
  assumes "cron_contract lib" "in_range now" "sched_inv tbl"
    and "rounds (claim_ids lib now) n k tbl = Inr (ids, tbl')"
    and "length (due_ids now tbl) \<le> k * n"
  shows "distinct ids \<and> set ids = set (due_ids now tbl) \<and> due_ids now tbl' = []"
  using assms by (intro schedule_queue.rounds_drain [of lib]) (simp_all add: claimable_def)

section \<open>Samples\<close>

definition sample_row :: "string \<Rightarrow> datetime \<Rightarrow> int schedule_row" where
  "sample_row i t =
     \<lparr>schedule_id = i, sched_name = ''n'', sched_kind = ''brief'', sched_trigger_kind = ''interval'',
      sched_trigger_value = ''10s'', sched_timezone = ''UTC'', sched_payload = [], sched_enabled = 1,
      sched_next_run_at = isoformat t, sched_last_run_at = None, sched_last_status = None,
      sched_last_error = None, sched_created_at = isoformat 0, sched_updated_at = isoformat 0\<rparr>"

definition sample_tbl :: sched_table where
  "sample_tbl = [sample_row ''b'' 2000000, sample_row ''a'' 1000000]"

lemma sample_in_range: "0 \<le> t \<Longrightarrow> t \<le> 1000000000 \<Longrightarrow> in_range t"
  by (simp add: in_range_def MAX_DAYS_def DAY_US_def)

lemma sample_inv: "sched_inv sample_tbl"
  by (simp add: sample_tbl_def sample_row_def sched_inv_def unique_key_def row_ok_def
      ALLOWED_KINDS_def ALLOWED_TRIGGER_KINDS_def sample_in_range)

lemma sample_coalesce2:
  "coalesce_next_run sample_cron ''interval'' ''10s'' ''UTC'' 2000000 47000000 = Inr 52000000"
  by (simp add: coalesce_next_run_def sample_interval datetime_add_def sample_in_range)

lemma sample_claim:
  "claim_due_schedules sample_cron 47000000 (int 1) sample_tbl =
     Inr ([decode_row (sample_row ''a'' 1000000)],
          [sample_row ''b'' 2000000, advance 47000000 51000000 (sample_row ''a'' 1000000)])"
  by (simp add: claim_due_schedules_def select_due_def sample_tbl_def sample_row_def due_row_def
      order_asc_def sql_limit_def isoformat_le_iff sample_in_range fromisoformat_isoformat
      sample_coalesce update_where_def)

lemma sample_claim2:
  "claim_due_schedules sample_cron 47000000 5
     [sample_row ''b'' 2000000, advance 47000000 51000000 (sample_row ''a'' 1000000)] =
     Inr ([decode_row (sample_row ''b'' 2000000)],
          [advance 47000000 52000000 (sample_row ''b'' 2000000),
           advance 47000000 51000000 (sample_row ''a'' 1000000)])"
  by (simp add: claim_due_schedules_def select_due_def sample_row_def due_row_def
      order_asc_def sql_limit_def isoformat_le_iff sample_in_range fromisoformat_isoformat
      sample_coalesce2 update_where_def advance_def)

theorem claim_exclusive_witness:
  "schedule_id ` set [decode_row (sample_row ''a'' 1000000)] \<inter>
   schedule_id ` set [decode_row (sample_row ''b'' 2000000)] = {} \<and>
   schedule_id ` set [decode_row (sample_row ''a'' 1000000)] \<subseteq> set (due_ids 47000000 sample_tbl)"
  using claim_exclusive [OF sample_cron_contract sample_inv _ _ _ sample_claim sample_claim2]
  by (simp add: sample_in_range)

theorem claim_frame_witness:
  "\<exists>t>47000000. in_range t \<and> advance 47000000 51000000 (sample_row ''a'' 1000000) =
     (sample_row ''a'' 1000000)\<lparr>sched_next_run_at := isoformat t,
       sched_last_run_at := Some (isoformat 47000000), sched_updated_at := isoformat 47000000\<rparr>"
  using claim_frame [OF sample_cron_contract sample_inv _ sample_claim, of 1]
  by (simp add: sample_tbl_def)

theorem claim_oldest_first_witness:
  "sched_next_run_at (decode_row (sample_row ''a'' 1000000))
     \<le> sched_next_run_at (sample_row ''b'' 2000000)"
proof -
  have r: "sample_row ''b'' 2000000 \<in> set sample_tbl" by (simp add: sample_tbl_def)
  have d: "due_row 47000000 (sample_row ''b'' 2000000)"
    by (simp add: due_row_def sample_row_def isoformat_le_iff sample_in_range)
  show ?thesis
    using claim_oldest_first [OF sample_cron_contract sample_inv sample_claim r d]
    by (simp add: sample_row_def)
qed

theorem claim_rounds_drain_witness:
  "rounds (claim_ids sample_cron 47000000) 1 2 sample_tbl =
     Inr ([''a'', ''b''], [advance 47000000 52000000 (sample_row ''b'' 2000000),
           advance 47000000 51000000 (sample_row ''a'' 1000000)]) \<and>
   set [''a'', ''b''] = set (due_ids 47000000 sample_tbl)"
proof -
  have id: "schedule_id (sample_row i t) = i" for i t by (simp add: sample_row_def)
  have c2: "claim_due_schedules sample_cron 47000000 1
     [sample_row ''b'' 2000000, advance 47000000 51000000 (sample_row ''a'' 1000000)] =
     Inr ([decode_row (sample_row ''b'' 2000000)],
          [advance 47000000 52000000 (sample_row ''b'' 2000000),
           advance 47000000 51000000 (sample_row ''a'' 1000000)])"
    by (simp add: claim_due_schedules_def select_due_def sample_row_def due_row_def
        order_asc_def sql_limit_def isoformat_le_iff sample_in_range fromisoformat_isoformat
        sample_coalesce2 update_where_def advance_def)
  have r: "rounds (claim_ids sample_cron 47000000) 1 2 sample_tbl =
     Inr ([''a'', ''b''], [advance 47000000 52000000 (sample_row ''b'' 2000000),
           advance 47000000 51000000 (sample_row ''a'' 1000000)])"
    using sample_claim c2 by (simp add: numeral_2_eq_2 claim_ids_def id)
  have "length (due_ids 47000000 sample_tbl) \<le> 2 * 1" by (simp add: due_ids_def sample_tbl_def)
  with claim_rounds_drain [OF sample_cron_contract _ sample_inv r] r show ?thesis
    by (simp add: sample_in_range)
qed

section \<open>When a claim raises\<close>

lemma claim_rows_succeeds_iff:
  "(\<exists>x. claim_rows lib now rows tbl = Inr x) \<longleftrightarrow>
   (\<forall>r\<in>set rows. \<exists>p n. fromisoformat (sched_next_run_at r) = Inr p \<and>
      coalesce_next_run lib (sched_trigger_kind r) (sched_trigger_value r) (sched_timezone r) p now
        = Inr n)"
proof (induction rows arbitrary: tbl)
  case (Cons r rows)
  have "(\<exists>x. claim_rows lib now (r # rows) tbl = Inr x) \<longleftrightarrow>
    (\<exists>p n. fromisoformat (sched_next_run_at r) = Inr p \<and> coalesce_next_run lib
        (sched_trigger_kind r) (sched_trigger_value r) (sched_timezone r) p now = Inr n \<and>
      (\<exists>x. claim_rows lib now rows
        (update_where (\<lambda>q. schedule_id q = schedule_id r) (advance now n) tbl) = Inr x))"
    by (auto simp: case_prod_beta)
  then show ?case unfolding Cons.IH by auto
qed simp

text \<open>A batch is all or nothing. \<open>claim_due_schedules\<close> returns exactly when the recurrence of
  every selected row can be computed; one row whose recurrence raises makes the call raise, and
  then the batch is rolled back.\<close>

theorem claim_all_or_nothing:
  assumes "sched_inv tbl"
  shows "(\<exists>x. claim_due_schedules lib now limit tbl = Inr x) \<longleftrightarrow>
         (\<forall>r\<in>set (select_due now limit tbl). \<exists>t n. sched_next_run_at r = isoformat t \<and> in_range t \<and>
            coalesce_next_run lib (sched_trigger_kind r) (sched_trigger_value r)
              (sched_timezone r) t now = Inr n)"
proof -
  have "(\<exists>p n. fromisoformat (sched_next_run_at r) = Inr p \<and> coalesce_next_run lib
          (sched_trigger_kind r) (sched_trigger_value r) (sched_timezone r) p now = Inr n) \<longleftrightarrow>
        (\<exists>t n. sched_next_run_at r = isoformat t \<and> in_range t \<and> coalesce_next_run lib
          (sched_trigger_kind r) (sched_trigger_value r) (sched_timezone r) t now = Inr n)"
    if "r \<in> set (select_due now limit tbl)" for r
  proof -
    have "r \<in> set tbl" using that select_due_set by blast
    then have "iso_ok (sched_next_run_at r)" using assms sched_inv_row row_ok_def by blast
    then obtain t where t: "in_range t" "sched_next_run_at r = isoformat t"
      "fromisoformat (sched_next_run_at r) = Inr t" by (rule iso_okE)
    then show ?thesis by (auto simp: isoformat_eq_iff)
  qed
  then show ?thesis
    unfolding claim_due_schedules_def claim_rows_succeeds_iff by (rule ball_cong [OF refl])
qed

section \<open>Histories\<close>

datatype sched_op =
    OpCreate string datetime schedule_args
  | OpRemove string
  | OpEnable datetime string bool
  | OpClaim datetime int
  | OpRecord datetime string string "string option"

text \<open>The table after an operation; a raise leaves it as it was.\<close>

fun sched_exec :: "cron_lib \<Rightarrow> url_lib \<Rightarrow> sched_op \<Rightarrow> sched_table \<Rightarrow> sched_table" where
  "sched_exec lib ulib (OpCreate uuid now a) tbl =
     (case create_schedule lib ulib uuid now a tbl of Inl _ \<Rightarrow> tbl | Inr (_, tbl') \<Rightarrow> tbl')"
| "sched_exec lib ulib (OpRemove sid) tbl = snd (remove_schedule sid tbl)"
| "sched_exec lib ulib (OpEnable now sid e) tbl = snd (set_schedule_enabled now sid e tbl)"
| "sched_exec lib ulib (OpClaim now limit) tbl =
     (case claim_due_schedules lib now limit tbl of Inl _ \<Rightarrow> tbl | Inr (_, tbl') \<Rightarrow> tbl')"
| "sched_exec lib ulib (OpRecord now sid st err) tbl = record_schedule_result now sid st err tbl"

inductive sched_reachable :: "cron_lib \<Rightarrow> url_lib \<Rightarrow> sched_table \<Rightarrow> bool" for lib ulib where
  initial: "sched_reachable lib ulib []"
| step: "sched_reachable lib ulib tbl \<Longrightarrow> sched_reachable lib ulib (sched_exec lib ulib opn tbl)"

lemma validate_fields_kinds:
  "validate_schedule_fields lib ulib k tk tv tz p = Inr p' \<Longrightarrow>
   k \<in> set ALLOWED_KINDS \<and> tk \<in> set ALLOWED_TRIGGER_KINDS"
  by (simp add: validate_schedule_fields_def split: if_splits)

lemma create_keeps_inv:
  assumes "cron_contract lib" "sched_inv tbl"
    and "create_schedule lib ulib uuid now a tbl = Inr (sid, tbl')"
  shows "sched_inv tbl'"
proof -
  from assms(3) obtain p n where
    v: "validate_schedule_fields lib ulib (arg_kind a) (arg_trigger_kind a) (arg_trigger_value a)
          (arg_timezone a) (case arg_payload a of None \<Rightarrow> [] | Some p \<Rightarrow> p) = Inr p"
    and n: "next_run_at lib (arg_trigger_kind a) (arg_trigger_value a) (arg_timezone a) now = Inr n"
    and fresh: "lookup schedule_id uuid tbl = None"
    by (auto simp: create_schedule_def split: if_splits)
  have "in_range n" using next_run_after [OF assms(1) n] by simp
  with assms(2,3) v n fresh validate_fields_kinds [OF v] show ?thesis
    by (auto simp: create_schedule_def sched_inv_def row_ok_def int_of_bool_def
        intro!: unique_key_insert)
qed

lemma update_keeps_inv:
  assumes "sched_inv tbl" "\<And>r. schedule_id (f r) = schedule_id r" "\<And>r. row_ok r \<Longrightarrow> row_ok (f r)"
  shows "sched_inv (update_where p f tbl)"
proof -
  have "list_all row_ok (update_where p f tbl)"
    using assms(1,3) by (auto simp: sched_inv_def update_where_def list_all_iff)
  with assms(1,2) show ?thesis by (simp add: sched_inv_def unique_key_update_where)
qed

lemma sched_exec_inv:
  assumes "cron_contract lib" "sched_inv tbl"
  shows "sched_inv (sched_exec lib ulib opn tbl)"
proof (cases opn)
  case (OpCreate u now a)
  with create_keeps_inv [OF assms] assms(2) show ?thesis by (auto split: sum.splits)
next
  case (OpRemove sid)
  have "list_all row_ok (delete_where (\<lambda>r. schedule_id r = sid) tbl)"
    using assms(2) by (auto simp: sched_inv_def delete_where_def list_all_iff)
  with OpRemove assms(2) show ?thesis
    by (simp add: remove_schedule_def sched_inv_def unique_key_delete_where)
next
  case (OpEnable now sid e)
  with assms(2) show ?thesis
    by (auto simp: set_schedule_enabled_def row_ok_def int_of_bool_def intro!: update_keeps_inv)
next
  case (OpClaim now limit)
  with claim_keeps_inv [OF assms] assms(2) show ?thesis by (auto split: sum.splits)
next
  case (OpRecord now sid st err)
  with assms(2) show ?thesis
    by (auto simp: record_schedule_result_def row_ok_def intro!: update_keeps_inv)
qed

text \<open>After any history of creations, removals, toggles, claims and result records, failed ones
  included, the schedule ids are unique, every row has an allowed kind and trigger kind and a
  boolean \<open>enabled\<close> column, and its \<open>next_run_at\<close> is the ISO text of an instant in Python's range,
  the form on which comparing texts compares times.\<close>

theorem schedules_invariant:
  assumes "cron_contract lib" "sched_reachable lib ulib tbl"
  shows "sched_inv tbl"
  using assms(2)
proof (induction rule: sched_reachable.induct)
  case initial
  show ?case by (simp add: sched_inv_def)
next
  case (step tbl opn)
  with assms(1) show ?case by (simp add: sched_exec_inv)
qed

text \<open>What is created can be read back. A creation that returns adds one schedule under its
  id, with the fields as given, the payload as validated, and a first fire time strictly after now;
  every other id reads as before.\<close>

theorem create_then_get:
  assumes "cron_contract lib" "create_schedule lib ulib uuid now a tbl = Inr (sid, tbl')"
  shows "\<exists>s t p. get_schedule sid tbl' = Some s \<and> sid = uuid \<and> get_schedule sid tbl = None \<and>
           sched_next_run_at s = isoformat t \<and> now < t \<and> in_range t \<and>
           sched_enabled s = arg_enabled a \<and> sched_kind s = arg_kind a \<and>
           sched_name s = arg_name a \<and> sched_payload s = p \<and>
           validate_schedule_fields lib ulib (arg_kind a) (arg_trigger_kind a) (arg_trigger_value a)
             (arg_timezone a) (case arg_payload a of None \<Rightarrow> [] | Some p \<Rightarrow> p) = Inr p \<and>
           (\<forall>other. other \<noteq> sid \<longrightarrow> get_schedule other tbl' = get_schedule other tbl)"
proof -
  from assms(2) obtain p n where
    v: "validate_schedule_fields lib ulib (arg_kind a) (arg_trigger_kind a) (arg_trigger_value a)
          (arg_timezone a) (case arg_payload a of None \<Rightarrow> [] | Some p \<Rightarrow> p) = Inr p"
    and n: "next_run_at lib (arg_trigger_kind a) (arg_trigger_value a) (arg_timezone a) now = Inr n"
    and fresh: "lookup schedule_id uuid tbl = None" and sid: "sid = uuid"
    by (auto simp: create_schedule_def split: if_splits)
  have t: "now < n" "in_range n" using next_run_after [OF assms(1) n] by simp_all
  from assms(2) v n fresh obtain r where tbl': "tbl' = tbl @ [r]" and
    r: "schedule_id r = uuid" "sched_next_run_at r = isoformat n" "sched_kind r = arg_kind a"
      "sched_enabled r = int_of_bool (arg_enabled a)" "sched_name r = arg_name a"
      "sched_payload r = p"
    by (auto simp: create_schedule_def)
  have get: "get_schedule i tbl' = (if i = uuid then Some (decode_row r) else get_schedule i tbl)"
    for i using fresh r(1) by (auto simp: tbl' get_schedule_def table_simps split: option.splits)
  define s where "s = decode_row r"
  have s: "sched_next_run_at s = isoformat n \<and> sched_enabled s = arg_enabled a \<and>
      sched_kind s = arg_kind a \<and> sched_name s = arg_name a \<and> sched_payload s = p"
    using r by (simp add: s_def decode_row_def int_of_bool_def)
  with s t v sid fresh get show ?thesis
    by (intro exI [of _ s] exI [of _ n] exI [of _ p]) (simp add: get_schedule_def s_def)
qed

definition sample_url_lib :: url_lib where
  "sample_url_lib = \<lparr>bracketed_ok = (\<lambda>_. False)\<rparr>"

definition sample_args :: schedule_args where
  "sample_args = \<lparr>arg_name = ''n'', arg_kind = ''brief'', arg_trigger_kind = ''interval'',
     arg_trigger_value = ''10s'', arg_timezone = ''UTC'', arg_payload = None, arg_enabled = True\<rparr>"

lemma sample_create:
  "create_schedule sample_cron sample_url_lib ''a'' 0 sample_args [] =
     Inr (''a'', [sample_row ''a'' 10000000])"
  by (simp add: create_schedule_def sample_args_def validate_schedule_fields_def ALLOWED_KINDS_def
      ALLOWED_TRIGGER_KINDS_def validate_trigger_def sample_interval unknown_keys_def next_run_at_def
      datetime_add_def sample_in_range sample_row_def int_of_bool_def)

theorem create_then_get_witness:
  "\<exists>s t. get_schedule ''a'' [sample_row ''a'' 10000000] = Some s \<and>
     sched_next_run_at s = isoformat t \<and> 0 < t"
  using create_then_get [OF sample_cron_contract sample_create] by blast

lemma sample_reachable: "sched_reachable sample_cron sample_url_lib [sample_row ''a'' 10000000]"
  using sched_reachable.step [OF sched_reachable.initial,
      of sample_cron sample_url_lib "OpCreate ''a'' 0 sample_args"]
  by (simp add: sample_create)

theorem schedules_invariant_witness: "sched_inv [sample_row ''a'' 10000000]"
  by (rule schedules_invariant [OF sample_cron_contract sample_reachable])

theorem claim_all_or_nothing_witness:
  "\<exists>t n. sched_next_run_at (sample_row ''a'' 1000000) = isoformat t \<and> in_range t \<and>
     coalesce_next_run sample_cron ''interval'' ''10s'' ''UTC'' t 47000000 = Inr n"
proof -
  let ?r = "sample_row ''a'' 1000000"
  have "?r \<in> set (select_due 47000000 (int 1) sample_tbl)"
    by (simp add: select_due_def sample_tbl_def sample_row_def due_row_def order_asc_def
        sql_limit_def isoformat_le_iff sample_in_range)
  with claim_all_or_nothing [OF sample_inv, of sample_cron 47000000 "int 1"] sample_claim
  have "\<exists>t n. sched_next_run_at ?r = isoformat t \<and> in_range t \<and>
     coalesce_next_run sample_cron (sched_trigger_kind ?r) (sched_trigger_value ?r)
       (sched_timezone ?r) t 47000000 = Inr n" by blast
  then show ?thesis by (simp add: sample_row_def)
qed

section \<open>Callback URLs\<close>

lemma guarded_Inr:
  "(case x of Inl _ \<Rightarrow> Inl e | Inr y \<Rightarrow> if bad y then Inl e else Inr w) = Inr u \<longleftrightarrow>
   (\<exists>y. x = Inr y \<and> \<not> bad y \<and> u = w)"
  by (auto split: sum.splits)

lemma callback_url_accepted:
  assumes "validate_app_callback_url ulib v = Inr u"
  shows "\<exists>s sp. v = PStr s \<and> u = strip s \<and> list_all (\<lambda>c. \<not> py_isspace c) u \<and>
           urlsplit ulib u = Inr sp \<and> py_lower (url_scheme sp) \<in> {''http'', ''https''} \<and>
           fst (hostinfo (url_netloc sp)) \<noteq> [] \<and> (\<exists>p. url_port sp = Inr p) \<and>
           validate_app_callback_url ulib (PStr u) = Inr u"
proof -
  from assms obtain s where s: "v = PStr s" by (cases v) (simp_all add: validate_app_callback_url_def)
  let ?w = "strip s"
  have eq: "validate_app_callback_url ulib (PStr s) = validate_app_callback_url ulib (PStr ?w)"
    by (simp add: validate_app_callback_url_def)
  let ?x = "bind_result (urlsplit ulib ?w) (\<lambda>u. bind_result (url_port u) (\<lambda>_. Inr u))"
  let ?bad = "\<lambda>sp. py_lower (url_scheme sp) \<notin> {''http'', ''https''} \<or>
        fst (hostinfo (url_netloc sp)) = [] \<or> list_ex py_isspace ?w"
  have val: "validate_app_callback_url ulib v =
      (case ?x of Inl _ \<Rightarrow> Inl url_error | Inr sp \<Rightarrow> if ?bad sp then Inl url_error else Inr ?w)"
    unfolding s validate_app_callback_url_def Let_def pyval.case ..
  from assms obtain sp where sp: "?x = Inr sp" "\<not> ?bad sp" "u = ?w"
    unfolding val guarded_Inr by blast
  have "list_all (\<lambda>c. \<not> py_isspace c) u" using sp(2,3) by (simp add: list_ex_iff list_all_iff)
  moreover have "validate_app_callback_url ulib (PStr u) = Inr u" using assms s eq sp(3) by simp
  ultimately show ?thesis using s sp by auto
qed

text \<open>A callback URL that is accepted is returned stripped and holds no white space. Read by
  \<open>urlsplit\<close>, its scheme is \<open>http\<close> or \<open>https\<close> and it names a host, and accepting it again returns
  it unchanged.\<close>

theorem callback_url_sound:
  assumes "validate_app_callback_url ulib v = Inr u"
  shows "\<exists>s sp. v = PStr s \<and> u = strip s \<and> list_all (\<lambda>c. \<not> py_isspace c) u \<and>
           urlsplit ulib u = Inr sp \<and> py_lower (url_scheme sp) \<in> {''http'', ''https''} \<and>
           fst (hostinfo (url_netloc sp)) \<noteq> [] \<and> (\<exists>p. url_port sp = Inr p) \<and>
           validate_app_callback_url ulib (PStr u) = Inr u"
  using assms by (rule callback_url_accepted)

theorem callback_url_sound_witness:
  "validate_app_callback_url sample_url_lib (PStr ''https://example.org:8443/hook'') =
     Inr ''https://example.org:8443/hook''"
proof -
  have "validate_app_callback_url sample_url_lib (PStr '' https://example.org:8443/hook '') =
     Inr ''https://example.org:8443/hook''"
    by code_simp
  from callback_url_sound [OF this] show ?thesis by blast
qed

text \<open>The error message promises that an accepted URL starts with \<open>http://\<close> or \<open>https://\<close>, but
  \<open>urlsplit\<close> drops leading control characters that \<open>strip\<close> keeps: this URL is accepted and stored
  as it is.\<close>

theorem callback_url_control_prefix:
  "validate_app_callback_url sample_url_lib (PStr (CHR 0x01 # ''http://h'')) =
     Inr (CHR 0x01 # ''http://h'') \<and> \<not> startswith (CHR 0x01 # ''http://h'') ''http://''"
  by code_simp

end
