(* ===== verification/Principal.thy ===== *)
theory Principal
  imports Db_Paths
begin

text \<open>
  \<open>agent_os/principal.py\<close>: who acts.

  \<^item> \<open>principal\<close> is the dataclass, \<open>mk_principal\<close> its construction with the checks of
    \<open>__post_init__\<close>.
  \<^item> \<open>request_context\<close> is what \<open>LocalPrincipalResolver.resolve\<close> may be handed; of an object only the
    attributes the resolver reads are there, each of them possibly missing.
  \<^item> The operating system user (\<open>getpass.getuser\<close>, absent when it raises) and the loopback test
    of \<open>ipaddress\<close> (false for what is no address) are the record \<open>host_lib\<close>.
\<close>

record principal =
  principal_id :: string
  principal_kind :: string
  principal_display :: string
  principal_on_behalf_of :: "string option"

definition mk_principal ::
  "string \<Rightarrow> string \<Rightarrow> string \<Rightarrow> string option \<Rightarrow> principal result" where
  "mk_principal i k d on_behalf =
     (if strip i = [] then Inl (ValueError ''Principal.id must be a non-empty string'')
      else if strip k = [] then Inl (ValueError ''Principal.kind must be a non-empty string'')
      else if strip d = [] then Inl (ValueError ''Principal.display must be a non-empty string'')
      else Inr \<lparr>principal_id = i, principal_kind = k, principal_display = d,
                principal_on_behalf_of = on_behalf\<rparr>)"

record host_lib =
  getuser :: "string option"
  host_env :: environ
  ip_is_loopback :: "string \<Rightarrow> bool"

definition get_local_os_user :: "host_lib \<Rightarrow> string" where
  "get_local_os_user h =
     (let user = (case getuser h of None \<Rightarrow> [] | Some u \<Rightarrow> strip u)
      in if user \<noteq> [] then user
         else (let a = strip (getenv_or (host_env h) ''USER'' []);
                   b = strip (getenv_or (host_env h) ''USERNAME'' [])
               in if a \<noteq> [] then a else if b \<noteq> [] then b else ''operator''))"

fun is_loopback_client :: "host_lib \<Rightarrow> pyval \<Rightarrow> bool" where
  "is_loopback_client h (PStr host) =
     (let normalized = py_lower (strip host)
      in if normalized \<in> {''localhost'', ''testclient''} then True else ip_is_loopback h normalized)"
| "is_loopback_client h _ = False"

text \<open>Attributes: \<open>None\<close> on the outside is a missing attribute.\<close>

record http_state =
  state_authenticated_with_token :: "pyval option"
  state_is_loopback :: "pyval option"

record context_object =
  obj_schedule_id :: "pyval option"
  obj_state :: "http_state option option"
  obj_client :: "pyval option option"

datatype request_context =
    CtxNone
  | CtxPrincipal principal
  | CtxDict pydict
  | CtxStr string
  | CtxObject context_object

definition schedule_principal :: "string \<Rightarrow> principal result" where
  "schedule_principal sched_id =
     mk_principal (''schedule:'' @ sched_id) ''schedule'' (''Schedule ('' @ sched_id @ '')'') None"

definition local_principal :: "host_lib \<Rightarrow> principal result" where
  "local_principal h =
     (let user = get_local_os_user h
      in mk_principal (''local:'' @ user) ''human'' (''Local User ('' @ user @ '')'') None)"

definition resolve_http :: "host_lib \<Rightarrow> context_object \<Rightarrow> principal result" where
  "resolve_http h ob =
     (let st = (case obj_state ob of Some (Some s) \<Rightarrow> Some s | _ \<Rightarrow> None);
          token = (case st of
                     None \<Rightarrow> False
                   | Some s \<Rightarrow> (case state_authenticated_with_token s of None \<Rightarrow> False | Some v \<Rightarrow> truthy v));
          given = (case st of
                     None \<Rightarrow> None
                   | Some s \<Rightarrow> (case state_is_loopback s of
                                  None \<Rightarrow> None | Some PNone \<Rightarrow> None | Some v \<Rightarrow> Some v));
          loopback = (case given of
                        Some v \<Rightarrow> truthy v
                      | None \<Rightarrow> (case obj_client ob of
                                   Some (Some host) \<Rightarrow> if truthy host then is_loopback_client h host else False
                                 | _ \<Rightarrow> False))
      in if \<not> token \<and> loopback then local_principal h
         else mk_principal ''token:execution'' ''service'' ''Execution Token'' None)"

definition resolve_principal :: "host_lib \<Rightarrow> request_context \<Rightarrow> principal result" where
  "resolve_principal h ctx =
     (case ctx of
        CtxPrincipal p \<Rightarrow> Inr p
      | CtxDict d \<Rightarrow>
          (case dict_get d ''schedule_id'' of
             Some v \<Rightarrow> schedule_principal (strip (py_str v))
           | None \<Rightarrow> local_principal h)
      | CtxStr s \<Rightarrow>
          if startswith s ''schedule:'' then schedule_principal (strip (drop 9 s))
          else local_principal h
      | CtxObject ob \<Rightarrow>
          if (case obj_schedule_id ob of None \<Rightarrow> False | Some v \<Rightarrow> truthy v)
          then schedule_principal (strip (py_str (the (obj_schedule_id ob))))
          else if obj_state ob \<noteq> None \<or> obj_client ob \<noteq> None then resolve_http h ob
          else local_principal h
      | CtxNone \<Rightarrow> local_principal h)"

definition valid_principal :: "principal \<Rightarrow> bool" where
  "valid_principal p =
     (strip (principal_id p) \<noteq> [] \<and> strip (principal_kind p) \<noteq> [] \<and> strip (principal_display p) \<noteq> [])"

lemma strip_eq_Nil: "strip s = [] \<longleftrightarrow> list_all py_isspace s"
proof (cases "dropWhile py_isspace s = []")
  case True
  then have "strip s = []" unfolding strip_def True by simp
  moreover have "list_all py_isspace s" using True by (simp add: dropWhile_eq_Nil_conv list_all_iff)
  ultimately show ?thesis by simp
next
  case False
  then have "\<not> py_isspace (hd (dropWhile py_isspace s))" by (rule hd_dropWhile)
  with False have "hd (dropWhile py_isspace s) \<in> set s" "strip s \<noteq> []"
    using set_dropWhileD [of _ py_isspace s] rev_dropWhile_hd [of "dropWhile py_isspace s" py_isspace]
    by (auto simp: strip_def)
  with \<open>\<not> py_isspace (hd (dropWhile py_isspace s))\<close> show ?thesis by (auto simp: list_all_iff)
qed

lemma strip_not_Nil: "c \<in> set s \<Longrightarrow> \<not> py_isspace c \<Longrightarrow> strip s \<noteq> []"
  by (auto simp: strip_eq_Nil list_all_iff)

lemma mk_principal_ok:
  assumes "hd i \<in> set i" "\<not> py_isspace (hd i)" "hd k \<in> set k" "\<not> py_isspace (hd k)"
    and "hd d \<in> set d" "\<not> py_isspace (hd d)"
  shows "mk_principal i k d b = Inr \<lparr>principal_id = i, principal_kind = k, principal_display = d,
           principal_on_behalf_of = b\<rparr>"
  using assms strip_not_Nil [of "hd i" i] strip_not_Nil [of "hd k" k] strip_not_Nil [of "hd d" d]
  by (simp add: mk_principal_def)

lemma mk_principal_valid: "mk_principal i k d b = Inr p \<Longrightarrow> valid_principal p"
  by (auto simp: mk_principal_def valid_principal_def split: if_splits)

lemma schedule_principal_eq:
  "schedule_principal sid = Inr \<lparr>principal_id = ''schedule:'' @ sid, principal_kind = ''schedule'',
     principal_display = ''Schedule ('' @ sid @ '')'', principal_on_behalf_of = None\<rparr>"
  unfolding schedule_principal_def by (rule mk_principal_ok) (simp_all add: py_isspace_def)

lemma local_principal_eq:
  "local_principal h = Inr \<lparr>principal_id = ''local:'' @ get_local_os_user h, principal_kind = ''human'',
     principal_display = ''Local User ('' @ get_local_os_user h @ '')'', principal_on_behalf_of = None\<rparr>"
  unfolding local_principal_def Let_def by (rule mk_principal_ok) (simp_all add: py_isspace_def)

lemma token_principal_eq:
  "mk_principal ''token:execution'' ''service'' ''Execution Token'' None =
     Inr \<lparr>principal_id = ''token:execution'', principal_kind = ''service'',
          principal_display = ''Execution Token'', principal_on_behalf_of = None\<rparr>"
  by (rule mk_principal_ok) (simp_all add: py_isspace_def)

text \<open>Whoever calls, a principal is found. For every context, whatever the schedule id, the
  request attributes or the operating system user are, the resolver returns a principal, and it is
  well-formed when the one handed in was.\<close>

theorem resolver_total:
  assumes "\<forall>q. ctx = CtxPrincipal q \<longrightarrow> valid_principal q"
  shows "\<exists>p. resolve_principal h ctx = Inr p \<and> valid_principal p"
proof -
  have s: "\<exists>p. schedule_principal sid = Inr p \<and> valid_principal p" for sid
    using mk_principal_valid unfolding schedule_principal_def
    by (metis schedule_principal_def schedule_principal_eq)
  have l: "\<exists>p. local_principal h = Inr p \<and> valid_principal p"
    using mk_principal_valid local_principal_eq unfolding local_principal_def Let_def by metis
  have t: "\<exists>p. mk_principal ''token:execution'' ''service'' ''Execution Token'' None = Inr p \<and>
      valid_principal p" using token_principal_eq mk_principal_valid by metis
  have http: "\<exists>p. resolve_http h ob = Inr p \<and> valid_principal p" for ob
    unfolding resolve_http_def Let_def using l t by presburger
  show ?thesis
    using assms s l http
    by (cases ctx) (auto simp: resolve_principal_def split: option.splits)
qed

theorem resolver_total_witness:
  "\<exists>p. resolve_principal \<lparr>getuser = None, host_env = (\<lambda>_. None), ip_is_loopback = (\<lambda>_. False)\<rparr>
     (CtxStr ''schedule:  '') = Inr p \<and> valid_principal p"
  using resolver_total [of "CtxStr ''schedule:  ''"
      "\<lparr>getuser = None, host_env = (\<lambda>_. None), ip_is_loopback = (\<lambda>_. False)\<rparr>"] by simp

text \<open>Whether the resolver takes a request for a local one.\<close>

definition http_token :: "context_object \<Rightarrow> bool" where
  "http_token ob =
     (case obj_state ob of
        Some (Some s) \<Rightarrow> (case state_authenticated_with_token s of None \<Rightarrow> False | Some v \<Rightarrow> truthy v)
      | _ \<Rightarrow> False)"

definition http_loopback :: "host_lib \<Rightarrow> context_object \<Rightarrow> bool" where
  "http_loopback h ob =
     (case (case obj_state ob of
              Some (Some s) \<Rightarrow> (case state_is_loopback s of Some PNone \<Rightarrow> None | v \<Rightarrow> v) | _ \<Rightarrow> None) of
        Some v \<Rightarrow> truthy v
      | None \<Rightarrow> (case obj_client ob of
                   Some (Some host) \<Rightarrow> truthy host \<and> is_loopback_client h host
                 | _ \<Rightarrow> False))"

text \<open>A network caller is never taken for the local operator. A request (an object with a
  \<open>state\<close> or \<open>client\<close> and no schedule id) resolves to a human exactly when it carried no execution
  token and came from the loopback interface; every other request is the token service.\<close>

theorem http_principal_kind:
  assumes "obj_schedule_id ob = None" "obj_state ob \<noteq> None \<or> obj_client ob \<noteq> None"
    and "resolve_principal h (CtxObject ob) = Inr p"
  shows "if \<not> http_token ob \<and> http_loopback h ob
         then principal_kind p = ''human'' \<and> principal_id p = ''local:'' @ get_local_os_user h
         else principal_kind p = ''service'' \<and> principal_id p = ''token:execution''"
proof -
  have "resolve_http h ob = (if \<not> http_token ob \<and> http_loopback h ob then local_principal h
      else mk_principal ''token:execution'' ''service'' ''Execution Token'' None)"
    unfolding resolve_http_def Let_def http_token_def http_loopback_def
    by (auto split: option.splits pyval.splits)
  moreover have "resolve_principal h (CtxObject ob) = resolve_http h ob"
    using assms(1,2) by (simp add: resolve_principal_def)
  ultimately show ?thesis
    using assms(3) by (auto simp: local_principal_eq token_principal_eq split: if_splits)
qed

definition remote_object :: context_object where
  "remote_object = \<lparr>obj_schedule_id = None, obj_state = None,
     obj_client = Some (Some (PStr ''10.0.0.7''))\<rparr>"

definition sample_host :: host_lib where
  "sample_host = \<lparr>getuser = Some ''ann'', host_env = (\<lambda>_. None), ip_is_loopback = (\<lambda>a. a = ''127.0.0.1'')\<rparr>"

theorem http_principal_kind_witness:
  "\<exists>p. resolve_principal sample_host (CtxObject remote_object) = Inr p \<and> principal_kind p = ''service''"
proof -
  obtain p where p: "resolve_principal sample_host (CtxObject remote_object) = Inr p"
    by (simp add: resolve_principal_def remote_object_def resolve_http_def sample_host_def strip_def
        py_isspace_def py_lower_def lower_char_def token_principal_eq)
  have "\<not> http_loopback sample_host remote_object"
    by (simp add: http_loopback_def remote_object_def sample_host_def strip_def py_isspace_def
        py_lower_def lower_char_def)
  with http_principal_kind [OF _ _ p] p show ?thesis by (simp add: remote_object_def)
qed

end
