(* ===== verification/Runs.thy ===== *)
theory Runs
  imports Schedules Principal
begin

text \<open>
  \<open>agent_os/runs.py\<close> and \<open>agent_os/stores/sqlite_runs.py\<close>: the run ledger.

  \<^item> \<open>ledger\<close> holds the tables \<open>runs\<close>, \<open>run_events\<close> and \<open>run_approvals\<close>; one definition per
    function, with the clock reading and the fresh uuid as arguments. \<open>SqliteRunStore\<close> forwards
    to these functions and needs no definitions of its own.
  \<^item> A function of the module is one transaction, so concurrent callers interleave whole
    operations: a history is a list of \<open>ledger_op\<close> run by \<open>ledger_exec\<close>.
  \<^item> The locale \<open>compare_and_set\<close> is the contract the approval endpoints rely on; its client lemma
    says that one of several competing callers wins. It is interpreted on \<open>transition_status\<close> and
    on \<open>record_approval_and_transition\<close>.
\<close>

section \<open>The ledger\<close>

record run_row =
  run_id :: string
  thread_id :: string
  run_workspace :: "string option"
  run_workspace_id :: "string option"
  run_status :: string
  run_task :: "string option"
  run_created_by :: "string option"
  run_created_by_kind :: "string option"
  run_created_at :: string
  run_updated_at :: string
  run_ended_at :: "string option"
  run_error :: "string option"

record event_row =
  event_run_id :: string
  event_seq :: int
  event_ts :: string
  event_kind :: string
  event_payload :: pydict

record approval_row =
  approval_run_id :: string
  approval_seq :: int
  approval_decision :: string
  approval_actor_id :: string
  approval_actor_kind :: string
  approval_on_behalf_of :: "string option"
  approval_reason :: "string option"
  approval_decided_at :: string

record ledger =
  runs_table :: "run_row list"
  run_events :: "event_row list"
  run_approvals :: "approval_row list"

definition TERMINAL_RUN_STATUSES :: "string list" where
  "TERMINAL_RUN_STATUSES = [''completed'', ''error'', ''cancelled'']"

text \<open>\<open>SELECT COALESCE(MAX(seq), 0) + 1 ... WHERE run_id = ?\<close>\<close>

definition next_seq :: "('r \<Rightarrow> string) \<Rightarrow> ('r \<Rightarrow> int) \<Rightarrow> string \<Rightarrow> 'r list \<Rightarrow> int" where
  "next_seq key seq rid rows =
     (case filter (\<lambda>r. key r = rid) rows of
        [] \<Rightarrow> 0
      | r # rs \<Rightarrow> fold max (map seq rs) (seq r)) + 1"

record run_args =
  run_arg_workspace :: "string option"
  run_arg_task :: "string option"
  run_arg_workspace_id :: "string option"
  run_arg_created_by :: "string option"
  run_arg_created_by_kind :: "string option"
  run_arg_principal :: "principal option"

definition create_run ::
  "string \<Rightarrow> datetime \<Rightarrow> string \<Rightarrow> run_args \<Rightarrow> ledger \<Rightarrow> (string \<times> ledger) result" where
  "create_run uuid now thread a l =
     (let created_by = (case run_arg_principal a of
                          None \<Rightarrow> run_arg_created_by a | Some p \<Rightarrow> Some (principal_id p));
          created_by_kind = (case run_arg_principal a of
                          None \<Rightarrow> run_arg_created_by_kind a | Some p \<Rightarrow> Some (principal_kind p));
          eff_workspace_id = (if run_arg_workspace_id a \<noteq> None then run_arg_workspace_id a
                              else run_arg_workspace a);
          eff_workspace = (if run_arg_workspace a \<noteq> None then run_arg_workspace a
                           else run_arg_workspace_id a)
      in if lookup run_id uuid (runs_table l) \<noteq> None
         then Inl (OtherError ''UNIQUE constraint failed: runs.run_id'')
         else Inr (uuid, l\<lparr>runs_table := runs_table l @
           [\<lparr>run_id = uuid, thread_id = thread, run_workspace = eff_workspace,
             run_workspace_id = eff_workspace_id, run_status = ''queued'', run_task = run_arg_task a,
             run_created_by = created_by, run_created_by_kind = created_by_kind,
             run_created_at = isoformat now, run_updated_at = isoformat now,
             run_ended_at = None, run_error = None\<rparr>]\<rparr>))"

definition append_event ::
  "datetime \<Rightarrow> string \<Rightarrow> string \<Rightarrow> pydict \<Rightarrow> ledger \<Rightarrow> int \<times> ledger" where
  "append_event now rid kind payload l =
     (let seq = next_seq event_run_id event_seq rid (run_events l)
      in (seq, l\<lparr>run_events := run_events l @
            [\<lparr>event_run_id = rid, event_seq = seq, event_ts = isoformat now, event_kind = kind,
              event_payload = payload\<rparr>]\<rparr>))"

text \<open>The two forms of the \<open>UPDATE\<close>: \<open>ended_at\<close> is written only when the run ends.\<close>

definition put_status ::
  "datetime \<Rightarrow> string \<Rightarrow> string option \<Rightarrow> bool \<Rightarrow> run_row \<Rightarrow> run_row" where
  "put_status now status error ended r =
     (if ended
      then r\<lparr>run_status := status, run_updated_at := isoformat now,
             run_ended_at := Some (isoformat now), run_error := error\<rparr>
      else r\<lparr>run_status := status, run_updated_at := isoformat now, run_error := error\<rparr>)"

definition set_status ::
  "datetime \<Rightarrow> string \<Rightarrow> string \<Rightarrow> string option \<Rightarrow> bool \<Rightarrow> ledger \<Rightarrow> ledger" where
  "set_status now rid status error ended l =
     l\<lparr>runs_table := update_where (\<lambda>r. run_id r = rid) (put_status now status error ended) (runs_table l)\<rparr>"

definition transition_status ::
  "datetime \<Rightarrow> string \<Rightarrow> string \<Rightarrow> string \<Rightarrow> string option \<Rightarrow> bool \<Rightarrow> ledger \<Rightarrow> bool \<times> ledger" where
  "transition_status now rid expected status error ended l =
     (rowcount (\<lambda>r. run_id r = rid \<and> run_status r = expected) (runs_table l) = 1,
      l\<lparr>runs_table := update_where (\<lambda>r. run_id r = rid \<and> run_status r = expected)
          (put_status now status error ended) (runs_table l)\<rparr>)"

record approval_args =
  arg_decision :: string
  arg_actor_id :: string
  arg_actor_kind :: string
  arg_on_behalf_of :: "string option"
  arg_reason :: "string option"

definition insert_approval ::
  "datetime \<Rightarrow> string \<Rightarrow> approval_args \<Rightarrow> ledger \<Rightarrow> int \<times> ledger" where
  "insert_approval now rid a l =
     (let seq = next_seq approval_run_id approval_seq rid (run_approvals l)
      in (seq, l\<lparr>run_approvals := run_approvals l @
            [\<lparr>approval_run_id = rid, approval_seq = seq, approval_decision = arg_decision a,
              approval_actor_id = arg_actor_id a, approval_actor_kind = arg_actor_kind a,
              approval_on_behalf_of = arg_on_behalf_of a, approval_reason = arg_reason a,
              approval_decided_at = isoformat now\<rparr>]\<rparr>))"

definition record_approval ::
  "datetime \<Rightarrow> string \<Rightarrow> approval_args \<Rightarrow> ledger \<Rightarrow> (int \<times> ledger) result" where
  "record_approval now rid a l =
     (if lookup run_id rid (runs_table l) = None then Inl (KeyError ''Run not found'')
      else Inr (insert_approval now rid a l))"

definition record_approval_and_transition ::
  "datetime \<Rightarrow> string \<Rightarrow> approval_args \<Rightarrow> string \<Rightarrow> string \<Rightarrow> string option \<Rightarrow> bool \<Rightarrow> ledger
     \<Rightarrow> bool \<times> ledger" where
  "record_approval_and_transition now rid a expected status error ended l =
     (case lookup run_id rid (runs_table l) of
        None \<Rightarrow> (False, l)
      | Some row \<Rightarrow>
          if run_status row \<noteq> expected then (False, l)
          else (True, snd (transition_status now rid expected status error ended
                             (snd (insert_approval now rid a l)))))"

definition cancel_row :: "datetime \<Rightarrow> run_row \<Rightarrow> run_row" where
  "cancel_row now r =
     r\<lparr>run_status := ''cancelled'', run_updated_at := isoformat now,
       run_ended_at := Some (isoformat now)\<rparr>"

definition record_cancellation_and_transition ::
  "datetime \<Rightarrow> string \<Rightarrow> approval_args \<Rightarrow> ledger \<Rightarrow> bool \<times> ledger" where
  "record_cancellation_and_transition now rid a l =
     (case lookup run_id rid (runs_table l) of
        None \<Rightarrow> (False, l)
      | Some row \<Rightarrow>
          (let current_status = run_status row
           in if current_status \<in> set TERMINAL_RUN_STATUSES then (False, l)
              else
                (let l1 = snd (insert_approval now rid (a\<lparr>arg_decision := ''cancelled''\<rparr>) l)
                 in if rowcount (\<lambda>r. run_id r = rid \<and> run_status r = current_status) (runs_table l1) \<noteq> 1
                    then (False, l)
                    else (True, l1\<lparr>runs_table :=
                      update_where (\<lambda>r. run_id r = rid \<and> run_status r = current_status)
                        (cancel_row now) (runs_table l1)\<rparr>))))"

definition list_approvals :: "string \<Rightarrow> ledger \<Rightarrow> approval_row list" where
  "list_approvals rid l =
     order_asc approval_seq (filter (\<lambda>r. approval_run_id r = rid) (run_approvals l))"

definition get_run :: "string \<Rightarrow> ledger \<Rightarrow> run_row option" where
  "get_run rid l = lookup run_id rid (runs_table l)"

definition list_runs ::
  "string option \<Rightarrow> string option \<Rightarrow> string option \<Rightarrow> int \<Rightarrow> ledger \<Rightarrow> run_row list" where
  "list_runs status workspace workspace_id limit l =
     (let target = (if workspace_id \<noteq> None then workspace_id else workspace)
      in sql_limit limit (order_desc run_created_at
           (filter (\<lambda>r. (case status of None \<Rightarrow> True | Some s \<Rightarrow> run_status r = s) \<and>
                        (case target of None \<Rightarrow> True
                         | Some w \<Rightarrow> run_workspace r = Some w \<or> run_workspace_id r = Some w))
             (runs_table l))))"

definition list_events :: "string \<Rightarrow> int \<Rightarrow> ledger \<Rightarrow> event_row list" where
  "list_events rid after l =
     order_asc event_seq (filter (\<lambda>e. event_run_id e = rid \<and> event_seq e > after) (run_events l))"

section \<open>Histories\<close>

datatype ledger_op =
    DoCreate string datetime string run_args
  | DoEvent datetime string string pydict
  | DoStatus datetime string string "string option" bool
  | DoTransition datetime string string string "string option" bool
  | DoApproval datetime string approval_args
  | DoApprove datetime string approval_args string string "string option" bool
  | DoCancel datetime string approval_args

fun ledger_exec :: "ledger_op \<Rightarrow> ledger \<Rightarrow> ledger" where
  "ledger_exec (DoCreate u now t a) l =
     (case create_run u now t a l of Inl _ \<Rightarrow> l | Inr (_, l') \<Rightarrow> l')"
| "ledger_exec (DoEvent now rid k p) l = snd (append_event now rid k p l)"
| "ledger_exec (DoStatus now rid s e d) l = set_status now rid s e d l"
| "ledger_exec (DoTransition now rid x s e d) l = snd (transition_status now rid x s e d l)"
| "ledger_exec (DoApproval now rid a) l =
     (case record_approval now rid a l of Inl _ \<Rightarrow> l | Inr (_, l') \<Rightarrow> l')"
| "ledger_exec (DoApprove now rid a x s e d) l =
     snd (record_approval_and_transition now rid a x s e d l)"
| "ledger_exec (DoCancel now rid a) l = snd (record_cancellation_and_transition now rid a l)"

definition ledger_run :: "ledger_op list \<Rightarrow> ledger \<Rightarrow> ledger" where
  "ledger_run ops l = fold ledger_exec ops l"

definition empty_ledger :: ledger where
  "empty_ledger = \<lparr>runs_table = [], run_events = [], run_approvals = []\<rparr>"

section \<open>Sequence numbers\<close>

definition dense :: "int list \<Rightarrow> bool" where
  "dense xs = (xs = map int [1..<Suc (length xs)])"

definition seqs_of :: "('r \<Rightarrow> string) \<Rightarrow> ('r \<Rightarrow> int) \<Rightarrow> string \<Rightarrow> 'r list \<Rightarrow> int list" where
  "seqs_of key seq rid rows = map seq (filter (\<lambda>r. key r = rid) rows)"

lemma dense_Nil [simp]: "dense []"
  by (simp add: dense_def)

lemma dense_snoc: "dense xs \<Longrightarrow> dense (xs @ [int (length xs) + 1])"
  unfolding dense_def by (simp add: add.commute)

lemma next_seq_dense:
  assumes "dense (seqs_of key seq rid rows)"
  shows "next_seq key seq rid rows = int (length (seqs_of key seq rid rows)) + 1"
proof (cases "filter (\<lambda>r. key r = rid) rows")
  case Nil
  then show ?thesis by (simp add: next_seq_def seqs_of_def)
next
  case (Cons r rs)
  let ?xs = "map seq (r # rs)"
  have xs: "seqs_of key seq rid rows = ?xs" unfolding seqs_of_def Cons ..
  have "set ?xs = set (map int [1..<Suc (length ?xs)])"
    using assms unfolding xs dense_def by (rule arg_cong)
  also have "\<dots> = int ` {1..length ?xs}"
    by (simp only: set_map set_upt atLeastLessThanSuc_atLeastAtMost)
  finally have set_eq: "set ?xs = int ` {1..length ?xs}" .
  have "fold max (map seq rs) (seq r) = Max (set ?xs)"
    by (simp only: list.map Max.set_eq_fold)
  also have "\<dots> = int (length ?xs)"
    unfolding set_eq by (rule Max_eqI) (auto intro!: imageI simp del: of_nat_Suc)
  finally have "fold max (map seq rs) (seq r) = int (length ?xs)" .
  then show ?thesis unfolding xs by (simp add: next_seq_def Cons)
qed

text \<open>Adding a row with the next number keeps the numbers of every run dense.\<close>

lemma dense_insert:
  assumes "\<And>i. dense (seqs_of key seq i rows)" "key r = rid" "seq r = next_seq key seq rid rows"
  shows "dense (seqs_of key seq i (rows @ [r]))"
  using dense_snoc [OF assms(1), of i] assms next_seq_dense [OF assms(1), of rid]
  by (cases "i = rid") (simp_all add: seqs_of_def)

lemma dense_sorted: "dense xs \<Longrightarrow> sorted xs"
proof -
  have "sorted (map int [1..<Suc n])" for n by (simp add: sorted_map del: upt_Suc)
  then show "dense xs \<Longrightarrow> sorted xs" unfolding dense_def by metis
qed

lemma dense_nth: "dense xs \<Longrightarrow> i < length xs \<Longrightarrow> xs ! i = int i + 1"
proof -
  assume "dense xs" and i: "i < length xs"
  then have "xs ! i = map int [1..<Suc (length xs)] ! i" by (simp only: dense_def)
  also have "\<dots> = int i + 1" using i by (simp del: upt_Suc)
  finally show "xs ! i = int i + 1" .
qed

lemma order_asc_sorted: "sorted (map k rows) \<Longrightarrow> order_asc k rows = rows"
  by (simp add: order_asc_def sort_key_id_if_sorted)

lemma dense_filter_after:
  assumes "dense (map seq rows)"
  shows "filter (\<lambda>r. seq r > int k) rows = drop k rows"
proof -
  have nth: "seq (rows ! i) = int i + 1" if "i < length rows" for i
    using dense_nth [OF assms, of i] that by simp
  have "filter (\<lambda>r. seq r > int k) (take k rows) = []"
    by (auto simp: filter_empty_conv in_set_conv_nth nth)
  moreover have "filter (\<lambda>r. seq r > int k) (drop k rows) = drop k rows"
    by (auto simp: filter_id_conv in_set_conv_nth nth)
  ultimately show ?thesis by (metis append.left_neutral append_take_drop_id filter_append)
qed

section \<open>The invariant of the ledger\<close>

definition ledger_inv :: "ledger \<Rightarrow> bool" where
  "ledger_inv l =
     (unique_key run_id (runs_table l) \<and>
      (\<forall>rid. dense (seqs_of event_run_id event_seq rid (run_events l))) \<and>
      (\<forall>rid. dense (seqs_of approval_run_id approval_seq rid (run_approvals l))))"

lemma put_status_simps [simp]:
  "run_id (put_status now s e d r) = run_id r" "run_status (put_status now s e d r) = s"
  "run_error (put_status now s e d r) = e"
  by (simp_all add: put_status_def)

lemma cancel_row_simps [simp]:
  "run_id (cancel_row now r) = run_id r" "run_status (cancel_row now r) = ''cancelled''"
  by (simp_all add: cancel_row_def)

lemma empty_ledger_inv: "ledger_inv empty_ledger"
  by (simp add: ledger_inv_def empty_ledger_def seqs_of_def)

lemma insert_approval_inv: "ledger_inv l \<Longrightarrow> ledger_inv (snd (insert_approval now rid a l))"
  by (auto simp: ledger_inv_def insert_approval_def Let_def intro: dense_insert)

lemma insert_approval_runs [simp]:
  "runs_table (snd (insert_approval now rid a l)) = runs_table l"
  "run_events (snd (insert_approval now rid a l)) = run_events l"
  by (simp_all add: insert_approval_def Let_def)

lemma runs_update_inv:
  assumes "ledger_inv l" "\<And>r. run_id (f r) = run_id r"
  shows "ledger_inv (l\<lparr>runs_table := update_where p f (runs_table l)\<rparr>)"
  using assms by (simp add: ledger_inv_def unique_key_update_where)

lemma transition_inv: "ledger_inv l \<Longrightarrow> ledger_inv (snd (transition_status now rid x s e d l))"
  by (simp add: transition_status_def runs_update_inv)

lemma approve_inv:
  "ledger_inv l \<Longrightarrow> ledger_inv (snd (record_approval_and_transition now rid a x s e d l))"
  by (simp add: record_approval_and_transition_def transition_inv insert_approval_inv
      split: option.splits)

lemma cancel_inv:
  "ledger_inv l \<Longrightarrow> ledger_inv (snd (record_cancellation_and_transition now rid a l))"
proof -
  assume "ledger_inv l"
  note i = runs_update_inv [OF insert_approval_inv [OF this]]
  show ?thesis
    using \<open>ledger_inv l\<close> i
    by (auto simp: record_cancellation_and_transition_def Let_def split: option.splits)
qed

lemma ledger_exec_inv: "ledger_inv l \<Longrightarrow> ledger_inv (ledger_exec opn l)"
proof (induction opn l rule: ledger_exec.induct)
  case (1 u now t a l)
  then show ?case
    by (auto simp: create_run_def Let_def ledger_inv_def intro!: unique_key_insert split: if_splits)
next
  case (2 now rid k p l)
  then show ?case by (auto simp: append_event_def Let_def ledger_inv_def intro: dense_insert)
next
  case (3 now rid s e d l)
  then show ?case by (simp add: set_status_def runs_update_inv)
next
  case (5 now rid a l)
  then show ?case by (simp add: record_approval_def insert_approval_inv case_prod_beta)
qed (simp_all add: transition_inv approve_inv cancel_inv)

lemma ledger_run_inv: "ledger_inv l \<Longrightarrow> ledger_inv (ledger_run ops l)"
  unfolding ledger_run_def by (induction ops arbitrary: l) (simp_all add: ledger_exec_inv)

lemma list_events_raw:
  assumes "ledger_inv l"
  shows "list_events rid (int k) l = drop k (filter (\<lambda>e. event_run_id e = rid) (run_events l))"
proof -
  let ?es = "filter (\<lambda>e. event_run_id e = rid) (run_events l)"
  have d: "dense (map event_seq ?es)" using assms by (simp add: ledger_inv_def seqs_of_def)
  have "filter (\<lambda>e. event_run_id e = rid \<and> event_seq e > int k) (run_events l) = drop k ?es"
    using dense_filter_after [OF d, of k] by (simp add: conj_commute)
  moreover have "sorted (map event_seq (drop k ?es))"
    using dense_sorted [OF d] by (simp add: drop_map [symmetric] sorted_wrt_drop)
  ultimately show ?thesis by (simp add: list_events_def order_asc_sorted)
qed

lemma list_approvals_raw:
  assumes "ledger_inv l"
  shows "list_approvals rid l = filter (\<lambda>e. approval_run_id e = rid) (run_approvals l)"
proof -
  have "dense (map approval_seq (filter (\<lambda>e. approval_run_id e = rid) (run_approvals l)))"
    using assms by (simp add: ledger_inv_def seqs_of_def)
  then show ?thesis unfolding list_approvals_def by (intro order_asc_sorted dense_sorted)
qed

text \<open>C32: event numbers have no gaps and no repeats. After any history the events of a run carry the
  numbers 1 to n in the order they are listed, and asking for those after number k returns exactly
  the events from the (k+1)st on, so a client that resumes at its last number misses nothing and
  sees nothing twice.\<close>

theorem event_numbers_dense:
  "map event_seq (list_events rid 0 (ledger_run ops empty_ledger)) =
     map int [1..<Suc (length (list_events rid 0 (ledger_run ops empty_ledger)))] \<and>
   list_events rid (int k) (ledger_run ops empty_ledger) =
     drop k (list_events rid 0 (ledger_run ops empty_ledger))"
proof -
  let ?l = "ledger_run ops empty_ledger"
  have i: "ledger_inv ?l" by (simp add: ledger_run_inv empty_ledger_inv)
  have "dense (map event_seq (list_events rid 0 ?l))"
    using list_events_raw [OF i, of rid 0] i by (simp add: ledger_inv_def seqs_of_def)
  then show ?thesis
    using list_events_raw [OF i, of rid 0] list_events_raw [OF i, of rid k]
    by (simp add: dense_def)
qed

section \<open>The log only grows\<close>

lemma ledger_exec_grows:
  "\<exists>es as. run_events (ledger_exec opn l) = run_events l @ es \<and>
           run_approvals (ledger_exec opn l) = run_approvals l @ as"
  by (cases opn)
     (auto simp: create_run_def append_event_def set_status_def transition_status_def
       record_approval_def insert_approval_def record_approval_and_transition_def
       record_cancellation_and_transition_def Let_def split: option.splits)

lemma ledger_run_grows:
  "\<exists>es as. run_events (ledger_run ops l) = run_events l @ es \<and>
           run_approvals (ledger_run ops l) = run_approvals l @ as"
  unfolding ledger_run_def
proof (induction ops arbitrary: l)
  case (Cons opn ops)
  from ledger_exec_grows [of opn l] obtain es as where
    1: "run_events (ledger_exec opn l) = run_events l @ es"
      "run_approvals (ledger_exec opn l) = run_approvals l @ as" by blast
  from Cons.IH [of "ledger_exec opn l"] 1 show ?case by auto
qed simp

lemma events_grow:
  assumes "ledger_inv l"
  shows "\<exists>es. list_events rid 0 (ledger_run ops l) = list_events rid 0 l @ es"
  using ledger_run_grows [of ops l] list_events_raw [OF assms, of rid 0]
    list_events_raw [OF ledger_run_inv [OF assms], of rid 0 ops]
  by auto

text \<open>The event log and the approval audit of a run are append-only. Whatever operations follow,
  failed ones included, what was listed before is listed again, unchanged and first.\<close>

theorem log_append_only:
  "\<exists>es as. list_events rid 0 (ledger_run (ops @ later) empty_ledger) =
             list_events rid 0 (ledger_run ops empty_ledger) @ es \<and>
           list_approvals rid (ledger_run (ops @ later) empty_ledger) =
             list_approvals rid (ledger_run ops empty_ledger) @ as"
proof -
  let ?l = "ledger_run ops empty_ledger"
  have i: "ledger_inv ?l" "ledger_inv (ledger_run later ?l)"
    by (simp_all add: ledger_run_inv empty_ledger_inv)
  have "ledger_run (ops @ later) empty_ledger = ledger_run later ?l" by (simp add: ledger_run_def)
  with ledger_run_grows [of later ?l] show ?thesis
    using list_events_raw [OF i(1), of rid 0] list_events_raw [OF i(2), of rid 0]
    by (auto simp: list_approvals_raw i)
qed

section \<open>Compare and set\<close>

fun contend ::
  "('a \<Rightarrow> 'k \<Rightarrow> 'v \<Rightarrow> 'v \<Rightarrow> 's \<Rightarrow> bool \<times> 's) \<Rightarrow> 'k \<Rightarrow> 'v \<Rightarrow> ('a \<times> 'v) list \<Rightarrow> 's \<Rightarrow> bool list \<times> 's"
  where
  "contend cas k e [] s = ([], s)"
| "contend cas k e ((a, v) # xs) s =
     (let (b, s1) = cas a k e v s; (bs, s2) = contend cas k e xs s1 in (b # bs, s2))"

locale compare_and_set =
  fixes status :: "'k \<Rightarrow> 's \<Rightarrow> 'v option"
    and cas :: "'a \<Rightarrow> 'k \<Rightarrow> 'v \<Rightarrow> 'v \<Rightarrow> 's \<Rightarrow> bool \<times> 's"
    and invar :: "'s \<Rightarrow> bool"
  assumes cas_invar: "invar s \<Longrightarrow> invar (snd (cas a k e v s))"
    and cas_wins: "invar s \<Longrightarrow> fst (cas a k e v s) \<longleftrightarrow> status k s = Some e"
    and cas_status: "invar s \<Longrightarrow> status k' (snd (cas a k e v s)) =
      (if k' = k \<and> status k s = Some e then Some v else status k' s)"
    and cas_loses: "invar s \<Longrightarrow> status k s \<noteq> Some e \<Longrightarrow> snd (cas a k e v s) = s"
begin

lemma contend_lose:
  assumes "invar s" "status k s \<noteq> Some e"
  shows "contend cas k e xs s = (replicate (length xs) False, s)"
  using assms
proof (induction xs)
  case (Cons x xs)
  obtain a v where x: "x = (a, v)" by (cases x)
  have "cas a k e v s = (False, s)"
    using cas_wins [OF Cons.prems(1), of a k e v] cas_loses [OF Cons.prems, of a v] Cons.prems(2)
    by (cases "cas a k e v s") simp
  with Cons x show ?case by simp
qed simp

text \<open>Of several callers that compete to move a key out of one status, the first wins, every other
  one loses, and the state is the one the winner left.\<close>

lemma one_winner:
  assumes "invar s" "status k s = Some e" "v \<noteq> e"
  shows "contend cas k e ((a, v) # xs) s = (True # replicate (length xs) False, snd (cas a k e v s))"
proof -
  have "cas a k e v s = (True, snd (cas a k e v s))"
    using cas_wins [OF assms(1), of a k e v] assms(2) by (cases "cas a k e v s") simp
  moreover have "status k (snd (cas a k e v s)) \<noteq> Some e"
    using cas_status [OF assms(1), of k a k e v] assms(2,3) by simp
  ultimately show ?thesis
    using contend_lose [OF cas_invar [OF assms(1)], of k a k e v e xs]
    by (metis (no_types, lifting) case_prod_conv contend.simps(2))
qed

end

definition status_of :: "string \<Rightarrow> ledger \<Rightarrow> string option" where
  "status_of rid l = map_option run_status (get_run rid l)"

lemma rowcount_status:
  assumes "ledger_inv l"
  shows "rowcount (\<lambda>r. run_id r = rid \<and> run_status r = e) (runs_table l) =
         (if status_of rid l = Some e then 1 else 0)"
  using assms rowcount_key [of run_id "runs_table l" rid "\<lambda>r. run_status r = e"]
  by (simp add: ledger_inv_def status_of_def get_run_def split: option.splits)

lemma update_none: "rowcount p rows = 0 \<Longrightarrow> update_where p f rows = rows"
  by (auto simp: rowcount_def update_where_def filter_empty_conv intro!: map_idI)

lemma transition_loses:
  assumes "ledger_inv l" "status_of rid l \<noteq> Some x"
  shows "transition_status now rid x s e d l = (False, l)"
  using rowcount_status [OF assms(1), of rid x] assms(2)
  by (simp add: transition_status_def update_none)

lemma transition_status_of:
  assumes "ledger_inv l"
  shows "status_of k (snd (transition_status now rid x s e d l)) =
    (if k = rid \<and> status_of rid l = Some x then Some s else status_of k l)"
proof (cases "lookup run_id k (runs_table l)")
  case (Some r)
  then have "run_id r = k" using lookup_Some_in by fastforce
  with Some show ?thesis
    by (auto simp: transition_status_def status_of_def get_run_def lookup_update_where)
qed (auto simp: transition_status_def status_of_def get_run_def lookup_update_where)

definition transition_cas ::
  "datetime \<times> string option \<times> bool \<Rightarrow> string \<Rightarrow> string \<Rightarrow> string \<Rightarrow> ledger \<Rightarrow> bool \<times> ledger" where
  "transition_cas t rid expected status l =
     (case t of (now, error, ended) \<Rightarrow> transition_status now rid expected status error ended l)"

interpretation transition: compare_and_set status_of transition_cas ledger_inv
proof
  fix l k k' e v and t :: "datetime \<times> string option \<times> bool"
  assume inv: "ledger_inv l"
  obtain now err ended where t: "t = (now, err, ended)" by (cases t) auto
  show "ledger_inv (snd (transition_cas t k e v l))"
    using inv by (simp add: t transition_cas_def transition_inv)
  show "fst (transition_cas t k e v l) \<longleftrightarrow> status_of k l = Some e"
    using rowcount_status [OF inv] by (simp add: t transition_cas_def transition_status_def)
  show "status_of k' (snd (transition_cas t k e v l)) =
      (if k' = k \<and> status_of k l = Some e then Some v else status_of k' l)"
    using transition_status_of [OF inv] by (simp add: t transition_cas_def)
  show "snd (transition_cas t k e v l) = l" if "status_of k l \<noteq> Some e"
    using transition_loses [OF inv that] by (simp add: t transition_cas_def)
qed

type_synonym approve_attempt = "datetime \<times> approval_args \<times> string option \<times> bool"

definition approve_cas ::
  "approve_attempt \<Rightarrow> string \<Rightarrow> string \<Rightarrow> string \<Rightarrow> ledger \<Rightarrow> bool \<times> ledger" where
  "approve_cas t rid expected status l =
     (case t of (now, a, error, ended) \<Rightarrow>
        record_approval_and_transition now rid a expected status error ended l)"

lemma status_of_insert [simp]: "status_of rid (snd (insert_approval now r a l)) = status_of rid l"
  by (simp add: status_of_def get_run_def)

lemma approve_eq:
  "record_approval_and_transition now rid a x s e d l =
     (if status_of rid l = Some x
      then (True, snd (transition_status now rid x s e d (snd (insert_approval now rid a l))))
      else (False, l))"
  by (auto simp: record_approval_and_transition_def status_of_def get_run_def split: option.splits)

interpretation approval: compare_and_set status_of approve_cas ledger_inv
proof
  fix l k k' e v and t :: approve_attempt
  assume inv: "ledger_inv l"
  obtain now a err ended where t: "t = (now, a, err, ended)" by (cases t) auto
  show "ledger_inv (snd (approve_cas t k e v l))" using inv by (simp add: t approve_cas_def approve_inv)
  show "fst (approve_cas t k e v l) \<longleftrightarrow> status_of k l = Some e"
    by (simp add: t approve_cas_def approve_eq)
  show "status_of k' (snd (approve_cas t k e v l)) =
      (if k' = k \<and> status_of k l = Some e then Some v else status_of k' l)"
    using transition_status_of [OF insert_approval_inv [OF inv]]
    by (simp add: t approve_cas_def approve_eq)
  show "snd (approve_cas t k e v l) = l" if "status_of k l \<noteq> Some e"
    using that by (simp add: t approve_cas_def approve_eq)
qed

lemma approve_once_facts:
  assumes "ledger_inv l" "status_of rid l = Some ''interrupted''"
    and "contend approve_cas rid ''interrupted'' (((now, a, None, False), ''running'') # others) l =
           (wins, l')"
  shows "wins = True # replicate (length others) False \<and> status_of rid l' = Some ''running'' \<and>
         (\<exists>rec. list_approvals rid l' = list_approvals rid l @ [rec] \<and>
                approval_actor_id rec = arg_actor_id a \<and> approval_decision rec = arg_decision a \<and>
                approval_seq rec = int (length (list_approvals rid l)) + 1) \<and>
         run_events l' = run_events l"
proof -
  let ?t = "(now, a, None, False)"
  have w: "wins = True # replicate (length others) False" and
    l': "l' = snd (approve_cas ?t rid ''interrupted'' ''running'' l)"
    using approval.one_winner [OF assms(1,2), of "''running''" ?t others] assms(3) by auto
  have run: "status_of rid l' = Some ''running''"
    using approval.cas_status [OF assms(1)] assms(2) by (simp add: l')
  have inv': "ledger_inv l'" unfolding l' by (rule approval.cas_invar [OF assms(1)])
  have app: "run_approvals l' = run_approvals (snd (insert_approval now rid a l))"
    and ev: "run_events l' = run_events l"
    using assms(2) by (simp_all add: l' approve_cas_def approve_eq transition_status_def)
  have seq: "next_seq approval_run_id approval_seq rid (run_approvals l) =
      int (length (list_approvals rid l)) + 1"
    using next_seq_dense [of approval_run_id approval_seq rid "run_approvals l"] assms(1)
    by (simp add: ledger_inv_def list_approvals_raw seqs_of_def)
  then have "\<exists>rec. list_approvals rid l' = list_approvals rid l @ [rec] \<and>
      approval_actor_id rec = arg_actor_id a \<and> approval_decision rec = arg_decision a \<and>
      approval_seq rec = int (length (list_approvals rid l)) + 1"
    unfolding list_approvals_raw [OF inv'] list_approvals_raw [OF assms(1)] app
    by (auto simp: insert_approval_def Let_def)
  with w run ev show ?thesis by blast
qed

text \<open>C11: one approval per interrupt. Of several concurrent approvals of an interrupted run, in any
  order, exactly the first returns \<open>True\<close>; all together they leave the run running and add exactly
  one audit record, the winner's.\<close>

theorem approve_exactly_once:
  assumes "ledger_inv l" "status_of rid l = Some ''interrupted''"
    and "contend approve_cas rid ''interrupted'' (((now, a, None, False), ''running'') # others) l =
           (wins, l')"
  shows "wins = True # replicate (length others) False \<and> status_of rid l' = Some ''running'' \<and>
         (\<exists>rec. list_approvals rid l' = list_approvals rid l @ [rec] \<and>
                approval_actor_id rec = arg_actor_id a \<and> approval_decision rec = arg_decision a \<and>
                approval_seq rec = int (length (list_approvals rid l)) + 1) \<and>
         run_events l' = run_events l"
  using assms by (rule approve_once_facts)

section \<open>Cancellation\<close>

lemma cancel_eq:
  assumes "ledger_inv l"
  shows "record_cancellation_and_transition now rid a l =
    (case status_of rid l of
       None \<Rightarrow> (False, l)
     | Some st \<Rightarrow>
         if st \<in> set TERMINAL_RUN_STATUSES then (False, l)
         else (True, (snd (insert_approval now rid (a\<lparr>arg_decision := ''cancelled''\<rparr>) l))
                \<lparr>runs_table := update_where (\<lambda>r. run_id r = rid) (cancel_row now) (runs_table l)\<rparr>))"
proof (cases "lookup run_id rid (runs_table l)")
  case None
  then show ?thesis by (simp add: record_cancellation_and_transition_def status_of_def get_run_def)
next
  case (Some row)
  then have st: "status_of rid l = Some (run_status row)" by (simp add: status_of_def get_run_def)
  have row: "row \<in> set (runs_table l)" "run_id row = rid" using Some lookup_Some_in by fastforce+
  have "r = row" if "r \<in> set (runs_table l)" "run_id r = rid" for r
  proof -
    have "lookup run_id rid (runs_table l) = Some r"
      using assms that by (simp add: ledger_inv_def lookup_Some_iff)
    with Some show ?thesis by simp
  qed
  then have upd: "update_where (\<lambda>r. run_id r = rid \<and> run_status r = run_status row) (cancel_row now)
      (runs_table l) = update_where (\<lambda>r. run_id r = rid) (cancel_row now) (runs_table l)"
    by (auto simp: update_where_def)
  have "rowcount (\<lambda>r. run_id r = rid \<and> run_status r = run_status row) (runs_table l) = 1"
    using rowcount_status [OF assms, of rid "run_status row"] st by simp
  with Some st upd show ?thesis
    by (simp add: record_cancellation_and_transition_def Let_def)
qed

lemma cancel_facts:
  assumes "ledger_inv l" "record_cancellation_and_transition now rid a l = (ok, l')"
  shows "(ok \<longleftrightarrow> (\<exists>st. status_of rid l = Some st \<and> st \<notin> set TERMINAL_RUN_STATUSES)) \<and>
         (ok \<longrightarrow> status_of rid l' = Some ''cancelled'' \<and>
                 map_option run_ended_at (get_run rid l') = Some (Some (isoformat now)) \<and>
                 (\<exists>rec. list_approvals rid l' = list_approvals rid l @ [rec] \<and>
                    approval_decision rec = ''cancelled'' \<and>
                    approval_actor_id rec = arg_actor_id a)) \<and>
         (\<not> ok \<longrightarrow> l' = l)"
proof -
  have inv': "ledger_inv l'" using cancel_inv [OF assms(1), of now rid a] assms(2) by simp
  show ?thesis
  proof (cases "status_of rid l")
    case None
    then show ?thesis using assms cancel_eq [OF assms(1), of now rid a] by simp
  next
    case (Some st)
    show ?thesis
    proof (cases "st \<in> set TERMINAL_RUN_STATUSES")
      case True
      with Some show ?thesis using assms cancel_eq [OF assms(1), of now rid a] by simp
    next
      case False
      with Some assms cancel_eq [OF assms(1), of now rid a] have
        l': "l' = (snd (insert_approval now rid (a\<lparr>arg_decision := ''cancelled''\<rparr>) l))
          \<lparr>runs_table := update_where (\<lambda>r. run_id r = rid) (cancel_row now) (runs_table l)\<rparr>" and ok
        by simp_all
      from Some obtain row where row: "lookup run_id rid (runs_table l) = Some row"
        by (auto simp: status_of_def get_run_def)
      then have "run_id row = rid" using lookup_Some_in by fastforce
      with row have get: "get_run rid l' = Some (cancel_row now row)"
        by (simp add: l' get_run_def lookup_update_where)
      have "\<exists>rec. list_approvals rid l' = list_approvals rid l @ [rec] \<and>
          approval_decision rec = ''cancelled'' \<and> approval_actor_id rec = arg_actor_id a"
        unfolding list_approvals_raw [OF inv'] list_approvals_raw [OF assms(1)]
        by (auto simp: l' insert_approval_def Let_def)
      with get have "status_of rid l' = Some ''cancelled'' \<and>
          map_option run_ended_at (get_run rid l') = Some (Some (isoformat now)) \<and>
          (\<exists>rec. list_approvals rid l' = list_approvals rid l @ [rec] \<and>
             approval_decision rec = ''cancelled'' \<and> approval_actor_id rec = arg_actor_id a)"
        by (simp add: status_of_def cancel_row_def)
      with Some False \<open>ok\<close> show ?thesis by blast
    qed
  qed
qed

text \<open>What a cancellation does. It succeeds exactly on an existing run that has not ended; then
  the run is \<open>cancelled\<close> with its end time set, and the audit gains one record, numbered next, with
  the decision \<open>cancelled\<close> and the acting principal. Otherwise the ledger is untouched.\<close>

theorem cancel_effect:
  assumes "ledger_inv l" "record_cancellation_and_transition now rid a l = (ok, l')"
  shows "(ok \<longleftrightarrow> (\<exists>st. status_of rid l = Some st \<and> st \<notin> set TERMINAL_RUN_STATUSES)) \<and>
         (ok \<longrightarrow> status_of rid l' = Some ''cancelled'' \<and>
                 map_option run_ended_at (get_run rid l') = Some (Some (isoformat now)) \<and>
                 (\<exists>rec. list_approvals rid l' = list_approvals rid l @ [rec] \<and>
                    approval_decision rec = ''cancelled'' \<and>
                    approval_actor_id rec = arg_actor_id a)) \<and>
         (\<not> ok \<longrightarrow> l' = l)"
  using assms by (rule cancel_facts)

lemma cancel_events:
  "record_cancellation_and_transition now rid a l = (ok, l') \<Longrightarrow> run_events l' = run_events l"
  by (auto simp: record_cancellation_and_transition_def Let_def split: option.splits if_splits)

section \<open>Ended runs\<close>

text \<open>The operations that check the status before they change it.\<close>

fun guarded_op :: "ledger_op \<Rightarrow> bool" where
  "guarded_op (DoStatus _ _ _ _ _) = False"
| "guarded_op (DoTransition _ _ x _ _ _) = (x \<notin> set TERMINAL_RUN_STATUSES)"
| "guarded_op (DoApprove _ _ _ x _ _ _) = (x \<notin> set TERMINAL_RUN_STATUSES)"
| "guarded_op _ = True"

definition ended_run :: "string \<Rightarrow> ledger \<Rightarrow> bool" where
  "ended_run rid l = (\<exists>st. status_of rid l = Some st \<and> st \<in> set TERMINAL_RUN_STATUSES)"

lemma update_where_keeps:
  assumes "lookup key k rows = Some r" "\<And>x. key (f x) = key x" "\<not> p r"
  shows "lookup key k (update_where p f rows) = Some r"
  using assms by (simp add: lookup_update_where)

lemma guarded_keeps_ended:
  assumes "ledger_inv l" "ended_run rid l" "guarded_op opn"
  shows "get_run rid (ledger_exec opn l) = get_run rid l"
proof -
  from assms(2) obtain row where row: "lookup run_id rid (runs_table l) = Some row"
    and t: "run_status row \<in> set TERMINAL_RUN_STATUSES"
    by (auto simp: ended_run_def status_of_def get_run_def)
  have id: "run_id row = rid" using row lookup_Some_in by fastforce
  have tr: "lookup run_id rid (runs_table (snd (transition_status now k x s e d l'))) = Some row"
    if "x \<notin> set TERMINAL_RUN_STATUSES" "runs_table l' = runs_table l" for now k x s e d l'
    using that t row unfolding transition_status_def
    by (auto intro!: update_where_keeps)
  show ?thesis
  proof (cases opn)
    case (DoCreate u now th a)
    with row show ?thesis
      by (auto simp: get_run_def create_run_def Let_def lookup_append)
  next
    case (DoTransition now k x s e d)
    with tr [of x l] assms(3) row show ?thesis by (simp add: get_run_def)
  next
    case (DoApprove now k a x s e d)
    with tr [of x "snd (insert_approval now k a l)"] assms(3) row show ?thesis
      by (simp add: get_run_def approve_eq)
  next
    case (DoCancel now k a)
    show ?thesis
    proof (cases "k = rid")
      case True
      with row t have "record_cancellation_and_transition now k a l = (False, l)"
        by (simp add: record_cancellation_and_transition_def Let_def)
      with DoCancel show ?thesis by simp
    next
      case False
      with DoCancel row id show ?thesis
        by (auto simp: get_run_def cancel_eq [OF assms(1)] intro!: update_where_keeps
            split: option.splits)
    qed
  qed (use assms(3) in \<open>simp_all add: get_run_def append_event_def Let_def record_approval_def
        case_prod_beta\<close>)
qed

text \<open>An ended run stays as it ended. Through any sequence of new runs, events, audit records,
  cancellations, and conditional transitions and approvals that expect an unfinished status, the
  row of a completed, failed or cancelled run does not change.\<close>

theorem ended_run_is_final:
  assumes "ledger_inv l" "ended_run rid l" "list_all guarded_op ops"
  shows "get_run rid (ledger_run ops l) = get_run rid l"
  using assms
proof (induction ops arbitrary: l)
  case (Cons opn ops)
  have same: "get_run rid (ledger_exec opn l) = get_run rid l"
    using Cons.prems by (simp add: guarded_keeps_ended)
  then have "ended_run rid (ledger_exec opn l)"
    using Cons.prems(2) by (simp add: ended_run_def status_of_def)
  with Cons.IH [OF ledger_exec_inv [OF Cons.prems(1)], of opn] Cons.prems(3) same show ?case
    by (simp add: ledger_run_def)
qed (simp add: ledger_run_def)

section \<open>Samples\<close>

definition sample_run :: "string \<Rightarrow> run_row" where
  "sample_run st = \<lparr>run_id = ''r'', thread_id = ''t'', run_workspace = None, run_workspace_id = None,
     run_status = st, run_task = Some ''x'', run_created_by = None, run_created_by_kind = None,
     run_created_at = isoformat 0, run_updated_at = isoformat 0, run_ended_at = None,
     run_error = None\<rparr>"

definition sample_ledger :: "string \<Rightarrow> ledger" where
  "sample_ledger st = \<lparr>runs_table = [sample_run st], run_events = [], run_approvals = []\<rparr>"

definition sample_approval :: "string \<Rightarrow> approval_args" where
  "sample_approval who = \<lparr>arg_decision = ''approved'', arg_actor_id = who, arg_actor_kind = ''human'',
     arg_on_behalf_of = None, arg_reason = None\<rparr>"

lemma sample_ledger_inv: "ledger_inv (sample_ledger st)"
  by (simp add: ledger_inv_def sample_ledger_def seqs_of_def unique_key_def)

lemma sample_status: "status_of ''r'' (sample_ledger st) = Some st"
  by (simp add: status_of_def get_run_def sample_ledger_def sample_run_def lookup_Cons)

theorem approve_exactly_once_witness:
  "\<exists>wins l'. contend approve_cas ''r'' ''interrupted''
       [((1, sample_approval ''alice'', None, False), ''running''),
        ((2, sample_approval ''bob'', None, False), ''running'')] (sample_ledger ''interrupted'') = (wins, l') \<and>
     wins = [True, False] \<and> length (list_approvals ''r'' l') = 1"
proof -
  let ?others = "[((2, sample_approval ''bob'', None, False), ''running'')]"
  obtain wins l' where c: "contend approve_cas ''r'' ''interrupted''
       (((1, sample_approval ''alice'', None, False), ''running'') # ?others)
       (sample_ledger ''interrupted'') = (wins, l')" by fastforce
  from approve_exactly_once [OF sample_ledger_inv sample_status c]
  have w: "wins = [True, False]" and
    "length (list_approvals ''r'' l') = Suc (length (list_approvals ''r'' (sample_ledger ''interrupted'')))"
    by auto
  moreover have "list_approvals ''r'' (sample_ledger ''interrupted'') = []"
    by (simp add: list_approvals_def order_asc_def sample_ledger_def)
  ultimately have "length (list_approvals ''r'' l') = 1" by simp
  with w c show ?thesis by blast
qed

theorem cancel_effect_witness:
  "\<exists>l'. record_cancellation_and_transition 5 ''r'' (sample_approval ''alice'') (sample_ledger ''queued'')
          = (True, l') \<and> status_of ''r'' l' = Some ''cancelled''"
proof -
  obtain ok l' where c: "record_cancellation_and_transition 5 ''r'' (sample_approval ''alice'')
      (sample_ledger ''queued'') = (ok, l')" by fastforce
  from cancel_effect [OF sample_ledger_inv c] have ok "status_of ''r'' l' = Some ''cancelled''"
    by (auto simp: sample_status TERMINAL_RUN_STATUSES_def)
  with c show ?thesis by auto
qed

theorem ended_run_is_final_witness:
  "get_run ''r'' (ledger_run [DoCancel 5 ''r'' (sample_approval ''alice''),
      DoTransition 6 ''r'' ''interrupted'' ''running'' None False] (sample_ledger ''completed'')) =
   Some (sample_run ''completed'')"
proof -
  have "ended_run ''r'' (sample_ledger ''completed'')"
    by (simp add: ended_run_def sample_status TERMINAL_RUN_STATUSES_def)
  from ended_run_is_final [OF sample_ledger_inv this] show ?thesis
    by (simp add: TERMINAL_RUN_STATUSES_def get_run_def sample_ledger_def sample_run_def lookup_Cons)
qed

end
