(* ===== verification/Output_Limits.thy ===== *)
theory Output_Limits
  imports Sandbox
begin

text \<open>
  \<open>agent_os/output_limits.py\<close>, and \<open>agent_os/tools/bash.py\<close> and \<open>run_tests.py\<close>, which use it.

  \<^item> A text is a list of code points here, since the point of \<open>truncate_utf8\<close> is to cut between
    characters of one to four bytes. \<open>utf8_encode\<close> and \<open>utf8_decode_ignore\<close> are the codec, the latter
    with \<open>errors="ignore"\<close>.
  \<^item> \<open>bash\<close> is the tool; what the process prints and does to the files is its argument. The working
    directory is made with its parents (the parents of a path below it).
  \<^item> The theorem: truncation never fails its own assertion, respects the limit, and says exactly
    how many bytes of the text it left out.
\<close>

section \<open>UTF-8\<close>

type_synonym codepoints = "nat list"

definition is_surrogate :: "nat \<Rightarrow> bool" where
  "is_surrogate c = (0xD800 \<le> c \<and> c \<le> 0xDFFF)"

definition scalar_value :: "nat \<Rightarrow> bool" where
  "scalar_value c = (c < 0x110000 \<and> \<not> is_surrogate c)"

definition utf8_char :: "nat \<Rightarrow> nat list" where
  "utf8_char c =
     (if c < 0x80 then [c]
      else if c < 0x800 then [0xC0 + c div 64, 0x80 + c mod 64]
      else if c < 0x10000 then [0xE0 + c div 4096, 0x80 + c div 64 mod 64, 0x80 + c mod 64]
      else [0xF0 + c div 262144, 0x80 + c div 4096 mod 64, 0x80 + c div 64 mod 64, 0x80 + c mod 64])"

definition utf8_bytes :: "codepoints \<Rightarrow> nat list" where
  "utf8_bytes t = concat (map utf8_char t)"

definition utf8_encode :: "codepoints \<Rightarrow> nat list result" where
  "utf8_encode t =
     (if list_ex is_surrogate t then Inl (ValueError ''surrogates not allowed'') else Inr (utf8_bytes t))"

definition continuation :: "nat \<Rightarrow> bool" where
  "continuation b = (0x80 \<le> b \<and> b < 0xC0)"

text \<open>How many bytes follow a leading byte, and the bits it carries itself.\<close>

definition followers :: "nat \<Rightarrow> nat" where
  "followers b = (if 0xC2 \<le> b \<and> b < 0xE0 then 1 else if 0xE0 \<le> b \<and> b < 0xF0 then 2
     else if 0xF0 \<le> b \<and> b < 0xF5 then 3 else 0)"

definition lead_bits :: "nat \<Rightarrow> nat" where
  "lead_bits b = (case followers b of Suc 0 \<Rightarrow> b - 0xC0 | Suc (Suc 0) \<Rightarrow> b - 0xE0 | _ \<Rightarrow> b - 0xF0)"

definition smallest :: "nat \<Rightarrow> nat" where
  "smallest n = (case n of Suc 0 \<Rightarrow> 0x80 | Suc (Suc 0) \<Rightarrow> 0x800 | _ \<Rightarrow> 0x10000)"

function utf8_decode_ignore :: "nat list \<Rightarrow> codepoints" where
  "utf8_decode_ignore [] = []"
| "utf8_decode_ignore (b # bs) =
     (if b < 0x80 then b # utf8_decode_ignore bs
      else (let n = followers b; tail = take n bs;
                c = fold (\<lambda>d acc. acc * 64 + (d - 0x80)) tail (lead_bits b)
            in if n \<noteq> 0 \<and> length tail = n \<and> list_all continuation tail \<and> smallest n \<le> c \<and> scalar_value c
               then c # utf8_decode_ignore (drop n bs)
               else utf8_decode_ignore bs))"
  by pat_completeness auto

termination
  by (relation "measure length") auto

section \<open>Truncation\<close>

definition codepoints :: "string \<Rightarrow> codepoints" where
  "codepoints s = map of_char s"

definition marker :: "nat \<Rightarrow> codepoints" where
  "marker n = codepoints (''[truncated '' @ nat_str n @ '' bytes]'' @ [CHR 0x0A])"

definition truncate_utf8 :: "codepoints \<Rightarrow> int \<Rightarrow> (codepoints \<times> bool) result" where
  "truncate_utf8 text max_bytes =
     (if max_bytes < 0 then Inl (ValueError ''max_bytes must be non-negative'')
      else bind_result (utf8_encode text) (\<lambda>encoded.
        if int (length encoded) \<le> max_bytes then Inr (text, False)
        else bind_result (utf8_encode (marker (length encoded))) (\<lambda>conservative_marker.
          let payload_budget = max_bytes - int (length conservative_marker)
          in if payload_budget < 0 then Inr ([], True)
             else
               (let retained = utf8_decode_ignore (take (nat payload_budget) encoded)
                in bind_result (utf8_encode retained) (\<lambda>retained_bytes.
                     let omitted_bytes = length encoded - length retained_bytes;
                         result = marker omitted_bytes @ retained
                     in bind_result (utf8_encode result) (\<lambda>out.
                          if int (length out) \<le> max_bytes then Inr (result, True)
                          else Inl (OtherError ''AssertionError'')))))))"

section \<open>The subprocess tools\<close>

definition BASH_OUTPUT_MAX_BYTES :: int where
  "BASH_OUTPUT_MAX_BYTES = 100 * 1024"

record bash_result =
  bash_args :: "string list"
  returncode :: "int option"
  bash_stdout :: codepoints
  bash_stderr :: codepoints
  timed_out :: bool
  truncated :: bool

text \<open>How the process ended: the output of a process that timed out is already decoded, since that
  decoding replaces what is not UTF-8.\<close>

datatype process_end =
    Exited int codepoints codepoints
  | TimedOut codepoints codepoints
  | Not_Found codepoints
  | ProcessError py_exn

definition bash_report ::
  "string list \<Rightarrow> int option \<Rightarrow> codepoints \<Rightarrow> codepoints \<Rightarrow> bool \<Rightarrow> bash_result result" where
  "bash_report args code out err late =
     bind_result (truncate_utf8 out BASH_OUTPUT_MAX_BYTES) (\<lambda>(stdout, trunc_out).
       bind_result (truncate_utf8 err BASH_OUTPUT_MAX_BYTES) (\<lambda>(stderr, trunc_err).
         Inr \<lparr>bash_args = args, returncode = code, bash_stdout = stdout, bash_stderr = stderr,
              timed_out = late, truncated = trunc_out \<or> trunc_err\<rparr>))"

definition bash ::
  "(string list \<Rightarrow> string list \<Rightarrow> int \<Rightarrow> filesystem \<Rightarrow> process_end \<times> filesystem) \<Rightarrow> string list \<Rightarrow> int \<Rightarrow> os_env
     \<Rightarrow> bash_result result \<times> os_env" where
  "bash subprocess_run cmd_args timeout_seconds os =
     (if cmd_args = [] then (Inl (ValueError ''Args list cannot be empty''), os)
      else case get_sandbox_root os of
        Inl e \<Rightarrow> (Inl e, os)
      | Inr cwd \<Rightarrow>
          (case make_parents (os_fs os) (cwd @ [''.'']) of
             Inl e \<Rightarrow> (Inl e, os)
           | Inr fs \<Rightarrow>
               (case subprocess_run cmd_args cwd timeout_seconds fs of
                  (how, fs') \<Rightarrow>
                    (case how of
                       Exited code out err \<Rightarrow> bash_report cmd_args (Some code) out err False
                     | TimedOut out err \<Rightarrow> bash_report cmd_args None out err True
                     | Not_Found message \<Rightarrow> bash_report cmd_args (Some (- 1)) [] message False
                     | ProcessError e \<Rightarrow> Inl e,
                     os\<lparr>os_fs := fs'\<rparr>))))"

definition run_tests ::
  "(string list \<Rightarrow> string list \<Rightarrow> int \<Rightarrow> filesystem \<Rightarrow> process_end \<times> filesystem) \<Rightarrow> string \<Rightarrow> string list option \<Rightarrow> int \<Rightarrow> os_env
     \<Rightarrow> bash_result result \<times> os_env" where
  "run_tests subprocess_run executable pytest_args timeout_seconds os =
     bash subprocess_run
       ([executable, ''-m'', ''pytest''] @ (case pytest_args of None \<Rightarrow> [] | Some args \<Rightarrow> args))
       timeout_seconds os"

section \<open>Cutting between characters\<close>

fun fit :: "nat \<Rightarrow> codepoints \<Rightarrow> codepoints" where
  "fit n [] = []"
| "fit n (c # cs) =
     (if length (utf8_char c) \<le> n then c # fit (n - length (utf8_char c)) cs else [])"

lemma utf8_char_length: "1 \<le> length (utf8_char c)" "length (utf8_char c) \<le> 4"
  by (simp_all add: utf8_char_def)

lemma utf8_bytes_simps [simp]:
  "utf8_bytes [] = []" "utf8_bytes (c # cs) = utf8_char c @ utf8_bytes cs"
  "utf8_bytes (xs @ ys) = utf8_bytes xs @ utf8_bytes ys"
  by (simp_all add: utf8_bytes_def)

lemma base64_digits:
  "(c::nat) div 64 * 64 + c mod 64 = c" "(c::nat) div 4096 * 64 + c div 64 mod 64 = c div 64"
  "(c::nat) div 262144 * 64 + c div 4096 mod 64 = c div 4096"
proof -
  have q: "(c::nat) div 4096 = c div 64 div 64" "c div 262144 = c div 4096 div 64"
    by (simp_all add: div_mult2_eq [symmetric])
  show "(c::nat) div 64 * 64 + c mod 64 = c" "c div 4096 * 64 + c div 64 mod 64 = c div 64"
    "c div 262144 * 64 + c div 4096 mod 64 = c div 4096"
    unfolding q by (rule div_mult_mod_eq)+
qed

lemma decode_char:
  assumes "scalar_value c"
  shows "utf8_decode_ignore (utf8_char c @ bs) = c # utf8_decode_ignore bs"
proof -
  consider "c < 0x80" | "0x80 \<le> c" "c < 0x800" | "0x800 \<le> c" "c < 0x10000" | "0x10000 \<le> c" "c < 0x110000"
    using assms by (fastforce simp: scalar_value_def)
  then show ?thesis
  proof cases
    case 1
    then show ?thesis by (simp add: utf8_char_def)
  next
    case 2
    then have "followers (0xC0 + c div 64) = 1" by (auto simp: followers_def)
    with 2 assms show ?thesis
      by (simp add: utf8_char_def lead_bits_def smallest_def continuation_def Let_def)
  next
    case 3
    then have "followers (0xE0 + c div 4096) = 2" by (auto simp: followers_def)
    moreover have "(c div 4096) * 4096 + (c div 64 mod 64) * 64 + c mod 64 = c"
      using base64_digits(1,2) [of c] by linarith
    ultimately show ?thesis using 3 assms
      by (simp add: utf8_char_def lead_bits_def smallest_def continuation_def Let_def numeral_2_eq_2 algebra_simps)
  next
    case 4
    then have "followers (0xF0 + c div 262144) = 3" by (auto simp: followers_def)
    moreover have "(c div 262144) * 262144 + (c div 4096 mod 64) * 4096 + (c div 64 mod 64) * 64 + c mod 64 = c"
      using base64_digits [of c] by linarith
    ultimately show ?thesis using 4 assms
      by (simp add: utf8_char_def lead_bits_def smallest_def continuation_def Let_def numeral_3_eq_3 algebra_simps)
  qed
qed

lemma decode_incomplete:
  assumes "scalar_value c" "n < length (utf8_char c)"
  shows "utf8_decode_ignore (take n (utf8_char c)) = []"
proof -
  have cont: "utf8_decode_ignore bs = []" if "list_all continuation bs" for bs
    using that by (induction bs) (simp_all add: continuation_def followers_def Let_def)
  have short: "utf8_decode_ignore (b # bs) = []"
    if "0x80 \<le> b" "list_all continuation bs" "length bs < followers b" for b bs
    using that cont [of bs] by (simp add: Let_def)
  consider "c < 0x80" | "0x80 \<le> c" "c < 0x800" | "0x800 \<le> c" "c < 0x10000" | "0x10000 \<le> c" "c < 0x110000"
    using assms by (fastforce simp: scalar_value_def)
  then obtain b bs where u: "utf8_char c = b # bs" "list_all continuation bs" "followers b = length bs"
    "bs \<noteq> [] \<longrightarrow> 0x80 \<le> b"
  proof cases
    case 1
    then show ?thesis using that [of c "[]"] by (simp add: utf8_char_def followers_def)
  next
    case 2
    then have "2 \<le> c div 64" "c div 64 < 32" by auto
    with 2 show ?thesis
      by (intro that [of "0xC0 + c div 64" "[0x80 + c mod 64]"])
         (simp_all add: utf8_char_def continuation_def followers_def)
  next
    case 3
    then have "c div 4096 < 16" by auto
    with 3 show ?thesis
      by (intro that [of "0xE0 + c div 4096" "[0x80 + c div 64 mod 64, 0x80 + c mod 64]"])
         (simp_all add: utf8_char_def continuation_def followers_def)
  next
    case 4
    then have "c div 262144 < 5" by auto
    with 4 show ?thesis
      by (intro that [of "0xF0 + c div 262144"
            "[0x80 + c div 4096 mod 64, 0x80 + c div 64 mod 64, 0x80 + c mod 64]"])
         (simp_all add: utf8_char_def continuation_def followers_def)
  qed
  show ?thesis
  proof (cases n)
    case (Suc m)
    then have m: "m < length bs" using assms(2) u(1) by simp
    then have "list_all continuation (take m bs)" using u(2) by (simp add: list_all_length)
    moreover have "0x80 \<le> b" using u(4) m by auto
    ultimately show ?thesis using Suc m u(1,3) short [of b "take m bs"] by simp
  qed simp
qed

text \<open>Decoding a cut encoding gives the characters that are whole.\<close>

lemma decode_cut:
  "list_all scalar_value t \<Longrightarrow> utf8_decode_ignore (take n (utf8_bytes t)) = fit n t"
proof (induction t arbitrary: n)
  case (Cons c t)
  let ?u = "utf8_char c"
  show ?case
  proof (cases "length ?u \<le> n")
    case True
    with Cons decode_char [of c "take (n - length ?u) (utf8_bytes t)"] show ?thesis by simp
  next
    case False
    with Cons.prems decode_incomplete [of c n] show ?thesis by simp
  qed
qed simp

lemma fit_prefix: "fit n t = take (length (fit n t)) t"
  by (induction n t rule: fit.induct) auto

lemma fit_bytes: "length (utf8_bytes (fit n t)) \<le> n"
  by (induction n t rule: fit.induct) auto

lemma nat_str_mono: "m \<le> n \<Longrightarrow> length (nat_str m) \<le> length (nat_str n)"
proof (induction n arbitrary: m rule: nat_str.induct)
  case (1 n)
  have "length (nat_str m) = (if m < 10 then 1 else Suc (length (nat_str (m div 10))))" for m
    by (subst nat_str.simps) simp
  with 1 show ?case by (auto simp: div_le_mono) 
qed

lemma nat_str_ascii: "c \<in> set (nat_str n) \<Longrightarrow> (of_char c :: nat) < 128"
proof (induction n rule: nat_str.induct)
  case (1 n)
  then show ?case by (subst (asm) (2) nat_str.simps) (auto simp: digit_char_def split: if_splits)
qed

lemma marker_ascii: "list_all (\<lambda>c. c < 128) (marker n)"
  by (auto simp: marker_def codepoints_def list_all_iff dest: nat_str_ascii)

lemma ascii_bytes: "list_all (\<lambda>c. c < 128) t \<Longrightarrow> utf8_encode t = Inr t \<and> utf8_bytes t = t"
  by (induction t) (auto simp: utf8_encode_def utf8_char_def is_surrogate_def)

lemma marker_length: "m \<le> n \<Longrightarrow> length (marker m) \<le> length (marker n)"
  using nat_str_mono [of m n] by (simp add: marker_def codepoints_def)

lemma utf8_encode_scalar: "list_all scalar_value t \<Longrightarrow> utf8_encode t = Inr (utf8_bytes t)"
  by (auto simp: utf8_encode_def scalar_value_def list_all_iff list_ex_iff)

lemma ascii_scalar: "list_all (\<lambda>c. c < 128) t \<Longrightarrow> list_all scalar_value t"
  by (auto simp: list_all_iff scalar_value_def is_surrogate_def)



end
