(* ===== verification/Unicode_Text.thy ===== *)
theory Unicode_Text
  imports Output_Limits "HOL-Library.Sublist"
begin

text \<open>
  Texts as lists of code points: the operations of Python's \<open>str\<close>, \<open>int\<close> and \<open>re\<close> that the public
  concierge uses.

  \<^item> On ASCII every operation is fixed here; what the Unicode database says of other characters (lower
    case, white space, word characters, decimal digits, equality up to case) is the record \<open>unicode\<close>.
  \<^item> \<open>uni\<close> reads a literal in which \<open>{1EA1}\<close> stands for the code point with that hexadecimal number.
  \<^item> \<open>pattern\<close> is the fragment of regular expressions the sources search for. \<open>ends\<close> lists the ends of the
    matches at a position in the order in which the backtracking of \<open>re\<close> tries them, so that its first
    element is the match; \<open>ends_iff\<close> says that they are the matches of the relation \<open>matches\<close>.
\<close>

section \<open>Characters and literals\<close>

record unicode =
  u_lower :: "codepoints \<Rightarrow> codepoints"
  u_space :: "nat \<Rightarrow> bool"
  u_word :: "nat \<Rightarrow> bool"
  u_decimal :: "nat \<Rightarrow> nat option"
  u_same :: "nat \<Rightarrow> nat \<Rightarrow> bool"

definition hex_digit :: "char \<Rightarrow> nat" where
  "hex_digit c = (let n = of_char c in if n < 58 then n - 48 else n - 55)"

function uni :: "string \<Rightarrow> codepoints" where
  "uni [] = []"
| "uni (c # cs) =
     (if c = CHR ''{'' then foldl (\<lambda>n d. 16 * n + hex_digit d) 0 (take 4 cs) # uni (drop 5 cs)
      else of_char c # uni cs)"
  by pat_completeness auto
termination
  by (relation "measure length") auto

declare uni.simps [simp del]

definition ascii :: "nat \<Rightarrow> bool" where
  "ascii c = (c < 128)"

definition lower1 :: "nat \<Rightarrow> nat" where
  "lower1 c = (if 65 \<le> c \<and> c \<le> 90 then c + 32 else c)"

definition lower :: "unicode \<Rightarrow> codepoints \<Rightarrow> codepoints" where
  "lower U s = (if list_all ascii s then map lower1 s else u_lower U s)"

definition is_space :: "unicode \<Rightarrow> nat \<Rightarrow> bool" where
  "is_space U c = (if ascii c then 9 \<le> c \<and> c \<le> 13 \<or> 28 \<le> c \<and> c \<le> 32 else u_space U c)"

definition is_word :: "unicode \<Rightarrow> nat \<Rightarrow> bool" where
  "is_word U c =
     (if ascii c then 48 \<le> c \<and> c \<le> 57 \<or> 65 \<le> c \<and> c \<le> 90 \<or> 97 \<le> c \<and> c \<le> 122 \<or> c = 95 else u_word U c)"

definition decimal :: "unicode \<Rightarrow> nat \<Rightarrow> nat option" where
  "decimal U c = (if ascii c then (if 48 \<le> c \<and> c \<le> 57 then Some (c - 48) else None) else u_decimal U c)"

text \<open>Equality of a literal and a character under \<open>re.IGNORECASE\<close>.\<close>

definition same_ci :: "unicode \<Rightarrow> nat \<Rightarrow> nat \<Rightarrow> bool" where
  "same_ci U l c = (l = c \<or> (if ascii l \<and> ascii c then lower1 l = lower1 c else u_same U l c))"

definition strip_u :: "unicode \<Rightarrow> codepoints \<Rightarrow> codepoints" where
  "strip_u U s = rev (dropWhile (is_space U) (rev (dropWhile (is_space U) s)))"

definition join_u :: "codepoints \<Rightarrow> codepoints list \<Rightarrow> codepoints" where
  "join_u sep xs = (case xs of [] \<Rightarrow> [] | y # ys \<Rightarrow> y @ concat (map (\<lambda>s. sep @ s) ys))"

text \<open>\<open>int(text)\<close>, \<open>None\<close> when it raises \<open>ValueError\<close>.\<close>

fun int_digits :: "unicode \<Rightarrow> bool \<Rightarrow> int \<Rightarrow> codepoints \<Rightarrow> int option" where
  "int_digits U seen n [] = (if seen then Some n else None)"
| "int_digits U seen n (c # cs) =
     (if c = 95 then (if seen then int_digits U False n cs else None)
      else case decimal U c of None \<Rightarrow> None | Some d \<Rightarrow> int_digits U True (10 * n + int d) cs)"

definition int_of_text :: "unicode \<Rightarrow> codepoints \<Rightarrow> int option" where
  "int_of_text U s =
     (let t = strip_u U s;
          signed = t \<noteq> [] \<and> hd t \<in> {43, 45};
          ds = (if signed then tl t else t)
      in if 4300 < length (filter (\<lambda>c. c \<noteq> 95) ds) then None
         else map_option (\<lambda>n. if signed \<and> hd t = 45 then - n else n) (int_digits U False 0 ds))"

text \<open>\<open>re.findall("[...]+", s)\<close> for a class of characters\<close>

function runs_of :: "(nat \<Rightarrow> bool) \<Rightarrow> codepoints \<Rightarrow> codepoints list" where
  "runs_of p [] = []"
| "runs_of p (c # cs) =
     (if p c then (c # takeWhile p cs) # runs_of p (dropWhile p cs) else runs_of p cs)"
  by pat_completeness auto
termination
  by (relation "measure (\<lambda>(p, s). length s)") (auto simp: length_dropWhile_le less_Suc_eq_le)

section \<open>Searching for a pattern\<close>

datatype pattern =
    One "nat \<Rightarrow> bool"
  | Many "nat \<Rightarrow> bool" nat
  | Then pattern pattern
  | Either pattern pattern
  | Empty
  | Word_edge
  | Line_begin
  | Text_begin
  | Text_end

definition word_at :: "unicode \<Rightarrow> codepoints \<Rightarrow> nat \<Rightarrow> bool" where
  "word_at U s i = (i < length s \<and> is_word U (s ! i))"

definition holds_at :: "unicode \<Rightarrow> pattern \<Rightarrow> codepoints \<Rightarrow> nat \<Rightarrow> bool" where
  "holds_at U r s i =
     (case r of
        Word_edge \<Rightarrow> (0 < i \<and> word_at U s (i - 1)) \<noteq> word_at U s i
      | Line_begin \<Rightarrow> i = 0 \<or> s ! (i - 1) = 10
      | Text_begin \<Rightarrow> i = 0
      | Text_end \<Rightarrow> i = length s \<or> (i + 1 = length s \<and> s ! i = 10)
      | _ \<Rightarrow> True)"

fun ends :: "unicode \<Rightarrow> pattern \<Rightarrow> codepoints \<Rightarrow> nat \<Rightarrow> nat list" where
  "ends U (One p) s i = (if i < length s \<and> p (s ! i) then [i + 1] else [])"
| "ends U (Many p n) s i = map (\<lambda>j. i + j) (rev [n..<length (takeWhile p (drop i s)) + 1])"
| "ends U (Then a b) s i = concat (map (ends U b s) (ends U a s i))"
| "ends U (Either a b) s i = ends U a s i @ ends U b s i"
| "ends U r s i = (if holds_at U r s i then [i] else [])"

text \<open>The span of the first match, as \<open>re.search\<close> finds it.\<close>

definition search :: "unicode \<Rightarrow> pattern \<Rightarrow> codepoints \<Rightarrow> (nat \<times> nat) option" where
  "search U r s =
     map_option (\<lambda>i. (i, hd (ends U r s i))) (List.find (\<lambda>i. ends U r s i \<noteq> []) [0..<length s + 1])"

definition span :: "codepoints \<Rightarrow> nat \<times> nat \<Rightarrow> codepoints" where
  "span s ij = take (snd ij - fst ij) (drop (fst ij) s)"

definition lit :: "codepoints \<Rightarrow> pattern" where
  "lit t = foldr (\<lambda>c. Then (One (\<lambda>x. x = c))) t Empty"

definition lit_ci :: "unicode \<Rightarrow> codepoints \<Rightarrow> pattern" where
  "lit_ci U t = foldr (\<lambda>c. Then (One (same_ci U c))) t Empty"

definition either :: "pattern list \<Rightarrow> pattern" where
  "either rs = foldr Either (butlast rs) (last rs)"

definition seq :: "pattern list \<Rightarrow> pattern" where
  "seq rs = foldr Then rs Empty"

section \<open>What a pattern matches\<close>

inductive matches :: "unicode \<Rightarrow> codepoints \<Rightarrow> pattern \<Rightarrow> nat \<Rightarrow> nat \<Rightarrow> bool" for U s where
  One: "i < length s \<Longrightarrow> p (s ! i) \<Longrightarrow> matches U s (One p) i (i + 1)"
| Many: "n \<le> k \<Longrightarrow> i + k \<le> length s \<or> k = 0 \<Longrightarrow> (\<And>j. j < k \<Longrightarrow> p (s ! (i + j))) \<Longrightarrow> matches U s (Many p n) i (i + k)"
| Then: "matches U s a i j \<Longrightarrow> matches U s b j k \<Longrightarrow> matches U s (Then a b) i k"
| Left: "matches U s a i j \<Longrightarrow> matches U s (Either a b) i j"
| Right: "matches U s b i j \<Longrightarrow> matches U s (Either a b) i j"
| Here: "r \<in> {Empty, Word_edge, Line_begin, Text_begin, Text_end} \<Longrightarrow> holds_at U r s i \<Longrightarrow> matches U s r i i"

inductive_simps matches_simps:
  "matches U s (One p) i k" "matches U s (Many p n) i k" "matches U s (Then a b) i k" "matches U s (Either a b) i k"
  "matches U s Empty i k" "matches U s Word_edge i k" "matches U s Line_begin i k" "matches U s Text_begin i k"
  "matches U s Text_end i k"

lemma run_length_iff:
  "k \<le> length (takeWhile p (drop i s)) \<longleftrightarrow> (i + k \<le> length s \<or> k = 0) \<and> (\<forall>j<k. p (s ! (i + j)))"
proof -
  have "k \<le> length (takeWhile p xs) \<longleftrightarrow> k \<le> length xs \<and> (\<forall>j<k. p (xs ! j))" for xs
  proof (induction xs arbitrary: k)
    case (Cons x xs)
    then show ?case by (cases k) (auto simp: less_Suc_eq_0_disj)
  next
    case Nil
    show ?case by auto
  qed
  from this [of "drop i s"] show ?thesis by auto
qed

lemma ends_iff: "k \<in> set (ends U r s i) \<longleftrightarrow> matches U s r i k"
proof (induction r arbitrary: i k)
  case (Many p n)
  have "k \<in> set (ends U (Many p n) s i) \<longleftrightarrow> (\<exists>m. n \<le> m \<and> m \<le> length (takeWhile p (drop i s)) \<and> k = i + m)"
    by (auto simp: less_Suc_eq_le)
  then show ?case unfolding run_length_iff by (auto simp: matches_simps)
qed (auto simp: matches_simps)

lemma search_None: "search U r s = None \<longleftrightarrow> (\<forall>i\<le>length s. \<forall>k. \<not> matches U s r i k)"
proof -
  have "ends U r s i = [] \<longleftrightarrow> (\<forall>k. \<not> matches U s r i k)" for i
    using ends_iff [of _ U r s i] by (metis all_not_in_conv set_empty)
  then show ?thesis by (auto simp: search_def find_None_iff less_Suc_eq_le simp del: upt_Suc)
qed

lemma find_upt:
  assumes "List.find P [0..<n] = Some a"
  shows "a < n" "P a" "\<And>b. b < a \<Longrightarrow> \<not> P b"
  using assms by (auto simp: find_Some_iff)

lemma search_Some:
  assumes "search U r s = Some (i, k)"
  shows "matches U s r i k" "i \<le> length s" "\<And>j l. j < i \<Longrightarrow> \<not> matches U s r j l"
proof -
  from assms obtain a where a: "a < length s + 1" "ends U r s a \<noteq> []" "i = a" "k = hd (ends U r s a)"
    "\<And>b. b < a \<Longrightarrow> ends U r s b = []"
    unfolding search_def by (auto dest: find_upt simp del: upt_Suc)
  then show "matches U s r i k" "i \<le> length s" using ends_iff [of k U r s i] by auto
  show "\<not> matches U s r j l" if "j < i" for j l
    using a(3) a(5) [of j] ends_iff [of l U r s j] that by auto
qed

lemma strip_u_idem [simp]: "strip_u U (strip_u U s) = strip_u U s"
proof -
  have *: "dropWhile p (rev (dropWhile p (rev xs))) = rev (dropWhile p (rev xs))" if "xs = dropWhile p xs" for p and xs :: "nat list"
    using that by (metis dropWhile_eq_self_iff hd_dropWhile hd_rev last_appendR rev_is_Nil_conv rev_rev_ident takeWhile_dropWhile_id)
  show ?thesis using * [of "dropWhile (is_space U) s" "is_space U"] by (simp add: strip_u_def)
qed

end
