(* ===== verification/Api_Access.thy ===== *)
theory Api_Access
  imports Principal
begin

text \<open>
  The guards of \<open>agent_os/server/api.py\<close>: who may call the private API, the permission
  administration and the public concierge.

  \<^item> A \<open>connection\<close> has the headers by their lower-case names, the peer's host and whether it is a
    WebSocket. The settings read from the environment are arguments.
  \<^item> \<open>protect_private_api\<close> is the middleware; when it lets a request through it returns the
    attributes it sets on \<open>request.state\<close>, which the principal resolver reads.
  \<^item> \<open>rate_limit\<close> is the per-client window of the public concierge, with monotonic clock readings in
    ticks of the clock and the window in the same unit.
\<close>

section \<open>Tokens\<close>

record connection =
  conn_headers :: "string \<Rightarrow> string option"
  conn_client_host :: "string option"
  conn_is_websocket :: bool

definition header :: "connection \<Rightarrow> string \<Rightarrow> string" where
  "header c k = strip (case conn_headers c k of None \<Rightarrow> [] | Some v \<Rightarrow> v)"

definition bearer_token :: "string \<Rightarrow> string option" where
  "bearer_token b = (if startswith (py_lower b) ''bearer '' then Some (strip (drop 7 b)) else None)"

fun split_commas :: "string \<Rightarrow> string list" where
  "split_commas [] = [[]]"
| "split_commas (c # cs) =
     (if c = CHR '','' then [] # split_commas cs
      else (case split_commas cs of [] \<Rightarrow> [[c]] | x # xs \<Rightarrow> (c # x) # xs))"

definition WEBSOCKET_TOKEN_PROTOCOL_PREFIX :: string where
  "WEBSOCKET_TOKEN_PROTOCOL_PREFIX = ''agent-os-token.''"

definition requested_websocket_protocols :: "connection \<Rightarrow> string list" where
  "requested_websocket_protocols c =
     filter (\<lambda>p. p \<noteq> [])
       (map strip (split_commas (case conn_headers c ''sec-websocket-protocol'' of None \<Rightarrow> [] | Some v \<Rightarrow> v)))"

definition execution_token_from_connection :: "connection \<Rightarrow> string" where
  "execution_token_from_connection c =
     (let token = (case bearer_token (header c ''authorization'') of
                     Some t \<Rightarrow> t | None \<Rightarrow> header c ''x-execution-token'')
      in if token \<noteq> [] \<or> \<not> conn_is_websocket c then token
         else (case find (\<lambda>p. startswith p WEBSOCKET_TOKEN_PROTOCOL_PREFIX)
                      (requested_websocket_protocols c) of
                 Some p \<Rightarrow> drop (length WEBSOCKET_TOKEN_PROTOCOL_PREFIX) p
               | None \<Rightarrow> token))"

text \<open>\<open>hmac.compare_digest\<close> on strings: equality, for ASCII strings only.\<close>

definition is_ascii :: "string \<Rightarrow> bool" where
  "is_ascii s = list_all (\<lambda>c. (of_char c :: nat) < 128) s"

definition compare_digest :: "string \<Rightarrow> string \<Rightarrow> bool result" where
  "compare_digest a b =
     (if is_ascii a \<and> is_ascii b then Inr (a = b)
      else Inl (TypeError ''comparing strings with non-ASCII characters is not supported''))"

datatype 'a reply = Pass 'a | HttpError int string

definition require_permissions_admin :: "string option \<Rightarrow> connection \<Rightarrow> unit reply result" where
  "require_permissions_admin admin_token_env c =
     (let token = strip (case admin_token_env of None \<Rightarrow> [] | Some t \<Rightarrow> t)
      in if token = [] then Inr (HttpError 404 ''Permissions administration is not configured'')
         else
           (let provided = (case bearer_token (header c ''authorization'') of
                              Some t \<Rightarrow> t | None \<Rightarrow> header c ''x-admin-token'')
            in bind_result (compare_digest provided token) (\<lambda>same.
                 Inr (if same then Pass () else HttpError 403 ''Forbidden''))))"

section \<open>The private API\<close>

record auth_state =
  authenticated_with_token :: bool
  is_loopback :: bool

record api_config =
  cors_origins :: "string list"
  execution_token_env :: "string option"

definition connection_loopback :: "host_lib \<Rightarrow> connection \<Rightarrow> bool" where
  "connection_loopback h c =
     (case conn_client_host c of None \<Rightarrow> False | Some host \<Rightarrow> is_loopback_client h (PStr host))"

definition check_private_api_access ::
  "host_lib \<Rightarrow> api_config \<Rightarrow> connection \<Rightarrow> (string + auth_state) result" where
  "check_private_api_access h cfg c =
     (let origin = header c ''origin''
      in if origin \<noteq> [] \<and> origin \<notin> set (cors_origins cfg) then Inr (Inl ''Origin is not allowed'')
         else
           (let required_token = strip (case execution_token_env cfg of None \<Rightarrow> [] | Some t \<Rightarrow> t);
                loopback = connection_loopback h c
            in if required_token = [] then
                 (if loopback
                  then Inr (Inr \<lparr>authenticated_with_token = False, is_loopback = True\<rparr>)
                  else Inr (Inl ''Private execution API requires AGENT_OS_EXECUTION_TOKEN for non-loopback clients''))
               else bind_result (compare_digest (execution_token_from_connection c) required_token)
                 (\<lambda>same. if \<not> same then Inr (Inl ''Forbidden'')
                          else Inr (Inr \<lparr>authenticated_with_token = True, is_loopback = loopback\<rparr>))))"

definition private_path :: "string \<Rightarrow> bool" where
  "private_path path =
     (startswith path ''/api/'' \<and> \<not> (path = ''/api/health'' \<or> startswith path ''/api/public/''))"

definition protect_private_api ::
  "host_lib \<Rightarrow> api_config \<Rightarrow> string \<Rightarrow> connection \<Rightarrow> auth_state reply result" where
  "protect_private_api h cfg path c =
     (if private_path path
      then bind_result (check_private_api_access h cfg c) (\<lambda>r.
             case r of Inl err \<Rightarrow> Inr (HttpError 403 err) | Inr st \<Rightarrow> Inr (Pass st))
      else Inr (Pass \<lparr>authenticated_with_token = False, is_loopback = connection_loopback h c\<rparr>))"

text \<open>The request object the endpoints hand to the resolver: the state the middleware set and the
  client.\<close>

definition request_object :: "connection \<Rightarrow> auth_state \<Rightarrow> context_object" where
  "request_object c st =
     \<lparr>obj_schedule_id = None,
      obj_state = Some (Some \<lparr>state_authenticated_with_token = Some (PBool (authenticated_with_token st)),
                              state_is_loopback = Some (PBool (is_loopback st))\<rparr>),
      obj_client = Some (map_option PStr (conn_client_host c))\<rparr>"

lemma compare_digest_True: "compare_digest a b = Inr True \<longleftrightarrow> a = b \<and> is_ascii a"
  by (auto simp: compare_digest_def split: if_splits)

text \<open>C14: the private API is closed to strangers. When the middleware lets a request for a private
  path through, its origin is absent or configured, and either it presented the configured
  execution token, or no token is configured and the peer is a loopback client; the principal that
  the endpoints then record is the token service in the first case and the local user in the
  second.\<close>

theorem private_api_guarded:
  assumes "private_path path" "protect_private_api h cfg path c = Inr (Pass st)"
    and "resolve_principal h (CtxObject (request_object c st)) = Inr p"
  shows "(header c ''origin'' = [] \<or> header c ''origin'' \<in> set (cors_origins cfg)) \<and>
         (let required = strip (case execution_token_env cfg of None \<Rightarrow> [] | Some t \<Rightarrow> t)
          in (required \<noteq> [] \<and> execution_token_from_connection c = required \<and>
              authenticated_with_token st \<and> principal_kind p = ''service'') \<or>
             (required = [] \<and> connection_loopback h c \<and> \<not> authenticated_with_token st \<and>
              principal_id p = ''local:'' @ get_local_os_user h))"
proof -
  from assms(1,2) have acc: "check_private_api_access h cfg c = Inr (Inr st)"
    by (auto simp: protect_private_api_def split: sum.splits if_splits) (metis sum.exhaust)
  then have origin: "header c ''origin'' = [] \<or> header c ''origin'' \<in> set (cors_origins cfg)"
    by (auto simp: check_private_api_access_def Let_def split: if_splits)
  let ?req = "strip (case execution_token_env cfg of None \<Rightarrow> [] | Some t \<Rightarrow> t)"
  have who: "resolve_principal h (CtxObject (request_object c st)) =
      (if \<not> authenticated_with_token st \<and> is_loopback st then local_principal h
       else mk_principal ''token:execution'' ''service'' ''Execution Token'' None)"
    by (simp add: resolve_principal_def resolve_http_def request_object_def)
  show ?thesis
  proof (cases "?req = []")
    case True
    with acc have "connection_loopback h c" "st = \<lparr>authenticated_with_token = False, is_loopback = True\<rparr>"
      by (auto simp: check_private_api_access_def Let_def split: if_splits)
    with True origin who assms(3) show ?thesis by (auto simp: local_principal_eq)
  next
    case False
    with acc have "compare_digest (execution_token_from_connection c) ?req = Inr True"
      "authenticated_with_token st"
      by (auto simp: check_private_api_access_def Let_def split: if_splits)
    with False origin who assms(3) show ?thesis
      by (auto simp: compare_digest_True token_principal_eq Let_def)
  qed
qed

section \<open>The rate limit of the public concierge\<close>

type_synonym buckets = "string \<Rightarrow> int list option"

definition client_key :: "connection \<Rightarrow> string" where
  "client_key c =
     (let forwarded = (case conn_headers c ''x-forwarded-for'' of None \<Rightarrow> [] | Some v \<Rightarrow> v);
          k = strip (takeWhile (\<lambda>x. x \<noteq> CHR '','') forwarded);
          k2 = (if k = [] then (case conn_client_host c of None \<Rightarrow> [] | Some h \<Rightarrow> h) else k)
      in if k2 = [] then ''unknown'' else k2)"

definition rate_limit :: "int \<Rightarrow> int \<Rightarrow> string \<Rightarrow> int \<Rightarrow> buckets \<Rightarrow> bool \<times> buckets" where
  "rate_limit limit window key now bs =
     (if limit \<le> 0 then (True, bs)
      else
        (let bucket = filter (\<lambda>ts. now - ts < window) (case bs key of None \<Rightarrow> [] | Some b \<Rightarrow> b)
         in if int (length bucket) \<ge> limit then (False, bs(key \<mapsto> bucket))
            else (True, bs(key \<mapsto> bucket @ [now]))))"

fun rate_run :: "int \<Rightarrow> int \<Rightarrow> (string \<times> int) list \<Rightarrow> buckets \<Rightarrow> (string \<times> int) list \<times> buckets" where
  "rate_run limit window [] bs = ([], bs)"
| "rate_run limit window ((k, now) # reqs) bs =
     (let (ok, bs1) = rate_limit limit window k now bs;
          (acc, bs2) = rate_run limit window reqs bs1
      in ((if ok then [(k, now)] else []) @ acc, bs2))"

definition times_of :: "string \<Rightarrow> (string \<times> int) list \<Rightarrow> int list" where
  "times_of k acc = map snd (filter (\<lambda>(k', _). k' = k) acc)"

definition in_window :: "int \<Rightarrow> int \<Rightarrow> int list \<Rightarrow> nat" where
  "in_window window t ts = length (filter (\<lambda>s. t - window < s \<and> s \<le> t) ts)"

text \<open>What the buckets know of the requests accepted so far: the recent ones, exactly.\<close>

definition limiter_inv :: "int \<Rightarrow> int \<Rightarrow> int \<Rightarrow> (string \<times> int) list \<Rightarrow> buckets \<Rightarrow> bool" where
  "limiter_inv limit window seen acc bs =
     ((\<forall>k. \<forall>s\<in>set (times_of k acc). s \<le> seen) \<and>
      (\<forall>k. \<forall>n\<ge>seen. filter (\<lambda>s. n - s < window) (case bs k of None \<Rightarrow> [] | Some b \<Rightarrow> b) =
                      filter (\<lambda>s. n - s < window) (times_of k acc)) \<and>
      (\<forall>k. \<forall>t\<in>set (times_of k acc). int (in_window window t (times_of k acc)) \<le> limit))"

lemma times_of_append: "times_of k (xs @ ys) = times_of k xs @ times_of k ys"
  by (simp add: times_of_def)

lemma times_of_snoc: "times_of k (acc @ [(k', t)]) = times_of k acc @ (if k = k' then [t] else [])"
  by (simp add: times_of_def)

lemma filter_window_later:
  "n \<le> m \<Longrightarrow> filter (\<lambda>s. m - s < w) (filter (\<lambda>s. n - s < w) xs) = filter (\<lambda>s. m - s < w) (xs :: int list)"
  by (auto simp: intro!: filter_cong)

lemma rate_limit_inv:
  assumes "0 < limit" "0 < window" "seen \<le> now" "limiter_inv limit window seen acc bs"
    and "rate_limit limit window key now bs = (ok, bs')"
  shows "limiter_inv limit window now (if ok then acc @ [(key, now)] else acc) bs'"
proof -
  define b where "b = filter (\<lambda>ts. now - ts < window) (case bs key of None \<Rightarrow> [] | Some x \<Rightarrow> x)"
  have le: "s \<le> seen" if "s \<in> set (times_of k acc)" for k s
    using assms(4) that by (simp add: limiter_inv_def)
  have known: "filter (\<lambda>s. n - s < window) (case bs k of None \<Rightarrow> [] | Some b \<Rightarrow> b) =
      filter (\<lambda>s. n - s < window) (times_of k acc)" if "seen \<le> n" for k n
    using assms(4) that by (simp add: limiter_inv_def)
  have few: "int (in_window window t (times_of k acc)) \<le> limit" if "t \<in> set (times_of k acc)" for k t
    using assms(4) that by (simp add: limiter_inv_def)
  have bk: "b = filter (\<lambda>s. now - s < window) (times_of key acc)"
    unfolding b_def using known [OF assms(3)] .
  have later: "filter (\<lambda>s. n - s < window) b = filter (\<lambda>s. n - s < window) (times_of key acc)"
    if "now \<le> n" for n using filter_window_later [OF that] by (simp add: bk)
  show ?thesis
  proof (cases "int (length b) \<ge> limit")
    case True
    with assms(1,5) have r: "\<not> ok" "bs' = bs(key \<mapsto> b)" by (auto simp: rate_limit_def Let_def b_def)
    have "\<forall>k. \<forall>n\<ge>now. filter (\<lambda>s. n - s < window) (case bs' k of None \<Rightarrow> [] | Some b \<Rightarrow> b) =
        filter (\<lambda>s. n - s < window) (times_of k acc)"
      using later known assms(3) by (simp add: r)
    with r le few assms(3) show ?thesis unfolding limiter_inv_def by fastforce
  next
    case False
    with assms(1,5) have r: "ok" "bs' = bs(key \<mapsto> b @ [now])"
      by (auto simp: rate_limit_def Let_def b_def)
    let ?acc = "acc @ [(key, now)]"
    have known': "filter (\<lambda>s. n - s < window) (case bs' k of None \<Rightarrow> [] | Some b \<Rightarrow> b) =
        filter (\<lambda>s. n - s < window) (times_of k ?acc)" if "now \<le> n" for k n
      using later [OF that] known [of n k] that assms(3) by (auto simp: r times_of_snoc)
    have le': "s \<le> now" if "s \<in> set (times_of k ?acc)" for k s
      using that le assms(3) by (fastforce simp: times_of_snoc split: if_splits)
    have at_now: "int (in_window window now (times_of key ?acc)) \<le> limit"
    proof -
      have "filter (\<lambda>s. now - window < s \<and> s \<le> now) (times_of key acc) = b"
        unfolding bk using le assms(3) by (intro filter_cong) (auto, fastforce)
      then show ?thesis using False assms(2) by (simp add: in_window_def times_of_snoc)
    qed
    have few': "int (in_window window t (times_of k ?acc)) \<le> limit"
      if t: "t \<in> set (times_of k ?acc)" for k t
    proof (cases "k = key \<and> t = now")
      case True
      with at_now show ?thesis by simp
    next
      case False
      then have "t \<in> set (times_of k acc)" using t by (auto simp: times_of_snoc split: if_splits)
      moreover have "k = key \<Longrightarrow> t < now" using le' [OF t] False by auto
      ultimately show ?thesis
        using few by (auto simp: in_window_def times_of_snoc)
    qed
    show ?thesis using r(1) known' le' few' unfolding limiter_inv_def by simp
  qed
qed

lemma rate_run_inv:
  assumes "0 < limit" "0 < window" "limiter_inv limit window seen acc bs"
    and "sorted (seen # map snd reqs)"
  shows "\<exists>seen'. limiter_inv limit window seen' (acc @ fst (rate_run limit window reqs bs))
           (snd (rate_run limit window reqs bs))"
  using assms(3,4)
proof (induction reqs arbitrary: seen acc bs)
  case (Cons r reqs)
  obtain k now where r: "r = (k, now)" by (cases r)
  obtain ok bs1 where one: "rate_limit limit window k now bs = (ok, bs1)" by fastforce
  have "seen \<le> now" "sorted (now # map snd reqs)" using Cons.prems(2) by (simp_all add: r)
  with Cons.IH [OF rate_limit_inv [OF assms(1,2) _ Cons.prems(1) one]] show ?case
    by (cases ok) (simp_all add: r one case_prod_beta)
qed auto

text \<open>The rate limit holds. However requests arrive, with a clock that does not run backwards,
  the accepted requests of one client key in any window that ends at one of them are at most
  \<open>limit\<close>.\<close>

theorem rate_limit_holds:
  assumes "0 < limit" "0 < window" "sorted (map snd reqs)"
    and "(key, t) \<in> set (fst (rate_run limit window reqs (\<lambda>_. None)))"
  shows "int (in_window window t (times_of key (fst (rate_run limit window reqs (\<lambda>_. None))))) \<le> limit"
proof (cases reqs)
  case Nil
  with assms(4) show ?thesis by simp
next
  case (Cons r rs)
  have i: "limiter_inv limit window (snd r) [] (\<lambda>_. None)" by (simp add: limiter_inv_def times_of_def)
  have "sorted (snd r # map snd reqs)" using assms(3) by (simp add: Cons)
  from rate_run_inv [OF assms(1,2) i this] obtain seen' where
    "limiter_inv limit window seen' (fst (rate_run limit window reqs (\<lambda>_. None)))
       (snd (rate_run limit window reqs (\<lambda>_. None)))" by auto
  moreover have "t \<in> set (times_of key (fst (rate_run limit window reqs (\<lambda>_. None))))"
    using assms(4) by (force simp: times_of_def)
  ultimately show ?thesis by (simp add: limiter_inv_def)
qed

section \<open>Samples\<close>

definition sample_connection :: connection where
  "sample_connection = \<lparr>conn_headers = (\<lambda>k. if k = ''authorization'' then Some ''Bearer s3cret'' else None),
     conn_client_host = Some ''10.0.0.7'', conn_is_websocket = False\<rparr>"

definition sample_config :: api_config where
  "sample_config = \<lparr>cors_origins = [], execution_token_env = Some ''s3cret''\<rparr>"

theorem private_api_guarded_witness:
  "\<exists>st p. protect_private_api sample_host sample_config ''/api/runs'' sample_connection = Inr (Pass st) \<and>
     resolve_principal sample_host (CtxObject (request_object sample_connection st)) = Inr p \<and>
     principal_kind p = ''service''"
proof -
  have path: "private_path ''/api/runs''" by code_simp
  have s: "strip ''Bearer s3cret'' = ''Bearer s3cret''" "strip ''s3cret'' = ''s3cret''"
    "bearer_token ''Bearer s3cret'' = Some ''s3cret''" "strip [] = []" "is_ascii ''s3cret''"
    by code_simp+
  obtain b where p: "protect_private_api sample_host sample_config ''/api/runs'' sample_connection =
      Inr (Pass \<lparr>authenticated_with_token = True, is_loopback = b\<rparr>)"
    by (simp add: protect_private_api_def path check_private_api_access_def header_def
        sample_connection_def sample_config_def s execution_token_from_connection_def
        compare_digest_def)
  obtain q where q: "resolve_principal sample_host (CtxObject (request_object sample_connection
      \<lparr>authenticated_with_token = True, is_loopback = b\<rparr>)) = Inr q"
    by (simp add: resolve_principal_def request_object_def resolve_http_def token_principal_eq)
  from private_api_guarded [OF path p q] p q show ?thesis
    by (auto simp: sample_config_def s Let_def)
qed

theorem rate_limit_holds_witness:
  "fst (rate_run 2 60 [(''a'', 0), (''a'', 10), (''a'', 20), (''a'', 61)] (\<lambda>_. None)) =
     [(''a'', 0), (''a'', 10), (''a'', 61)] \<and>
   int (in_window 60 61 (times_of ''a''
     (fst (rate_run 2 60 [(''a'', 0), (''a'', 10), (''a'', 20), (''a'', 61)] (\<lambda>_. None))))) \<le> 2"
  using rate_limit_holds [of 2 60 "[(''a'', 0), (''a'', 10), (''a'', 20), (''a'', 61)]" "''a''" 61]
  by (simp add: rate_limit_def Let_def)

end
