(* ===== verification/Events.thy ===== *)
theory Events
  imports Runs
begin

text \<open>
  \<open>agent_os/events.py\<close>: the lifecycle events that leave the process.

  \<^item> \<open>build_lifecycle_payload\<close> and \<open>emit_run_lifecycle_event\<close> build the payload;
    \<open>dispatch_event\<close> hands it to the configured sinks, each a function on the outside world that
    may raise. The clock reading is an argument.
  \<^item> The theorems: a payload has a fixed set of fields and does not depend on the task, the error
    or the outcome of the run, and one failing sink neither stops the others nor the caller.
\<close>

definition SUPPORTED_LIFECYCLE_EVENTS :: "string list" where
  "SUPPORTED_LIFECYCLE_EVENTS = [''run.created'', ''run.interrupted'', ''run.approved'',
     ''run.completed'', ''run.failed'', ''run.cancelled'']"

record actor =
  actor_id :: string
  actor_kind :: string
  actor_display :: string
  actor_on_behalf_of :: "string option"

definition build_lifecycle_payload ::
  "datetime \<Rightarrow> string \<Rightarrow> string \<Rightarrow> string \<Rightarrow> string \<Rightarrow> actor \<Rightarrow> string option \<Rightarrow> pydict result" where
  "build_lifecycle_payload now event_type rid workspace_id status act thread =
     (if event_type \<notin> set SUPPORTED_LIFECYCLE_EVENTS
      then Inl (ValueError ''Unsupported lifecycle event type'')
      else
        (let actor_data = [(''id'', PStr (actor_id act)), (''kind'', PStr (actor_kind act)),
               (''display'', PStr (actor_display act))] @
               (if opt_truthy (actor_on_behalf_of act)
                then [(''on_behalf_of'', PStr (the (actor_on_behalf_of act)))] else []);
             references = (if opt_truthy thread then [(''thread_id'', PStr (the thread))] else [])
         in Inr [(''event'', PStr event_type), (''run_id'', PStr rid),
                 (''workspace_id'', PStr workspace_id), (''status'', PStr status),
                 (''timestamp'', PStr (isoformat now)), (''actor'', PDict actor_data),
                 (''references'', PDict references)]))"

type_synonym 'o sink = "pydict \<Rightarrow> 'o \<Rightarrow> unit result \<times> 'o"

text \<open>A sink that raises is logged and skipped; what it did before it raised stays done.\<close>

fun dispatch_event :: "'o sink list \<Rightarrow> pydict \<Rightarrow> 'o \<Rightarrow> 'o" where
  "dispatch_event [] event w = w"
| "dispatch_event (s # sinks) event w = dispatch_event sinks event (snd (s event w))"

definition lifecycle_actor :: "principal option \<Rightarrow> run_row option \<Rightarrow> actor" where
  "lifecycle_actor pr run =
     (case pr of
        Some p \<Rightarrow> \<lparr>actor_id = principal_id p, actor_kind = principal_kind p,
                   actor_display = principal_display p,
                   actor_on_behalf_of = principal_on_behalf_of p\<rparr>
      | None \<Rightarrow>
          (case run of
             None \<Rightarrow> \<lparr>actor_id = ''local:operator'', actor_kind = ''human'',
                      actor_display = ''operator'', actor_on_behalf_of = None\<rparr>
           | Some r \<Rightarrow>
               (let i = or_str (run_created_by r) ''local:operator''
                in \<lparr>actor_id = i, actor_kind = or_str (run_created_by_kind r) ''human'',
                    actor_display = i, actor_on_behalf_of = None\<rparr>)))"

definition lifecycle_thread ::
  "principal option \<Rightarrow> run_row option \<Rightarrow> string option \<Rightarrow> string option" where
  "lifecycle_thread pr run thread =
     (case (pr, run) of
        (None, Some r) \<Rightarrow> if opt_truthy thread then thread else Some (thread_id r)
      | _ \<Rightarrow> thread)"

definition lifecycle_payload ::
  "datetime \<Rightarrow> string \<Rightarrow> string \<Rightarrow> string \<Rightarrow> string \<Rightarrow> principal option \<Rightarrow> run_row option
     \<Rightarrow> string option \<Rightarrow> pydict result" where
  "lifecycle_payload now event_type rid workspace_id status pr run thread =
     build_lifecycle_payload now event_type rid workspace_id status (lifecycle_actor pr run)
       (lifecycle_thread pr run thread)"

definition emit_run_lifecycle_event ::
  "'o sink list \<Rightarrow> datetime \<Rightarrow> string \<Rightarrow> string \<Rightarrow> string \<Rightarrow> string \<Rightarrow> principal option
     \<Rightarrow> run_row option \<Rightarrow> string option \<Rightarrow> 'o \<Rightarrow> 'o result" where
  "emit_run_lifecycle_event sinks now event_type rid workspace_id status pr run thread w =
     bind_result (lifecycle_payload now event_type rid workspace_id status pr run thread)
       (\<lambda>payload. Inr (dispatch_event sinks payload w))"

text \<open>What of a run may leave the process: everything else is erased.\<close>

definition erase_private :: "run_row \<Rightarrow> run_row" where
  "erase_private r = r\<lparr>run_task := None, run_error := None, run_workspace := None,
     run_workspace_id := None, run_status := [], run_created_at := [], run_updated_at := [],
     run_ended_at := None, run_id := []\<rparr>"

text \<open>Lifecycle events are sanitised. A payload has exactly seven fields, its actor at most four
  and its references at most the thread id; and it is the same payload for two runs that differ in
  their task, error, workspace, status or times, so none of these leaks through the run record.\<close>

theorem lifecycle_payload_sanitised:
  assumes "lifecycle_payload now ev rid ws st pr run th = Inr p"
  shows "map fst p = [''event'', ''run_id'', ''workspace_id'', ''status'', ''timestamp'', ''actor'',
           ''references''] \<and> ev \<in> set SUPPORTED_LIFECYCLE_EVENTS \<and>
         (\<exists>a. dict_get p ''actor'' = Some (PDict a) \<and>
              set (map fst a) \<subseteq> {''id'', ''kind'', ''display'', ''on_behalf_of''}) \<and>
         (\<exists>r. dict_get p ''references'' = Some (PDict r) \<and> set (map fst r) \<subseteq> {''thread_id''}) \<and>
         lifecycle_payload now ev rid ws st pr (map_option erase_private run) th = Inr p"
proof -
  have same: "lifecycle_payload now ev rid ws st pr (map_option erase_private run) th =
      lifecycle_payload now ev rid ws st pr run th"
    by (auto simp: lifecycle_payload_def lifecycle_actor_def lifecycle_thread_def erase_private_def
        Let_def split: option.splits)
  from assms have ev: "ev \<in> set SUPPORTED_LIFECYCLE_EVENTS"
    by (simp add: lifecycle_payload_def build_lifecycle_payload_def split: if_splits)
  show ?thesis
    unfolding same
    using assms ev by (auto simp: lifecycle_payload_def build_lifecycle_payload_def Let_def)
qed

theorem lifecycle_payload_sanitised_witness:
  "\<exists>p. lifecycle_payload 0 ''run.completed'' ''r'' ''default'' ''completed'' None
         (Some (sample_run ''running'')) None = Inr p \<and>
       lifecycle_payload 0 ''run.completed'' ''r'' ''default'' ''completed'' None
         (Some (erase_private (sample_run ''running''))) None = Inr p"
proof -
  obtain p where p: "lifecycle_payload 0 ''run.completed'' ''r'' ''default'' ''completed'' None
      (Some (sample_run ''running'')) None = Inr p"
    by (simp add: lifecycle_payload_def build_lifecycle_payload_def SUPPORTED_LIFECYCLE_EVENTS_def)
  with lifecycle_payload_sanitised [OF p] show ?thesis by simp
qed

text \<open>Sinks fail softly. Dispatching never raises and every sink is called once, in order, on
  what the ones before it left, whether or not they raised: a failing sink may be replaced by one
  that does the same and reports success without any difference.\<close>

theorem dispatch_fail_soft:
  "dispatch_event (xs @ s # ys) event w =
     dispatch_event ys event (snd (s event (dispatch_event xs event w))) \<and>
   dispatch_event (xs @ s # ys) event w =
     dispatch_event (xs @ (\<lambda>e v. (Inr (), snd (s e v))) # ys) event w"
proof -
  have app: "dispatch_event (as @ bs) event w = dispatch_event bs event (dispatch_event as event w)"
    for as bs by (induction as arbitrary: w) simp_all
  show ?thesis by (simp add: app)
qed

end
