(* ===== verification/Webhooks.thy ===== *)
theory Webhooks
  imports Schedules Events
begin

text \<open>
  \<open>agent_os/webhooks.py\<close>: the sink that delivers lifecycle events to a URL.

  \<^item> \<open>validate_webhook_url_syntax\<close>, \<open>is_safe_webhook_url\<close> and \<open>resolve_and_validate_target\<close> are the
    checks on a destination. DNS is a function from hosts to addresses, what \<open>ipaddress\<close> says of an
    address is the record \<open>ip_flags\<close>; \<open>web_lib\<close> holds both with the HMAC, the JSON printer and the
    network, whose requests are logged in the order they are made.
  \<^item> \<open>send_single_request\<close> and \<open>send_with_retry\<close> are a delivery. The answers of DNS and of the server may
    differ from attempt to attempt: both are indexed by the number of the lookup or request.
  \<^item> \<open>sink_step\<close> is the sink with its bounded queue and its workers, as interleaved steps of callers,
    workers and \<open>close\<close>.
  \<^item> The theorems: a request is made only to an address that was checked for that very request, or
    to a host that the operator allowed; a delivery makes at most the configured number of
    requests and stops at the first success; the queue is bounded, no event is delivered twice or
    out of order by a single worker; and a full queue keeps \<open>close\<close> from stopping its workers.
\<close>

section \<open>Addresses\<close>

record ip_flags =
  ip_is_loopback :: bool
  ip_is_private :: bool
  ip_is_link_local :: bool
  ip_is_multicast :: bool
  ip_is_unspecified :: bool
  ip_is_reserved :: bool
  ip_is_global :: bool

definition is_safe_ip :: "ip_flags \<Rightarrow> bool" where
  "is_safe_ip i =
     (\<not> (ip_is_loopback i \<or> ip_is_private i \<or> ip_is_link_local i \<or> ip_is_multicast i \<or>
         ip_is_unspecified i \<or> ip_is_reserved i \<or> \<not> ip_is_global i))"

section \<open>URLs\<close>

text \<open>\<open>hostname\<close> of a parse result: lower case up to a zone.\<close>

definition url_hostname :: "split_result \<Rightarrow> string" where
  "url_hostname u =
     (case partition_at CHR ''%'' (fst (hostinfo (url_netloc u))) of
        (h, found, zone) \<Rightarrow> py_lower h @ (if found then CHR ''%'' # zone else []))"

text \<open>Whether \<open>username\<close> or \<open>password\<close> is a non-empty string.\<close>

definition has_userinfo :: "split_result \<Rightarrow> bool" where
  "has_userinfo u =
     (let netloc = url_netloc u
      in CHR ''@'' \<in> set netloc \<and>
         (let info = take (length netloc - length (after_last CHR ''@'' netloc) - 1) netloc
          in case partition_at CHR '':'' info of (user, _, password) \<Rightarrow> user \<noteq> [] \<or> password \<noteq> []))"

text \<open>What follows the authority of a URL that has one, split into path, parameters and query as
  \<open>urlparse\<close> does: the parameters of the last segment are not part of the path.\<close>

definition url_rest :: "string \<Rightarrow> string" where
  "url_rest url =
     (let u = filter (\<lambda>c. c \<notin> {CHR 0x09, CHR 0x0D, CHR 0x0A}) (dropWhile c0_or_space url);
          after = drop 2 (snd (snd (partition_at CHR '':'' u)))
      in takeWhile (\<lambda>c. c \<noteq> CHR ''#'') (dropWhile (\<lambda>c. c \<notin> {CHR ''/'', CHR ''?'', CHR ''#''}) after))"

definition url_query :: "string \<Rightarrow> string" where
  "url_query url = after_first CHR ''?'' (url_rest url)"

definition url_path :: "string \<Rightarrow> string" where
  "url_path url =
     (let p = takeWhile (\<lambda>c. c \<noteq> CHR ''?'') (url_rest url); seg = after_last CHR ''/'' p
      in if CHR ''/'' \<in> set p
         then take (length p - length seg) p @ takeWhile (\<lambda>c. c \<noteq> CHR '';'') seg
         else takeWhile (\<lambda>c. c \<noteq> CHR '';'') p)"

record webhook_config =
  wh_url :: string
  wh_secret :: string
  wh_allowed_internal_hosts :: "string list"
  wh_allow_insecure_http :: bool
  wh_max_retries :: int
  wh_max_queue_size :: int
  wh_num_workers :: int

definition allowed_hosts :: "string list \<Rightarrow> string list" where
  "allowed_hosts hs = map (\<lambda>h. py_lower (strip h)) (filter (\<lambda>h. strip h \<noteq> []) hs)"

definition validate_webhook_url_syntax ::
  "url_lib \<Rightarrow> string \<Rightarrow> bool \<Rightarrow> string list \<Rightarrow> string + split_result" where
  "validate_webhook_url_syntax ulib url insecure internal =
     (case urlsplit ulib url of
        Inl e \<Rightarrow> Inl (''Invalid URL structure: '' @ exn_message e)
      | Inr u \<Rightarrow>
          if url_scheme u \<noteq> ''http'' \<and> url_scheme u \<noteq> ''https''
          then Inl (''Unsupported scheme '' @ url_scheme u @ ''. Only http and https are allowed.'')
          else if has_userinfo u then Inl ''URLs with embedded credentials (userinfo) are not allowed.''
          else if url_hostname u = [] then Inl ''URL is missing a valid hostname.''
          else if url_scheme u = ''http'' \<and> \<not> insecure \<and> py_lower (url_hostname u) \<notin> set (allowed_hosts internal)
          then Inl ''Insecure HTTP webhook URLs are disallowed by default.''
          else Inr u)"

text \<open>The port that is used: \<open>parsed.port\<close>, which raises out of range, or the default of the scheme.\<close>

definition effective_port :: "split_result \<Rightarrow> int result" where
  "effective_port u =
     bind_result (url_port u) (\<lambda>p. Inr (case p of
       Some n \<Rightarrow> if n \<noteq> 0 then n else (if url_scheme u = ''https'' then 443 else 80)
     | None \<Rightarrow> if url_scheme u = ''https'' then 443 else 80))"

record web_lib =
  web_url :: url_lib
  getaddrinfo :: "nat \<Rightarrow> string \<Rightarrow> int \<Rightarrow> string list result"
  ip_address :: "string \<Rightarrow> ip_flags option"
  http_post :: "nat \<Rightarrow> int result"
  json_dumps :: "pydict \<Rightarrow> string"
  hmac_sha256 :: "string \<Rightarrow> string \<Rightarrow> string"

text \<open>Every address has to be an address, and a safe one unless the host is allowed.\<close>

fun check_addresses :: "(string \<Rightarrow> ip_flags option) \<Rightarrow> bool \<Rightarrow> string list \<Rightarrow> string + string list" where
  "check_addresses ipa allowed [] = Inr []"
| "check_addresses ipa allowed (a # as) =
     (case ipa a of
        None \<Rightarrow> Inl (''Invalid IP address '' @ a)
      | Some i \<Rightarrow>
          if \<not> allowed \<and> \<not> is_safe_ip i then Inl (''Blocked unsafe/internal IP destination '' @ a)
          else bind_result (check_addresses ipa allowed as) (\<lambda>rest. Inr (a # rest)))"

definition is_safe_webhook_url :: "web_lib \<Rightarrow> nat \<Rightarrow> string \<Rightarrow> string list \<Rightarrow> bool \<Rightarrow> (string + unit) result" where
  "is_safe_webhook_url lib n url internal insecure =
     (case validate_webhook_url_syntax (web_url lib) url insecure internal of
        Inl reason \<Rightarrow> Inr (Inl reason)
      | Inr u \<Rightarrow>
          if py_lower (url_hostname u) \<in> set (allowed_hosts internal) then Inr (Inr ())
          else bind_result (effective_port u) (\<lambda>port.
            case getaddrinfo lib n (url_hostname u) port of
              Inl e \<Rightarrow> Inr (Inl (''Could not resolve hostname '' @ url_hostname u @ '': '' @ exn_message e))
            | Inr [] \<Rightarrow> Inr (Inl (''No IP addresses resolved for hostname '' @ url_hostname u))
            | Inr as \<Rightarrow> (case check_addresses (ip_address lib) False as of
                           Inl reason \<Rightarrow> Inr (Inl reason) | Inr _ \<Rightarrow> Inr (Inr ()))))"

record target =
  t_scheme :: string
  t_hostname :: string
  t_port :: int
  t_pinned_ip :: string
  t_path :: string

definition resolve_and_validate_target ::
  "web_lib \<Rightarrow> nat \<Rightarrow> string \<Rightarrow> string list \<Rightarrow> bool \<Rightarrow> (string + target) result" where
  "resolve_and_validate_target lib n url internal insecure =
     (case validate_webhook_url_syntax (web_url lib) url insecure internal of
        Inl reason \<Rightarrow> Inr (Inl reason)
      | Inr u \<Rightarrow>
          bind_result (effective_port u) (\<lambda>port.
            let hostname = url_hostname u;
                p = url_path url;
                path = (if p = [] then ''/'' else p) @
                       (if url_query url = [] then [] else ''?'' @ url_query url);
                allowed = (py_lower hostname \<in> set (allowed_hosts internal))
            in case getaddrinfo lib n hostname port of
                 Inl e \<Rightarrow> Inr (Inl (''DNS resolution failed for '' @ hostname @ '': '' @ exn_message e))
               | Inr [] \<Rightarrow> Inr (Inl (''No IP addresses found for '' @ hostname))
               | Inr as \<Rightarrow>
                   (case check_addresses (ip_address lib) allowed as of
                      Inl reason \<Rightarrow> Inr (Inl reason)
                    | Inr ips \<Rightarrow> Inr (Inr \<lparr>t_scheme = url_scheme u, t_hostname = hostname, t_port = port,
                                        t_pinned_ip = hd ips, t_path = path\<rparr>))))"

section \<open>Delivery\<close>

record web_request =
  rq_ip :: string
  rq_port :: int
  rq_tls_name :: "string option"
  rq_path :: string
  rq_headers :: "(string \<times> string) list"
  rq_body :: string

record web_state =
  dns_lookups :: nat
  requests :: "web_request list"

text \<open>\<open>(success, status, reason)\<close> of one attempt; a request that raises counts as status 0.\<close>

definition send_single_request ::
  "web_lib \<Rightarrow> webhook_config \<Rightarrow> string \<Rightarrow> (string \<times> string) list \<Rightarrow> web_state
     \<Rightarrow> (bool \<times> int \<times> string) result \<times> web_state" where
  "send_single_request lib cfg body headers st =
     (let st1 = st\<lparr>dns_lookups := Suc (dns_lookups st)\<rparr>
      in case resolve_and_validate_target lib (dns_lookups st) (wh_url cfg) (wh_allowed_internal_hosts cfg)
                (wh_allow_insecure_http cfg) of
           Inl e \<Rightarrow> (Inl e, st1)
         | Inr (Inl reason) \<Rightarrow> (Inr (False, 0, reason), st1)
         | Inr (Inr t) \<Rightarrow>
             (let host_header = (if t_port t = 80 \<or> t_port t = 443 then t_hostname t
                                 else t_hostname t @ '':'' @ int_str (t_port t));
                  st2 = st1\<lparr>requests := requests st1 @
                    [\<lparr>rq_ip = t_pinned_ip t, rq_port = t_port t,
                      rq_tls_name = (if t_scheme t = ''https'' then Some (t_hostname t) else None),
                      rq_path = t_path t, rq_headers = headers @ [(''Host'', host_header)], rq_body = body\<rparr>]\<rparr>
              in (Inr (case http_post lib (length (requests st)) of
                     Inl e \<Rightarrow> (False, 0, exn_message e)
                   | Inr status \<Rightarrow>
                       if 200 \<le> status \<and> status < 300 then (True, status, [])
                       else if 300 \<le> status \<and> status < 400
                       then (False, status, ''Redirects not permitted (HTTP '' @ int_str status @ '')'')
                       else (False, status, ''HTTP '' @ int_str status)), st2)))"

fun attempts ::
  "web_lib \<Rightarrow> webhook_config \<Rightarrow> string \<Rightarrow> (string \<times> string) list \<Rightarrow> nat \<Rightarrow> web_state \<Rightarrow> bool result \<times> web_state" where
  "attempts lib cfg body headers 0 st = (Inr False, st)"
| "attempts lib cfg body headers (Suc n) st =
     (case send_single_request lib cfg body headers st of
        (Inl e, st') \<Rightarrow> (Inl e, st')
      | (Inr (True, _), st') \<Rightarrow> (Inr True, st')
      | (Inr (False, _), st') \<Rightarrow> attempts lib cfg body headers n st')"

definition signed_headers :: "web_lib \<Rightarrow> webhook_config \<Rightarrow> int \<Rightarrow> string \<Rightarrow> (string \<times> string) list" where
  "signed_headers lib cfg now body =
     [(''Content-Type'', ''application/json''), (''X-AgentOS-Timestamp'', int_str now),
      (''X-AgentOS-Signature'', ''sha256='' @ hmac_sha256 lib (wh_secret cfg) (int_str now @ ''.'' @ body)),
      (''User-Agent'', ''AgentOS-Webhook/1.0'')]"

definition max_retries :: "webhook_config \<Rightarrow> nat" where
  "max_retries cfg = nat (max 1 (wh_max_retries cfg))"

definition send_with_retry ::
  "web_lib \<Rightarrow> webhook_config \<Rightarrow> int \<Rightarrow> pydict \<Rightarrow> web_state \<Rightarrow> bool result \<times> web_state" where
  "send_with_retry lib cfg now event st =
     (let body = json_dumps lib event
      in attempts lib cfg body (signed_headers lib cfg now body) (max_retries cfg) st)"

section \<open>The sink\<close>

text \<open>An entry of the queue is an event, or \<open>None\<close> for the sentinel that stops a worker.
  \<open>sk_emitting\<close> are events of callers between the check of the closed flag and the queue,
  \<open>sk_to_stop\<close> counts the sentinels that \<open>close\<close> has yet to put.\<close>

record sink_state =
  sk_queue :: "pydict option list"
  sk_started :: bool
  sk_running :: nat
  sk_closed :: bool
  sk_to_stop :: nat
  sk_emitting :: "pydict list"
  sk_accepted :: "pydict list"
  sk_taken :: "pydict list"
  sk_dropped :: "pydict list"

definition max_queue_size :: "webhook_config \<Rightarrow> nat" where
  "max_queue_size cfg = nat (max 1 (wh_max_queue_size cfg))"

definition num_workers :: "webhook_config \<Rightarrow> nat" where
  "num_workers cfg = nat (max 1 (wh_num_workers cfg))"

definition new_sink :: sink_state where
  "new_sink = \<lparr>sk_queue = [], sk_started = False, sk_running = 0, sk_closed = False, sk_to_stop = 0,
     sk_emitting = [], sk_accepted = [], sk_taken = [], sk_dropped = []\<rparr>"

definition ensure_workers_started :: "webhook_config \<Rightarrow> sink_state \<Rightarrow> sink_state" where
  "ensure_workers_started cfg s =
     (if sk_closed s \<or> sk_started s then s
      else s\<lparr>sk_started := True, sk_running := num_workers cfg\<rparr>)"

definition emit_begin :: "webhook_config \<Rightarrow> pydict \<Rightarrow> sink_state \<Rightarrow> sink_state" where
  "emit_begin cfg e s =
     (if sk_closed s then s\<lparr>sk_dropped := sk_dropped s @ [e]\<rparr>
      else (ensure_workers_started cfg s)\<lparr>sk_emitting := sk_emitting s @ [e]\<rparr>)"

text \<open>\<open>put_nowait\<close> of one of the events that callers are putting.\<close>

definition emit_put :: "webhook_config \<Rightarrow> pydict \<Rightarrow> sink_state \<Rightarrow> sink_state" where
  "emit_put cfg e s =
     (let s' = s\<lparr>sk_emitting := remove1 e (sk_emitting s)\<rparr>
      in if length (sk_queue s) < max_queue_size cfg
         then s'\<lparr>sk_queue := sk_queue s @ [Some e], sk_accepted := sk_accepted s @ [e]\<rparr>
         else s'\<lparr>sk_dropped := sk_dropped s @ [e]\<rparr>)"

text \<open>A worker takes an entry: an event to deliver, or the sentinel.\<close>

definition worker_get :: "sink_state \<Rightarrow> sink_state" where
  "worker_get s =
     (case sk_queue s of
        Some e # q \<Rightarrow> s\<lparr>sk_queue := q, sk_taken := sk_taken s @ [e]\<rparr>
      | None # q \<Rightarrow> s\<lparr>sk_queue := q, sk_running := sk_running s - 1\<rparr>
      | [] \<Rightarrow> s)"

definition close_begin :: "webhook_config \<Rightarrow> sink_state \<Rightarrow> sink_state" where
  "close_begin cfg s =
     (if sk_closed s then s
      else s\<lparr>sk_closed := True, sk_to_stop := (if sk_started s then num_workers cfg else 0)\<rparr>)"

definition close_put :: "webhook_config \<Rightarrow> sink_state \<Rightarrow> sink_state" where
  "close_put cfg s =
     (let s' = s\<lparr>sk_to_stop := sk_to_stop s - 1\<rparr>
      in if length (sk_queue s) < max_queue_size cfg then s'\<lparr>sk_queue := sk_queue s @ [None]\<rparr> else s')"

inductive sink_step :: "webhook_config \<Rightarrow> sink_state \<Rightarrow> sink_state \<Rightarrow> bool" for cfg where
  step_emit: "sink_step cfg s (emit_begin cfg e s)"
| step_put: "e \<in> set (sk_emitting s) \<Longrightarrow> sink_step cfg s (emit_put cfg e s)"
| step_worker: "0 < sk_running s \<Longrightarrow> sk_queue s \<noteq> [] \<Longrightarrow> sink_step cfg s (worker_get s)"
| step_close: "sink_step cfg s (close_begin cfg s)"
| step_sentinel: "0 < sk_to_stop s \<Longrightarrow> sink_step cfg s (close_put cfg s)"

abbreviation sink_reachable :: "webhook_config \<Rightarrow> sink_state \<Rightarrow> bool" where
  "sink_reachable cfg s \<equiv> (sink_step cfg)\<^sup>*\<^sup>* new_sink s"

section \<open>Requests go to checked addresses only\<close>

lemma check_addresses_Inr:
  "check_addresses ipa allowed as = Inr ips \<Longrightarrow>
     ips = as \<and> (allowed \<or> list_all (\<lambda>a. \<exists>i. ipa a = Some i \<and> is_safe_ip i) as)"
  by (induction as arbitrary: ips) (auto split: option.splits if_splits)

definition answered_ok :: "web_lib \<Rightarrow> nat \<Rightarrow> bool" where
  "answered_ok lib k = (case http_post lib k of Inl _ \<Rightarrow> False | Inr status \<Rightarrow> 200 \<le> status \<and> status < 300)"

definition target_checked :: "web_lib \<Rightarrow> webhook_config \<Rightarrow> nat \<Rightarrow> web_request \<Rightarrow> bool" where
  "target_checked lib cfg n r =
     (\<exists>u addresses. validate_webhook_url_syntax (web_url lib) (wh_url cfg) (wh_allow_insecure_http cfg)
          (wh_allowed_internal_hosts cfg) = Inr u \<and>
        getaddrinfo lib n (url_hostname u) (rq_port r) = Inr addresses \<and> addresses \<noteq> [] \<and>
        rq_ip r = hd addresses \<and>
        rq_tls_name r = (if url_scheme u = ''https'' then Some (url_hostname u) else None) \<and>
        (py_lower (url_hostname u) \<in> set (allowed_hosts (wh_allowed_internal_hosts cfg)) \<or>
         list_all (\<lambda>a. \<exists>i. ip_address lib a = Some i \<and> is_safe_ip i) addresses))"

lemma resolve_target_checked:
  assumes "resolve_and_validate_target lib n url internal insecure = Inr (Inr t)"
  obtains u addresses where "validate_webhook_url_syntax (web_url lib) url insecure internal = Inr u"
    "getaddrinfo lib n (url_hostname u) (t_port t) = Inr addresses" "addresses \<noteq> []"
    "t_pinned_ip t = hd addresses" "t_scheme t = url_scheme u" "t_hostname t = url_hostname u"
    "py_lower (url_hostname u) \<in> set (allowed_hosts internal) \<or>
     list_all (\<lambda>a. \<exists>i. ip_address lib a = Some i \<and> is_safe_ip i) addresses"
proof -
  from assms obtain u where u: "validate_webhook_url_syntax (web_url lib) url insecure internal = Inr u"
    by (auto simp: resolve_and_validate_target_def split: sum.splits)
  from assms u obtain port where port: "effective_port u = Inr port"
    by (auto simp: resolve_and_validate_target_def)
  from assms u port obtain a as where as: "getaddrinfo lib n (url_hostname u) port = Inr (a # as)"
    by (auto simp: resolve_and_validate_target_def Let_def split: sum.splits list.splits)
  let ?allowed = "py_lower (url_hostname u) \<in> set (allowed_hosts internal)"
  from assms u port as obtain ips where ips: "check_addresses (ip_address lib) ?allowed (a # as) = Inr ips"
    and t: "t_pinned_ip t = hd ips" "t_scheme t = url_scheme u" "t_hostname t = url_hostname u" "t_port t = port"
    by (auto simp: resolve_and_validate_target_def Let_def split: sum.splits)
  from check_addresses_Inr [OF ips] have "ips = a # as"
    "?allowed \<or> list_all (\<lambda>a. \<exists>i. ip_address lib a = Some i \<and> is_safe_ip i) (a # as)" by blast+
  with u as t show ?thesis using that [of u "a # as"] by simp
qed

lemma send_single_effect:
  assumes "send_single_request lib cfg body headers st = (res, st')"
  shows "dns_lookups st' = Suc (dns_lookups st) \<and>
    (requests st' = requests st \<and> (case res of Inr (True, _) \<Rightarrow> False | _ \<Rightarrow> True) \<or>
     (\<exists>r. requests st' = requests st @ [r] \<and> target_checked lib cfg (dns_lookups st) r \<and> rq_body r = body \<and>
          set headers \<subseteq> set (rq_headers r) \<and>
          (case res of
             Inr (ok, _) \<Rightarrow> ok = answered_ok lib (length (requests st))
           | Inl _ \<Rightarrow> False)))"
proof (cases "resolve_and_validate_target lib (dns_lookups st) (wh_url cfg) (wh_allowed_internal_hosts cfg)
    (wh_allow_insecure_http cfg)")
  case (Inl e)
  with assms show ?thesis by (auto simp: send_single_request_def Let_def)
next
  case (Inr x)
  show ?thesis
  proof (cases x)
    case Inl2: (Inl reason)
    with assms Inr show ?thesis by (auto simp: send_single_request_def Let_def)
  next
    case Inr2: (Inr t)
    with Inr have r: "resolve_and_validate_target lib (dns_lookups st) (wh_url cfg)
        (wh_allowed_internal_hosts cfg) (wh_allow_insecure_http cfg) = Inr (Inr t)" by simp
    from r obtain u addresses where
      "validate_webhook_url_syntax (web_url lib) (wh_url cfg) (wh_allow_insecure_http cfg)
         (wh_allowed_internal_hosts cfg) = Inr u"
      "getaddrinfo lib (dns_lookups st) (url_hostname u) (t_port t) = Inr addresses" "addresses \<noteq> []"
      "t_pinned_ip t = hd addresses" "t_scheme t = url_scheme u" "t_hostname t = url_hostname u"
      "py_lower (url_hostname u) \<in> set (allowed_hosts (wh_allowed_internal_hosts cfg)) \<or>
       list_all (\<lambda>a. \<exists>i. ip_address lib a = Some i \<and> is_safe_ip i) addresses"
      by (rule resolve_target_checked)
    then have "target_checked lib cfg (dns_lookups st) \<lparr>rq_ip = t_pinned_ip t, rq_port = t_port t,
        rq_tls_name = (if t_scheme t = ''https'' then Some (t_hostname t) else None),
        rq_path = p, rq_headers = hs, rq_body = body\<rparr>" for p hs
      unfolding target_checked_def by auto
    with assms r show ?thesis
      by (auto simp: send_single_request_def answered_ok_def Let_def split: sum.splits if_splits)
  qed
qed

text \<open>What a delivery does to the state: the requests it adds, each of them checked.\<close>

definition delivery ::
  "web_lib \<Rightarrow> webhook_config \<Rightarrow> string \<Rightarrow> (string \<times> string) list \<Rightarrow> web_state \<Rightarrow> web_state \<Rightarrow> bool
     \<Rightarrow> web_request list \<Rightarrow> bool" where
  "delivery lib cfg body headers st st' success new =
     (requests st' = requests st @ new \<and> dns_lookups st \<le> dns_lookups st' \<and>
      (\<forall>r\<in>set new. (\<exists>k. dns_lookups st \<le> k \<and> k < dns_lookups st' \<and> target_checked lib cfg k r) \<and>
         rq_body r = body \<and> set headers \<subseteq> set (rq_headers r)) \<and>
      (success \<longrightarrow> new \<noteq> []) \<and>
      (\<forall>k<length new. answered_ok lib (length (requests st) + k) \<longleftrightarrow> success \<and> Suc k = length new))"

lemma delivery_stop:
  assumes "send_single_request lib cfg body headers st = (res, st')"
    and "case res of Inl _ \<Rightarrow> True | Inr (ok, _) \<Rightarrow> ok"
  shows "\<exists>new. delivery lib cfg body headers st st' (case res of Inl _ \<Rightarrow> False | Inr _ \<Rightarrow> True) new \<and> length new \<le> 1"
proof -
  have dns: "dns_lookups st' = Suc (dns_lookups st)" using send_single_effect [OF assms(1)] by blast
  from send_single_effect [OF assms(1)] show ?thesis
  proof (elim conjE disjE exE)
    assume "requests st' = requests st" "case res of Inr (True, _) \<Rightarrow> False | _ \<Rightarrow> True"
    with assms(2) dns show ?thesis
      by (intro exI [of _ "[]"]) (auto simp: delivery_def split: sum.splits prod.splits)
  next
    fix r
    assume r: "requests st' = requests st @ [r]" "target_checked lib cfg (dns_lookups st) r" "rq_body r = body"
      "set headers \<subseteq> set (rq_headers r)"
      "case res of Inr (ok, _) \<Rightarrow> ok = answered_ok lib (length (requests st)) | Inl _ \<Rightarrow> False"
    then have "delivery lib cfg body headers st st' (case res of Inl _ \<Rightarrow> False | Inr _ \<Rightarrow> True) [r]"
      using assms(2) dns unfolding delivery_def by (auto split: sum.splits prod.splits)
    then show ?thesis by (intro exI [of _ "[r]"]) simp
  qed
qed

lemma delivery_retry:
  assumes "send_single_request lib cfg body headers st = (Inr (False, x), st1)"
    and "delivery lib cfg body headers st1 st' ok new"
  shows "\<exists>new'. delivery lib cfg body headers st st' ok new' \<and> length new' \<le> Suc (length new)"
proof -
  note e = send_single_effect [OF assms(1)]
  then have dns: "dns_lookups st1 = Suc (dns_lookups st)" by blast
  from e show ?thesis
  proof (elim conjE disjE exE)
    assume "requests st1 = requests st"
    with assms(2) dns have "delivery lib cfg body headers st st' ok new"
      unfolding delivery_def by (simp, meson Suc_leD)
    then show ?thesis by auto
  next
    fix r
    assume r: "requests st1 = requests st @ [r]" "target_checked lib cfg (dns_lookups st) r" "rq_body r = body"
      "set headers \<subseteq> set (rq_headers r)"
      "case Inr (False, x) of Inr (ok, _) \<Rightarrow> ok = answered_ok lib (length (requests st)) | Inl _ \<Rightarrow> False"
    then have no: "\<not> answered_ok lib (length (requests st))" by simp
    have d: "requests st' = (requests st @ [r]) @ new" "Suc (dns_lookups st) \<le> dns_lookups st'"
      "\<forall>q\<in>set new. (\<exists>k. Suc (dns_lookups st) \<le> k \<and> k < dns_lookups st' \<and> target_checked lib cfg k q) \<and>
         rq_body q = body \<and> set headers \<subseteq> set (rq_headers q)"
      "ok \<longrightarrow> new \<noteq> []"
      "\<forall>k<length new. answered_ok lib (length (requests st) + 1 + k) \<longleftrightarrow> ok \<and> Suc k = length new"
      using assms(2) r(1) dns unfolding delivery_def by simp_all
    have ans: "answered_ok lib (length (requests st) + k) \<longleftrightarrow> ok \<and> Suc k = length (r # new)"
      if "k < length (r # new)" for k
      using that d(4,5) no by (cases k) auto
    have each: "(\<exists>k. dns_lookups st \<le> k \<and> k < dns_lookups st' \<and> target_checked lib cfg k q) \<and>
         rq_body q = body \<and> set headers \<subseteq> set (rq_headers q)" if "q \<in> set (r # new)" for q
    proof (cases "q = r")
      case True
      with r(2-4) d(2) show ?thesis by (auto intro: exI [of _ "dns_lookups st"])
    next
      case False
      with that have "q \<in> set new" by simp
      with d(3) show ?thesis by (meson Suc_leD)
    qed
    have "delivery lib cfg body headers st st' ok (r # new)"
      unfolding delivery_def using d(1,2) ans each by simp
    then show ?thesis by (intro exI [of _ "r # new"]) simp
  qed
qed

lemma attempts_delivery:
  "attempts lib cfg body headers n st = (res, st') \<Longrightarrow>
     \<exists>new. delivery lib cfg body headers st st' (res = Inr True) new \<and> length new \<le> n"
proof (induction n arbitrary: st)
  case 0
  then show ?case by (intro exI [of _ "[]"]) (auto simp: delivery_def)
next
  case (Suc n)
  obtain one st1 where one: "send_single_request lib cfg body headers st = (one, st1)" by fastforce
  show ?case
  proof (cases "case one of Inl _ \<Rightarrow> True | Inr (ok, _) \<Rightarrow> ok")
    case True
    with Suc.prems one have "st' = st1" "(res = Inr True) = (case one of Inl _ \<Rightarrow> False | Inr _ \<Rightarrow> True)"
      by (auto split: sum.splits prod.splits bool.splits)
    with delivery_stop [OF one True] show ?thesis by (auto simp: le_SucI)
  next
    case False
    then obtain x where x: "one = Inr (False, x)" by (auto split: sum.splits prod.splits)
    with Suc.prems one have "attempts lib cfg body headers n st1 = (res, st')" by simp
    from Suc.IH [OF this] obtain new where "delivery lib cfg body headers st1 st' (res = Inr True) new"
      "length new \<le> n" by blast
    with delivery_retry [OF one [unfolded x]] show ?thesis by (meson Suc_le_mono le_trans)
  qed
qed

text \<open>C19: deliveries are bounded, signed and confined. Whatever DNS answers from one lookup to the
  next, a delivery makes at most the configured number of requests and each goes to the first
  address of a lookup made during that delivery, all of whose addresses are public ones unless
  the operator allowed the host; every request carries the signature over timestamp and body;
  the delivery succeeds exactly when its last request was answered with a 2xx status, and no
  request follows such an answer.\<close>

theorem webhook_delivery:
  assumes "send_with_retry lib cfg now event st = (res, st')"
  shows "\<exists>new. requests st' = requests st @ new \<and> length new \<le> max_retries cfg \<and>
     (\<forall>r\<in>set new. (\<exists>k. dns_lookups st \<le> k \<and> k < dns_lookups st' \<and> target_checked lib cfg k r) \<and>
        rq_body r = json_dumps lib event \<and>
        (''X-AgentOS-Signature'', ''sha256='' @ hmac_sha256 lib (wh_secret cfg)
           (int_str now @ ''.'' @ json_dumps lib event)) \<in> set (rq_headers r)) \<and>
     (res = Inr True \<longrightarrow> new \<noteq> []) \<and>
     (\<forall>k<length new. answered_ok lib (length (requests st) + k) \<longleftrightarrow> res = Inr True \<and> Suc k = length new)"
proof -
  let ?body = "json_dumps lib event"
  from assms obtain new where new: "delivery lib cfg ?body (signed_headers lib cfg now ?body) st st' (res = Inr True) new"
    "length new \<le> max_retries cfg"
    using attempts_delivery unfolding send_with_retry_def Let_def by blast
  have "(''X-AgentOS-Signature'', ''sha256='' @ hmac_sha256 lib (wh_secret cfg) (int_str now @ ''.'' @ ?body))
      \<in> set (signed_headers lib cfg now ?body)" by (simp add: signed_headers_def)
  with new show ?thesis unfolding delivery_def by (intro exI [of _ new]) blast
qed

section \<open>The queue\<close>

definition queued_events :: "pydict option list \<Rightarrow> pydict list" where
  "queued_events q = map the (filter (\<lambda>x. x \<noteq> None) q)"

definition sentinels :: "pydict option list \<Rightarrow> nat" where
  "sentinels q = length (filter (\<lambda>x. x = None) q)"

definition sink_inv :: "webhook_config \<Rightarrow> sink_state \<Rightarrow> bool" where
  "sink_inv cfg s =
     (sk_accepted s = sk_taken s @ queued_events (sk_queue s) \<and>
      length (sk_queue s) \<le> max_queue_size cfg \<and>
      sk_running s \<le> num_workers cfg \<and>
      sentinels (sk_queue s) + sk_to_stop s \<le> sk_running s \<and>
      (sk_closed s \<or> sk_to_stop s = 0 \<and> sentinels (sk_queue s) = 0) \<and>
      (\<not> sk_started s \<longrightarrow> sk_running s = 0) \<and>
      (sk_started s \<and> \<not> sk_closed s \<longrightarrow> sk_running s = num_workers cfg))"

lemma sink_step_inv: "sink_step cfg s s' \<Longrightarrow> sink_inv cfg s \<Longrightarrow> sink_inv cfg s'"
proof (induction rule: sink_step.induct)
  case (step_emit s e)
  then show ?case
    by (auto simp: sink_inv_def emit_begin_def ensure_workers_started_def)
next
  case (step_put e s)
  then show ?case
    by (auto simp: sink_inv_def emit_put_def Let_def queued_events_def sentinels_def)
next
  case (step_worker s)
  then obtain x q where "sk_queue s = x # q" by (cases "sk_queue s") auto
  with step_worker show ?case
    by (cases x) (auto simp: sink_inv_def worker_get_def queued_events_def sentinels_def)
next
  case (step_close s)
  then show ?case by (auto simp: sink_inv_def close_begin_def)
next
  case (step_sentinel s)
  then show ?case
    by (auto simp: sink_inv_def close_put_def Let_def queued_events_def sentinels_def)
qed

lemma sink_reachable_inv: "sink_reachable cfg s \<Longrightarrow> sink_inv cfg s"
proof (induction rule: rtranclp_induct)
  case base
  show ?case by (simp add: sink_inv_def new_sink_def queued_events_def sentinels_def)
next
  case (step s s')
  then show ?case using sink_step_inv by blast
qed

text \<open>The sink loses nothing that it accepted and repeats nothing. In every interleaving of
  callers, workers and \<open>close\<close>, the events taken for delivery followed by the events still queued are
  exactly the accepted events in the order of acceptance, the queue never exceeds its bound,
  and no more workers run than were configured.\<close>

theorem sink_queue_invariant:
  assumes "sink_reachable cfg s"
  shows "sk_accepted s = sk_taken s @ queued_events (sk_queue s) \<and>
         length (sk_queue s) \<le> max_queue_size cfg \<and> sk_running s \<le> num_workers cfg"
  using sink_reachable_inv [OF assms] by (simp add: sink_inv_def)

section \<open>Closing a full queue\<close>

lemma fill_queue:
  "n \<le> max_queue_size cfg \<Longrightarrow>
     \<exists>s. sink_reachable cfg s \<and> sk_queue s = replicate n (Some e) \<and> sk_emitting s = [] \<and> \<not> sk_closed s \<and>
       sk_to_stop s = 0 \<and> (0 < n \<longrightarrow> sk_started s \<and> sk_running s = num_workers cfg)"
proof (induction n)
  case 0
  show ?case by (rule exI [of _ new_sink]) (simp add: new_sink_def)
next
  case (Suc n)
  then obtain s where s: "sink_reachable cfg s" "sk_queue s = replicate n (Some e)" "sk_emitting s = []"
    "\<not> sk_closed s" "sk_to_stop s = 0" by auto
  let ?a = "emit_begin cfg e s" and ?b = "emit_put cfg e (emit_begin cfg e s)"
  have "sink_step cfg s ?a" by (rule step_emit)
  moreover have "sink_step cfg ?a ?b"
    by (rule step_put) (simp add: emit_begin_def s)
  ultimately have "sink_reachable cfg ?b" using s(1) by (meson rtranclp.rtrancl_into_rtrancl)
  moreover have "sk_started s \<longrightarrow> sk_running s = num_workers cfg"
    using sink_reachable_inv [OF s(1)] s(4) by (simp add: sink_inv_def)
  ultimately show ?case
    using Suc.prems s
    by (intro exI [of _ ?b])
       (auto simp: emit_put_def emit_begin_def ensure_workers_started_def Let_def replicate_append_same)
qed

lemma sentinels_lost:
  "length (sk_queue s) = max_queue_size cfg \<Longrightarrow>
     (sink_step cfg)\<^sup>*\<^sup>* s (s\<lparr>sk_to_stop := 0\<rparr>)"
proof (induction "sk_to_stop s" arbitrary: s)
  case 0
  then have "s\<lparr>sk_to_stop := 0\<rparr> = s" by simp
  then show ?case by (metis rtranclp.rtrancl_refl)
next
  case (Suc n)
  let ?s = "s\<lparr>sk_to_stop := n\<rparr>"
  have "close_put cfg s = ?s" using Suc by (simp add: close_put_def Let_def Suc(2) [symmetric])
  then have "sink_step cfg s ?s" using step_sentinel [of s cfg] Suc(2) by simp
  moreover have "(sink_step cfg)\<^sup>*\<^sup>* ?s (?s\<lparr>sk_to_stop := 0\<rparr>)" by (rule Suc(1)) (simp_all add: Suc)
  ultimately show ?case by (simp add: converse_rtranclp_into_rtranclp)
qed

lemma drain_queue:
  "sk_queue s = replicate n (Some e) \<Longrightarrow> 0 < sk_running s \<Longrightarrow>
     (sink_step cfg)\<^sup>*\<^sup>* s (s\<lparr>sk_queue := [], sk_taken := sk_taken s @ replicate n e\<rparr>)"
proof (induction n arbitrary: s)
  case 0
  then have "s\<lparr>sk_queue := [], sk_taken := sk_taken s @ replicate 0 e\<rparr> = s" by simp
  then show ?case by (metis rtranclp.rtrancl_refl)
next
  case (Suc n)
  let ?s = "s\<lparr>sk_queue := replicate n (Some e), sk_taken := sk_taken s @ [e]\<rparr>"
  have "worker_get s = ?s" using Suc.prems by (simp add: worker_get_def)
  then have "sink_step cfg s ?s" using step_worker [of s cfg] Suc.prems by simp
  moreover have "(sink_step cfg)\<^sup>*\<^sup>* ?s (?s\<lparr>sk_queue := [], sk_taken := sk_taken ?s @ replicate n e\<rparr>)"
    by (rule Suc.IH) (simp_all add: Suc.prems)
  ultimately show ?case by (simp add: converse_rtranclp_into_rtranclp)
qed

text \<open>\<open>close\<close> may leave its workers running. Whatever the size of the queue, a sink that is closed
  while the queue is full ends in a state where \<open>close\<close> has finished, every event is taken and
  no sentinel is left, but all workers are still there, waiting for an entry that nothing will
  ever put.\<close>

theorem close_leaves_workers:
  "\<exists>s. sink_reachable cfg s \<and> sk_closed s \<and> sk_to_stop s = 0 \<and> sk_queue s = [] \<and> sk_emitting s = [] \<and>
       sk_running s = num_workers cfg \<and> 0 < num_workers cfg"
proof -
  have pos: "0 < max_queue_size cfg" "0 < num_workers cfg" by (simp_all add: max_queue_size_def num_workers_def)
  from fill_queue [of "max_queue_size cfg" cfg "[]"] obtain s where
    s: "sink_reachable cfg s" "sk_queue s = replicate (max_queue_size cfg) (Some [])" "sk_emitting s = []"
      "\<not> sk_closed s" "sk_running s = num_workers cfg" using pos by auto
  let ?c = "close_begin cfg s"
  let ?d = "?c\<lparr>sk_to_stop := 0\<rparr>"
  let ?f = "?d\<lparr>sk_queue := [], sk_taken := sk_taken ?d @ replicate (max_queue_size cfg) []\<rparr>"
  have c: "sk_queue ?c = sk_queue s" "sk_running ?c = num_workers cfg" "sk_closed ?c" "sk_emitting ?c = []"
    using s by (simp_all add: close_begin_def)
  have "sink_step cfg s ?c" by (rule step_close)
  moreover have "(sink_step cfg)\<^sup>*\<^sup>* ?c ?d" by (rule sentinels_lost) (simp add: c s)
  moreover have "(sink_step cfg)\<^sup>*\<^sup>* ?d ?f" by (rule drain_queue) (simp_all add: c s pos)
  ultimately have "sink_reachable cfg ?f" using s(1) by (meson rtranclp.rtrancl_into_rtrancl rtranclp_trans)
  then show ?thesis using c pos by (intro exI [of _ ?f]) simp
qed

section \<open>Samples\<close>

definition public_ip :: ip_flags where
  "public_ip = \<lparr>ip_is_loopback = False, ip_is_private = False, ip_is_link_local = False, ip_is_multicast = False,
     ip_is_unspecified = False, ip_is_reserved = False, ip_is_global = True\<rparr>"

text \<open>A name that resolves to a public address at every lookup but the second, and a server that
  fails once.\<close>

definition sample_web :: web_lib where
  "sample_web =
     \<lparr>web_url = \<lparr>bracketed_ok = (\<lambda>_. True)\<rparr>,
      getaddrinfo = (\<lambda>n _ _. Inr [if n = 1 then ''127.0.0.1'' else ''93.184.216.34'']),
      ip_address = (\<lambda>a. Some (if a = ''127.0.0.1'' then public_ip\<lparr>ip_is_loopback := True\<rparr> else public_ip)),
      http_post = (\<lambda>k. Inr (if k = 0 then 500 else 200)),
      json_dumps = (\<lambda>_. ''{}''), hmac_sha256 = (\<lambda>k m. k @ m)\<rparr>"

definition sample_webhook :: webhook_config where
  "sample_webhook = \<lparr>wh_url = ''https://hook.example/x;v=1?k=2'', wh_secret = ''s'', wh_allowed_internal_hosts = [],
     wh_allow_insecure_http = False, wh_max_retries = 3, wh_max_queue_size = 1, wh_num_workers = 1\<rparr>"

definition fresh_web :: web_state where
  "fresh_web = \<lparr>dns_lookups = 0, requests = []\<rparr>"

lemma sample_delivery:
  "fst (send_with_retry sample_web sample_webhook 7 [] fresh_web) = Inr True"
  "map rq_ip (requests (snd (send_with_retry sample_web sample_webhook 7 [] fresh_web))) =
     [''93.184.216.34'', ''93.184.216.34'']"
  "map rq_path (requests (snd (send_with_retry sample_web sample_webhook 7 [] fresh_web))) = [''/x?k=2'', ''/x?k=2'']"
  by code_simp+

theorem webhook_delivery_witness:
  "\<exists>st' new. send_with_retry sample_web sample_webhook 7 [] fresh_web = (Inr True, st') \<and>
     requests st' = requests fresh_web @ new \<and> length new \<le> max_retries sample_webhook \<and> new \<noteq> []"
proof -
  obtain st' where st': "send_with_retry sample_web sample_webhook 7 [] fresh_web = (Inr True, st')"
    using sample_delivery(1) by (metis prod.collapse)
  from webhook_delivery [OF this] st' show ?thesis by blast
qed

theorem sink_queue_invariant_witness:
  "sk_accepted (emit_begin sample_webhook [] new_sink) =
     sk_taken (emit_begin sample_webhook [] new_sink) @ queued_events (sk_queue (emit_begin sample_webhook [] new_sink))"
proof -
  have "sink_reachable sample_webhook (emit_begin sample_webhook [] new_sink)"
    by (rule r_into_rtranclp) (rule step_emit)
  then show ?thesis using sink_queue_invariant by blast
qed

end
