(* ===== verification/Workspace.thy ===== *)
theory Workspace
  imports Skill_Packages Webhooks
begin

text \<open>
  \<open>agent_os/workspace.py\<close>, with \<open>BackendRegistry\<close> of \<open>backends.py\<close>, \<open>ConnectorRegistry\<close> of \<open>connectors.py\<close>
  and \<open>bindings.py\<close>: a workspace file is read, checked and composed into registries.

  \<^item> A \<open>workspace\<close> is the validated model of the TOML file with the directory it was read from. What
    entry points give is an \<open>entry\<close>: a class or an object, which may be callable; \<open>hasattr\<close> and
    \<open>callable\<close> look at its lists of attributes and methods.
  \<^item> The functions \<open>build_*\<close> and \<open>validate_*\<close> are those of the source, in their order;
    \<open>load_workspace\<close> and \<open>compose_workspace\<close> compose them. Loading packages threads the file system,
    which executing their code may change.
  \<^item> The theorems: native commands and built-in connectors cannot be replaced by what is installed
    or configured; policy plugins only restrict the local policy; composing leaves the process
    environment as it was; webhooks need a secret from the environment and a checked URL; and a
    memory plugin whose name has a capital letter cannot be selected.
\<close>

section \<open>The workspace file\<close>

record workspace =
  ws_name :: string
  ws_backends :: "(string \<times> string option) list"
  ws_skills :: "string list"
  ws_connectors :: "string list"
  ws_memory :: pydict
  ws_policy :: pydict
  ws_context :: pydict
  ws_limits :: pydict
  ws_webhooks :: pydict
  ws_base_path :: "string list"

fun string_list :: "pyval list \<Rightarrow> string list option" where
  "string_list [] = Some []"
| "string_list (PStr s # vs) = map_option ((#) s) (string_list vs)"
| "string_list _ = None"

fun backend_values :: "pydict \<Rightarrow> (string \<times> string option) list option" where
  "backend_values [] = Some []"
| "backend_values ((k, PStr s) # d) = map_option ((#) (k, Some s)) (backend_values d)"
| "backend_values ((k, PNone) # d) = map_option ((#) (k, None)) (backend_values d)"
| "backend_values _ = None"

definition get_or :: "pyval \<Rightarrow> string \<Rightarrow> pydict \<Rightarrow> pyval" where
  "get_or v k d = (case dict_get d k of None \<Rightarrow> v | Some x \<Rightarrow> x)"

definition dict_field :: "string \<Rightarrow> pydict \<Rightarrow> pydict option" where
  "dict_field k d = (case get_or (PDict []) k d of PDict x \<Rightarrow> Some x | _ \<Rightarrow> None)"

definition list_field :: "string \<Rightarrow> pydict \<Rightarrow> string list option" where
  "list_field k d = (case get_or (PList []) k d of PList xs \<Rightarrow> string_list xs | _ \<Rightarrow> None)"

definition meta_name :: "pydict \<Rightarrow> string option" where
  "meta_name d =
     (case dict_get d ''workspace'' of
        Some (PDict m) \<Rightarrow>
          (if set (map fst m) \<subseteq> {''name'', ''department'', ''organization''} \<and>
              list_all (\<lambda>k. case dict_get m k of None \<Rightarrow> True | Some PNone \<Rightarrow> True | Some (PStr _) \<Rightarrow> True | _ \<Rightarrow> False)
                [''department'', ''organization'']
           then (case dict_get m ''name'' of Some (PStr s) \<Rightarrow> Some s | _ \<Rightarrow> None) else None)
      | _ \<Rightarrow> None)"

definition workspace_keys :: "string list" where
  "workspace_keys = [''workspace'', ''backends'', ''skills'', ''connectors'', ''memory'', ''policy'', ''context'',
     ''limits'', ''webhooks'']"

definition workspace_of :: "string list \<Rightarrow> pydict \<Rightarrow> workspace option" where
  "workspace_of base d =
     (if \<not> list_all (\<lambda>k. k \<in> set workspace_keys) (map fst d) then None
      else case (meta_name d, map_option backend_values (dict_field ''backends'' d), list_field ''skills'' d,
                 list_field ''connectors'' d, dict_field ''memory'' d, dict_field ''policy'' d,
                 dict_field ''context'' d, dict_field ''limits'' d, dict_field ''webhooks'' d) of
        (Some n, Some (Some bs), Some ss, Some cs, Some m, Some p, Some c, Some l, Some w) \<Rightarrow>
          Some \<lparr>ws_name = n, ws_backends = bs, ws_skills = ss, ws_connectors = cs, ws_memory = m, ws_policy = p,
                ws_context = c, ws_limits = l, ws_webhooks = w, ws_base_path = base\<rparr>
      | _ \<Rightarrow> None)"

section \<open>Paths\<close>

text \<open>\<open>Path(s).expanduser()\<close>: whether the path is absolute, and its components.\<close>

definition expand_user :: "(string \<Rightarrow> string list option) \<Rightarrow> string \<Rightarrow> (bool \<times> string list) result" where
  "expand_user home s =
     (if startswith s ''/'' then Inr (True, path_parts s)
      else case path_parts s of
        (c # user) # rest \<Rightarrow>
          (if c = CHR ''~''
           then (case home user of
                   None \<Rightarrow> Inl (OtherError ''Could not determine home directory.'')
                 | Some h \<Rightarrow> Inr (True, h @ rest))
           else Inr (False, (c # user) # rest))
      | ps \<Rightarrow> Inr (False, ps))"

definition below :: "string list \<Rightarrow> bool \<times> string list \<Rightarrow> string list" where
  "below base p = (if fst p then snd p else base @ snd p)"

definition resolve_checked :: "filesystem \<Rightarrow> string list \<Rightarrow> string list result" where
  "resolve_checked fs p =
     (if list_ex (\<lambda>n. CHR 0x00 \<in> set n) p then Inl (ValueError ''embedded null byte'') else path_resolve fs p)"

definition resolve_relative_path :: "'h py_host \<Rightarrow> filesystem \<Rightarrow> string list \<Rightarrow> string \<Rightarrow> string list result" where
  "resolve_relative_path host fs base v =
     bind_result (expand_user (host_home host) v) (\<lambda>p. resolve_checked fs (below base p))"

definition resolve_workspace_path :: "'h py_host \<Rightarrow> filesystem \<Rightarrow> string \<Rightarrow> string list result" where
  "resolve_workspace_path host fs path =
     bind_result (expand_user (host_home host) path) (\<lambda>p.
       let c = below (host_cwd host) p
       in resolve_checked fs (if os_is_dir fs c then c @ [''workspace.toml''] else c))"

definition RESTRICTED_FILENAMES :: "string list" where
  "RESTRICTED_FILENAMES = [''db_config.php'', ''mail_config.php'', ''.env'']"

definition restricted_path :: "string list \<Rightarrow> bool" where
  "restricted_path p =
     (let name = py_lower (if p = [] then [] else List.last p)
      in name \<in> set RESTRICTED_FILENAMES \<or> contains ''credentials'' name \<or> contains ''token'' name \<or>
         startswith name ''auth'')"

definition PATH_KEYS :: "string list" where
  "PATH_KEYS = [''path'', ''root'', ''root_path'', ''vault_path'']"

fun resolve_memory_keys :: "'h py_host \<Rightarrow> filesystem \<Rightarrow> string list \<Rightarrow> string list \<Rightarrow> pydict \<Rightarrow> pydict result" where
  "resolve_memory_keys host fs base [] m = Inr m"
| "resolve_memory_keys host fs base (k # ks) m =
     (case dict_get m k of
        Some (PStr v) \<Rightarrow>
          if strip v = [] then resolve_memory_keys host fs base ks m
          else bind_result (resolve_relative_path host fs base v) (\<lambda>r.
                 resolve_memory_keys host fs base ks (dict_set k (PStr (abs_str r)) m))
      | _ \<Rightarrow> resolve_memory_keys host fs base ks m)"

fun resolve_skill_entries :: "'h py_host \<Rightarrow> filesystem \<Rightarrow> string list \<Rightarrow> string list \<Rightarrow> string list result" where
  "resolve_skill_entries host fs base [] = Inr []"
| "resolve_skill_entries host fs base (s # ss) =
     bind_result (expand_user (host_home host) s) (\<lambda>p.
     bind_result (if os_exists fs (below base p)
                  then bind_result (resolve_checked fs (below base p)) (\<lambda>r. Inr (abs_str r)) else Inr s) (\<lambda>x.
     bind_result (resolve_skill_entries host fs base ss) (\<lambda>xs. Inr (x # xs))))"

definition resolve_workspace_paths :: "'h py_host \<Rightarrow> filesystem \<Rightarrow> workspace \<Rightarrow> workspace result" where
  "resolve_workspace_paths host fs ws =
     bind_result (resolve_memory_keys host fs (ws_base_path ws) PATH_KEYS (ws_memory ws)) (\<lambda>m.
     bind_result (resolve_skill_entries host fs (ws_base_path ws) (ws_skills ws)) (\<lambda>ss.
       Inr (ws\<lparr>ws_memory := m, ws_skills := ss\<rparr>)))"

section \<open>Objects of entry points\<close>

record 'o pyobj =
  po_attrs :: "string list"
  po_methods :: "string list"
  po_name :: "string option"
  po_impl :: 'o

datatype param_kind = Plain_param | Var_positional | Var_keyword

record sig_param =
  sp_name :: string
  sp_default :: bool
  sp_kind :: param_kind

record 'o maker =
  mk_params :: "sig_param list"
  mk_call :: "pydict \<Rightarrow> 'o pyobj result"

datatype 'o entry = Class_entry "'o maker" | Object_entry "'o pyobj" "'o maker option"

text \<open>\<open>isinstance(x, type) or (callable(x) and not hasattr(x, attr))\<close>\<close>

fun maker_unless :: "string \<Rightarrow> 'o entry \<Rightarrow> 'o maker option" where
  "maker_unless attr (Class_entry m) = Some m"
| "maker_unless attr (Object_entry x None) = None"
| "maker_unless attr (Object_entry x (Some m)) = (if attr \<in> set (po_attrs x) then None else Some m)"

fun entry_object :: "'o entry \<Rightarrow> 'o pyobj option" where
  "entry_object (Object_entry x _) = Some x"
| "entry_object (Class_entry _) = None"

definition required_params :: "'o maker \<Rightarrow> string list" where
  "required_params m = map sp_name (filter (\<lambda>q. \<not> sp_default q \<and> sp_kind q = Plain_param) (mk_params m))"

text \<open>A factory that is given the entries of a configuration it has parameters for.\<close>

definition call_with_config :: "pydict \<Rightarrow> 'o maker \<Rightarrow> 'o pyobj result" where
  "call_with_config cfg m =
     (if mk_params m = [] then mk_call m []
      else mk_call m (filter (\<lambda>(k, _). k \<in> set (map sp_name (mk_params m))) cfg))"

definition instance_with_config :: "string \<Rightarrow> pydict \<Rightarrow> 'o entry \<Rightarrow> 'o pyobj result" where
  "instance_with_config attr cfg e =
     (case maker_unless attr e of
        Some m \<Rightarrow> call_with_config cfg m
      | None \<Rightarrow> (case entry_object e of Some x \<Rightarrow> Inr x | None \<Rightarrow> Inl (TypeError [])))"

text \<open>A factory that must need no arguments.\<close>

definition instance_without_arguments :: "string \<Rightarrow> 'o entry \<Rightarrow> 'o pyobj result" where
  "instance_without_arguments what e =
     (case maker_unless ''name'' e of
        Some m \<Rightarrow>
          if required_params m \<noteq> []
          then Inl (ValueError (what @ '' requires unsupported arguments: '' @ join '', '' (required_params m)))
          else (case mk_call m [] of
                  Inl err \<Rightarrow> Inl (ValueError (''Failed to instantiate '' @ what @ '': '' @ exn_message err))
                | Inr x \<Rightarrow> Inr x)
      | None \<Rightarrow> (case entry_object e of Some x \<Rightarrow> Inr x | None \<Rightarrow> Inl (TypeError [])))"

definition has_method :: "string \<Rightarrow> 'o pyobj \<Rightarrow> bool" where
  "has_method m x = (m \<in> set (po_methods x))"

definition has_attr :: "string \<Rightarrow> 'o pyobj \<Rightarrow> bool" where
  "has_attr a x = (a \<in> set (po_attrs x))"

text \<open>Discovery with the check that no plugin takes a built-in name.\<close>

definition discover_protected ::
  "'o entry_points \<Rightarrow> string \<Rightarrow> string list \<Rightarrow> (string \<times> 'o result) list result" where
  "discover_protected eps grp builtin =
     (case discover eps grp of
        Inl e \<Rightarrow> Inl (ValueError (''Plugin discovery failed for group '' @ grp @ '': '' @ exn_message e))
      | Inr found \<Rightarrow>
          (case filter (\<lambda>n. n \<in> set builtin) (map fst found) of
             [] \<Rightarrow> Inr found
           | n # _ \<Rightarrow> Inl (ValueError (''Plugin in '' @ grp @ '' cannot override built-in '' @ n))))"

definition load_plugin :: "'o entry_points \<Rightarrow> string \<Rightarrow> string \<Rightarrow> 'o result" where
  "load_plugin eps grp name =
     (case resolve_plugin eps grp name of
        Inl e \<Rightarrow> Inl (ValueError (''Failed to load plugin '' @ name @ '': '' @ exn_message e))
      | Inr x \<Rightarrow> Inr x)"

section \<open>Back ends\<close>

record adapter =
  ad_name :: string
  ad_roles :: "string list"

type_synonym backend_registry = "(string \<times> adapter) list"

definition register_adapter :: "adapter \<Rightarrow> backend_registry \<Rightarrow> backend_registry result" where
  "register_adapter a reg =
     (let n = strip (ad_name a)
      in if n = [] then Inl (ValueError ''Backend adapter name must not be empty.'')
         else if dict_get reg n \<noteq> None then Inl (ValueError (''Backend adapter name already registered: '' @ n))
         else Inr (reg @ [(n, a)]))"

definition resolve_adapter :: "string \<Rightarrow> string \<Rightarrow> backend_registry \<Rightarrow> adapter result" where
  "resolve_adapter role name reg =
     (case dict_get reg name of
        None \<Rightarrow> Inl (ValueError (''Unknown backend adapter '' @ name @ ''. Registered adapters: '' @
                  (let r = join '', '' (sort (map fst reg)) in if r = [] then ''(none)'' else r)))
      | Some a \<Rightarrow>
          if role \<notin> set (ad_roles a)
          then Inl (ValueError (''Backend adapter '' @ name @ '' does not support role '' @ role @
                 ''. Supported roles: '' @ (let r = join '', '' (sort (ad_roles a)) in if r = [] then ''none'' else r)))
          else Inr a)"

definition BUILT_IN_BACKEND_NAMES :: "string list" where
  "BUILT_IN_BACKEND_NAMES = [''claude-code'', ''codex'', ''antigravity'']"

definition builtin_adapters :: backend_registry where
  "builtin_adapters =
     map (\<lambda>n. (n, \<lparr>ad_name = n, ad_roles = [''architect'', ''executor'']\<rparr>)) BUILT_IN_BACKEND_NAMES"

fun register_backends ::
  "adapter entry entry_points \<Rightarrow> string list \<Rightarrow> backend_registry \<Rightarrow> backend_registry result" where
  "register_backends eps [] reg = Inr reg"
| "register_backends eps (n # ns) reg =
     bind_result (load_plugin eps ''agent_os.backends'' n) (\<lambda>e.
     bind_result (instance_without_arguments (''Backend plugin '' @ n) e) (\<lambda>x.
       if \<not> (has_attr ''name'' x \<and> po_name x \<noteq> None \<and> has_attr ''binary_name'' x \<and> has_attr ''supported_roles'' x \<and>
             has_method ''build_invoker'' x \<and> has_method ''authentication_status'' x)
       then Inl (ValueError (''Backend plugin '' @ n @ '' does not satisfy the BackendAdapter interface.''))
       else bind_result (register_adapter (po_impl x) reg) (register_backends eps ns)))"

definition build_backend_registry :: "adapter entry entry_points \<Rightarrow> backend_registry result" where
  "build_backend_registry eps =
     bind_result (discover_protected eps ''agent_os.backends'' BUILT_IN_BACKEND_NAMES) (\<lambda>found.
       register_backends eps (map fst found) builtin_adapters)"

definition BACKEND_ROLES :: "string list" where
  "BACKEND_ROLES = [''router'', ''architect'', ''executor'']"

fun validate_backend_bindings :: "(string \<times> string option) list \<Rightarrow> backend_registry \<Rightarrow> unit result" where
  "validate_backend_bindings [] reg = Inr ()"
| "validate_backend_bindings ((role, v) # rest) reg =
     (if role \<notin> set BACKEND_ROLES
      then Inl (ValueError (''Unknown backend role '' @ role @ ''. Expected one of: '' @ join '', '' (sort BACKEND_ROLES)))
      else case v of
        None \<Rightarrow> validate_backend_bindings rest reg
      | Some value \<Rightarrow>
          if strip value = []
          then Inl (ValueError (''Backend value for role '' @ role @ '' must be a non-empty string.''))
          else if role = ''router'' then
            (if startswith (strip value) ''cli/''
             then Inl (ValueError (''Router cannot be a CLI backend: '' @ strip value))
             else validate_backend_bindings rest reg)
          else
            (case resolve_adapter role
                    (if startswith (strip value) ''cli/'' then drop 4 (strip value) else strip value) reg of
               Inl e \<Rightarrow> Inl (ValueError (''Workspace backend '' @ role @ '' is not resolvable: '' @ exn_message e))
             | Inr _ \<Rightarrow> validate_backend_bindings rest reg))"

section \<open>Skills of a workspace\<close>

definition looks_like_path :: "string \<Rightarrow> bool" where
  "looks_like_path v =
     (CHR ''/'' \<in> set v \<or> CHR 0x5C \<in> set v \<or> startswith v ''.'' \<or> startswith (rev v) (rev ''.toml''))"

definition load_skill_path :: "'h py_host \<Rightarrow> string \<Rightarrow> string list \<Rightarrow> 'h loading \<Rightarrow> unit result \<times> 'h loading" where
  "load_skill_path host ent p st =
     (let wrap = (\<lambda>(r, st'). case r of
                     Inl e \<Rightarrow> (Inl (ValueError (''Workspace skill '' @ ent @ '' is not resolvable: '' @ exn_message e)), st')
                   | Inr _ \<Rightarrow>
                       if set (skill_names (fst st')) = set (skill_names (fst st))
                       then (Inl (ValueError (''Workspace skill path '' @ ent @ '' did not register any skills.'')), st')
                       else (Inr (), st'))
      in if os_is_dir (snd st) p \<and> os_exists (snd st) (p @ [''manifest.toml'']) then wrap (load_package host p st)
         else if os_is_dir (snd st) p then wrap (load_from_directories host [abs_str p] st)
         else (Inl (ValueError (''Skill path '' @ ent @ '' is not a directory.'')), st))"

fun load_workspace_skills :: "'h py_host \<Rightarrow> string list \<Rightarrow> 'h loading \<Rightarrow> unit result \<times> 'h loading" where
  "load_workspace_skills host [] st = (Inr (), st)"
| "load_workspace_skills host (ent # rest) st =
     (if get_skill ent (fst st) \<noteq> None then load_workspace_skills host rest st
      else case expand_user (host_home host) ent of
        Inl e \<Rightarrow> (Inl e, st)
      | Inr q \<Rightarrow>
          (let p = below (host_cwd host) q in
           if os_exists (snd st) p
           then (case load_skill_path host ent p st of
                   (Inl e, st') \<Rightarrow> (Inl e, st')
                 | (Inr _, st') \<Rightarrow> load_workspace_skills host rest st')
           else if looks_like_path ent
           then (Inl (ValueError (''Workspace skill path '' @ ent @ '' does not exist.'')), st)
           else (Inl (ValueError (''Unknown workspace skill '' @ ent @ ''. Available skills: '' @
                  (let names = join '', '' (skill_names (fst st)) in if names = [] then ''none'' else names))), st)))"

definition policy_text :: "workspace \<Rightarrow> string \<Rightarrow> string" where
  "policy_text ws dflt = py_str (get_or (PStr dflt) ''mode'' (ws_policy ws))"

definition public_read_only :: "workspace \<Rightarrow> bool" where
  "public_read_only ws = (py_lower (strip (policy_text ws [])) = ''public-read-only'')"

definition build_workspace_skill_registry ::
  "'h py_host \<Rightarrow> 'h skill_target entry_points \<Rightarrow> 'h native_handlers \<Rightarrow> (string \<times> 'h) list \<Rightarrow> workspace \<Rightarrow> filesystem
     \<Rightarrow> 'h registry result \<times> filesystem" where
  "build_workspace_skill_registry host eps native mcp ws fs =
     (case (if public_read_only ws then Inr [] else build_default_registry native mcp) of
        Inl e \<Rightarrow> (Inl e, fs)
      | Inr reg \<Rightarrow>
          (case load_from_entry_points host eps (reg, fs) of
             (Inl e, st) \<Rightarrow> (Inl (ValueError (''Failed to load skill package plugins: '' @ exn_message e)), snd st)
           | (Inr _, st) \<Rightarrow>
               (case load_workspace_skills host (ws_skills ws) st of
                  (Inl e, st') \<Rightarrow> (Inl e, snd st')
                | (Inr _, st') \<Rightarrow> (Inr (fst st'), snd st'))))"

section \<open>Policy, context providers and event sinks\<close>

text \<open>A configured list of names: a single string is a list of one; for a mapping its keys are taken.\<close>

definition BUILT_IN_POLICY_NAMES :: "string list" where
  "BUILT_IN_POLICY_NAMES = [''local'', ''manual'', ''smart'', ''off'']"

definition BUILT_IN_CONTEXT_PROVIDER_NAMES :: "string list" where
  "BUILT_IN_CONTEXT_PROVIDER_NAMES = [''hot_context'', ''memory'', ''vault'', ''static'']"

definition BUILT_IN_EVENT_SINK_NAMES :: "string list" where
  "BUILT_IN_EVENT_SINK_NAMES = [''webhook'', ''console'', ''null'', ''noop'']"

fun configured_policies :: "pyval \<Rightarrow> pyval list result" where
  "configured_policies (PStr s) = Inr [PStr s]"
| "configured_policies (PList xs) = Inr xs"
| "configured_policies (PDict d) = Inr (map (PStr \<circ> fst) d)"
| "configured_policies v = (if truthy v then Inl (TypeError ''object is not iterable'') else Inr [])"

fun configured_names :: "pyval \<Rightarrow> pyval list" where
  "configured_names (PStr s) = [PStr s]"
| "configured_names (PList xs) = xs"
| "configured_names _ = []"

text \<open>The loop over the configured plugins of one group: each must be discovered, load, and after an
  optional call satisfy the interface.\<close>

fun load_configured ::
  "'o entry entry_points \<Rightarrow> string \<Rightarrow> string list \<Rightarrow> string \<Rightarrow> ('o pyobj \<Rightarrow> bool) \<Rightarrow> pydict \<Rightarrow> pyval list
     \<Rightarrow> 'o pyobj list result" where
  "load_configured eps grp found attr ok cfg [] = Inr []"
| "load_configured eps grp found attr ok cfg (v # vs) =
     (let n = strip (py_str v) in
      if n \<notin> set found
      then Inl (ValueError (''Unknown plugin '' @ n @ '' of '' @ grp @ ''. Available: '' @
             (let names = join '', '' (sort found) in if names = [] then ''none'' else names)))
      else bind_result (load_plugin eps grp n) (\<lambda>e.
           bind_result (instance_with_config attr cfg e) (\<lambda>x.
             if \<not> ok x then Inl (ValueError (''Plugin '' @ n @ '' of '' @ grp @ '' does not satisfy the interface.''))
             else bind_result (load_configured eps grp found attr ok cfg vs) (\<lambda>xs. Inr (x # xs)))))"

record 'p policy_setup =
  base_mode :: policy_mode
  policy_plugins :: "'p list option"

text \<open>The base policy is always \<open>LocalPolicy\<close> on the configured rules; \<open>None\<close> when it is used alone.\<close>

definition build_policy :: "'p entry entry_points \<Rightarrow> workspace \<Rightarrow> 'p policy_setup result" where
  "build_policy eps ws =
     (let m = mode_of_str (policy_text ws ''manual'') in
      bind_result (discover_protected eps ''agent_os.policies'' BUILT_IN_POLICY_NAMES) (\<lambda>found.
      bind_result (configured_policies (get_or (get_or (PList []) ''policies'' (ws_policy ws)) ''plugins'' (ws_policy ws))) (\<lambda>names.
        if names = [] then Inr \<lparr>base_mode = m, policy_plugins = None\<rparr>
        else bind_result (load_configured eps ''agent_os.policies'' (map fst found) ''evaluate''
                            (\<lambda>x. has_attr ''evaluate'' x \<and> has_method ''evaluate'' x) (ws_policy ws) names) (\<lambda>xs.
               Inr \<lparr>base_mode = m, policy_plugins = Some (map po_impl xs)\<rparr>))))"

text \<open>The engine of a set-up: the local policy, or the composite of it and the plugins.\<close>

definition policy_engine_of ::
  "'s permission_rule_store_ops \<Rightarrow> int \<Rightarrow> bool \<Rightarrow> workspace \<Rightarrow> ('s policy_world evaluator) policy_setup
     \<Rightarrow> 's policy_world policy_engine" where
  "policy_engine_of ops now stored ws setup =
     (let base = local_engine ops now \<lparr>rules = ws_policy ws, has_store = stored, mode = base_mode setup, session_key = None\<rparr>
      in case policy_plugins setup of None \<Rightarrow> base | Some ps \<Rightarrow> composite_engine base ps)"

definition build_context_providers :: "'c entry entry_points \<Rightarrow> workspace \<Rightarrow> 'c list result" where
  "build_context_providers eps ws =
     bind_result (discover_protected eps ''agent_os.context_providers'' BUILT_IN_CONTEXT_PROVIDER_NAMES) (\<lambda>found.
     bind_result (load_configured eps ''agent_os.context_providers'' (map fst found) ''provide''
         (\<lambda>x. has_attr ''name'' x \<and> has_attr ''provide'' x \<and> has_method ''provide'' x) (ws_context ws)
         (configured_names (get_or (PList []) ''providers'' (ws_context ws)))) (\<lambda>xs.
       Inr (map po_impl xs)))"

text \<open>\<open>int(x)\<close> and whether \<open>float(x)\<close> succeeds. Texts have no underscores; a float is read off its
  decimal form below \<open>10\<^sup>1\<^sup>6\<close>.\<close>

fun digits_value :: "nat \<Rightarrow> string \<Rightarrow> nat option" where
  "digits_value n [] = Some n"
| "digits_value n (c # cs) =
     (if is_digit c then digits_value (10 * n + ((of_char c :: nat) - 48)) cs else None)"

definition str_to_int :: "string \<Rightarrow> int option" where
  "str_to_int s =
     (case strip s of
        [] \<Rightarrow> None
      | c # cs \<Rightarrow>
          if (c = CHR ''-'' \<or> c = CHR ''+'') \<and> cs \<noteq> []
          then map_option (\<lambda>n. if c = CHR ''-'' then - int n else int n) (digits_value 0 cs)
          else map_option int (digits_value 0 (c # cs)))"

fun py_int :: "pyval \<Rightarrow> int result" where
  "py_int (PInt n) = Inr n"
| "py_int (PBool b) = Inr (if b then 1 else 0)"
| "py_int (PStr s) =
     (case str_to_int s of
        Some n \<Rightarrow> Inr n | None \<Rightarrow> Inl (ValueError (''invalid literal for int() with base 10: '' @ py_repr (PStr s))))"
| "py_int (PFloat r) =
     (case str_to_int (takeWhile (\<lambda>c. c \<noteq> CHR ''.'') r) of
        Some n \<Rightarrow> Inr n | None \<Rightarrow> Inl (ValueError ''cannot convert float to integer''))"
| "py_int _ = Inl (TypeError ''int() argument must be a string, a bytes-like object or a real number'')"

definition FLOAT_RE :: rexp where
  "FLOAT_RE =
     (let ds = RPlus (RCls is_digit); sign = ROpt (RCls (\<lambda>c. c = CHR ''+'' \<or> c = CHR ''-''));
          num = RAlt (RSeq ds (ROpt (RSeq (RChr CHR ''.'') (RStar (RCls is_digit))))) (RSeq (RChr CHR ''.'') ds)
      in RSeq sign (RSeq num (ROpt (RSeq (RCls (\<lambda>c. c = CHR ''e'' \<or> c = CHR ''E'')) (RSeq sign ds)))))"

definition float_words :: "string list" where
  "float_words = [''inf'', ''infinity'', ''nan'']"

fun float_ok :: "pyval \<Rightarrow> bool" where
  "float_ok (PInt n) = True"
| "float_ok (PBool b) = True"
| "float_ok (PFloat r) = True"
| "float_ok (PStr s) =
     (fullmatch FLOAT_RE (strip s) \<or>
      py_lower (dropWhile (\<lambda>c. c = CHR ''+'' \<or> c = CHR ''-'') (strip s)) \<in> set float_words)"
| "float_ok _ = False"

datatype 'o sink = Plugin_sink 'o | Webhook_sink webhook_config

fun allowed_hosts_of :: "pyval \<Rightarrow> string list" where
  "allowed_hosts_of (PStr s) = [s]"
| "allowed_hosts_of (PList xs) = map py_str xs"
| "allowed_hosts_of _ = []"

definition webhook_sink_of ::
  "web_lib \<Rightarrow> nat \<Rightarrow> (string \<times> string) list \<Rightarrow> pydict \<Rightarrow> webhook_config option result" where
  "webhook_sink_of lib n env d =
     (let url = strip (py_str (get_or (PStr []) ''url'' d));
          secret_env = strip (py_str (get_or (PStr []) ''secret_env'' d));
          secret = strip (case dict_get env secret_env of None \<Rightarrow> [] | Some v \<Rightarrow> v);
          allowed = allowed_hosts_of (get_or (PList []) ''allowed_internal_hosts'' d);
          insecure = truthy (get_or (PBool False) ''allow_insecure_http'' d)
      in if url = [] \<or> secret_env = [] \<or> secret = [] then Inr None
         else bind_result (is_safe_webhook_url lib n url allowed insecure) (\<lambda>verdict.
           case verdict of
             Inl why \<Rightarrow> Inl (ValueError (''Invalid webhook URL configuration: '' @ why))
           | Inr _ \<Rightarrow>
               bind_result (py_int (get_or (PInt 3) ''max_retries'' d)) (\<lambda>retries.
                 if \<not> float_ok (get_or (PFloat ''2.0'') ''timeout_seconds'' d)
                 then Inl (ValueError ''could not convert timeout_seconds to float'')
                 else Inr (Some \<lparr>wh_url = url, wh_secret = secret, wh_allowed_internal_hosts = allowed,
                        wh_allow_insecure_http = insecure, wh_max_retries = retries, wh_max_queue_size = 1000,
                        wh_num_workers = 1\<rparr>))))"

definition build_event_sinks ::
  "'k entry entry_points \<Rightarrow> web_lib \<Rightarrow> nat \<Rightarrow> (string \<times> string) list \<Rightarrow> workspace \<Rightarrow> 'k sink list result" where
  "build_event_sinks eps lib n env ws =
     bind_result (discover_protected eps ''agent_os.event_sinks'' BUILT_IN_EVENT_SINK_NAMES) (\<lambda>found.
     bind_result (load_configured eps ''agent_os.event_sinks'' (map fst found) ''emit''
         (\<lambda>x. has_attr ''name'' x \<and> has_attr ''emit'' x \<and> has_method ''emit'' x) (ws_webhooks ws)
         (configured_names (get_or (PList []) ''sinks'' (ws_webhooks ws)))) (\<lambda>xs.
       if dict_get (ws_webhooks ws) ''secret'' \<noteq> None
       then Inl (ValueError ''Webhook secrets must be referenced by 'secret_env'; literal secrets in workspace configuration are not allowed.'')
       else bind_result (webhook_sink_of lib n env (ws_webhooks ws)) (\<lambda>w.
         Inr (map (Plugin_sink \<circ> po_impl) xs @ (case w of None \<Rightarrow> [] | Some c \<Rightarrow> [Webhook_sink c])))))"

section \<open>Connectors\<close>

datatype 'o connector_impl = Filesystem_connector | Vault_connector string | Gbrain_connector | Plugin_connector 'o string

fun connector_name :: "'o connector_impl \<Rightarrow> string" where
  "connector_name Filesystem_connector = ''filesystem''"
| "connector_name (Vault_connector root_dir) = ''markdown_vault''"
| "connector_name Gbrain_connector = ''gbrain''"
| "connector_name (Plugin_connector x n) = n"

type_synonym 'o connector_registry = "(string \<times> 'o connector_impl) list"

definition register_connector :: "string \<Rightarrow> 'o connector_impl \<Rightarrow> 'o connector_registry \<Rightarrow> 'o connector_registry result" where
  "register_connector n c reg =
     (if dict_get reg n \<noteq> None then Inl (ValueError (''Connector '' @ n @ '' is already registered.''))
      else Inr (reg @ [(n, c)]))"

definition resolve_connector :: "string \<Rightarrow> 'o connector_registry \<Rightarrow> 'o connector_impl result" where
  "resolve_connector n reg =
     (case dict_get reg n of
        None \<Rightarrow> Inl (ValueError (''Connector '' @ n @ '' not found in registry.'')) | Some c \<Rightarrow> Inr c)"

definition BUILT_IN_MEMORY_NAMES :: "string list" where
  "BUILT_IN_MEMORY_NAMES = [''markdown'', ''markdown_vault'', ''gbrain'']"

definition BUILT_IN_ACTION_NAMES :: "string list" where
  "BUILT_IN_ACTION_NAMES = [''filesystem'', ''memory'', ''markdown'', ''markdown_vault'', ''gbrain'']"

definition memory_type :: "workspace \<Rightarrow> string" where
  "memory_type ws =
     py_lower (strip (py_str (get_or (get_or (PStr ''markdown'') ''connector'' (ws_memory ws)) ''type'' (ws_memory ws))))"

definition memory_root :: "workspace \<Rightarrow> string" where
  "memory_root ws =
     py_str (get_or (get_or (get_or (PStr ''.'') ''root'' (ws_memory ws)) ''root_path'' (ws_memory ws)) ''path'' (ws_memory ws))"

text \<open>The arguments a memory factory is called with: all of the configuration, or what it names.\<close>

fun memory_arguments :: "sig_param list \<Rightarrow> pydict \<Rightarrow> string list \<times> pydict" where
  "memory_arguments [] m = ([], [])"
| "memory_arguments (q # qs) m =
     (case memory_arguments qs m of (missing, args) \<Rightarrow>
        if sp_kind q \<noteq> Plain_param then (missing, args)
        else (case dict_get m (sp_name q) of
                Some v \<Rightarrow> (missing, (sp_name q, v) # args)
              | None \<Rightarrow> if sp_default q then (missing, args) else (sp_name q # missing, args)))"

definition call_memory_maker :: "string \<Rightarrow> pydict \<Rightarrow> 'o maker \<Rightarrow> 'o pyobj result" where
  "call_memory_maker what m mk =
     (case (if list_ex (\<lambda>q. sp_kind q = Var_keyword) (mk_params mk) then ([], m)
            else memory_arguments (mk_params mk) m) of
        (missing, args) \<Rightarrow>
          if missing \<noteq> []
          then Inl (ValueError (''Memory connector plugin '' @ what @ '' requires parameter(s) '' @ join '', '' missing @
                 '' which are not provided in workspace memory configuration.''))
          else (case mk_call mk args of
                  Inl e \<Rightarrow> Inl (ValueError (''Failed to instantiate memory connector plugin '' @ what @ '': '' @ exn_message e))
                | Inr x \<Rightarrow> Inr x))"

definition memory_instance :: "string \<Rightarrow> pydict \<Rightarrow> 'o entry \<Rightarrow> 'o pyobj result" where
  "memory_instance what m e =
     (case e of
        Class_entry mk \<Rightarrow> call_memory_maker what m mk
      | Object_entry x None \<Rightarrow> Inr x
      | Object_entry x (Some mk) \<Rightarrow>
          if has_attr ''name'' x \<and> has_method ''search'' x \<and> has_method ''read_note'' x then Inr x
          else call_memory_maker what m mk)"

definition memory_methods :: "string list" where
  "memory_methods = [''search'', ''read_note'', ''list_notes'', ''write_note'', ''describe_write_side_effect'']"

definition build_memory_connector ::
  "'h py_host \<Rightarrow> 'o entry entry_points \<Rightarrow> filesystem \<Rightarrow> workspace \<Rightarrow> 'o connector_impl result" where
  "build_memory_connector host eps fs ws =
     bind_result (discover_protected eps ''agent_os.memory_connectors'' BUILT_IN_MEMORY_NAMES) (\<lambda>found.
       let t = memory_type ws in
       if t = ''markdown'' \<or> t = ''markdown_vault'' then
         bind_result (resolve_relative_path host fs (ws_base_path ws) (memory_root ws)) (\<lambda>r.
           Inr (Vault_connector (abs_str r)))
       else if t = ''gbrain'' then Inr Gbrain_connector
       else if t \<notin> set (map fst found) then
         Inl (ValueError (''Unknown memory connector '' @ t @ ''. Available built-ins: markdown, gbrain. Discovered plugins: '' @
           (let names = join '', '' (sort (map fst found)) in if names = [] then ''none'' else names) @ ''.''))
       else bind_result (load_plugin eps ''agent_os.memory_connectors'' t) (\<lambda>e.
            bind_result (memory_instance t (ws_memory ws) e) (\<lambda>x.
              case po_name x of
                Some n \<Rightarrow>
                  if has_attr ''name'' x \<and> has_attr ''supported_write_modes'' x \<and>
                     list_all (\<lambda>m. has_method m x) memory_methods
                  then Inr (Plugin_connector (po_impl x) n)
                  else Inl (ValueError (''Memory connector plugin '' @ t @ '' does not satisfy the MemoryConnector interface''))
              | None \<Rightarrow> Inl (ValueError (''Memory connector plugin '' @ t @ '' does not satisfy the MemoryConnector interface'')))))"

fun register_actions ::
  "'o entry entry_points \<Rightarrow> string list \<Rightarrow> 'o connector_registry \<Rightarrow> 'o connector_registry result" where
  "register_actions eps [] reg = Inr reg"
| "register_actions eps (n # ns) reg =
     bind_result (load_plugin eps ''agent_os.connectors'' n) (\<lambda>e.
     bind_result (instance_without_arguments (''Action connector plugin '' @ n) e) (\<lambda>x.
       case po_name x of
         Some m \<Rightarrow>
           if has_attr ''name'' x \<and> list_all (\<lambda>k. has_method k x) [''capabilities'', ''describe_side_effect'', ''invoke'']
           then bind_result (register_connector n (Plugin_connector (po_impl x) m) reg) (register_actions eps ns)
           else Inl (ValueError (''Action connector plugin '' @ n @ '' does not satisfy the Connector interface''))
       | None \<Rightarrow> Inl (ValueError (''Action connector plugin '' @ n @ '' does not satisfy the Connector interface''))))"

definition build_connector_registry ::
  "'h py_host \<Rightarrow> 'o entry entry_points \<Rightarrow> filesystem \<Rightarrow> workspace
     \<Rightarrow> ('o connector_registry \<times> 'o connector_impl) result" where
  "build_connector_registry host eps fs ws =
     bind_result (discover_protected eps ''agent_os.connectors'' BUILT_IN_ACTION_NAMES) (\<lambda>found.
     bind_result (register_connector ''filesystem'' Filesystem_connector []) (\<lambda>r0.
     bind_result (build_memory_connector host eps fs ws) (\<lambda>mem.
     bind_result (register_connector ''memory'' mem r0) (\<lambda>r1.
     bind_result (case register_connector (connector_name mem) mem r1 of
                    Inl e \<Rightarrow> Inl (ValueError (''Failed to register memory connector '' @ connector_name mem @ '': '' @ exn_message e))
                  | Inr r \<Rightarrow> Inr r) (\<lambda>r2.
     bind_result (if connector_name mem = ''markdown_vault'' then register_connector ''markdown'' mem r2 else Inr r2) (\<lambda>r3.
     bind_result (register_actions eps (map fst found) r3) (\<lambda>r4. Inr (r4, mem))))))))"

fun validate_connector_references :: "string list \<Rightarrow> 'o connector_registry \<Rightarrow> unit result" where
  "validate_connector_references [] reg = Inr ()"
| "validate_connector_references (c # cs) reg =
     (case resolve_connector c reg of
        Inl _ \<Rightarrow> Inl (ValueError (''Unknown workspace connector '' @ c @ ''. Available connectors: '' @
                   (let names = join '', '' (map fst reg) in if names = [] then ''none'' else names)))
      | Inr _ \<Rightarrow> validate_connector_references cs reg)"

section \<open>The environment of a workspace\<close>

definition role_env :: "(string \<times> string) list" where
  "role_env = [(''router'', ''LLM_ROUTER''), (''architect'', ''LLM_ARCHITECT''), (''executor'', ''LLM_EXECUTOR'')]"

definition role_value :: "string \<Rightarrow> string \<Rightarrow> string" where
  "role_value role v =
     (if role \<noteq> ''router'' \<and> \<not> startswith (strip v) ''cli/'' then ''cli/'' @ strip v else strip v)"

definition workspace_environment ::
  "'h py_host \<Rightarrow> filesystem \<Rightarrow> workspace \<Rightarrow> (string \<times> string option) list result" where
  "workspace_environment host fs ws =
     (let roles = concat (map (\<lambda>(role, var). case dict_get (ws_backends ws) role of
                    None \<Rightarrow> [] | Some None \<Rightarrow> [(var, None)] | Some (Some v) \<Rightarrow> [(var, Some (role_value role v))]) role_env);
          t = memory_type ws
      in if t = ''markdown'' \<or> t = ''markdown_vault'' then
           bind_result (resolve_relative_path host fs (ws_base_path ws) (memory_root ws)) (\<lambda>r.
             Inr (roles @ [(''AGENT_OS_MEMORY_CONNECTOR'', Some ''markdown''), (''AGENT_OS_VAULT_PATH'', Some (abs_str r))]))
         else Inr (roles @ [(''AGENT_OS_MEMORY_CONNECTOR'', Some t)]))"

type_synonym environ = "(string \<times> string) list"

fun set_variable :: "string \<times> string option \<Rightarrow> environ \<Rightarrow> environ" where
  "set_variable (k, None) env = AList.delete k env"
| "set_variable (k, Some v) env = AList.update k v env"

definition patched_environment ::
  "(string \<times> string option) list \<Rightarrow> (environ \<Rightarrow> 'a \<times> environ) \<Rightarrow> environ \<Rightarrow> 'a \<times> environ" where
  "patched_environment values body env =
     (case body (fold set_variable values env) of
        (r, env') \<Rightarrow> (r, fold set_variable (map (\<lambda>(k, _). (k, dict_get env k)) values) env'))"

record backend_binding =
  bb_router :: "string option"
  bb_architect :: "string option"
  bb_executor :: "string option"
  bb_profile_name :: "string option"
  bb_sandbox_root :: string

definition resolve_backend_binding :: "(environ \<Rightarrow> string result) \<Rightarrow> string option \<Rightarrow> environ \<Rightarrow> backend_binding result \<times> environ" where
  "resolve_backend_binding sandbox_root profile env =
     (bind_result (sandbox_root env) (\<lambda>r.
        Inr \<lparr>bb_router = dict_get env ''LLM_ROUTER'', bb_architect = dict_get env ''LLM_ARCHITECT'',
             bb_executor = dict_get env ''LLM_EXECUTOR'', bb_profile_name = profile, bb_sandbox_root = r\<rparr>), env)"

definition binding_conflicts ::
  "backend_binding \<Rightarrow> backend_binding \<Rightarrow> (string \<times> string option \<times> string option) list" where
  "binding_conflicts old new =
     filter (\<lambda>(f, a, b). a \<noteq> b)
       [(''router'', bb_router old, bb_router new), (''architect'', bb_architect old, bb_architect new),
        (''executor'', bb_executor old, bb_executor new),
        (''sandbox_root'', Some (bb_sandbox_root old), Some (bb_sandbox_root new))]"

definition validate_backend_binding :: "backend_binding \<Rightarrow> backend_registry \<Rightarrow> unit result" where
  "validate_backend_binding b reg =
     (let check = (\<lambda>role v. case v of
            Some s \<Rightarrow> if startswith s ''cli/'' then bind_result (resolve_adapter role (drop 4 s) reg) (\<lambda>_. Inr ()) else Inr ()
          | None \<Rightarrow> Inr ())
      in bind_result (check ''architect'' (bb_architect b)) (\<lambda>_.
         bind_result (check ''executor'' (bb_executor b)) (\<lambda>_.
           if \<not> startswith (bb_sandbox_root b) ''/'' then Inl (ValueError ''sandbox_root must be an absolute path'')
           else Inr ())))"

section \<open>Loading and composing\<close>

record ('h, 'o, 'p, 'c, 'k) installed =
  in_backends :: "adapter entry entry_points"
  in_connectors :: "'o entry entry_points"
  in_packages :: "'h skill_target entry_points"
  in_policies :: "'p entry entry_points"
  in_providers :: "'c entry entry_points"
  in_sinks :: "'k entry entry_points"
  in_native :: "'h native_handlers"
  in_mcp_tools :: "(string \<times> 'h) list"
  in_web :: web_lib

definition read_workspace :: "'h py_host \<Rightarrow> filesystem \<Rightarrow> string \<Rightarrow> workspace result" where
  "read_workspace host fs path =
     bind_result (resolve_workspace_path host fs path) (\<lambda>p.
       if restricted_path p then Inl (ValueError (''Refusing to load restricted configuration path: '' @ abs_str p))
       else case os_read fs p of
         Inl e \<Rightarrow> Inl (ValueError (''Unable to read workspace file '' @ abs_str p @ '': '' @ exn_message e))
       | Inr text \<Rightarrow>
           (case host_toml host text of
              Inl e \<Rightarrow> Inl (ValueError (''Malformed TOML in workspace file '' @ abs_str p @ '': '' @ exn_message e))
            | Inr d \<Rightarrow>
                (case workspace_of (butlast p) d of
                   None \<Rightarrow> Inl (ValueError (''Invalid workspace configuration in '' @ abs_str p))
                 | Some ws \<Rightarrow> resolve_workspace_paths host fs ws)))"

text \<open>The part that loading and composing share: back ends, connectors and skills.\<close>

definition build_registries ::
  "'h py_host \<Rightarrow> ('h, 'o, 'p, 'c, 'k) installed \<Rightarrow> workspace \<Rightarrow> filesystem
     \<Rightarrow> (backend_registry \<times> 'o connector_registry \<times> 'o connector_impl \<times> 'h registry) result \<times> filesystem" where
  "build_registries host inst ws fs =
     (case bind_result (build_backend_registry (in_backends inst)) (\<lambda>bs.
           bind_result (validate_backend_bindings (ws_backends ws) bs) (\<lambda>_.
           bind_result (build_connector_registry host (in_connectors inst) fs ws) (\<lambda>c. Inr (bs, c)))) of
        Inl e \<Rightarrow> (Inl e, fs)
      | Inr (bs, cs, mem) \<Rightarrow>
          (case build_workspace_skill_registry host (in_packages inst) (in_native inst) (in_mcp_tools inst) ws fs of
             (Inl e, fs') \<Rightarrow> (Inl e, fs')
           | (Inr reg, fs') \<Rightarrow>
               (case validate_connector_references (ws_connectors ws) cs of
                  Inl e \<Rightarrow> (Inl e, fs')
                | Inr _ \<Rightarrow> (Inr (bs, cs, mem, reg), fs'))))"

definition load_workspace ::
  "'h py_host \<Rightarrow> ('h, 'o, 'p, 'c, 'k) installed \<Rightarrow> environ \<Rightarrow> nat \<Rightarrow> string \<Rightarrow> filesystem
     \<Rightarrow> workspace result \<times> filesystem" where
  "load_workspace host inst env n path fs =
     (case read_workspace host fs path of
        Inl e \<Rightarrow> (Inl e, fs)
      | Inr ws \<Rightarrow>
          (case build_registries host inst ws fs of
             (Inl e, fs') \<Rightarrow> (Inl e, fs')
           | (Inr _, fs') \<Rightarrow>
               (bind_result (build_policy (in_policies inst) ws) (\<lambda>_.
                bind_result (build_context_providers (in_providers inst) ws) (\<lambda>_.
                bind_result (build_event_sinks (in_sinks inst) (in_web inst) n env ws) (\<lambda>_. Inr ws))), fs')))"

definition resolve_permission_db_path ::
  "'h py_host \<Rightarrow> filesystem \<Rightarrow> environ \<Rightarrow> workspace \<Rightarrow> string result" where
  "resolve_permission_db_path host fs env ws =
     (let configured = strip (case dict_get env ''AGENT_OS_PERMISSIONS_DB'' of None \<Rightarrow> [] | Some v \<Rightarrow> v)
      in bind_result (if configured \<noteq> [] then resolve_relative_path host fs (host_cwd host) configured
                      else resolve_checked fs (ws_base_path ws @ [''permissions.db''])) (\<lambda>r. Inr (abs_str r)))"

definition optional_string_list :: "pyval option \<Rightarrow> string list option result" where
  "optional_string_list v =
     (case v of
        None \<Rightarrow> Inr None
      | Some PNone \<Rightarrow> Inr None
      | Some (PList xs) \<Rightarrow>
          (case string_list xs of Some ss \<Rightarrow> Inr (Some ss) | None \<Rightarrow> Inl (ValueError ''context.sources must be a list of strings.''))
      | _ \<Rightarrow> Inl (ValueError ''context.sources must be a list of strings.''))"

record ('h, 'o, 'p, 'c, 'k) composed =
  co_workspace :: workspace
  co_binding :: backend_binding
  co_backends :: backend_registry
  co_skills :: "'h registry"
  co_connectors :: "'o connector_registry"
  co_memory :: "'o connector_impl"
  co_policy :: "'p policy_setup"
  co_has_store :: bool
  co_hot_context :: string
  co_limits :: pydict
  co_environment :: "(string \<times> string option) list"
  co_providers :: "'c list"
  co_sinks :: "'k sink list"

text \<open>\<open>hot\<close> is \<open>load_hot_context\<close> with its limits and sources; \<open>opens\<close> tells whether a database opens. The
  environment is returned as composing leaves it.\<close>

definition sandbox_text :: "'h py_host \<Rightarrow> filesystem \<Rightarrow> string list option \<Rightarrow> environ \<Rightarrow> string result" where
  "sandbox_text host fs scope env =
     bind_result (get_sandbox_root \<lparr>os_fs = fs, os_cwd = host_cwd host,
       os_sandbox_env = dict_get env ''AGENT_OS_SANDBOX'', sandbox_override = scope\<rparr>) (\<lambda>r. Inr (abs_str r))"

definition compose_rest ::
  "'h py_host \<Rightarrow> ('h, 'o, 'p, 'c, 'k) installed \<Rightarrow> ('o connector_impl \<Rightarrow> int \<Rightarrow> int \<Rightarrow> string list option \<Rightarrow> string result)
     \<Rightarrow> (string \<Rightarrow> bool) \<Rightarrow> nat \<Rightarrow> workspace \<Rightarrow> filesystem \<Rightarrow> environ \<Rightarrow> (string \<times> string option) list
     \<Rightarrow> backend_registry \<times> 'o connector_registry \<times> 'o connector_impl \<times> 'h registry \<Rightarrow> backend_binding
     \<Rightarrow> ('h, 'o, 'p, 'c, 'k) composed result" where
  "compose_rest host inst hot opens n ws fs env values regs binding =
     (case regs of (bs, cs, mem, reg) \<Rightarrow>
        bind_result (optional_string_list (dict_get (ws_context ws) ''sources'')) (\<lambda>sources.
        bind_result (py_int (get_or (PInt 8000) ''max_chars'' (ws_context ws))) (\<lambda>max_chars.
        bind_result (py_int (get_or (PInt 14) ''max_age_days'' (ws_context ws))) (\<lambda>max_age.
        bind_result (hot mem max_chars max_age sources) (\<lambda>text.
        bind_result (resolve_permission_db_path host fs env ws) (\<lambda>db.
        bind_result (build_policy (in_policies inst) ws) (\<lambda>setup.
        bind_result (build_context_providers (in_providers inst) ws) (\<lambda>providers.
        bind_result (build_event_sinks (in_sinks inst) (in_web inst) n env ws) (\<lambda>sinks.
          Inr \<lparr>co_workspace = ws, co_binding = binding, co_backends = bs, co_skills = reg, co_connectors = cs,
               co_memory = mem, co_policy = setup, co_has_store = opens db, co_hot_context = text,
               co_limits = ws_limits ws, co_environment = values, co_providers = providers, co_sinks = sinks\<rparr>)))))))))"

definition compose_workspace ::
  "'h py_host \<Rightarrow> ('h, 'o, 'p, 'c, 'k) installed \<Rightarrow> ('o connector_impl \<Rightarrow> int \<Rightarrow> int \<Rightarrow> string list option \<Rightarrow> string result)
     \<Rightarrow> (string \<Rightarrow> bool) \<Rightarrow> string list option \<Rightarrow> nat \<Rightarrow> workspace \<Rightarrow> filesystem \<Rightarrow> environ
     \<Rightarrow> ('h, 'o, 'p, 'c, 'k) composed result \<times> filesystem \<times> environ" where
  "compose_workspace host inst hot opens scope n ws fs env =
     (case build_registries host inst ws fs of
        (Inl e, fs') \<Rightarrow> (Inl e, fs', env)
      | (Inr regs, fs') \<Rightarrow>
          (case workspace_environment host fs' ws of
             Inl e \<Rightarrow> (Inl e, fs', env)
           | Inr values \<Rightarrow>
               (case patched_environment values
                       (resolve_backend_binding (sandbox_text host fs' scope) (Some (''workspace:'' @ ws_name ws))) env of
                  (Inl e, env') \<Rightarrow> (Inl e, fs', env')
                | (Inr binding, env') \<Rightarrow>
                    (compose_rest host inst hot opens n ws fs' env' values regs binding, fs', env'))))"

section \<open>Skills\<close>

lemma load_skill_path_state:
  assumes "load_skill_path host ent p st = (r, st')"
  shows "st' = st \<or> st' = snd (load_package host p st) \<or> st' = snd (load_from_directories host [abs_str p] st)"
  using assms unfolding load_skill_path_def Let_def
  by (simp only: split_beta split: if_splits sum.splits) auto

lemma load_skill_path_adds:
  assumes "load_skill_path host ent p st = (r, st')"
  shows "only_adds (fst st) (fst st')"
proof -
  from assms have "st' = st \<or> st' = snd (load_package host p st) \<or> st' = snd (load_from_directories host [abs_str p] st)"
    by (rule load_skill_path_state)
  with load_package_adds [of host p st] load_from_directories_adds [of host "[abs_str p]" st]
  show ?thesis by (metis only_adds_refl surjective_pairing)
qed

lemma load_workspace_skills_adds:
  "load_workspace_skills host ss st = (r, st') \<Longrightarrow> only_adds (fst st) (fst st')"
proof (induction host ss st rule: load_workspace_skills.induct)
  case (2 host ent rest st)
  then show ?case
    by (auto simp: Let_def split: if_splits prod.splits sum.splits
        intro: only_adds_trans [OF load_skill_path_adds] load_skill_path_adds)
qed simp

lemma default_registry_built:
  "\<exists>more. build_default_registry native mcp =
     Inr (map (\<lambda>s. (skill_name s, s)) (native_skills native) @ more) \<and>
   registry_ok (map (\<lambda>s. (skill_name s, s)) (native_skills native) @ more)"
  using mcp_appends [OF native_ok [of native], of mcp] by (auto simp: build_default_registry_def native_registered)

text \<open>C15: Nothing that is installed or configured takes a native command away. In a workspace that is not
  public, whatever the entry points, the skill packages, the MCP tools and the listed skills are,
  a command of a native tool is dispatched to that tool.\<close>

theorem native_tools_survive:
  assumes "build_workspace_skill_registry host eps native mcp ws fs = (Inr reg, fs')" "entry_points_made eps"
    and "\<not> public_read_only ws" "s \<in> set (native_skills native)" "matches s command"
  shows "deterministic_match command reg = Some s"
proof -
  obtain reg0 more where reg0: "build_default_registry native mcp = Inr reg0" "registry_ok reg0"
    "reg0 = map (\<lambda>s. (skill_name s, s)) (native_skills native) @ more"
    using default_registry_built [of native mcp] by blast
  with assms(1,3) obtain st st' where
    st: "load_from_entry_points host eps (reg0, fs) = (Inr (), st)"
      "load_workspace_skills host (ws_skills ws) st = (Inr (), st')" "reg = fst st'"
    by (auto simp: build_workspace_skill_registry_def split: prod.splits sum.splits)
  have "only_adds reg0 reg"
    using only_adds_trans [OF load_from_entry_points_adds [OF st(1) assms(2)] load_workspace_skills_adds [OF st(2)]]
    by (simp add: st(3))
  with reg0(2) obtain more' where reg: "registry_ok reg" "reg = reg0 @ more'" by (auto simp: only_adds_def)
  have "s \<in> set (map snd reg)" using assms(4) by (auto simp: reg(2) reg0(3))
  with reg(1) show ?thesis using assms(5) by (rule match_of_member)
qed

section \<open>Connectors\<close>

lemma rewrapped_Inr [simp]: "(case m of Inl e \<Rightarrow> Inl (f e) | Inr r \<Rightarrow> Inr r) = Inr y \<longleftrightarrow> m = Inr y"
  by (cases m) auto

lemma verdict_Inr [simp]: "(case v of Inl e \<Rightarrow> Inl (f e) | Inr (u::unit) \<Rightarrow> g) = Inr y \<longleftrightarrow> v = Inr () \<and> g = Inr y"
  by (cases v) auto

lemma register_actions_keeps:
  "register_actions eps ns reg = Inr reg' \<Longrightarrow>
     \<exists>more. reg' = reg @ more \<and> (\<forall>(n, c)\<in>set more. n \<in> set ns \<and> (\<exists>x m. c = Plugin_connector x m))"
proof (induction eps ns reg arbitrary: reg' rule: register_actions.induct)
  case (2 eps n ns reg)
  from 2(2) obtain e x m r where e: "load_plugin eps ''agent_os.connectors'' n = Inr e"
    "instance_without_arguments (''Action connector plugin '' @ n) e = Inr x" "po_name x = Some m"
    "has_attr ''name'' x \<and> list_all (\<lambda>k. has_method k x) [''capabilities'', ''describe_side_effect'', ''invoke'']"
    "register_connector n (Plugin_connector (po_impl x) m) reg = Inr r" "register_actions eps ns r = Inr reg'"
    by (auto split: option.splits if_splits)
  then have r: "r = reg @ [(n, Plugin_connector (po_impl x) m)]"
    by (auto simp: register_connector_def split: if_splits)
  from 2(1) [OF e(3,4,6)] show ?case by (auto simp: r)
qed auto

lemma filter_Nil_disjoint: "filter (\<lambda>n. n \<in> set bs) ns = [] \<longleftrightarrow> set ns \<inter> set bs = {}"
  by (induction ns) auto

lemma discover_protected_disjoint:
  "discover_protected eps grp builtin = Inr found \<Longrightarrow> set (map fst found) \<inter> set builtin = {}"
  using filter_Nil_disjoint [of builtin "map fst found"]
  by (auto simp: discover_protected_def split: sum.splits list.splits)

lemma registered_connector: "register_connector n c reg = Inr reg' \<Longrightarrow> reg' = reg @ [(n, c)] \<and> n \<notin> fst ` set reg"
  by (auto simp: register_connector_def map_of_eq_None_iff split: if_splits)

text \<open>Installed plugins cannot replace a built-in connector. In every registry that is built,
  \<open>filesystem\<close> is the built-in one, \<open>memory\<close> and the name of the memory connector are the configured
  memory, for the Markdown vault also \<open>markdown\<close>, with the configured directory as its root; any
  other name is that of a discovered plugin, and the configured memory is a plugin only when no
  built-in type is configured.\<close>

theorem builtin_connectors_protected:
  assumes "build_connector_registry host eps fs ws = Inr (reg, mem)"
  shows "resolve_connector ''filesystem'' reg = Inr Filesystem_connector \<and> resolve_connector ''memory'' reg = Inr mem \<and>
    resolve_connector (connector_name mem) reg = Inr mem \<and>
    (memory_type ws \<in> {''markdown'', ''markdown_vault''} \<longrightarrow>
       (\<exists>r. resolve_relative_path host fs (ws_base_path ws) (memory_root ws) = Inr r \<and>
            mem = Vault_connector (abs_str r) \<and> resolve_connector ''markdown'' reg = Inr mem)) \<and>
    (\<forall>n c. resolve_connector n reg = Inr c \<longrightarrow>
       n \<in> {''filesystem'', ''memory'', ''markdown'', connector_name mem} \<or>
       (\<exists>x m. c = Plugin_connector x m) \<and> n \<notin> set BUILT_IN_ACTION_NAMES)"
proof -
  from assms obtain found r3 where b: "discover_protected eps ''agent_os.connectors'' BUILT_IN_ACTION_NAMES = Inr found"
    "build_memory_connector host eps fs ws = Inr mem" "connector_name mem \<notin> {''filesystem'', ''memory''}"
    "r3 = [(''filesystem'', Filesystem_connector), (''memory'', mem), (connector_name mem, mem)] @
       (if connector_name mem = ''markdown_vault'' then [(''markdown'', mem)] else [])"
    "register_actions eps (map fst found) r3 = Inr reg"
    by (auto simp: build_connector_registry_def dest!: registered_connector split: if_splits)
  from register_actions_keeps [OF b(5)] obtain more where more: "reg = r3 @ more"
    "\<forall>(n, c)\<in>set more. n \<in> set (map fst found) \<and> (\<exists>x m. c = Plugin_connector x m)" by blast
  have new: "\<forall>(n, c)\<in>set more. n \<notin> set BUILT_IN_ACTION_NAMES \<and> (\<exists>x m. c = Plugin_connector x m)"
    using more(2) discover_protected_disjoint [OF b(1)] by fastforce
  have vault: "memory_type ws \<in> {''markdown'', ''markdown_vault''} \<longrightarrow>
      (\<exists>r. resolve_relative_path host fs (ws_base_path ws) (memory_root ws) = Inr r \<and> mem = Vault_connector (abs_str r))"
    using b(2) by (auto simp: build_memory_connector_def Let_def)
  have others: "n \<in> {''filesystem'', ''memory'', ''markdown'', connector_name mem} \<or>
      (\<exists>x m. c = Plugin_connector x m) \<and> n \<notin> set BUILT_IN_ACTION_NAMES" if "resolve_connector n reg = Inr c" for n c
  proof -
    from that have "(n, c) \<in> set reg" by (auto simp: resolve_connector_def dest: map_of_SomeD split: option.splits)
    then consider "(n, c) \<in> set r3" | "(n, c) \<in> set more" by (auto simp: more(1))
    then show ?thesis
    proof cases
      case 1
      then have "n \<in> fst ` set r3" by force
      then have "n \<in> {''filesystem'', ''memory'', ''markdown'', connector_name mem}"
        by (simp add: b(4) split: if_splits) blast
      then show ?thesis by simp
    next
      case 2
      with new show ?thesis by blast
    qed
  qed
  have kept: "resolve_connector n reg = Inr c" if "dict_get r3 n = Some c" for n c
    using that by (auto simp: more(1) resolve_connector_def map_add_def split: option.splits)
  have builtin: "dict_get r3 ''filesystem'' = Some Filesystem_connector" "dict_get r3 ''memory'' = Some mem"
    "dict_get r3 (connector_name mem) = Some mem" using b(3) by (simp_all add: b(4))
  have markdown: "connector_name mem = ''markdown_vault'' \<Longrightarrow> dict_get r3 ''markdown'' = Some mem"
    by (simp add: b(4))
  have "memory_type ws \<in> {''markdown'', ''markdown_vault''} \<longrightarrow>
      (\<exists>r. resolve_relative_path host fs (ws_base_path ws) (memory_root ws) = Inr r \<and>
           mem = Vault_connector (abs_str r) \<and> resolve_connector ''markdown'' reg = Inr mem)"
    using vault kept [OF markdown] by (metis connector_name.simps(2))
  then show ?thesis using others kept [OF builtin(1)] kept [OF builtin(2)] kept [OF builtin(3)] by blast
qed

text \<open>A memory plugin whose registered name is not in lower case cannot be configured. The configured
  type is turned into lower case, the names of the plugins are not: the discovered plugin is
  reported as unknown, and named in the same message among those that are available.\<close>

theorem memory_plugin_case:
  assumes "discover eps ''agent_os.memory_connectors'' = Inr found" "n \<in> set (map fst found)"
    and "py_lower n \<notin> set (map fst found)" "py_lower n \<notin> set BUILT_IN_MEMORY_NAMES" "strip n = n"
    and "dict_get (ws_memory ws) ''type'' = Some (PStr n)"
  shows "\<exists>e. build_memory_connector host eps fs ws = Inl e"
proof -
  have "memory_type ws = py_lower n" by (simp add: memory_type_def get_or_def assms(5,6))
  then show ?thesis
    using assms(1,3,4)
    by (auto simp: build_memory_connector_def discover_protected_def Let_def BUILT_IN_MEMORY_NAMES_def split: list.splits)
qed

section \<open>Policy\<close>

text \<open>Whatever policy plugins a workspace configures, its engine only restricts the local policy on the
  workspace's own rules. A decision of the composed engine other than a denial is a decision the
  local policy took on the same proposal; and a plugin that was not discovered, does not load or
  has no \<open>evaluate\<close> stops the composition instead of being left out.\<close>

theorem workspace_policy_restricts:
  assumes "build_policy eps ws = Inr setup"
    and "evaluate (policy_engine_of ops now stored ws setup) p w = (Inr d, w')" "decision d \<noteq> Deny"
  shows "(\<exists>w1. local_evaluate ops now \<lparr>rules = ws_policy ws, has_store = stored, mode = base_mode setup,
             session_key = None\<rparr> p w = (d, w1)) \<and>
    (case configured_policies (get_or (get_or (PList []) ''policies'' (ws_policy ws)) ''plugins'' (ws_policy ws)) of
       Inr names \<Rightarrow> (case policy_plugins setup of None \<Rightarrow> names = [] | Some ps \<Rightarrow> length ps = length names)
     | Inl _ \<Rightarrow> False)"
proof -
  let ?lp = "\<lparr>rules = ws_policy ws, has_store = stored, mode = base_mode setup, session_key = None\<rparr>"
  have len: "load_configured eps grp found attr ok cfg names = Inr xs \<Longrightarrow> length xs = length names" for grp found attr ok cfg names xs
    by (induction eps grp found attr ok cfg names arbitrary: xs rule: load_configured.induct)
       (auto simp: Let_def split: if_splits)
  have base: "\<exists>w1. local_evaluate ops now ?lp p w = (d, w1)"
  proof (cases "policy_plugins setup")
    case None
    with assms(2) show ?thesis
      by (cases "local_evaluate ops now ?lp p w") (simp add: policy_engine_of_def local_engine_def local_evaluator_def)
  next
    case (Some ps)
    with assms(2) have c: "composite_evaluate (local_evaluator ops now ?lp) ps p w = (Inr d, w')"
      by (simp add: policy_engine_of_def composite_engine_def local_engine_def)
    obtain d0 w1 where l: "local_evaluate ops now ?lp p w = (d0, w1)" by fastforce
    obtain d1 w2 where r: "run_plugins ps p d0 w1 = (d1, w2)" by fastforce
    have "d = d0"
      using c assms(3) run_plugins_result [OF r] l r
      by (auto simp: composite_evaluate_def local_evaluator_def split: if_splits)
    with l show ?thesis by blast
  qed
  with assms(1) show ?thesis by (auto simp: build_policy_def Let_def len split: if_splits)
qed

section \<open>Environment\<close>

lemma dict_get_set_variable:
  "dict_get (set_variable (k, v) env) k' = (if k' = k then v else dict_get env k')"
  by (cases v) (auto simp: update_conv' delete_conv')

lemma dict_get_set_variables:
  "dict_get (fold set_variable vs env) k =
     (case map_of (rev vs) k of None \<Rightarrow> dict_get env k | Some v \<Rightarrow> v)"
proof (induction vs arbitrary: env)
  case (Cons x vs)
  then show ?case by (cases x) (auto simp: dict_get_set_variable map_add_def split: option.splits)
qed simp

lemma patched_restores:
  assumes "patched_environment vals body env = (r, env')"
  shows "dict_get env' k = (if k \<in> fst ` set vals then dict_get env k
           else dict_get (snd (body (fold set_variable vals env))) k)"
proof -
  have m: "map_of (rev (map (\<lambda>(k, _). (k, f k)) vals)) k = (if k \<in> fst ` set vals then Some (f k) else None)" for f :: "string \<Rightarrow> string option"
    by (induction vals) (auto simp: map_add_def split: option.splits)
  obtain r1 env1 where "body (fold set_variable vals env) = (r1, env1)" by fastforce
  with assms show ?thesis
    by (force simp: patched_environment_def dict_get_set_variables m)
qed

text \<open>Composing a workspace leaves the process environment as it was, whether it succeeds or raises,
  although the back ends of the binding are read from it: when it succeeds, the binding has the
  configured back ends for the configured roles and the surrounding environment's for the others.\<close>

theorem composing_restores_environment:
  assumes "compose_workspace host inst hot opens scope n ws fs env = (r, fs', env')"
  shows "dict_get env' k = dict_get env k \<and>
    (case r of Inl _ \<Rightarrow> True
     | Inr c \<Rightarrow> bb_router (co_binding c) =
         (case dict_get (co_environment c) ''LLM_ROUTER'' of None \<Rightarrow> dict_get env ''LLM_ROUTER'' | Some v \<Rightarrow> v))"
proof (cases "build_registries host inst ws fs")
  case (Pair a fs1)
  show ?thesis
  proof (cases a)
    case Inl
    with assms Pair show ?thesis by (auto simp: compose_workspace_def)
  next
    case (Inr regs)
    show ?thesis
    proof (cases "workspace_environment host fs1 ws")
      case Inl
      with assms Pair Inr show ?thesis by (auto simp: compose_workspace_def)
    next
      case vals: (Inr vals)
      let ?body = "resolve_backend_binding (sandbox_text host fs1 scope) (Some (''workspace:'' @ ws_name ws))"
      obtain b env1 where p: "patched_environment vals ?body env = (b, env1)" by fastforce
      have restored: "dict_get env1 k = dict_get env k"
        using patched_restores [OF p, of k] map_of_eq_None_iff [of "rev vals" k]
        by (auto simp: resolve_backend_binding_def dict_get_set_variables split: option.splits if_splits)
      have env': "env' = env1"
        using assms Pair Inr vals p by (auto simp: compose_workspace_def split: sum.splits)
      have distinct: "map_of (rev vals) x = map_of vals x" for x
        using vals by (auto simp: workspace_environment_def role_env_def Let_def map_add_def split: if_splits option.splits)
      have "case r of Inl _ \<Rightarrow> True | Inr c \<Rightarrow> bb_router (co_binding c) =
         (case dict_get (co_environment c) ''LLM_ROUTER'' of None \<Rightarrow> dict_get env ''LLM_ROUTER'' | Some v \<Rightarrow> v)"
        using assms Pair Inr vals p
        by (auto simp: compose_workspace_def compose_rest_def patched_environment_def resolve_backend_binding_def
            dict_get_set_variables distinct split: sum.splits prod.splits)
      with restored env' show ?thesis by simp
    qed
  qed
qed

section \<open>Webhooks\<close>

text \<open>A workspace gets a webhook sink only with a secret from the environment and for a URL that passes
  the checks of \<open>Webhooks\<close>; a literal secret in the file, whatever it is, stops the loading; and
  there is at most one such sink.\<close>

theorem webhook_needs_secret_and_safe_url:
  assumes "build_event_sinks eps lib n env ws = Inr sinks"
  shows "dict_get (ws_webhooks ws) ''secret'' = None \<and>
    length (filter (\<lambda>k. case k of Webhook_sink _ \<Rightarrow> True | Plugin_sink _ \<Rightarrow> False) sinks) \<le> 1 \<and>
    (\<forall>c. Webhook_sink c \<in> set sinks \<longrightarrow>
       wh_secret c \<noteq> [] \<and> (\<exists>var v. dict_get env var = Some v \<and> strip v = wh_secret c) \<and>
       is_safe_webhook_url lib n (wh_url c) (wh_allowed_internal_hosts c) (wh_allow_insecure_http c) = Inr (Inr ()))"
proof -
  from assms obtain w ks where w: "webhook_sink_of lib n env (ws_webhooks ws) = Inr w"
    "sinks = ks @ (case w of None \<Rightarrow> [] | Some c \<Rightarrow> [Webhook_sink c])" "\<forall>k\<in>set ks. \<exists>x. k = Plugin_sink x"
    "dict_get (ws_webhooks ws) ''secret'' = None"
    by (auto simp: build_event_sinks_def split: if_splits)
  have "wh_secret c \<noteq> [] \<and> (\<exists>var v. dict_get env var = Some v \<and> strip v = wh_secret c) \<and>
       is_safe_webhook_url lib n (wh_url c) (wh_allowed_internal_hosts c) (wh_allow_insecure_http c) = Inr (Inr ())"
    if "w = Some c" for c
  proof -
    let ?var = "strip (py_str (get_or (PStr []) ''secret_env'' (ws_webhooks ws)))"
    have "wh_secret c = strip (case dict_get env ?var of None \<Rightarrow> [] | Some v \<Rightarrow> v) \<and> wh_secret c \<noteq> [] \<and>
       is_safe_webhook_url lib n (wh_url c) (wh_allowed_internal_hosts c) (wh_allow_insecure_http c) = Inr (Inr ())"
      using w(1) that by (auto simp: webhook_sink_of_def Let_def split: if_splits)
    then show ?thesis using strip_id [of "[]"] by (cases "dict_get env ?var") auto
  qed
  moreover have "filter (\<lambda>k. case k of Webhook_sink _ \<Rightarrow> True | Plugin_sink _ \<Rightarrow> False) ks = []"
    using w(3) by (auto simp: filter_empty_conv)
  ultimately show ?thesis using w by (auto split: option.splits)
qed

section \<open>Witnesses\<close>

definition sample_workspace :: workspace where
  "sample_workspace = \<lparr>ws_name = ''w'', ws_backends = [(''router'', Some ''r'')], ws_skills = [''/p''], ws_connectors = [''memory''],
     ws_memory = [(''path'', PStr ''v'')], ws_policy = [(''mode'', PStr ''off'')], ws_context = [], ws_limits = [],
     ws_webhooks = [(''url'', PStr ''http://h/x''), (''secret_env'', PStr ''S''), (''allow_insecure_http'', PBool True),
       (''allowed_internal_hosts'', PStr ''h'')], ws_base_path = [''b'']\<rparr>"

definition nothing_installed :: "(nat, nat, rules_dict policy_world evaluator, nat, nat) installed" where
  "nothing_installed = \<lparr>in_backends = (\<lambda>_. []), in_connectors = (\<lambda>_. []), in_packages = (\<lambda>_. []), in_policies = (\<lambda>_. []),
     in_providers = (\<lambda>_. []), in_sinks = (\<lambda>_. []), in_native = sample_natives, in_mcp_tools = [], in_web = sample_web\<rparr>"

lemma sample_skills:
  "build_workspace_skill_registry sample_python (\<lambda>_. []) sample_natives [] sample_workspace package_files =
     (Inr (sample_registry @ [(''go'', \<lparr>skill_name = ''go'', skill_aliases = [], skill_handler = 7\<rparr>)]), package_files)"
  by code_simp

theorem native_tools_survive_witness:
  "\<exists>reg fs'. build_workspace_skill_registry sample_python (\<lambda>_. []) sample_natives [] sample_workspace package_files = (Inr reg, fs') \<and>
     deterministic_match ''  BASH ls -l'' reg = Some (native_skills sample_natives ! 2)"
proof -
  have "entry_points_made (\<lambda>_. [])" by (simp add: entry_points_made_def)
  moreover have "\<not> public_read_only sample_workspace" by code_simp
  moreover have "native_skills sample_natives ! 2 \<in> set (native_skills sample_natives)" by (simp add: native_skills_def)
  ultimately have "deterministic_match ''  BASH ls -l''
      (sample_registry @ [(''go'', \<lparr>skill_name = ''go'', skill_aliases = [], skill_handler = 7\<rparr>)]) =
      Some (native_skills sample_natives ! 2)"
    using native_tools_survive [OF sample_skills _ _ _ sample_bash(2)] by blast
  with sample_skills show ?thesis by blast
qed

lemma sample_connectors:
  "build_connector_registry sample_python (\<lambda>_. [] :: (string \<times> nat entry result) list) package_files sample_workspace =
     Inr ([(''filesystem'', Filesystem_connector), (''memory'', Vault_connector ''/b/v''),
           (''markdown_vault'', Vault_connector ''/b/v''), (''markdown'', Vault_connector ''/b/v'')], Vault_connector ''/b/v'')"
  by code_simp

theorem builtin_connectors_protected_witness:
  "\<exists>reg. build_connector_registry sample_python (\<lambda>_. [] :: (string \<times> nat entry result) list) package_files sample_workspace =
       Inr (reg, Vault_connector ''/b/v'') \<and>
     resolve_connector ''memory'' reg = Inr (Vault_connector ''/b/v'')"
  using builtin_connectors_protected [OF sample_connectors] sample_connectors by blast

lemma sample_plugin_name: "strip ''MyVault'' = ''MyVault''" "py_lower ''MyVault'' = ''myvault''"
  by code_simp+

theorem memory_plugin_case_witness:
  "\<exists>e. build_memory_connector sample_python
         (\<lambda>_. [(''MyVault'', Inr (Object_entry \<lparr>po_attrs = [], po_methods = [], po_name = None, po_impl = 0::nat\<rparr> None))])
         package_files (sample_workspace\<lparr>ws_memory := [(''type'', PStr ''MyVault'')]\<rparr>) = Inl e"
  by (rule memory_plugin_case [where n = "''MyVault''"
        and found = "[(''MyVault'', Inr (Object_entry \<lparr>po_attrs = [], po_methods = [], po_name = None, po_impl = 0::nat\<rparr> None))]"])
     (simp_all add: discover_def sample_plugin_name BUILT_IN_MEMORY_NAMES_def)

lemma sample_policy:
  "build_policy (\<lambda>_. []) sample_workspace = Inr \<lparr>base_mode = Off, policy_plugins = None\<rparr>"
  by (simp add: build_policy_def policy_text_def sample_workspace_def get_or_def discover_protected_def discover_def
      mode_of_str_def)

theorem workspace_policy_restricts_witness:
  "\<exists>w1. local_evaluate memory_ops 0 \<lparr>rules = ws_policy sample_workspace, has_store = False, mode = Off, session_key = None\<rparr>
      \<lparr>tool = ''t'', arguments = [], proposal_reason = [], side_effect = SE_read, connector = None\<rparr>
      \<lparr>rule_store = [], session_approved = \<lambda>_. None\<rparr> =
    (mk_decision Allow ''mode-off'' ''Policy enforcement disabled (mode=off)'', w1)"
proof -
  have e: "evaluate (policy_engine_of memory_ops 0 False sample_workspace \<lparr>base_mode = Off, policy_plugins = None\<rparr>)
      \<lparr>tool = ''t'', arguments = [], proposal_reason = [], side_effect = SE_read, connector = None\<rparr>
      \<lparr>rule_store = [], session_approved = \<lambda>_. None\<rparr> =
     (Inr (mk_decision Allow ''mode-off'' ''Policy enforcement disabled (mode=off)''),
      \<lparr>rule_store = [], session_approved = \<lambda>_. None\<rparr>)"
    by (simp add: policy_engine_of_def local_engine_def local_evaluator_def local_evaluate_def)
  show ?thesis
    using workspace_policy_restricts [OF sample_policy e] by (simp add: mk_decision_def)
qed

theorem composing_restores_environment_witness:
  "\<exists>r fs' env'. compose_workspace sample_python nothing_installed (\<lambda>_ _ _ _. Inr ''hot'') (\<lambda>_. True) None 0
       sample_workspace package_files [(''LLM_ROUTER'', ''x'')] = (r, fs', env') \<and>
     dict_get env' ''LLM_ROUTER'' = Some ''x''"
proof -
  obtain r fs' env' where c: "compose_workspace sample_python nothing_installed (\<lambda>_ _ _ _. Inr ''hot'') (\<lambda>_. True) None 0
       sample_workspace package_files [(''LLM_ROUTER'', ''x'')] = (r, fs', env')" by (metis prod_cases3)
  from composing_restores_environment [OF c, of "''LLM_ROUTER''"] c show ?thesis by simp
qed

lemma sample_sinks:
  "build_event_sinks (\<lambda>_. [] :: (string \<times> nat entry result) list) sample_web 0 [(''S'', ''k'')] sample_workspace =
     Inr [Webhook_sink \<lparr>wh_url = ''http://h/x'', wh_secret = ''k'', wh_allowed_internal_hosts = [''h''],
       wh_allow_insecure_http = True, wh_max_retries = 3, wh_max_queue_size = 1000, wh_num_workers = 1\<rparr>]"
  by code_simp

theorem webhook_needs_secret_and_safe_url_witness:
  "is_safe_webhook_url sample_web 0 ''http://h/x'' [''h''] True = Inr (Inr ())"
  using webhook_needs_secret_and_safe_url [OF sample_sinks] by auto

end
