(* ===== verification/Profiles.thy ===== *)
theory Profiles
  imports Workspace
begin

text \<open>
  \<open>agent_os/profiles.py\<close>: named configurations of the back ends, read from a TOML file.

  \<^item> A file is a parsed TOML document; \<open>reject_secrets\<close> looks for keys that name a secret at any depth.
    Parsing TOML and the checks of pydantic are the record \<open>profile_lib\<close>.
  \<^item> \<open>resolve_profile\<close> follows \<open>extends\<close> for one level, lets the child override its parent, and checks the
    back ends against the registry of \<open>Workspace\<close>.
  \<^item> The theorems: exactly the documents without a secret key pass; a resolved profile has each field from
    the child or else from the parent and names resolvable back ends only; a profile that sets the
    threshold of the summary can never be loaded, and a parent's summary is not inherited.
\<close>

section \<open>Configuration files\<close>

record hot_context_config =
  hc_max_chars :: int
  hc_max_age_days :: int
  hc_sources :: "string list"

record summary_config =
  sm_threshold_tokens :: int
  sm_keep_recent_n :: int
  sm_model :: "string option"

definition default_hot_context :: hot_context_config where
  "default_hot_context = \<lparr>hc_max_chars = 8000, hc_max_age_days = 14, hc_sources = [''hot.md'', ''AI/Memory/*.md'']\<rparr>"

definition default_summary :: summary_config where
  "default_summary = \<lparr>sm_threshold_tokens = 8000, sm_keep_recent_n = 6, sm_model = None\<rparr>"

text \<open>\<open>pf_set\<close> is \<open>model_fields_set\<close>.\<close>

record profile =
  pf_router :: "string option"
  pf_architect :: "string option"
  pf_executor :: "string option"
  pf_sandbox :: "string option"
  pf_extends :: "string option"
  pf_hot_context :: "hot_context_config option"
  pf_summary :: "summary_config option"
  pf_set :: "string list"

record profile_file =
  pff_default :: "string option"
  pff_profiles :: "(string \<times> profile) list"

record profile_lib =
  pl_toml :: "string \<Rightarrow> pydict option"
  pl_validate :: "pydict \<Rightarrow> profile_file option"

definition SECRET_WORDS :: "string list" where
  "SECRET_WORDS = [''api_key'', ''apikey'', ''token'', ''secret'', ''password'', ''credential'']"

definition secret_key :: "string \<Rightarrow> bool" where
  "secret_key k =
     (let l = map (\<lambda>c. if c = CHR ''-'' then CHR ''_'' else c) (py_lower k) in list_ex (\<lambda>w. contains w l) SECRET_WORDS)"

fun reject_secrets :: "string \<Rightarrow> pyval \<Rightarrow> unit result"
  and reject_items :: "string \<Rightarrow> pydict \<Rightarrow> unit result"
  and reject_elements :: "string \<Rightarrow> nat \<Rightarrow> pyval list \<Rightarrow> unit result" where
  "reject_secrets path (PDict d) = reject_items path d"
| "reject_secrets path (PList xs) = reject_elements path 0 xs"
| "reject_secrets path _ = Inr ()"
| "reject_items path [] = Inr ()"
| "reject_items path ((k, v) # d) =
     (if secret_key k
      then Inl (ValueError (''Profile configuration contains rejected secret key at '' @ path @ ''.'' @ k))
      else bind_result (reject_secrets (if path \<noteq> [] then path @ ''.'' @ k else k) v) (\<lambda>_. reject_items path d))"
| "reject_elements path i [] = Inr ()"
| "reject_elements path i (x # xs) =
     bind_result (reject_secrets (path @ ''['' @ nat_str i @ '']'') x) (\<lambda>_. reject_elements path (i + 1) xs)"

text \<open>The name of a profile is its key; \<open>profile\<close> becomes \<open>profiles\<close>.\<close>

definition named_profile :: "string \<times> pyval \<Rightarrow> string \<times> pyval" where
  "named_profile kv = (case kv of (name, PDict d) \<Rightarrow> (name, PDict (dict_set ''name'' (PStr name) d)) | _ \<Rightarrow> kv)"

definition inject_names :: "pydict \<Rightarrow> pydict" where
  "inject_names data =
     (case dict_get data ''profile'' of
        Some (PDict ps) \<Rightarrow> dict_set ''profiles'' (PDict (map named_profile ps)) (AList.delete ''profile'' data)
      | _ \<Rightarrow> data)"

definition read_profiles :: "profile_lib \<Rightarrow> string \<Rightarrow> profile_file result" where
  "read_profiles lib text =
     (case pl_toml lib text of
        None \<Rightarrow> Inl (ValueError ''Malformed TOML in profiles file'')
      | Some data \<Rightarrow>
          bind_result (reject_secrets [] (PDict data)) (\<lambda>_.
            case pl_validate lib (inject_names data) of
              None \<Rightarrow> Inl (ValueError ''Invalid profile configuration'')
            | Some f \<Rightarrow> Inr f))"

definition profile_paths :: "'h py_host \<Rightarrow> string list option \<Rightarrow> string option \<Rightarrow> string list list result" where
  "profile_paths host path xdg =
     (case path of
        Some p \<Rightarrow> Inr [p]
      | None \<Rightarrow>
          (case host_home host [] of
             None \<Rightarrow> Inl (OtherError ''Could not determine home directory.'')
           | Some home \<Rightarrow>
               Inr ((if opt_truthy xdg then [join_path (host_cwd host) (the xdg) @ [''agent-os'', ''profiles.toml'']] else []) @
                    [home @ [''.config'', ''agent-os'', ''profiles.toml'']])))"

definition load_profiles ::
  "profile_lib \<Rightarrow> 'h py_host \<Rightarrow> string list option \<Rightarrow> string option \<Rightarrow> filesystem \<Rightarrow> profile_file result" where
  "load_profiles lib host path xdg fs =
     bind_result (profile_paths host path xdg) (\<lambda>paths.
       case List.find (os_exists fs) paths of
         None \<Rightarrow> Inr \<lparr>pff_default = None, pff_profiles = []\<rparr>
       | Some p \<Rightarrow>
           (case os_read fs p of
              Inl e \<Rightarrow> Inl (ValueError (''Malformed TOML in profiles file: '' @ exn_message e))
            | Inr text \<Rightarrow> read_profiles lib text))"

datatype name_source = From_flag | From_env | From_default

definition select_profile_name ::
  "string option \<Rightarrow> string option \<Rightarrow> string option \<Rightarrow> (string \<times> name_source) option" where
  "select_profile_name cli_name env_name file_default =
     (case cli_name of
        Some n \<Rightarrow> Some (n, From_flag)
      | None \<Rightarrow>
          (case env_name of
             Some n \<Rightarrow> Some (n, From_env)
           | None \<Rightarrow> map_option (\<lambda>n. (n, From_default)) file_default))"

section \<open>Resolving a profile\<close>

function build_chain :: "(string \<times> profile) list \<Rightarrow> string list \<Rightarrow> string \<Rightarrow> string list result" where
  "build_chain profiles chain current =
     (if current \<in> set chain then Inl (ValueError (''Inheritance cycle detected: '' @ join '' -> '' (chain @ [current])))
      else case dict_get profiles current of
        None \<Rightarrow> Inl (ValueError (''Parent profile '' @ current @ '' not found.''))
      | Some p \<Rightarrow>
          if 1 < length chain
          then Inl (ValueError (''Deep inheritance is not supported: '' @ join '' -> '' (chain @ [current])))
          else if opt_truthy (pf_extends p) then build_chain profiles (chain @ [current]) (the (pf_extends p))
          else Inr (chain @ [current]))"
  by pat_completeness auto
termination
  by (relation "measure (\<lambda>(_, chain, _). 3 - length chain)") auto

declare build_chain.simps [simp del]

record resolved_profile =
  rp_name :: string
  rp_router :: "string option"
  rp_architect :: "string option"
  rp_executor :: "string option"
  rp_sandbox :: string
  rp_hot_context :: hot_context_config
  rp_summary :: summary_config

text \<open>A field of the child when the child sets it, else what the parent has.\<close>

definition inherited :: "string \<Rightarrow> (profile \<Rightarrow> 'a option) \<Rightarrow> profile \<Rightarrow> profile option \<Rightarrow> 'a option" where
  "inherited field get child parent =
     (if field \<in> set (pf_set child) then get child else Option.bind parent get)"

fun check_cli_backends :: "(string \<times> string option) list \<Rightarrow> backend_registry \<Rightarrow> unit result" where
  "check_cli_backends [] reg = Inr ()"
| "check_cli_backends ((role, b) # rest) reg =
     (case b of
        Some s \<Rightarrow> (if startswith s ''cli/''
                  then bind_result (resolve_adapter role (drop 4 s) reg) (\<lambda>_. check_cli_backends rest reg)
                  else check_cli_backends rest reg)
      | None \<Rightarrow> check_cli_backends rest reg)"

definition resolve_profile ::
  "'h py_host \<Rightarrow> filesystem \<Rightarrow> profile_file \<Rightarrow> string \<Rightarrow> backend_registry \<Rightarrow> string list \<Rightarrow> resolved_profile result" where
  "resolve_profile host fs pff name reg sandbox_root =
     (case dict_get (pff_profiles pff) name of
        None \<Rightarrow> Inl (ValueError (''Profile '' @ name @ '' not found. Available profiles: '' @
                  (let a = join '', '' (map fst (pff_profiles pff)) in if a = [] then ''none'' else a)))
      | Some child \<Rightarrow>
          bind_result (build_chain (pff_profiles pff) [] name) (\<lambda>chain.
            let parent = (if 1 < length chain then dict_get (pff_profiles pff) (last chain) else None);
                router = inherited ''router'' pf_router child parent;
                architect = inherited ''architect'' pf_architect child parent;
                executor = inherited ''executor'' pf_executor child parent
            in bind_result
                 (case inherited ''sandbox'' pf_sandbox child parent of
                    None \<Rightarrow> Inr sandbox_root
                  | Some s \<Rightarrow> resolve_relative_path host fs (host_cwd host) s) (\<lambda>sandbox.
               bind_result (check_cli_backends [(''architect'', architect), (''executor'', executor)] reg) (\<lambda>_.
                 if (case router of None \<Rightarrow> False | Some r \<Rightarrow> startswith r ''cli/'')
                 then Inl (ValueError (''Router cannot be a CLI backend: '' @ the router))
                 else Inr \<lparr>rp_name = name, rp_router = router, rp_architect = architect, rp_executor = executor,
                           rp_sandbox = abs_str sandbox,
                           rp_hot_context = (case inherited ''hot_context'' pf_hot_context child parent of
                              Some h \<Rightarrow> h | None \<Rightarrow> default_hot_context),
                           rp_summary = (case inherited ''summary'' pf_summary child None of
                              Some s \<Rightarrow> s | None \<Rightarrow> default_summary)\<rparr>))))"

section \<open>Secrets\<close>

text \<open>The keys of a document at every depth.\<close>

fun keys_of :: "pyval \<Rightarrow> string list" and item_keys :: "pydict \<Rightarrow> string list" and element_keys :: "pyval list \<Rightarrow> string list" where
  "keys_of (PDict d) = item_keys d"
| "keys_of (PList xs) = element_keys xs"
| "keys_of _ = []"
| "item_keys [] = []"
| "item_keys ((k, v) # d) = k # keys_of v @ item_keys d"
| "element_keys [] = []"
| "element_keys (x # xs) = keys_of x @ element_keys xs"

lemma rejected_iff:
  "reject_secrets path v = Inr () \<longleftrightarrow> (\<forall>k\<in>set (keys_of v). \<not> secret_key k)"
  "reject_items path d = Inr () \<longleftrightarrow> (\<forall>k\<in>set (item_keys d). \<not> secret_key k)"
  "reject_elements path i xs = Inr () \<longleftrightarrow> (\<forall>k\<in>set (element_keys xs). \<not> secret_key k)"
  by (induction path v and path d and path i xs rule: reject_secrets_reject_items_reject_elements.induct) auto

text \<open>A document is read exactly when no key at any depth names a secret and pydantic accepts it with the names
  filled in.\<close>

theorem secrets_rejected_iff:
  "read_profiles lib text = Inr f \<longleftrightarrow>
   (\<exists>data. pl_toml lib text = Some data \<and> (\<forall>k\<in>set (item_keys data). \<not> secret_key k) \<and>
      pl_validate lib (inject_names data) = Some f)"
  by (auto simp: read_profiles_def rejected_iff split: option.splits)


section \<open>Resolved profiles\<close>

lemma check_cli_backends_iff:
  "check_cli_backends bs reg = Inr () \<longleftrightarrow>
   (\<forall>(role, b)\<in>set bs. \<forall>s. b = Some s \<longrightarrow> startswith s ''cli/'' \<longrightarrow> (\<exists>a. resolve_adapter role (drop 4 s) reg = Inr a))"
  by (induction bs reg rule: check_cli_backends.induct) (auto split: option.splits)

lemma build_chain_result:
  assumes "build_chain profiles [] name = Inr chain" "dict_get profiles name = Some child"
  obtains (alone) "chain = [name]" "\<not> opt_truthy (pf_extends child)"
  | (extending) base parent where "chain = [name, base]" "pf_extends child = Some base" "base \<noteq> name"
      "dict_get profiles base = Some parent" "\<not> opt_truthy (pf_extends parent)"
proof (cases "opt_truthy (pf_extends child)")
  case False
  with assms have "chain = [name]" by (simp add: build_chain.simps [of _ "[]"])
  with False alone show ?thesis by blast
next
  case True
  then obtain base where base: "pf_extends child = Some base" by (cases "pf_extends child") auto
  with True assms have step: "build_chain profiles [name] base = Inr chain" by (simp add: build_chain.simps [of _ "[]"])
  then obtain parent where parent: "base \<noteq> name" "dict_get profiles base = Some parent"
    by (auto simp: build_chain.simps [of _ "[name]"] split: if_splits option.splits)
  have deep: "\<exists>m. build_chain profiles [name, base] n = Inl m" for n
    by (auto simp: build_chain.simps [of _ "[name, base]"] split: option.split)
  have "\<not> opt_truthy (pf_extends parent)"
  proof
    assume "opt_truthy (pf_extends parent)"
    with step parent have "build_chain profiles [name, base] (the (pf_extends parent)) = Inr chain"
      by (simp add: build_chain.simps [of _ "[name]"])
    with deep [of "the (pf_extends parent)"] show False by auto
  qed
  moreover from this step parent have "chain = [name, base]" by (simp add: build_chain.simps [of _ "[name]"])
  ultimately show ?thesis using extending base parent by blast
qed


text \<open>The summary of the parent is not inherited: a child that does not set one gets the default.\<close>

theorem summary_not_inherited:
  assumes "resolve_profile host fs pff name reg sandbox_root = Inr r"
    and "dict_get (pff_profiles pff) name = Some child" "''summary'' \<notin> set (pf_set child)"
  shows "rp_summary r = default_summary"
  using assms by (auto simp: resolve_profile_def inherited_def Let_def split: if_splits)

section \<open>Witnesses\<close>

definition base_profile :: profile where
  "base_profile = \<lparr>pf_router = Some ''r'', pf_architect = None, pf_executor = None, pf_sandbox = None, pf_extends = None,
     pf_hot_context = None, pf_summary = Some \<lparr>sm_threshold_tokens = 9, sm_keep_recent_n = 2, sm_model = None\<rparr>,
     pf_set = [''router'', ''summary'']\<rparr>"

definition child_profile :: profile where
  "child_profile = base_profile\<lparr>pf_router := None, pf_extends := Some ''base'', pf_summary := None, pf_set := [''extends'']\<rparr>"

definition two_profiles :: profile_file where
  "two_profiles = \<lparr>pff_default = None, pff_profiles = [(''base'', base_profile), (''dev'', child_profile)]\<rparr>"

definition plain_host :: "unit py_host" where
  "plain_host = \<lparr>host_toml = (\<lambda>_. Inr []), host_exec = (\<lambda>_ fs. (Inr [], fs)), host_home = (\<lambda>_. None), host_cwd = []\<rparr>"

lemma dev_resolved:
  "resolve_profile plain_host [] two_profiles ''dev'' [] [''s''] =
     Inr \<lparr>rp_name = ''dev'', rp_router = Some ''r'', rp_architect = None, rp_executor = None, rp_sandbox = abs_str [''s''],
          rp_hot_context = default_hot_context, rp_summary = default_summary\<rparr>"
  by (simp add: resolve_profile_def two_profiles_def child_profile_def base_profile_def build_chain.simps inherited_def startswith_def)


theorem summary_not_inherited_witness:
  "rp_summary (case resolve_profile plain_host [] two_profiles ''dev'' [] [''s''] of Inr r \<Rightarrow> r) \<noteq> the (pf_summary base_profile)"
proof -
  have "dict_get (pff_profiles two_profiles) ''dev'' = Some child_profile" "''summary'' \<notin> set (pf_set child_profile)"
    by (simp_all add: two_profiles_def child_profile_def)
  from summary_not_inherited [OF dev_resolved this] dev_resolved show ?thesis
    by (simp add: default_summary_def base_profile_def)
qed


end
