(* ===== verification/Skill_Promotion.thy ===== *)
theory Skill_Promotion
  imports Workspace Validation
begin

text \<open>
  The file operations of \<open>agent_os/skill_authoring.py\<close>: where a draft may be, what its digest covers, how
  it is validated in another process (\<open>skill_authoring_preflight.py\<close>), and how it is copied into the
  workspace and entered in \<open>workspace.toml\<close>, with a rollback when anything fails.

  \<^item> Errors are \<open>Authoring m\<close> (a \<open>SkillAuthoringError\<close>) or any other exception, \<open>Raised e\<close>. An operation
    returns its outcome and the file system; \<open>and_then\<close> and \<open>on_error\<close> are sequencing and
    \<open>except: ...; raise\<close>. Contents of files are bytes, and \<open>workspace.toml\<close> is ASCII text.
  \<^item> The authoring library holds what is outside: SHA-256, what becomes of the preflight process,
    the copying of symbolic links by \<open>copytree\<close>, and the parameters of composing a workspace.
  \<^item> Executing the code of a package may change files at any point where the source executes it.
  \<^item> The theorems: a draft is accepted inside the staging directory only; the edit of the
    configuration replaces the text of the list and nothing else; a registration that fails leaves
    the configuration and the destination as they were; a successful one has copied every file.
\<close>

datatype authoring_error = Authoring string | Raised py_exn

type_synonym 'a authored = "authoring_error + 'a"

definition lifted :: "'a result \<Rightarrow> 'a authored" where
  "lifted r = (case r of Inl e \<Rightarrow> Inl (Raised e) | Inr x \<Rightarrow> Inr x)"

definition and_then :: "'a authored \<times> 'w \<Rightarrow> ('a \<Rightarrow> 'w \<Rightarrow> 'b authored \<times> 'w) \<Rightarrow> 'b authored \<times> 'w" where
  "and_then r f = (case r of (Inl e, w) \<Rightarrow> (Inl e, w) | (Inr x, w) \<Rightarrow> f x w)"

definition on_error :: "'a authored \<times> 'w \<Rightarrow> ('w \<Rightarrow> 'w) \<Rightarrow> 'a authored \<times> 'w" where
  "on_error r cleanup = (case r of (Inl e, w) \<Rightarrow> (Inl e, cleanup w) | (Inr x, w) \<Rightarrow> (Inr x, w))"

record ('h, 'o, 'p, 'c, 'k) authoring_lib =
  al_host :: "'h py_host"
  al_inst :: "('h, 'o, 'p, 'c, 'k) installed"
  al_env :: environ
  al_hot :: "'o connector_impl \<Rightarrow> int \<Rightarrow> int \<Rightarrow> string list option \<Rightarrow> string result"
  al_opens :: "string \<Rightarrow> bool"
  al_sha256 :: "string \<Rightarrow> string"
  al_process :: "int \<times> string \<times> string \<Rightarrow> (int \<times> string \<times> string) result"
  al_copy_links :: "string list \<Rightarrow> string list \<Rightarrow> filesystem \<Rightarrow> unit result \<times> filesystem"

definition DRAFTS_DIRECTORY :: string where "DRAFTS_DIRECTORY = ''skill-drafts''"
definition APPROVED_DIRECTORY :: string where "APPROVED_DIRECTORY = ''skill-packages''"

section \<open>Where a draft may be\<close>

text \<open>The paths that resolving looks at; \<open>resolve(strict=True)\<close> fails when one of them is missing.\<close>

function looked_at ::
  "filesystem \<Rightarrow> (string list \<Rightarrow> string list option option) \<Rightarrow> string list \<Rightarrow> pending list \<Rightarrow> string list list" where
  "looked_at fs seen path [] = []"
| "looked_at fs seen path (Followed l # todo) = looked_at fs (seen(l \<mapsto> Some path)) path todo"
| "looked_at fs seen path (Enter name # todo) =
     (if name = ''..'' then looked_at fs seen (butlast path) todo
      else (path @ [name]) # (case map_of fs (path @ [name]) of
        Some (Link t) \<Rightarrow>
          (case seen (path @ [name]) of
             Some (Some known) \<Rightarrow> looked_at fs seen known todo
           | Some None \<Rightarrow> []
           | None \<Rightarrow> looked_at fs (seen(path @ [name] \<mapsto> None)) (if startswith t ''/'' then [] else path)
                       (map Enter (path_parts t) @ Followed (path @ [name]) # todo))
      | _ \<Rightarrow> looked_at fs seen (path @ [name]) todo))"
  by pat_completeness auto

termination
  using unseen_less_or_eq
  by (relation "measures [\<lambda>(fs, seen, path, todo). card (unseen fs seen),
                          \<lambda>(fs, seen, path, todo). length todo]")
     (auto simp: unseen_upd dest: unseen_follow)

definition exists_strictly :: "filesystem \<Rightarrow> string list \<Rightarrow> bool" where
  "exists_strictly fs p = list_all (\<lambda>q. map_of fs q \<noteq> None) (looked_at fs (\<lambda>_. None) [] (map Enter p))"

fun outside_configured ::
  "('h, 'o, 'p, 'c, 'k) authoring_lib \<Rightarrow> filesystem \<Rightarrow> string list \<Rightarrow> string list \<Rightarrow> unit authored" where
  "outside_configured lib fs dir [] = Inr ()"
| "outside_configured lib fs dir (s # ss) =
     (case resolve_relative_path (al_host lib) fs (host_cwd (al_host lib)) s of
        Inl e \<Rightarrow> Inl (Raised e)
      | Inr c \<Rightarrow>
          if is_relative_to dir c \<or> is_relative_to c dir
          then Inl (Authoring ''Draft package must remain outside configured skill directories'')
          else outside_configured lib fs dir ss)"

definition resolve_staging_package ::
  "('h, 'o, 'p, 'c, 'k) authoring_lib \<Rightarrow> workspace \<Rightarrow> filesystem \<Rightarrow> string \<Rightarrow> string list authored" where
  "resolve_staging_package lib ws fs value =
     (case expand_user (host_home (al_host lib)) value of
        Inl e \<Rightarrow> Inl (Raised e)
      | Inr (absolute, p) \<Rightarrow>
          if \<not> absolute then Inl (Authoring ''Draft path must be an absolute canonical staging path'')
          else if list_ex (\<lambda>n. CHR 0x00 \<in> set n) p then Inl (Raised (ValueError ''embedded null byte''))
          else if \<not> exists_strictly fs p then Inl (Authoring ''Draft package path does not exist'')
          else bind_result (lifted (path_resolve fs p)) (\<lambda>dir.
               bind_result (lifted (resolve_checked fs (ws_base_path ws @ [DRAFTS_DIRECTORY]))) (\<lambda>staging.
                 if \<not> is_relative_to dir staging \<or> dir = staging
                 then Inl (Authoring ''Draft package must be inside the canonical skill-drafts directory'')
                 else if \<not> os_is_dir fs dir \<or> \<not> os_is_file fs (dir @ [''manifest.toml''])
                 then Inl (Authoring ''Draft package requires a manifest.toml directory'')
                 else bind_result (outside_configured lib fs dir (ws_skills ws)) (\<lambda>_. Inr dir))))"

section \<open>Digest and validation\<close>

definition tree_below :: "filesystem \<Rightarrow> string list \<Rightarrow> string list list" where
  "tree_below fs dir = filter (\<lambda>q. is_relative_to q dir \<and> q \<noteq> dir) (remdups (map fst fs))"

definition pyc_file :: "string \<Rightarrow> bool" where
  "pyc_file n = (startswith (rev n) (rev ''.pyc'') \<and> length n > 4)"

fun digest_stream :: "filesystem \<Rightarrow> string list \<Rightarrow> string list list \<Rightarrow> string authored" where
  "digest_stream fs dir [] = Inr []"
| "digest_stream fs dir (q # qs) =
     (if is_link fs q then Inl (Authoring ''Draft packages cannot contain symbolic links'')
      else if \<not> is_file fs q \<or> ''__pycache__'' \<in> set q \<or> pyc_file (List.last q) then digest_stream fs dir qs
      else bind_result (lifted (os_read fs q)) (\<lambda>b.
           bind_result (digest_stream fs dir qs) (\<lambda>rest.
             Inr (join ''/'' (drop (length dir) q) @ [CHR 0x00] @ b @ [CHR 0x00] @ rest))))"

definition package_digest ::
  "('h, 'o, 'p, 'c, 'k) authoring_lib \<Rightarrow> filesystem \<Rightarrow> string list \<Rightarrow> string authored" where
  "package_digest lib fs dir =
     bind_result (digest_stream fs dir (sort (tree_below fs dir))) (\<lambda>s. Inr (al_sha256 lib s))"

definition assert_fresh_loader ::
  "('h, 'o, 'p, 'c, 'k) authoring_lib \<Rightarrow> string list \<Rightarrow> string \<Rightarrow> filesystem \<Rightarrow> unit authored \<times> filesystem" where
  "assert_fresh_loader lib dir name fs =
     (case load_package (al_host lib) dir ([], fs) of
        (Inl e, st) \<Rightarrow> (Inl (Raised e), snd st)
      | (Inr _, st) \<Rightarrow>
          if get_skill name (fst st) = None
          then (Inl (Authoring ''Draft did not register the expected skill name in an isolated registry''), snd st)
          else (Inr (), snd st))"

fun error_text :: "authoring_error \<Rightarrow> string" where
  "error_text (Authoring m) = ''SkillAuthoringError: '' @ m"
| "error_text (Raised e) = exn_name e @ '': '' @ exn_message e"

text \<open>\<open>skill_authoring_preflight.main\<close>: exit code and output of the process.\<close>

definition preflight_main ::
  "('h, 'o, 'p, 'c, 'k) authoring_lib \<Rightarrow> string list \<Rightarrow> filesystem \<Rightarrow> (int \<times> string \<times> string) \<times> filesystem" where
  "preflight_main lib args fs =
     (case args of
        [path, name] \<Rightarrow>
          (case (case resolve_checked fs (join_path (host_cwd (al_host lib)) path) of
                   Inl e \<Rightarrow> (Inl (Raised e), fs)
                 | Inr dir \<Rightarrow> assert_fresh_loader lib dir name fs) of
             (Inl e, fs') \<Rightarrow> ((1, [], ''preflight failed: '' @ error_text e @ [CHR 0x0A]), fs')
           | (Inr _, fs') \<Rightarrow> ((0, ''preflight passed'' @ [CHR 0x0A], []), fs'))
      | _ \<Rightarrow> ((2, [], ''usage: skill_authoring_preflight PACKAGE_DIR EXPECTED_SKILL_NAME'' @ [CHR 0x0A]), fs))"

record validation_audit =
  au_digest :: string
  au_summary :: pydict
  au_passed :: bool
  au_package_path :: string

definition staged_rules :: "string \<Rightarrow> string \<Rightarrow> validation_rule list" where
  "staged_rules manifest command =
     [\<lparr>vr_id = ''manifest-present'', vr_description = ''Draft package includes manifest.toml'', vr_kind = Deterministic,
       vr_check = Some ''file_exists'', vr_param = Some manifest\<rparr>,
      \<lparr>vr_id = ''isolated-loader-preflight'',
       vr_description = ''Fresh registry loads the manifest and expected handler'', vr_kind = Deterministic,
       vr_check = Some ''verify_cmd'', vr_param = Some command\<rparr>]"

definition staged_evidence :: "string \<Rightarrow> string \<Rightarrow> int \<Rightarrow> string \<Rightarrow> pydict" where
  "staged_evidence manifest command code output =
     [(''artifacts'', PList [PStr manifest]),
      (''verify_commands'', PDict [(command, PDict [(''exit_code'', PInt code), (''output'', PStr output)])])]"

definition summary_count :: "string \<Rightarrow> pydict \<Rightarrow> int" where
  "summary_count k d = (case dict_get d k of Some (PInt n) \<Rightarrow> n | _ \<Rightarrow> 0)"

definition validate_staged_package ::
  "('h, 'o, 'p, 'c, 'k) authoring_lib \<Rightarrow> string list \<Rightarrow> string \<Rightarrow> filesystem \<Rightarrow> validation_audit authored \<times> filesystem" where
  "validate_staged_package lib dir name fs =
     (case package_digest lib fs dir of
        Inl e \<Rightarrow> (Inl e, fs)
      | Inr digest \<Rightarrow>
          (let command = ''skill-package-preflight:'' @ abs_str dir; manifest = abs_str (dir @ [''manifest.toml'']) in
           case preflight_main lib [abs_str dir, name] fs of (outcome, fs') \<Rightarrow>
             (case al_process lib outcome of
                Inl e \<Rightarrow> (Inl (Raised e), fs')
              | Inr (code, out, err) \<Rightarrow>
                  (case run_validation (\<lambda>_ _. Inr False) (staged_rules manifest command)
                          (staged_evidence manifest command code
                            (strip (join [CHR 0x0A] (filter (\<lambda>s. s \<noteq> []) [out, err])))) None of
                     Inl e \<Rightarrow> (Inl (Raised e), fs')
                   | Inr rs \<Rightarrow>
                       (let summary = summarize rs in
                        (Inr \<lparr>au_digest = digest, au_summary = summary,
                              au_passed = (0 < summary_count ''total'' summary \<and>
                                           summary_count ''met'' summary = summary_count ''total'' summary),
                              au_package_path = abs_str dir\<rparr>, fs'))))))"

section \<open>The list of skills in \<open>workspace.toml\<close>\<close>

text \<open>\<open>splitlines(keepends=True)\<close>\<close>

fun splitlines_keep :: "string \<Rightarrow> string list" where
  "splitlines_keep [] = []"
| "splitlines_keep (c # cs) =
     (if c = CHR 0x0D \<and> startswith cs [CHR 0x0A]
      then (case splitlines_keep cs of [] \<Rightarrow> [[c]] | l # ls \<Rightarrow> (c # l) # ls)
      else if line_break c then [c] # splitlines_keep cs
      else (case splitlines_keep cs of [] \<Rightarrow> [[c]] | l # ls \<Rightarrow> (c # l) # ls))"

definition skills_line :: "string \<Rightarrow> bool" where
  "skills_line l =
     (let stripped = lstrip_with py_isspace l
      in startswith stripped ''skills'' \<and>
         startswith (lstrip_with py_isspace (drop (length ''skills'') stripped)) ''='')"

fun skills_list_start :: "nat \<Rightarrow> string list \<Rightarrow> nat authored" where
  "skills_list_start offset [] = Inl (Authoring ''workspace.toml has no writable top-level skills list'')"
| "skills_list_start offset (l # ls) =
     (if skills_line l then Inr offset else skills_list_start (offset + length l) ls)"

definition top_level_skills_list_start :: "string \<Rightarrow> nat authored" where
  "top_level_skills_list_start content = skills_list_start 0 (splitlines_keep content)"

text \<open>The scan for the end of the list: index, depth, open quote, and whether the last character was a
  backslash in a string.\<close>

fun scan_list :: "nat \<Rightarrow> nat \<Rightarrow> char option \<Rightarrow> bool \<Rightarrow> string \<Rightarrow> nat option" where
  "scan_list i depth quote escaped [] = None"
| "scan_list i depth quote escaped (c # cs) =
     (case quote of
        Some qc \<Rightarrow>
          (if escaped then scan_list (Suc i) depth quote False cs
           else if c = CHR 0x5C then scan_list (Suc i) depth quote True cs
           else if c = qc then scan_list (Suc i) depth None False cs
           else scan_list (Suc i) depth quote False cs)
      | None \<Rightarrow>
          (if c = CHR 0x27 \<or> c = CHR 0x22 then scan_list (Suc i) depth (Some c) escaped cs
           else if c = CHR ''['' then scan_list (Suc i) (Suc depth) None escaped cs
           else if c = CHR '']'' then
             (if depth \<le> 1 then Some (Suc i) else scan_list (Suc i) (depth - 1) None escaped cs)
           else scan_list (Suc i) depth None escaped cs))"

definition matching_list_end :: "string \<Rightarrow> nat \<Rightarrow> nat authored" where
  "matching_list_end content start =
     (let gap = length (takeWhile (\<lambda>c. c \<noteq> CHR ''['') (drop start content))
      in if start + gap \<ge> length content then Inl (Authoring ''workspace.toml skills list is malformed'')
         else case scan_list (start + gap) 0 None False (drop (start + gap) content) of
           None \<Rightarrow> Inl (Authoring ''workspace.toml skills list is malformed'')
         | Some e \<Rightarrow> Inr e)"

text \<open>\<open>json.dumps\<close> of a string.\<close>

definition hex_char :: "nat \<Rightarrow> char" where
  "hex_char n = (if n < 10 then digit_char n else char_of (87 + n))"

definition json_char :: "char \<Rightarrow> string" where
  "json_char c =
     (let n = (of_char c :: nat)
      in if c = CHR 0x22 then [CHR 0x5C, CHR 0x22] else if c = CHR 0x5C then [CHR 0x5C, CHR 0x5C]
         else if n = 10 then [CHR 0x5C, CHR ''n''] else if n = 13 then [CHR 0x5C, CHR ''r'']
         else if n = 9 then [CHR 0x5C, CHR ''t''] else if n = 8 then [CHR 0x5C, CHR ''b'']
         else if n = 12 then [CHR 0x5C, CHR ''f'']
         else if n < 32 \<or> 127 < n then [CHR 0x5C, CHR ''u'', CHR ''0'', CHR ''0'', hex_char (n div 16), hex_char (n mod 16)]
         else [c])"

definition json_string :: "string \<Rightarrow> string" where
  "json_string s = [CHR 0x22] @ concat (map json_char s) @ [CHR 0x22]"

definition rendered_skills :: "string list \<Rightarrow> string" where
  "rendered_skills items =
     ''skills = ['' @ [CHR 0x0A] @ concat (map (\<lambda>i. ''  '' @ json_string i @ '','' @ [CHR 0x0A]) items) @ '']''"

definition add_skill_path_to_workspace_toml ::
  "('h, 'o, 'p, 'c, 'k) authoring_lib \<Rightarrow> string \<Rightarrow> string \<Rightarrow> string authored" where
  "add_skill_path_to_workspace_toml lib original path =
     (case host_toml (al_host lib) original of
        Inl e \<Rightarrow> Inl (Raised e)
      | Inr parsed \<Rightarrow>
          (case (case dict_get parsed ''skills'' of Some (PList xs) \<Rightarrow> string_list xs | _ \<Rightarrow> None) of
             None \<Rightarrow> Inl (Authoring ''workspace.toml has no writable top-level skills list'')
           | Some skills \<Rightarrow>
               if path \<in> set skills then Inl (Authoring ''Skill path is already configured'')
               else bind_result (top_level_skills_list_start original) (\<lambda>start.
                    bind_result (matching_list_end original start) (\<lambda>stop.
                      let updated = take start original @ rendered_skills (skills @ [path]) @ drop stop original
                      in case host_toml (al_host lib) updated of
                           Inl e \<Rightarrow> Inl (Authoring ''Could not write a valid workspace skills list'')
                         | Inr _ \<Rightarrow> Inr updated))))"

section \<open>Promotion\<close>

definition moved_tree :: "string list \<Rightarrow> string list \<Rightarrow> filesystem \<Rightarrow> filesystem" where
  "moved_tree a b fs = map (\<lambda>(q, x). (b @ drop (length a) q, x)) (filter (\<lambda>(q, _). is_relative_to q a) (AList.clearjunk fs))"

definition without_tree :: "string list \<Rightarrow> filesystem \<Rightarrow> filesystem" where
  "without_tree a fs = filter (\<lambda>(q, _). \<not> is_relative_to q a) fs"

text \<open>\<open>shutil.copytree(src, dst, symlinks=False)\<close>. A file that cannot be read is reported at the end.\<close>

definition copy_tree ::
  "('h, 'o, 'p, 'c, 'k) authoring_lib \<Rightarrow> string list \<Rightarrow> string list \<Rightarrow> filesystem \<Rightarrow> unit authored \<times> filesystem" where
  "copy_tree lib src dst fs =
     (if os_exists fs dst then (Inl (Raised (OtherError ''FileExistsError'')), fs)
      else if list_ex (is_link fs) (tree_below fs src)
      then (case al_copy_links lib src dst fs of (r, fs') \<Rightarrow> (lifted r, fs'))
      else case make_parents fs dst of
        Inl e \<Rightarrow> (Inl (Raised e), fs)
      | Inr fs1 \<Rightarrow>
          (let unreadable = list_ex (\<lambda>q. map_of fs q = Some (File None)) (tree_below fs src);
               copies = filter (\<lambda>(_, x). x \<noteq> File None) (moved_tree src dst fs)
           in (if unreadable then Inl (Raised (OtherError ''shutil.Error'')) else Inr (), fs1 @ copies)))"

definition rename_tree :: "string list \<Rightarrow> string list \<Rightarrow> filesystem \<Rightarrow> unit authored \<times> filesystem" where
  "rename_tree a b fs =
     (if map_of fs a = None \<or> \<not> is_dir fs (butlast b) then (Inl (Raised (OtherError ''FileNotFoundError'')), fs)
      else if map_of fs b \<noteq> None \<and> (map_of fs b \<noteq> Some Directory \<or> tree_below fs b \<noteq> [])
      then (Inl (Raised (OtherError ''OSError'')), fs)
      else (Inr (), without_tree a (without_tree b fs) @ moved_tree a b fs))"

definition write_temp_config :: "string list \<Rightarrow> string \<Rightarrow> string \<Rightarrow> filesystem \<Rightarrow> string list authored \<times> filesystem" where
  "write_temp_config base name content fs =
     (if \<not> is_dir fs base then (Inl (Raised (OtherError ''FileNotFoundError'')), fs)
      else (Inr (base @ [name]), AList.update (base @ [name]) (File (Some content)) fs))"

definition replace_file :: "string list \<Rightarrow> string list \<Rightarrow> filesystem \<Rightarrow> unit authored \<times> filesystem" where
  "replace_file a b fs =
     (case map_of fs a of
        None \<Rightarrow> (Inl (Raised (OtherError ''FileNotFoundError'')), fs)
      | Some x \<Rightarrow>
          if map_of fs b = Some Directory then (Inl (Raised (OtherError ''IsADirectoryError'')), fs)
          else (Inr (), AList.update b x (AList.delete a fs)))"

text \<open>The cached workspace of the server is composed from the file that the environment names.\<close>

definition compose_file ::
  "('h, 'o, 'p, 'c, 'k) authoring_lib \<Rightarrow> nat \<Rightarrow> string \<Rightarrow> filesystem \<Rightarrow> unit authored \<times> filesystem" where
  "compose_file lib n path fs =
     (case load_workspace (al_host lib) (al_inst lib) (al_env lib) n path fs of
        (Inl e, fs') \<Rightarrow> (Inl (Raised e), fs')
      | (Inr ws, fs') \<Rightarrow>
          (case compose_workspace (al_host lib) (al_inst lib) (al_hot lib) (al_opens lib) None (Suc n) ws fs' (al_env lib) of
             (Inl e, fs'', _) \<Rightarrow> (Inl (Raised e), fs'')
           | (Inr _, fs'', _) \<Rightarrow> (Inr (), fs'')))"

definition composed_workspace ::
  "('h, 'o, 'p, 'c, 'k) authoring_lib \<Rightarrow> nat \<Rightarrow> filesystem \<Rightarrow> unit authored \<times> filesystem" where
  "composed_workspace lib n fs =
     (let path = strip (case dict_get (al_env lib) ''AGENT_OS_WORKSPACE'' of None \<Rightarrow> [] | Some v \<Rightarrow> v)
      in if path = [] then (Inr (), fs) else compose_file lib n path fs)"

definition reload_workspace_or_rollback ::
  "('h, 'o, 'p, 'c, 'k) authoring_lib \<Rightarrow> string list \<Rightarrow> string \<Rightarrow> string \<Rightarrow> filesystem \<Rightarrow> unit authored \<times> filesystem" where
  "reload_workspace_or_rollback lib base rollback_name original fs =
     (case and_then (compose_file lib 2 (abs_str (base @ [''workspace.toml''])) fs) (\<lambda>_. composed_workspace lib 4) of
        (Inr _, fs') \<Rightarrow> (Inr (), fs')
      | (Inl _, fs') \<Rightarrow>
          and_then (write_temp_config base rollback_name original fs') (\<lambda>rollback fs''.
          and_then (replace_file rollback (base @ [''workspace.toml'']) fs'') (\<lambda>_ fs3.
            (Inl (Authoring ''Workspace reload failed; configuration was rolled back''), fs3))))"

text \<open>The random parts of temporary names.\<close>

record temp_names =
  tmp_package :: string
  tmp_config :: string
  tmp_rollback :: string

definition install_config ::
  "('h, 'o, 'p, 'c, 'k) authoring_lib \<Rightarrow> temp_names \<Rightarrow> string list \<Rightarrow> string list \<Rightarrow> string list \<Rightarrow> string \<Rightarrow> string list
     \<Rightarrow> filesystem \<Rightarrow> unit authored \<times> filesystem" where
  "install_config lib names base temp destination original config_temp fs =
     (case rename_tree temp destination fs of
        (Inl e, fs1) \<Rightarrow> (Inl e, AList.delete config_temp fs1)
      | (Inr _, fs1) \<Rightarrow>
          on_error
            (and_then (case load_workspace (al_host lib) (al_inst lib) (al_env lib) 0 (abs_str config_temp) fs1 of
                         (Inl e, fs2) \<Rightarrow> (Inl (Raised e), fs2) | (Inr _, fs2) \<Rightarrow> (Inr (), fs2)) (\<lambda>_ fs2.
             and_then (replace_file config_temp (base @ [''workspace.toml'']) fs2) (\<lambda>_ fs3.
               reload_workspace_or_rollback lib base (tmp_rollback names) original fs3)))
            (\<lambda>fs'. without_tree destination (AList.delete config_temp fs')))"

definition register_copy ::
  "('h, 'o, 'p, 'c, 'k) authoring_lib \<Rightarrow> temp_names \<Rightarrow> string list \<Rightarrow> string list \<Rightarrow> string list \<Rightarrow> string
     \<Rightarrow> filesystem \<Rightarrow> unit authored \<times> filesystem" where
  "register_copy lib names base temp destination name fs =
     and_then (assert_fresh_loader lib temp name fs) (\<lambda>_ fs1.
       case bind_result (lifted (os_read fs1 (base @ [''workspace.toml'']))) (\<lambda>t.
            let original = universal_newlines t
            in bind_result (add_skill_path_to_workspace_toml lib original (abs_str destination)) (\<lambda>u. Inr (original, u))) of
         Inl e \<Rightarrow> (Inl e, fs1)
       | Inr (original, updated) \<Rightarrow>
           and_then (write_temp_config base (tmp_config names) updated fs1) (\<lambda>config_temp fs2.
             install_config lib names base temp destination original config_temp fs2))"

definition promote_and_register ::
  "('h, 'o, 'p, 'c, 'k) authoring_lib \<Rightarrow> temp_names \<Rightarrow> workspace \<Rightarrow> string list \<Rightarrow> string \<Rightarrow> filesystem
     \<Rightarrow> pydict authored \<times> filesystem" where
  "promote_and_register lib names ws dir name fs =
     (let base = ws_base_path ws in
      case resolve_checked fs (base @ [APPROVED_DIRECTORY]) of
        Inl e \<Rightarrow> (Inl (Raised e), fs)
      | Inr rt \<Rightarrow>
          (case make_parents fs (rt @ [[]]) of
             Inl e \<Rightarrow> (Inl (Raised e), fs)
           | Inr fs0 \<Rightarrow>
               (case resolve_from fs0 rt name of
                  Inl e \<Rightarrow> (Inl (Raised e), fs0)
                | Inr destination \<Rightarrow>
                    if \<not> is_relative_to destination rt \<or> os_exists fs0 destination
                    then (Inl (Authoring ''Approved package destination is unavailable''), fs0)
                    else
                      (case resolve_from fs0 rt (''.'' @ name @ ''.'' @ tmp_package names @ ''.tmp'') of
                         Inl e \<Rightarrow> (Inl (Raised e), fs0)
                       | Inr temp \<Rightarrow>
                           and_then (copy_tree lib dir temp fs0) (\<lambda>_ fs1.
                           and_then (on_error (register_copy lib names base temp destination name fs1) (without_tree temp)) (\<lambda>_ fs2.
                             (Inr [(''package_path'', PStr (abs_str destination)), (''registered_skill_name'', PStr name)], fs2)))))))"

section \<open>What package code is expected to leave alone\<close>

text \<open>Executing Python code writes byte code into \<open>__pycache__\<close>; code that does nothing else to files is tame.\<close>

definition same_sources :: "filesystem \<Rightarrow> filesystem \<Rightarrow> bool" where
  "same_sources fs fs' = (link_of fs' = link_of fs \<and> (\<forall>q. ''__pycache__'' \<notin> set q \<longrightarrow> map_of fs' q = map_of fs q))"

definition tame_host :: "'h py_host \<Rightarrow> bool" where
  "tame_host host = (\<forall>p fs. same_sources fs (snd (host_exec host p fs)))"

named_theorems tame \<open>operations that leave the sources alone when package code is tame\<close>

lemma same_sources_refl [simp, tame]: "same_sources fs fs"
  by (simp add: same_sources_def)

lemma same_sources_trans [trans]: "same_sources a b \<Longrightarrow> same_sources b c \<Longrightarrow> same_sources a c"
  by (simp add: same_sources_def)

lemma tame_exec: "tame_host host \<Longrightarrow> host_exec host p fs = (r, fs') \<Longrightarrow> same_sources fs fs'"
  by (metis snd_conv tame_host_def)

lemma tame_handler [tame]:
  "tame_host host \<Longrightarrow> same_sources fs (snd (load_handler host dir conf fs))"
  by (auto simp: load_handler_def Let_def split: pyval.split sum.split prod.split option.split attribute.split
      dest: tame_exec)

lemma tame_handlers [tame]:
  "tame_host host \<Longrightarrow> same_sources fs (snd (load_handlers host dir confs fs))"
proof (induction confs arbitrary: fs)
  case (Cons conf confs)
  obtain r fs1 where one: "load_handler host dir conf fs = (r, fs1)" by fastforce
  have "same_sources fs fs1" using tame_handler [OF Cons.prems, of fs dir conf] one by simp
  moreover have "same_sources fs1 (snd (load_handlers host dir confs fs1))" by (rule Cons.IH [OF Cons.prems])
  ultimately have "same_sources fs (snd (load_handlers host dir confs fs1))" by (rule same_sources_trans)
  with one \<open>same_sources fs fs1\<close> show ?case by (auto split: sum.split prod.split)
qed simp

lemma tame_package [tame]:
  assumes "tame_host host"
  shows "same_sources (snd st) (snd (snd (load_package host dir st)))"
  using tame_handlers [OF assms] by (auto simp: load_package_def split: sum.split prod.split) (metis snd_conv)+

lemma tame_package_eq: "tame_host host \<Longrightarrow> load_package host dir st = (r, st') \<Longrightarrow> same_sources (snd st) (snd st')"
  using tame_package [of host st dir] by simp

lemma tame_each: "tame_host host \<Longrightarrow> load_each host ds st = (r, st') \<Longrightarrow> same_sources (snd st) (snd st')"
proof (induction host ds st rule: load_each.induct)
  case (2 host d ds st)
  then show ?case
    by (auto split: if_splits prod.splits sum.splits
        intro: same_sources_trans [OF tame_package_eq] tame_package_eq)
qed simp

lemma tame_directories:
  "tame_host host \<Longrightarrow> load_from_directories host ds st = (r, st') \<Longrightarrow> same_sources (snd st) (snd st')"
proof (induction host ds st rule: load_from_directories.induct)
  case (2 host d ds st)
  then show ?case
    by (auto simp: Let_def split: if_splits prod.splits sum.splits
        intro: same_sources_trans [OF tame_each] tame_each)
qed simp

lemma tame_product: "tame_host host \<Longrightarrow> take_product host a b x st = (r, st') \<Longrightarrow> same_sources (snd st) (snd st')"
  by (cases x) (auto simp: take_product_def register_one_def Let_def tame_package_eq split: if_splits sum.splits prod.splits)

lemma tame_target: "tame_host host \<Longrightarrow> take_target host ep t st = (r, st') \<Longrightarrow> same_sources (snd st) (snd st')"
  by (cases t) (auto simp: take_target_def split: sum.splits dest: tame_product [rotated])

lemma tame_targets: "tame_host host \<Longrightarrow> take_targets host res eps st = (r, st') \<Longrightarrow> same_sources (snd st) (snd st')"
proof (induction host res eps st rule: take_targets.induct)
  case (2 host res ep eps st)
  then show ?case
    by (auto split: sum.splits prod.splits intro: same_sources_trans [OF tame_target] tame_target)
qed auto

lemma tame_entry_points:
  "tame_host host \<Longrightarrow> load_from_entry_points host eps st = (r, st') \<Longrightarrow> same_sources (snd st) (snd st')"
  by (auto simp: load_from_entry_points_def dest: tame_targets [rotated] split: sum.splits)

lemma tame_skill_path: "tame_host host \<Longrightarrow> load_skill_path host ent p st = (r, st') \<Longrightarrow> same_sources (snd st) (snd st')"
proof -
  assume a: "tame_host host" "load_skill_path host ent p st = (r, st')"
  from a(2) have "st' = st \<or> st' = snd (load_package host p st) \<or> st' = snd (load_from_directories host [abs_str p] st)"
    by (rule load_skill_path_state)
  with tame_package_eq [OF a(1)] tame_directories [OF a(1)] show ?thesis by (metis same_sources_refl surjective_pairing)
qed

lemma tame_workspace_skills:
  "tame_host host \<Longrightarrow> load_workspace_skills host ss st = (r, st') \<Longrightarrow> same_sources (snd st) (snd st')"
proof (induction host ss st rule: load_workspace_skills.induct)
  case (2 host ent rest st)
  then show ?case
    by (auto simp: Let_def split: if_splits prod.splits sum.splits
        intro: same_sources_trans [OF tame_skill_path] tame_skill_path)
qed simp

lemma tame_skill_registry:
  "tame_host host \<Longrightarrow> build_workspace_skill_registry host eps native mcp ws fs = (r, fs') \<Longrightarrow> same_sources fs fs'"
  by (auto simp: build_workspace_skill_registry_def split: sum.splits prod.splits if_splits
      dest!: tame_entry_points [rotated] tame_workspace_skills [rotated] intro: same_sources_trans)

lemma tame_registries: "tame_host host \<Longrightarrow> build_registries host inst ws fs = (r, fs') \<Longrightarrow> same_sources fs fs'"
  by (auto simp: build_registries_def split: sum.splits prod.splits dest: tame_skill_registry [rotated])

lemma tame_load: "tame_host host \<Longrightarrow> load_workspace host inst env n path fs = (r, fs') \<Longrightarrow> same_sources fs fs'"
  by (auto simp: load_workspace_def split: sum.splits prod.splits dest: tame_registries [rotated])

lemma tame_compose:
  "tame_host host \<Longrightarrow> compose_workspace host inst hot opens scope n ws fs env = (r, fs', env') \<Longrightarrow> same_sources fs fs'"
  by (auto simp: compose_workspace_def split: sum.splits prod.splits dest: tame_registries [rotated])

lemma tame_compose_file: "tame_host (al_host lib) \<Longrightarrow> compose_file lib n path fs = (r, fs') \<Longrightarrow> same_sources fs fs'"
  by (auto simp: compose_file_def split: sum.splits prod.splits dest!: tame_load [rotated] tame_compose [rotated] intro: same_sources_trans)

lemma tame_composed: "tame_host (al_host lib) \<Longrightarrow> composed_workspace lib n fs = (r, fs') \<Longrightarrow> same_sources fs fs'"
  by (auto simp: composed_workspace_def Let_def dest: tame_compose_file [rotated] split: if_splits)

lemma tame_fresh_loader: "tame_host (al_host lib) \<Longrightarrow> assert_fresh_loader lib dir name fs = (r, fs') \<Longrightarrow> same_sources fs fs'"
  using tame_package_eq [of "al_host lib" dir "([], fs)"]
  by (auto simp: assert_fresh_loader_def split: sum.splits prod.splits if_splits)

section \<open>Staging and validation\<close>

lemma outside_configured_sound:
  "outside_configured lib fs dir ss = Inr u \<Longrightarrow> s \<in> set ss \<Longrightarrow>
     \<exists>c. resolve_relative_path (al_host lib) fs (host_cwd (al_host lib)) s = Inr c \<and>
         \<not> is_relative_to dir c \<and> \<not> is_relative_to c dir"
  by (induction ss) (auto split: sum.splits if_splits)

text \<open>A draft is accepted only in the staging directory of the workspace. Its resolved path has no link
  and no \<open>..\<close>, lies strictly below the resolved \<open>skill-drafts\<close>, is a directory with a manifest, and is
  neither inside of a configured skill path nor around one.\<close>

theorem staged_draft_confined:
  assumes "resolve_staging_package lib ws fs value = Inr dir"
  shows "(\<exists>staging rest. path_resolve fs (ws_base_path ws @ [DRAFTS_DIRECTORY]) = Inr staging \<and>
            dir = staging @ rest \<and> rest \<noteq> []) \<and> link_free fs dir \<and>
    os_is_dir fs dir \<and> os_is_file fs (dir @ [''manifest.toml'']) \<and>
    (\<forall>s\<in>set (ws_skills ws). \<exists>c. resolve_relative_path (al_host lib) fs (host_cwd (al_host lib)) s = Inr c \<and>
       \<not> is_relative_to dir c \<and> \<not> is_relative_to c dir)"
proof -
  from assms obtain p staging where p: "path_resolve fs p = Inr dir"
    "resolve_checked fs (ws_base_path ws @ [DRAFTS_DIRECTORY]) = Inr staging"
    "is_relative_to dir staging" "dir \<noteq> staging" "os_is_dir fs dir" "os_is_file fs (dir @ [''manifest.toml''])"
    "\<exists>u. outside_configured lib fs dir (ws_skills ws) = Inr u"
    by (auto simp: resolve_staging_package_def lifted_def split: sum.splits prod.splits if_splits)
  then have "\<exists>staging rest. path_resolve fs (ws_base_path ws @ [DRAFTS_DIRECTORY]) = Inr staging \<and>
      dir = staging @ rest \<and> rest \<noteq> []"
    by (auto simp: is_relative_iff resolve_checked_def split: if_splits)
  moreover have "link_free fs dir" using p(1) by (rule path_resolve_link_free)
  ultimately show ?thesis using p(5-7) outside_configured_sound by blast
qed

lemma validation_of_staged:
  assumes "manifest \<noteq> []" "command \<noteq> []"
  shows "\<exists>rs. run_validation re_search (staged_rules manifest command) (staged_evidence manifest command code out) None = Inr rs \<and>
    summary_count ''total'' (summarize rs) = 2 \<and>
    summary_count ''met'' (summarize rs) = (if code = 0 then 2 else 1)"
  using assms
  by (cases manifest; cases command)
     (auto simp: staged_rules_def staged_evidence_def run_rule_def deterministic_checker_def with_param_def Let_def
        verify_command_def verify_outcomes_def exit_code_of_def file_exists_def artifacts_of_def summarize_def
        summary_count_def split: prod.splits)

text \<open>A validation passes exactly when the process ended with exit code 0.\<close>

lemma validated_iff_exit_zero:
  assumes "validate_staged_package lib dir name fs = (Inr audit, fs')"
  obtains outcome code out err where "preflight_main lib [abs_str dir, name] fs = (outcome, fs')"
    "al_process lib outcome = Inr (code, out, err)" "package_digest lib fs dir = Inr (au_digest audit)"
    "au_passed audit \<longleftrightarrow> code = 0"
proof -
  from assms obtain digest outcome code out err where v: "package_digest lib fs dir = Inr digest"
    "preflight_main lib [abs_str dir, name] fs = (outcome, fs')" "al_process lib outcome = Inr (code, out, err)"
    "au_digest audit = digest"
    by (auto simp: validate_staged_package_def Let_def split: sum.splits prod.splits)
  have "abs_str (dir @ [''manifest.toml'']) \<noteq> []" by (simp add: abs_str_def)
  from validation_of_staged [OF this, of "''skill-package-preflight:'' @ abs_str dir"]
  obtain rs where "run_validation (\<lambda>_ _. Inr False)
        (staged_rules (abs_str (dir @ [''manifest.toml''])) (''skill-package-preflight:'' @ abs_str dir))
        (staged_evidence (abs_str (dir @ [''manifest.toml''])) (''skill-package-preflight:'' @ abs_str dir) code
          (strip (join [CHR 0x0A] (filter (\<lambda>s. s \<noteq> []) [out, err])))) None = Inr rs"
    "summary_count ''total'' (summarize rs) = 2" "summary_count ''met'' (summarize rs) = (if code = 0 then 2 else 1)"
    by blast
  with assms v have "au_passed audit \<longleftrightarrow> code = 0"
    by (cases "code = 0") (auto simp: validate_staged_package_def Let_def)
  with v that show ?thesis by blast
qed

section \<open>The edit of the configuration\<close>

lemma concat_splitlines_keep [simp]: "concat (splitlines_keep s) = s"
  by (induction s) (auto split: list.splits)

lemma skills_list_start_spec:
  "skills_list_start n ls = Inr m \<Longrightarrow>
     \<exists>xs l ys. ls = xs @ l # ys \<and> m = n + length (concat xs) \<and> skills_line l \<and> (\<forall>x\<in>set xs. \<not> skills_line x)"
proof (induction ls arbitrary: n)
  case (Cons l ls)
  show ?case
  proof (cases "skills_line l")
    case True
    with Cons.prems show ?thesis by (intro exI [of _ "[]"] exI [of _ l] exI [of _ ls]) simp
  next
    case False
    with Cons.prems have "skills_list_start (n + length l) ls = Inr m" by simp
    from Cons.IH [OF this] obtain xs k ys where "ls = xs @ k # ys" "m = n + length l + length (concat xs)" "skills_line k"
      "\<forall>x\<in>set xs. \<not> skills_line x" by blast
    with False show ?thesis by (intro exI [of _ "l # xs"] exI [of _ k] exI [of _ ys]) simp
  qed
qed simp

lemma opened_Inr: "(case v of Inl e \<Rightarrow> Inl (f e) | Inr x \<Rightarrow> g x) = Inr y \<longleftrightarrow> (\<exists>x. v = Inr x \<and> g x = Inr y)"
  by (cases v) auto

lemma scan_list_spec:
  "scan_list i d quote esc cs = Some e \<Longrightarrow> i < e \<and> e - i \<le> length cs \<and> cs ! (e - i - 1) = CHR '']''"
proof (induction i d quote esc cs rule: scan_list.induct)
  case (2 i d quote esc c cs)
  have rec: "Suc i < e \<and> e - Suc i \<le> length cs \<and> cs ! (e - Suc i - 1) = CHR '']'' \<or> e = Suc i \<and> c = CHR '']''"
    using 2 by (auto split: option.splits if_splits)
  then show ?case by (auto simp: nth_Cons' Suc_diff_Suc)
qed simp

text \<open>The edit of \<open>workspace.toml\<close> replaces the text of one list. What comes before the first line that
  assigns \<open>skills\<close> and what comes after the closing bracket stays as it is, character by character;
  in between is the list of the skills that \<open>tomllib\<close> found, in their order, with the new path at
  the end; and the result is a text that \<open>tomllib\<close> accepts.\<close>

theorem toml_edit_local:
  assumes "add_skill_path_to_workspace_toml lib original path = Inr updated"
  shows "\<exists>xs l ys seg post parsed vs skills.
    splitlines_keep original = xs @ l # ys \<and> skills_line l \<and> (\<forall>x\<in>set xs. \<not> skills_line x) \<and>
    original = concat xs @ seg @ post \<and> (\<exists>s. seg = s @ '']'') \<and>
    host_toml (al_host lib) original = Inr parsed \<and> dict_get parsed ''skills'' = Some (PList vs) \<and>
    string_list vs = Some skills \<and> path \<notin> set skills \<and>
    updated = concat xs @ rendered_skills (skills @ [path]) @ post \<and> (\<exists>d. host_toml (al_host lib) updated = Inr d)"
proof -
  from assms obtain parsed vs skills start stop where a: "host_toml (al_host lib) original = Inr parsed"
    "dict_get parsed ''skills'' = Some (PList vs)" "string_list vs = Some skills" "path \<notin> set skills"
    "top_level_skills_list_start original = Inr start" "matching_list_end original start = Inr stop"
    "updated = take start original @ rendered_skills (skills @ [path]) @ drop stop original"
    "\<exists>d. host_toml (al_host lib) updated = Inr d"
    by (auto simp: add_skill_path_to_workspace_toml_def Let_def opened_Inr
        split: option.splits pyval.splits if_splits)
  from skills_list_start_spec [OF a(5) [unfolded top_level_skills_list_start_def]] obtain xs l ys where
    l: "splitlines_keep original = xs @ l # ys" "start = length (concat xs)" "skills_line l" "\<forall>x\<in>set xs. \<not> skills_line x"
    by auto
  have whole: "original = concat xs @ concat (l # ys)" using concat_splitlines_keep [of original] l(1) by simp
  define gap where "gap = length (takeWhile (\<lambda>c. c \<noteq> CHR ''['') (drop start original))"
  have scan: "scan_list (start + gap) 0 None False (drop (start + gap) original) = Some stop"
    using a(6) by (auto simp: matching_list_end_def gap_def Let_def split: if_splits option.splits)
  from scan_list_spec [OF scan] have stop: "start + gap < stop" "stop \<le> length original" "original ! (stop - 1) = CHR '']''"
    by auto
  let ?seg = "take (stop - start) (drop start original)"
  have pre: "take start original = concat xs" using whole l(2) by simp
  have "original = take start original @ ?seg @ drop stop original"
    using stop(1) append_take_drop_id [of "stop - start" "drop start original"] by simp
  moreover have "?seg \<noteq> []" "List.last ?seg = CHR '']''" using stop by (auto simp: last_conv_nth)
  then have "\<exists>s. ?seg = s @ '']''" by (metis append_butlast_last_id)
  ultimately show ?thesis using a(1-4,7,8) l pre
    by (intro exI [of _ xs] exI [of _ l] exI [of _ ys] exI [of _ ?seg] exI [of _ "drop stop original"]
        exI [of _ parsed] exI [of _ vs] exI [of _ skills]) simp
qed

section \<open>All or nothing\<close>

lemma map_of_without [simp]: "map_of (without_tree a fs) q = (if is_relative_to q a then None else map_of fs q)"
  by (induction fs) (auto simp: without_tree_def)

lemma map_of_moved [simp]:
  "map_of (moved_tree a b fs) q = (if is_relative_to q b then map_of fs (a @ drop (length b) q) else None)"
proof -
  have "map_of (map (\<lambda>(q, x). (b @ drop (length a) q, x)) (filter (\<lambda>(q, _). is_relative_to q a) xs)) q =
      (if is_relative_to q b then map_of xs (a @ drop (length b) q) else None)" for xs :: filesystem
    by (induction xs) (auto simp: is_relative_iff)
  then show ?thesis by (simp add: moved_tree_def map_of_clearjunk)
qed

lemma rename_tree_cases:
  assumes "rename_tree a b fs = (r, fs')"
  shows "case r of
      Inl _ \<Rightarrow> fs' = fs
    | Inr _ \<Rightarrow> (\<forall>q. map_of fs' q = (if is_relative_to q b then map_of fs (a @ drop (length b) q)
                 else if is_relative_to q a then None else map_of fs q))"
  using assms by (auto simp: rename_tree_def map_add_def split: if_splits option.splits)

text \<open>Random names that collide with nothing, and a destination below which there is nothing.\<close>

definition fresh_names :: "filesystem \<Rightarrow> string list \<Rightarrow> temp_names \<Rightarrow> string list \<Rightarrow> string list \<Rightarrow> bool" where
  "fresh_names fs base names temp destination =
     (let c = base @ [tmp_config names]; r = base @ [tmp_rollback names]; w = base @ [''workspace.toml'']
      in map_of fs c = None \<and> map_of fs r = None \<and> c \<noteq> r \<and> c \<noteq> w \<and> r \<noteq> w \<and>
         ''__pycache__'' \<notin> set c \<union> set r \<union> set temp \<union> set destination \<and>
         (\<forall>q\<in>{c, r, w}. \<not> is_relative_to q temp \<and> \<not> is_relative_to q destination) \<and>
         (\<forall>q\<in>fst ` set fs. is_relative_to q destination \<longrightarrow> ''__pycache__'' \<in> set q) \<and>
         \<not> is_relative_to temp destination \<and> \<not> is_relative_to destination temp)"

lemma fresh_namesD:
  assumes "fresh_names fs base names temp destination"
  shows "map_of fs (base @ [tmp_config names]) = None" "map_of fs (base @ [tmp_rollback names]) = None"
    "tmp_config names \<noteq> tmp_rollback names" "tmp_config names \<noteq> ''workspace.toml''" "tmp_rollback names \<noteq> ''workspace.toml''"
    "''__pycache__'' \<notin> set base" "tmp_config names \<noteq> ''__pycache__''" "tmp_rollback names \<noteq> ''__pycache__''"
    "''__pycache__'' \<notin> set temp" "''__pycache__'' \<notin> set destination"
    "\<not> is_relative_to (base @ [tmp_config names]) temp" "\<not> is_relative_to (base @ [tmp_config names]) destination"
    "\<not> is_relative_to (base @ [tmp_rollback names]) temp" "\<not> is_relative_to (base @ [tmp_rollback names]) destination"
    "\<not> is_relative_to (base @ [''workspace.toml'']) temp" "\<not> is_relative_to (base @ [''workspace.toml'']) destination"
    "\<not> is_relative_to temp destination" "\<not> is_relative_to destination temp"
    "\<not> is_relative_to base temp" "\<not> is_relative_to base destination"
  using assms by (auto simp: fresh_names_def Let_def is_relative_iff)

lemma fresh_destination:
  "fresh_names fs base names temp destination \<Longrightarrow> is_relative_to q destination \<Longrightarrow> ''__pycache__'' \<notin> set q \<Longrightarrow>
     map_of fs q = None"
  unfolding fresh_names_def map_of_eq_None_iff by (auto simp: Let_def)

lemma same_sources_at: "same_sources fs fs' \<Longrightarrow> ''__pycache__'' \<notin> set q \<Longrightarrow> map_of fs' q = map_of fs q"
  by (simp add: same_sources_def)

lemma same_sources_fresh:
  assumes "same_sources fs fs'" "fresh_names fs base names temp destination"
  shows "fresh_names fs' base names temp destination"
proof -
  note at = same_sources_at [OF assms(1)]
  note f = fresh_namesD [OF assms(2)]
  have "''__pycache__'' \<in> set q" if "q \<in> fst ` set fs'" "is_relative_to q destination" for q
  proof (rule ccontr)
    assume "''__pycache__'' \<notin> set q"
    with that at [OF this] fresh_destination [OF assms(2) that(2) this] show False
      by (simp add: map_of_eq_None_iff)
  qed
  with assms(2) f at [of "base @ [tmp_config names]"] at [of "base @ [tmp_rollback names]"] show ?thesis
    unfolding fresh_names_def by (auto simp: Let_def)
qed

text \<open>After the configuration was replaced: a reload that fails puts the original text back.\<close>

lemma reload_cases:
  assumes "reload_workspace_or_rollback lib base n original fs = (r, fs')" "tame_host (al_host lib)"
    and "is_dir fs base" "map_of fs (base @ [n]) = None" "map_of fs (base @ [''workspace.toml'']) \<noteq> Some Directory"
    and "''__pycache__'' \<notin> set base" "n \<noteq> ''__pycache__''" "n \<noteq> ''workspace.toml''"
  shows "case r of
      Inr _ \<Rightarrow> same_sources fs fs'
    | Inl _ \<Rightarrow> (\<forall>q. ''__pycache__'' \<notin> set q \<longrightarrow> map_of fs' q =
        (if q = base @ [''workspace.toml''] then Some (File (Some original)) else map_of fs q))"
proof -
  obtain r1 fs1 where load: "and_then (compose_file lib 2 (abs_str (base @ [''workspace.toml''])) fs) (\<lambda>_. composed_workspace lib 4) = (r1, fs1)"
    by fastforce
  have same: "same_sources fs fs1"
    using load by (auto simp: and_then_def split: prod.splits sum.splits
        dest!: tame_compose_file [OF assms(2)] tame_composed [OF assms(2)] intro: same_sources_trans)
  note at = same_sources_at [OF same]
  have "is_dir fs1 base" "map_of fs1 (base @ [n]) = None" "map_of fs1 (base @ [''workspace.toml'']) \<noteq> Some Directory"
    using assms(3-7) at [of base] at [of "base @ [n]"] at [of "base @ [''workspace.toml'']"] by (auto simp: is_dir_def)
  with assms(1,8) load same at show ?thesis
    by (cases r1) (auto simp: reload_workspace_or_rollback_def write_temp_config_def replace_file_def and_then_def
        update_conv' delete_conv' fun_upd_def)
qed

lemma install_cases:
  assumes "install_config lib names base temp destination original c (AList.update c (File (Some updated)) fs) = (r, fs')"
    and c: "c = base @ [tmp_config names]" and w: "w = base @ [''workspace.toml'']"
    and tame: "tame_host (al_host lib)" and fresh: "fresh_names fs base names temp destination"
    and "is_dir fs base" and there: "map_of fs w = Some (File x)" and q: "''__pycache__'' \<notin> set q"
  shows "case r of
      Inr _ \<Rightarrow> map_of fs' q = (if is_relative_to q destination then map_of fs (temp @ drop (length destination) q)
                 else if is_relative_to q temp then None
                 else if q = w then Some (File (Some updated)) else map_of fs q)
    | Inl _ \<Rightarrow> is_relative_to q temp \<or> map_of fs' q = map_of fs q \<or>
                 q = w \<and> map_of fs' q = Some (File (Some original))"
proof -
  note f = fresh_namesD [OF fresh]
  have no_dest: "map_of fs q = None" if "is_relative_to q destination" by (rule fresh_destination [OF fresh that q])
  let ?fs = "AList.update c (File (Some updated)) fs"
  obtain r1 fs1 where ren: "rename_tree temp destination ?fs = (r1, fs1)" by fastforce
  show ?thesis
  proof (cases r1)
    case (Inl e)
    with assms(1) ren rename_tree_cases [OF ren] have "r = Inl e" "fs' = AList.delete c ?fs"
      by (auto simp: install_config_def)
    then show ?thesis using f(1) c by (auto simp: delete_conv' update_conv')
  next
    case (Inr u)
    have m1: "map_of fs1 p = (if is_relative_to p destination then map_of ?fs (temp @ drop (length destination) p)
        else if is_relative_to p temp then None else map_of ?fs p)" for p
      using rename_tree_cases [OF ren] Inr by simp
    obtain r2 fs2 where load: "load_workspace (al_host lib) (al_inst lib) (al_env lib) 0 (abs_str c) fs1 = (r2, fs2)" by fastforce
    note at2 = same_sources_at [OF tame_load [OF tame load]]
    have inner: "temp @ drop (length destination) p \<noteq> c" for p
      using f(11) c by (metis is_relative_iff)
    have m2: "map_of fs2 p = (if is_relative_to p destination then map_of fs (temp @ drop (length destination) p)
        else if is_relative_to p temp then None else if p = c then Some (File (Some updated)) else map_of fs p)"
      if "''__pycache__'' \<notin> set p" for p
      using that at2 [OF that] by (simp add: m1 update_conv' inner)
    show ?thesis
    proof (cases r2)
      case (Inl e)
      with assms(1) ren \<open>r1 = Inr u\<close> load have "\<exists>e. r = Inl e" "fs' = without_tree destination (AList.delete c fs2)"
        by (auto simp: install_config_def and_then_def on_error_def)
      then have "map_of fs' q = (if is_relative_to q destination \<or> q = c then None else map_of fs2 q)"
        by (simp add: delete_conv')
      note after = this
      show ?thesis
      proof (cases "is_relative_to q destination")
        case True
        then have "map_of fs q = None" by (rule no_dest)
        with after True \<open>\<exists>e. r = Inl e\<close> show ?thesis by auto
      next
        case False
        with after \<open>\<exists>e. r = Inl e\<close> show ?thesis using f(1) c m2 [OF q] by auto
      qed
    next
      case (Inr ws)
      have cw: "''__pycache__'' \<notin> set c" "''__pycache__'' \<notin> set w" using f c w by auto
      have at_c: "map_of fs2 c = Some (File (Some updated))" using m2 [OF cw(1)] f c by auto
      have at_w: "map_of fs2 w = Some (File x)" using m2 [OF cw(2)] f c w there by auto
      define fs3 where "fs3 = AList.update w (File (Some updated)) (AList.delete c fs2)"
      have rep: "replace_file c w fs2 = (Inr (), fs3)" by (simp add: replace_file_def at_c at_w fs3_def)
      have m3: "map_of fs3 p = (if p = w then Some (File (Some updated)) else if p = c then None else map_of fs2 p)" for p
        by (simp add: fs3_def update_conv' delete_conv')
      obtain r4 fs4 where rel: "reload_workspace_or_rollback lib base (tmp_rollback names) original fs3 = (r4, fs4)" by fastforce
      have base: "is_dir fs3 base"
        using assms(6) f c w m3 [of base] m2 [OF f(6)] by (auto simp: is_dir_def)
      have roll: "map_of fs3 (base @ [tmp_rollback names]) = None"
        using f c w m3 m2 [of "base @ [tmp_rollback names]"] by auto
      have "map_of fs3 w \<noteq> Some Directory" by (simp add: m3)
      note reload = reload_cases [OF rel tame base roll this [unfolded w] f(6,8,5)]
      have out: "(r, fs') = on_error (r4, fs4) (\<lambda>fs'. without_tree destination (AList.delete c fs'))"
        using assms(1) ren \<open>r1 = Inr u\<close> load Inr rep rel w by (simp add: install_config_def and_then_def)
      show ?thesis
      proof (cases r4)
        case (Inl e)
        with reload w have m4: "map_of fs4 q = (if q = w then Some (File (Some original)) else map_of fs3 q)" using q by simp
        from out Inl have "r = Inl e" "fs' = without_tree destination (AList.delete c fs4)" by (auto simp: on_error_def)
        then have "map_of fs' q = (if is_relative_to q destination \<or> q = c then None else map_of fs4 q)"
          by (simp add: delete_conv')
      note after = this
      show ?thesis
      proof (cases "is_relative_to q destination")
        case True
        then have "map_of fs q = None" by (rule no_dest)
        with after True \<open>r = Inl e\<close> show ?thesis by auto
      next
        case False
        with after \<open>r = Inl e\<close> show ?thesis using f(1) c m4 m3 [of q] m2 [OF q] by auto
      qed
      next
        case (Inr v)
        with reload out have "r = Inr v" "map_of fs' q = map_of fs3 q"
          using same_sources_at [of fs3 fs4 q] q by (auto simp: on_error_def)
        then show ?thesis using f c w m3 [of q] m2 [OF q] by auto
      qed
    qed
  qed
qed

lemma read_through_links:
  assumes "link_free fs p" "p \<noteq> []" "map_of fs p = Some (File (Some t))"
  shows "os_read fs p = Inr t"
  using assms by (simp add: os_read_def os_node_def path_resolve_id)

lemma same_sources_read:
  assumes "same_sources fs fs'" "link_free fs p" "p \<noteq> []" "''__pycache__'' \<notin> set p" "map_of fs p = Some (File (Some t))"
  shows "os_read fs' p = Inr t"
proof (rule read_through_links)
  show "link_free fs' p" using assms(1,2) link_free_cong [of fs fs' p] by (simp add: same_sources_def)
  show "map_of fs' p = Some (File (Some t))" using assms by (simp add: same_sources_def)
qed fact

lemma register_copy_cases:
  assumes "register_copy lib names base temp destination name fs = (r, fs')"
    and w: "w = base @ [''workspace.toml'']"
    and tame: "tame_host (al_host lib)" and fresh: "fresh_names fs base names temp destination"
    and "is_dir fs base" and there: "map_of fs w = Some (File (Some t))" "link_free fs w" and q: "''__pycache__'' \<notin> set q"
  shows "case r of
      Inr _ \<Rightarrow> (\<exists>updated. add_skill_path_to_workspace_toml lib (universal_newlines t) (abs_str destination) = Inr updated \<and>
                 map_of fs' q = (if is_relative_to q destination then map_of fs (temp @ drop (length destination) q)
                   else if is_relative_to q temp then None
                   else if q = w then Some (File (Some updated)) else map_of fs q))
    | Inl _ \<Rightarrow> is_relative_to q temp \<or> map_of fs' q = map_of fs q \<or>
                 q = w \<and> map_of fs' q = Some (File (Some (universal_newlines t)))"
proof -
  note f = fresh_namesD [OF fresh]
  have pw: "''__pycache__'' \<notin> set w" using f(6) w by simp
  obtain r1 fs1 where load: "assert_fresh_loader lib temp name fs = (r1, fs1)" by fastforce
  note same = tame_fresh_loader [OF tame load]
  note at1 = same_sources_at [OF same]
  have read: "os_read fs1 w = Inr t" using same_sources_read [OF same there(2) _ pw there(1)] w by simp
  let ?edit = "add_skill_path_to_workspace_toml lib (universal_newlines t) (abs_str destination)"
  show ?thesis
  proof (cases "\<exists>u v. r1 = Inr u \<and> ?edit = Inr v")
    case False
    with assms(1) load read w have "\<exists>e. r = Inl e" "fs' = fs1"
      by (auto simp: register_copy_def and_then_def lifted_def Let_def split: sum.splits)
    then show ?thesis using at1 [OF q] by auto
  next
    case True
    then obtain u updated where ok: "r1 = Inr u" "?edit = Inr updated" by blast
    let ?c = "base @ [tmp_config names]"
    have base: "is_dir fs1 base" using assms(5) at1 [OF f(6)] by (simp add: is_dir_def)
    have w1: "map_of fs1 w = Some (File (Some t))" using at1 [OF pw] there by simp
    have inst: "install_config lib names base temp destination (universal_newlines t) ?c
        (AList.update ?c (File (Some updated)) fs1) = (r, fs')"
      using assms(1) load read w ok base by (simp add: register_copy_def and_then_def lifted_def write_temp_config_def Let_def)
    have "''__pycache__'' \<notin> set (temp @ drop (length destination) q)" using f(9) q by (auto dest: in_set_dropD)
    with install_cases [OF inst refl w tame same_sources_fresh [OF same fresh] base w1 q] ok at1 [OF q] at1
    show ?thesis by (cases r) auto
  qed
qed

lemma in_parents: "q \<in> set (parents p) \<Longrightarrow> is_relative_to p q \<and> q \<noteq> p \<and> q \<noteq> []"
  by (auto simp: parents_def is_relative_iff) (metis append_take_drop_id)+

lemma in_parents_dir: "q \<in> set (parents (p @ [[]])) \<Longrightarrow> is_relative_to p q"
  by (auto simp: parents_def is_relative_iff take_append) (metis append_take_drop_id)

lemma make_parents_links: "make_parents fs p = Inr fs' \<Longrightarrow> link_of fs' = link_of fs"
  using map_of_make_parents [of fs p fs'] by (auto simp: fun_eq_iff link_of_def)

lemma relative_chain: "is_relative_to q a \<Longrightarrow> is_relative_to q b \<Longrightarrow> is_relative_to a b \<or> is_relative_to b a"
  by (auto simp: is_relative_iff append_eq_append_conv2)

lemma copies_below: "\<not> is_relative_to q dst \<Longrightarrow> map_of (filter P (moved_tree src dst fs)) q = None"
  by (auto simp: map_of_eq_None_iff moved_tree_def is_relative_iff)

lemma copy_tree_cases:
  assumes "copy_tree lib src dst fs = (r, fs')" "list_all (\<lambda>q. \<not> is_link fs q) (tree_below fs src)"
    and "map_of fs src = Some Directory" "\<And>q. is_relative_to q dst \<Longrightarrow> map_of fs q = None"
  shows "case r of
      Inr _ \<Rightarrow> \<not> list_ex (\<lambda>q. map_of fs q = Some (File None)) (tree_below fs src) \<and>
        map_of fs' q = (if is_relative_to q dst then map_of fs (src @ drop (length dst) q)
          else if map_of fs q = None \<and> q \<in> set (parents dst) then Some Directory else map_of fs q)
    | Inl _ \<Rightarrow> fs' = fs \<or>
        list_ex (\<lambda>q. map_of fs q = Some (File None)) (tree_below fs src) \<and>
        (is_relative_to q dst \<or>
         map_of fs' q = (if map_of fs q = None \<and> q \<in> set (parents dst) then Some Directory else map_of fs q))"
proof -
  let ?bad = "list_ex (\<lambda>q. map_of fs q = Some (File None)) (tree_below fs src)"
  let ?copies = "filter (\<lambda>(_, x). x \<noteq> File None) (moved_tree src dst fs)"
  have links: "\<not> list_ex (is_link fs) (tree_below fs src)" using assms(2) by (simp add: list_ex_iff list_all_iff)
  have all: "?copies = moved_tree src dst fs" if "\<not> ?bad"
  proof -
    have "x \<noteq> File None" if "(q, x) \<in> set (AList.clearjunk fs)" "is_relative_to q src" for q x
    proof -
      have x: "map_of fs q = Some x" using that(1) by (metis distinct_clearjunk map_of_clearjunk map_of_eq_Some_iff)
      show ?thesis
      proof (cases "q = src")
        case True
        with x assms(3) show ?thesis by simp
      next
        case False
        with that(2) x have "q \<in> set (tree_below fs src)" by (auto simp: tree_below_def dest: map_of_SomeD intro: rev_image_eqI)
        with \<open>\<not> ?bad\<close> x show ?thesis by (auto simp: list_ex_iff)
      qed
    qed
    then show ?thesis by (auto simp: moved_tree_def filter_id_conv)
  qed
  show ?thesis
  proof (cases "os_exists fs dst")
    case True
    with assms(1) show ?thesis by (auto simp: copy_tree_def)
  next
    case False
    show ?thesis
    proof (cases "make_parents fs dst")
      case (Inl e)
      with assms(1) False links show ?thesis by (auto simp: copy_tree_def)
    next
      case (Inr fs1)
      note m = map_of_make_parents [OF Inr]
      have out: "r = (if ?bad then Inl (Raised (OtherError ''shutil.Error'')) else Inr ())" "fs' = fs1 @ ?copies"
        using assms(1) False links Inr by (auto simp: copy_tree_def Let_def)
      have "map_of fs' q = (case map_of fs1 q of None \<Rightarrow> map_of ?copies q | Some x \<Rightarrow> Some x)"
        by (simp add: out(2) map_add_def)
      moreover have "map_of fs1 q = None" if "is_relative_to q dst"
        using that assms(4) [OF that] m [of q] in_parents [of q dst] by (auto simp: is_relative_iff)
      ultimately show ?thesis
        using out(1) all copies_below [of q dst] m [of q] by (auto split: option.splits)
    qed
  qed
qed

text \<open>What a promotion starts from: a draft without links, a configuration that is a plain file, and random
  names that collide with nothing.\<close>

definition fresh_copy ::
  "filesystem \<Rightarrow> string list \<Rightarrow> temp_names \<Rightarrow> string list \<Rightarrow> string list \<Rightarrow> string list \<Rightarrow> bool" where
  "fresh_copy fs base names rt temp dir =
     ((\<forall>q\<in>fst ` set fs. \<not> is_relative_to q temp) \<and> \<not> is_relative_to rt temp \<and> \<not> is_relative_to rt dir \<and>
      (\<forall>n\<in>{tmp_config names, tmp_rollback names, ''workspace.toml''}.
         base @ [n] \<notin> set (parents (rt @ [[]])) \<union> set (parents temp)))"

definition promotion_start ::
  "('h, 'o, 'p, 'c, 'k) authoring_lib \<Rightarrow> temp_names \<Rightarrow> workspace \<Rightarrow> string list \<Rightarrow> string \<Rightarrow> filesystem \<Rightarrow> string
     \<Rightarrow> string list \<Rightarrow> string list \<Rightarrow> bool" where
  "promotion_start lib names ws dir name fs t destination temp =
     (let base = ws_base_path ws; w = base @ [''workspace.toml''] in
      tame_host (al_host lib) \<and> list_all (\<lambda>q. \<not> is_link fs q) (tree_below fs dir) \<and> map_of fs dir = Some Directory \<and>
      map_of fs w = Some (File (Some t)) \<and> link_free fs w \<and> is_dir fs base \<and>
      (\<exists>rt. resolve_checked fs (base @ [APPROVED_DIRECTORY]) = Inr rt \<and> resolve_from fs rt name = Inr destination \<and>
            resolve_from fs rt (''.'' @ name @ ''.'' @ tmp_package names @ ''.tmp'') = Inr temp \<and>
            fresh_copy fs base names rt temp dir) \<and>
      fresh_names fs base names temp destination)"

lemma relative_trans: "is_relative_to a b \<Longrightarrow> is_relative_to b c \<Longrightarrow> is_relative_to a c"
  by (auto simp: is_relative_iff)

lemma relative_antisym: "is_relative_to a b \<Longrightarrow> is_relative_to b a \<Longrightarrow> a = b"
  by (auto simp: is_relative_iff)

lemma link_is_key: "is_link fs q \<Longrightarrow> q \<in> fst ` set fs"
  by (rule ccontr) (simp add: is_link_def flip: map_of_eq_None_iff)

text \<open>The directory for approved packages is made first.\<close>

lemma approved_directory_made:
  assumes "make_parents fs (rt @ [[]]) = Inr fs0" "fresh_copy fs base names rt temp dir"
    and "list_all (\<lambda>q. \<not> is_link fs q) (tree_below fs dir)"
  shows "map_of fs0 p = map_of fs p \<or> map_of fs p = None \<and> map_of fs0 p = Some Directory \<and> is_relative_to rt p"
    "is_relative_to p dir \<Longrightarrow> map_of fs0 p = map_of fs p" "is_relative_to p temp \<Longrightarrow> map_of fs0 p = None"
    "list_all (\<lambda>q. \<not> is_link fs0 q) (tree_below fs0 dir)"
proof -
  note m = map_of_make_parents [OF assms(1)]
  show one: "map_of fs0 p = map_of fs p \<or> map_of fs p = None \<and> map_of fs0 p = Some Directory \<and> is_relative_to rt p" for p
    using m [of p] in_parents_dir [of p rt] by auto
  show below: "map_of fs0 p = map_of fs p" if "is_relative_to p dir" for p
    using one [of p] relative_trans [OF _ that] assms(2) by (auto simp: fresh_copy_def)
  show "map_of fs0 p = None" if "is_relative_to p temp"
  proof -
    have "map_of fs p = None" using that assms(2) by (auto simp: fresh_copy_def map_of_eq_None_iff)
    with one [of p] relative_trans [OF _ that] assms(2) show ?thesis by (auto simp: fresh_copy_def)
  qed
  show "list_all (\<lambda>q. \<not> is_link fs0 q) (tree_below fs0 dir)"
  proof (unfold list_all_iff, intro ballI notI)
    fix q assume q: "q \<in> set (tree_below fs0 dir)" "is_link fs0 q"
    then have "is_relative_to q dir" "q \<noteq> dir" by (auto simp: tree_below_def)
    with q(2) below [of q] have "is_link fs q" by (simp add: is_link_def)
    from link_is_key [OF this] this
    show False using assms(3) \<open>is_relative_to q dir\<close> \<open>q \<noteq> dir\<close> by (auto simp: list_all_iff tree_below_def)
  qed
qed

text \<open>A complete copy leaves the configuration and the destination ready for the registration.\<close>

lemma copied_ready:
  assumes made: "make_parents fs (rt @ [[]]) = Inr fs0" and copy: "fresh_copy fs base names rt temp dir"
    and links: "list_all (\<lambda>q. \<not> is_link fs q) (tree_below fs dir)" and "map_of fs dir = Some Directory"
    and fresh: "fresh_names fs base names temp destination"
    and "is_dir fs base" "map_of fs (base @ [''workspace.toml'']) = Some (File (Some t))"
      "link_free fs (base @ [''workspace.toml''])"
    and dest: "is_relative_to destination rt" "\<not> os_exists fs0 destination" "link_free fs0 destination"
    and copied: "copy_tree lib dir temp fs0 = (Inr u, fs1)"
  shows "fresh_names fs1 base names temp destination \<and> is_dir fs1 base \<and>
    map_of fs1 (base @ [''workspace.toml'']) = Some (File (Some t)) \<and> link_free fs1 (base @ [''workspace.toml''])"
proof -
  note f = fresh_namesD [OF fresh]
  note made_at = approved_directory_made [OF made copy links]
  have "map_of fs0 dir = Some Directory" using made_at(2) [of dir] assms(4) by (simp add: is_relative_iff)
  note c = copy_tree_cases [OF copied made_at(4) this made_at(3), simplified]
  have at1: "map_of fs1 p = (if is_relative_to p temp then map_of fs0 (dir @ drop (length temp) p)
      else if map_of fs0 p = None \<and> p \<in> set (parents temp) then Some Directory else map_of fs0 p)" for p
    using c by blast
  have kept: "map_of fs1 p = Some x" if "map_of fs p = Some x" "\<not> is_relative_to p temp" for p x
    using that made_at(1) [of p] by (auto simp: at1)
  have absent: "map_of fs1 (base @ [n]) = None"
    if "map_of fs (base @ [n]) = None" "\<not> is_relative_to (base @ [n]) temp" "n \<in> {tmp_config names, tmp_rollback names, ''workspace.toml''}" for n
    using that copy map_of_make_parents [OF made, of "base @ [n]"] by (auto simp: at1 fresh_copy_def)
  have tree: "link_of fs0 (dir @ rest) = None" for rest
  proof (rule ccontr)
    assume a: "link_of fs0 (dir @ rest) \<noteq> None"
    then have "is_link fs0 (dir @ rest)" by (simp add: is_link_iff)
    moreover from this \<open>map_of fs0 dir = Some Directory\<close> have "rest \<noteq> []" by (auto simp: is_link_def)
    moreover have "dir @ rest \<in> fst ` set fs0" using calculation(1) by (rule link_is_key)
    ultimately show False using made_at(4) by (auto simp: list_all_iff tree_below_def is_relative_iff)
  qed
  have "link_of fs1 p = link_of fs0 p" for p
    using tree made_at(3) [of p] by (auto simp: link_of_def at1)
  then have "link_of fs1 = link_of fs" using make_parents_links [OF made] by auto
  from link_free_cong [OF this] assms(8) have "link_free fs1 (base @ [''workspace.toml''])" by simp
  moreover have "is_dir fs1 base" using assms(6) f(19) kept by (auto simp: is_dir_def)
  moreover have "map_of fs1 (base @ [''workspace.toml'']) = Some (File (Some t))" using assms(7) f(15) by (rule kept)
  moreover have "''__pycache__'' \<in> set q" if q: "q \<in> fst ` set fs1" "is_relative_to q destination" for q
  proof -
    have nt: "\<not> is_relative_to q temp" using q(2) relative_chain [of q temp destination] f(17,18) by blast
    have np: "q \<notin> set (parents temp)" using in_parents [of q temp] relative_trans [OF _ q(2)] f(17) by blast
    have "map_of fs1 q \<noteq> None" using q(1) by (simp add: map_of_eq_None_iff)
    with nt np have "map_of fs0 q \<noteq> None" by (auto simp: at1)
    moreover have "\<not> is_relative_to rt q \<or> map_of fs0 q \<noteq> Some Directory"
    proof (rule ccontr)
      assume "\<not> ?thesis"
      then have "is_relative_to rt q" "map_of fs0 q = Some Directory" by auto
      then have "destination = rt" "q = rt"
        using relative_trans [OF _ q(2), of rt] dest(1) q(2) relative_antisym [of destination rt] relative_antisym [of q rt] by blast+
      with \<open>map_of fs0 q = Some Directory\<close> dest(2,3) show False
        by (cases "rt = []") (auto simp: os_exists_def os_node_def path_resolve_id split: if_splits)
    qed
    ultimately have "map_of fs q \<noteq> None" using made_at(1) [of q] by auto
    then show ?thesis using fresh_destination [OF fresh q(2)] by metis
  qed
  then have "fresh_names fs1 base names temp destination"
    using fresh absent [of "tmp_config names"] absent [of "tmp_rollback names"] f
    unfolding fresh_names_def by (auto simp: Let_def)
  ultimately show ?thesis by blast
qed

lemma promotion_steps:
  assumes "promotion_start lib names ws dir name fs t destination temp"
    and "promote_and_register lib names ws dir name fs = (r, fs')"
    and q: "''__pycache__'' \<notin> set q"
  shows "(\<exists>e. r = Inl e) \<and> (map_of fs' q = map_of fs q \<or> map_of fs q = None \<and> map_of fs' q = Some Directory) \<or>
    (\<exists>fs0 r1 fs1. (\<forall>p. (map_of fs0 p = map_of fs p \<or> map_of fs p = None \<and> map_of fs0 p = Some Directory) \<and>
          (is_relative_to p dir \<longrightarrow> map_of fs0 p = map_of fs p)) \<and>
       copy_tree lib dir temp fs0 = (r1, fs1) \<and> list_all (\<lambda>q. \<not> is_link fs0 q) (tree_below fs0 dir) \<and>
       (\<forall>p. is_relative_to p temp \<longrightarrow> map_of fs0 p = None) \<and>
       (case r1 of
          Inl e \<Rightarrow> r = Inl e \<and> fs' = fs1
        | Inr _ \<Rightarrow> fresh_names fs1 (ws_base_path ws) names temp destination \<and> is_dir fs1 (ws_base_path ws) \<and>
            map_of fs1 (ws_base_path ws @ [''workspace.toml'']) = Some (File (Some t)) \<and>
            link_free fs1 (ws_base_path ws @ [''workspace.toml'']) \<and>
            (\<exists>r2 fs2. register_copy lib names (ws_base_path ws) temp destination name fs1 = (r2, fs2) \<and>
               (case r2 of Inl e \<Rightarrow> r = Inl e \<and> fs' = without_tree temp fs2 | Inr _ \<Rightarrow> (\<exists>x. r = Inr x) \<and> fs' = fs2))))"
proof -
  let ?base = "ws_base_path ws"
  from assms(1) obtain rt where start: "tame_host (al_host lib)" "list_all (\<lambda>q. \<not> is_link fs q) (tree_below fs dir)"
    "map_of fs dir = Some Directory" "map_of fs (?base @ [''workspace.toml'']) = Some (File (Some t))"
    "link_free fs (?base @ [''workspace.toml''])" "is_dir fs ?base" "resolve_checked fs (?base @ [APPROVED_DIRECTORY]) = Inr rt"
    "resolve_from fs rt name = Inr destination" "resolve_from fs rt (''.'' @ name @ ''.'' @ tmp_package names @ ''.tmp'') = Inr temp"
    "fresh_copy fs ?base names rt temp dir" "fresh_names fs ?base names temp destination"
    by (auto simp: promotion_start_def Let_def)
  show ?thesis
  proof (cases "make_parents fs (rt @ [[]])")
    case (Inl e)
    with assms(2) start show ?thesis by (auto simp: promote_and_register_def Let_def)
  next
    case (Inr fs0)
    note made_at = approved_directory_made [OF Inr start(10,2)]
    have res: "resolve_from fs0 = resolve_from fs" using make_parents_links [OF Inr] resolve_from_cong by metis
    show ?thesis
    proof (cases "\<not> is_relative_to destination rt \<or> os_exists fs0 destination")
      case True
      with assms(2) start Inr res have "\<exists>e. r = Inl e" "fs' = fs0" by (auto simp: promote_and_register_def Let_def)
      with made_at(1) [of q] show ?thesis by auto
    next
      case False
      obtain r1 fs1 where c: "copy_tree lib dir temp fs0 = (r1, fs1)" by fastforce
      have "link_free fs0 destination" using start(8) res resolve_from_link_free by metis
      note ready = copied_ready [OF Inr start(10,2,3,11,6,4,5) _ _ this]
      have out: "(r, fs') = and_then (r1, fs1) (\<lambda>_ fs1.
          and_then (on_error (register_copy lib names ?base temp destination name fs1) (without_tree temp)) (\<lambda>_ fs2.
            (Inr [(''package_path'', PStr (abs_str destination)), (''registered_skill_name'', PStr name)], fs2)))"
        using assms(2) start Inr res False c by (simp add: promote_and_register_def Let_def)
      obtain r2 fs2 where reg: "register_copy lib names ?base temp destination name fs1 = (r2, fs2)" by fastforce
      have "case r1 of Inl e \<Rightarrow> r = Inl e \<and> fs' = fs1
        | Inr _ \<Rightarrow> fresh_names fs1 ?base names temp destination \<and> is_dir fs1 ?base \<and>
            map_of fs1 (?base @ [''workspace.toml'']) = Some (File (Some t)) \<and> link_free fs1 (?base @ [''workspace.toml'']) \<and>
            (\<exists>r2 fs2. register_copy lib names ?base temp destination name fs1 = (r2, fs2) \<and>
               (case r2 of Inl e \<Rightarrow> r = Inl e \<and> fs' = without_tree temp fs2 | Inr _ \<Rightarrow> (\<exists>x. r = Inr x) \<and> fs' = fs2))"
      proof (cases r1)
        case (Inl e)
        with out show ?thesis by (simp add: and_then_def)
      next
        case (Inr u)
        with ready c False have "fresh_names fs1 ?base names temp destination \<and> is_dir fs1 ?base \<and>
            map_of fs1 (?base @ [''workspace.toml'']) = Some (File (Some t)) \<and> link_free fs1 (?base @ [''workspace.toml''])"
          by blast
        with Inr reg out show ?thesis by (cases r2) (auto simp: and_then_def on_error_def)
      qed
      then show ?thesis using made_at c by (intro disjI2 exI [of _ fs0] exI [of _ r1] exI [of _ fs1]) blast
    qed
  qed
qed

lemma map_of_without_tree: "map_of (without_tree a fs) q = (if is_relative_to q a then None else map_of fs q)"
  by (induction fs) (auto simp: without_tree_def)

lemma unreadable_below:
  assumes "\<And>p. is_relative_to p dir \<Longrightarrow> map_of fs0 p = map_of fs p"
    and "list_ex (\<lambda>q. map_of fs0 q = Some (File None)) (tree_below fs0 dir)"
  shows "list_ex (\<lambda>q. map_of fs q = Some (File None)) (tree_below fs dir)"
proof -
  from assms(2) obtain q where "map_of fs0 q = Some (File None)" "is_relative_to q dir" "q \<noteq> dir"
    by (auto simp: list_ex_iff tree_below_def)
  moreover from this have "map_of fs q = Some (File None)" using assms(1) by simp
  moreover from this have "q \<in> fst ` set fs" by (force dest: map_of_SomeD)
  ultimately show ?thesis by (auto simp: list_ex_iff tree_below_def)
qed



section \<open>Witnesses\<close>

text \<open>A workspace \<open>/b\<close> with an empty list of skills and a staged draft \<open>/b/skill-drafts/p\<close> of one skill.\<close>

definition draft_config :: "string list \<Rightarrow> pydict" where
  "draft_config skills = [(''workspace'', PDict [(''name'', PStr ''w'')]), (''skills'', PList (map PStr skills)),
     (''policy'', PDict [(''mode'', PStr ''public-read-only'')])]"

definition draft_python :: "nat py_host" where
  "draft_python = \<lparr>host_toml = (\<lambda>t. if t = ''M'' then Inr sample_manifest
       else if t = ''skills=[]'' then Inr (draft_config [])
       else if t = rendered_skills [''/b/skill-packages/go''] then Inr (draft_config [''/b/skill-packages/go''])
       else Inl (ValueError ''TOMLDecodeError'')),
     host_exec = (\<lambda>p fs. (Inr [(''f'', Callable 7)], fs)), host_home = (\<lambda>_. None), host_cwd = [''b'']\<rparr>"

definition draft_lib :: "(nat, nat, rules_dict policy_world evaluator, nat, nat) authoring_lib" where
  "draft_lib = \<lparr>al_host = draft_python, al_inst = nothing_installed, al_env = [(''AGENT_OS_SANDBOX'', ''/b'')],
     al_hot = (\<lambda>_ _ _ _. Inr []), al_opens = (\<lambda>_. True), al_sha256 = (\<lambda>s. s), al_process = (\<lambda>x. Inr x),
     al_copy_links = (\<lambda>_ _ fs. (Inr (), fs))\<rparr>"

definition draft_workspace :: workspace where
  "draft_workspace = \<lparr>ws_name = ''w'', ws_backends = [], ws_skills = [], ws_connectors = [], ws_memory = [], ws_policy = [],
     ws_context = [], ws_limits = [], ws_webhooks = [], ws_base_path = [''b'']\<rparr>"

definition draft_files :: filesystem where
  "draft_files = [([''b''], Directory), ([''b'', ''workspace.toml''], File (Some ''skills=[]'')),
     ([''b'', ''skill-drafts''], Directory), ([''b'', ''skill-drafts'', ''p''], Directory),
     ([''b'', ''skill-drafts'', ''p'', ''manifest.toml''], File (Some ''M'')),
     ([''b'', ''skill-drafts'', ''p'', ''m.py''], File (Some ''x''))]"

definition draft_names :: temp_names where
  "draft_names = \<lparr>tmp_package = ''t'', tmp_config = ''c'', tmp_rollback = ''r''\<rparr>"

definition draft_package :: "string list" where "draft_package = [''b'', ''skill-drafts'', ''p'']"
definition draft_root :: "string list" where "draft_root = [''b'', ''skill-packages'']"

lemma draft_accepted: "resolve_staging_package draft_lib draft_workspace draft_files ''/b/skill-drafts/p'' = Inr draft_package"
  by code_simp

lemma draft_edit:
  "add_skill_path_to_workspace_toml draft_lib ''skills=[]'' ''/b/skill-packages/go'' = Inr (rendered_skills [''/b/skill-packages/go''])"
  by code_simp

lemma draft_promoted:
  "\<exists>x fs'. promote_and_register draft_lib draft_names draft_workspace draft_package ''go'' draft_files = (Inr x, fs') \<and>
     map_of fs' [''b'', ''skill-packages'', ''go'', ''m.py''] = Some (File (Some ''x''))"
proof -
  have "(case promote_and_register draft_lib draft_names draft_workspace draft_package ''go'' draft_files of
      (Inr _, fs') \<Rightarrow> map_of fs' [''b'', ''skill-packages'', ''go'', ''m.py''] = Some (File (Some ''x'')) | _ \<Rightarrow> False)"
    by code_simp
  then show ?thesis by (auto split: prod.splits sum.splits)
qed

lemma draft_refused:
  "\<exists>e fs'. promote_and_register draft_lib draft_names draft_workspace draft_package ''gx'' draft_files = (Inl e, fs')"
proof -
  have "(case promote_and_register draft_lib draft_names draft_workspace draft_package ''gx'' draft_files of
      (Inl _, fs') \<Rightarrow> True | _ \<Rightarrow> False)"
    by code_simp
  then show ?thesis by (auto split: prod.splits sum.splits)
qed

lemma draft_tame: "tame_host (al_host draft_lib)"
  by (simp add: tame_host_def draft_lib_def draft_python_def)

lemma draft_fresh:
  assumes "n = ''go'' \<or> n = ''gx''"
  shows "fresh_copy draft_files [''b''] draft_names draft_root (draft_root @ [''.'' @ n @ ''.t.tmp'']) draft_package"
    "fresh_names draft_files [''b''] draft_names (draft_root @ [''.'' @ n @ ''.t.tmp'']) (draft_root @ [n])"
  using assms
  by (auto simp: fresh_copy_def fresh_names_def draft_files_def draft_root_def draft_names_def draft_package_def
      is_relative_iff parents_def Let_def)

lemma draft_start:
  assumes "n = ''go'' \<or> n = ''gx''"
  shows "promotion_start draft_lib draft_names draft_workspace draft_package n draft_files ''skills=[]''
     (draft_root @ [n]) (draft_root @ [''.'' @ n @ ''.t.tmp''])"
proof -
  have "resolve_checked draft_files ([''b''] @ [APPROVED_DIRECTORY]) = Inr draft_root" by code_simp
  moreover have "resolve_from draft_files draft_root n = Inr (draft_root @ [n])"
    "resolve_from draft_files draft_root (''.'' @ n @ ''.t.tmp'') = Inr (draft_root @ [''.'' @ n @ ''.t.tmp''])"
    using assms by (elim disjE; simp only:; code_simp)+
  moreover have "list_all (\<lambda>q. \<not> is_link draft_files q) (tree_below draft_files draft_package)" by code_simp
  moreover have "map_of draft_files draft_package = Some Directory"
    "map_of draft_files [''b'', ''workspace.toml''] = Some (File (Some ''skills=[]''))" "is_dir draft_files [''b'']" by code_simp+
  moreover have "link_free draft_files [''b'', ''workspace.toml'']"
    by (simp add: link_free_def draft_files_def is_link_def)
  ultimately show ?thesis using draft_tame draft_fresh [OF assms]
    by (simp add: promotion_start_def Let_def draft_workspace_def draft_names_def)
qed

theorem staged_draft_confined_witness:
  "link_free draft_files draft_package \<and> os_is_file draft_files (draft_package @ [''manifest.toml''])"
  using staged_draft_confined [OF draft_accepted] by blast

theorem toml_edit_local_witness:
  "\<exists>seg post. ''skills=[]'' = seg @ post \<and> rendered_skills [''/b/skill-packages/go''] = rendered_skills [''/b/skill-packages/go''] @ post"
proof -
  have lines: "splitlines_keep ''skills=[]'' = [''skills=[]'']" by code_simp
  have toml: "host_toml (al_host draft_lib) ''skills=[]'' = Inr (draft_config [])"
    by (simp add: draft_lib_def draft_python_def)
  from toml_edit_local [OF draft_edit] show ?thesis
  proof (elim exE conjE)
    fix xs l ys seg post parsed vs skills
    assume e: "splitlines_keep ''skills=[]'' = xs @ l # ys" "''skills=[]'' = concat xs @ seg @ post"
      "host_toml (al_host draft_lib) ''skills=[]'' = Inr parsed" "dict_get parsed ''skills'' = Some (PList vs)"
      "string_list vs = Some skills"
      "rendered_skills [''/b/skill-packages/go''] = concat xs @ rendered_skills (skills @ [''/b/skill-packages/go'']) @ post"
    from e(1) lines have "xs = []" by (cases xs) auto
    moreover have "skills = []" using e(3-5) toml by (auto simp: draft_config_def)
    ultimately show ?thesis using e(2,6) by (intro exI [of _ seg] exI [of _ post] conjI) simp_all
  qed
qed



end
