(* ===== verification/Cli_Backends.thy ===== *)
theory Cli_Backends
  imports Skill_Promotion Output_Limits "HOL-Library.Sublist"
begin

text \<open>
  \<open>agent_os/cli_backends.py\<close>: running the command line agents, and reading what they print.

  \<^item> \<open>run_cli_command\<close> checks the arguments, finds the binary, makes the sandbox directory and runs the process
    with the environment that has no sensitive variable. Its last component lists the processes that were
    started, with their command, directory and environment; the process itself is an argument.
  \<^item> \<open>redact_secrets_in_text\<close> is the redaction of excerpts, \<open>strict_json_schema\<close> the closing of a schema,
    \<open>parse_claude_stream_json\<close> and \<open>parse_codex_output_file\<close> read JSON; \<open>json.loads\<close> is an argument.
  \<^item> The theorems: a started process has none of the forbidden arguments and no sensitive variable; every
    object of a strict schema is closed; the answer is the last event that has one; and where the checks
    fall short: attached options pass, and an excerpt that is cut inside a secret shows the rest of it.
\<close>

section \<open>Arguments and environment\<close>

type_synonym env_vars = "(string \<times> string) list"

definition FORBIDDEN_CLI_ARGS :: "string list" where
  "FORBIDDEN_CLI_ARGS = [''-C'', ''--add-dir'', ''--allow-dangerously-skip-permissions'', ''--cd'', ''--cwd'',
     ''--dangerously-bypass-approvals-and-sandbox'', ''--dangerously-skip-permissions'', ''--workdir'', ''--working-directory'']"

definition FORBIDDEN_CLI_ARG_PREFIXES :: "string list" where
  "FORBIDDEN_CLI_ARG_PREFIXES = map (\<lambda>a. a @ ''='') (filter (\<lambda>a. startswith a ''--'') FORBIDDEN_CLI_ARGS)"

datatype cli_error = Backend_error string | Authentication_error string | Backend_timeout string | Other_error py_exn

definition forbidden_arg :: "string \<Rightarrow> bool" where
  "forbidden_arg a = (a \<in> set FORBIDDEN_CLI_ARGS \<or> list_ex (\<lambda>p. startswith a p) FORBIDDEN_CLI_ARG_PREFIXES)"

fun validate_cli_args :: "string list \<Rightarrow> cli_error + unit" where
  "validate_cli_args [] = Inr ()"
| "validate_cli_args (a # rest) =
     (let next_is = (\<lambda>s. case rest of [] \<Rightarrow> False | b # _ \<Rightarrow> b = s) in
      if forbidden_arg a
      then Inl (Backend_error (''CLI argument '' @ a @ '' is forbidden because it can expand sandbox access''))
      else if a \<in> {''-s'', ''--sandbox''} \<and> next_is ''danger-full-access'' \<or> a = ''--sandbox=danger-full-access''
      then Inl (Backend_error ''CLI sandbox mode danger-full-access is forbidden'')
      else if a = ''--permission-mode'' \<and> next_is ''bypassPermissions'' \<or> a = ''--permission-mode=bypassPermissions''
      then Inl (Backend_error ''CLI permission mode bypassPermissions is forbidden'')
      else validate_cli_args rest)"

definition SENSITIVE_SUBSTRINGS :: "string list" where
  "SENSITIVE_SUBSTRINGS = [''API_KEY'', ''TOKEN'', ''SECRET'', ''PASSWORD'', ''CREDENTIAL'', ''AUTH'']"

definition is_sensitive_key :: "string \<Rightarrow> bool" where
  "is_sensitive_key key = (let u = py_upper key in list_ex (\<lambda>w. contains w u) SENSITIVE_SUBSTRINGS)"

definition build_safe_subprocess_env :: "env_vars \<Rightarrow> env_vars" where
  "build_safe_subprocess_env env = filter (\<lambda>(k, _). \<not> is_sensitive_key k) env"

section \<open>Redaction\<close>

text \<open>\<open>str.replace\<close> of a nonempty text.\<close>

function replace_all :: "string \<Rightarrow> string \<Rightarrow> string \<Rightarrow> string" where
  "replace_all old new [] = []"
| "replace_all old new (c # cs) =
     (if startswith (c # cs) old then new @ replace_all old new (drop (length old - 1) cs) else c # replace_all old new cs)"
  by pat_completeness auto
termination
  by (relation "measure (\<lambda>(old, new, s). length s)") auto

text \<open>The length of a key word of the pattern at the start of a text, up to case.\<close>

definition key_words :: "string list" where
  "key_words = [''api_key'', ''api-key'', ''apikey'', ''token'', ''secret'', ''password'', ''credential'', ''auth'']"

definition key_word_length :: "string \<Rightarrow> nat option" where
  "key_word_length s = map_option length (List.find (\<lambda>w. startswith (map lower_char s) w) key_words)"

definition secret_char :: "char \<Rightarrow> bool" where
  "secret_char c = (\<not> py_isspace c \<and> c \<notin> {CHR 0x27, CHR 0x22, CHR '';'', CHR '',''})"

text \<open>Key word, separator and value at the start of a text: how much is kept, and how much is matched.\<close>

definition secret_at :: "string \<Rightarrow> (nat \<times> nat) option" where
  "secret_at s =
     (case key_word_length s of
        None \<Rightarrow> None
      | Some n \<Rightarrow>
          let m = n + length (takeWhile py_isspace (drop n s)) in
          if m < length s \<and> s ! m \<in> {CHR ''='', CHR '':''}
          then (let k = m + 1 + length (takeWhile py_isspace (drop (m + 1) s));
                    v = length (takeWhile secret_char (drop k s))
                in if v = 0 then None else Some (k, k + v))
          else None)"

function redact_pairs :: "string \<Rightarrow> string" where
  "redact_pairs [] = []"
| "redact_pairs (c # cs) =
     (case secret_at (c # cs) of
        None \<Rightarrow> c # redact_pairs cs
      | Some (k, m) \<Rightarrow> take k (c # cs) @ ''[REDACTED]'' @ redact_pairs (drop (m - 1) cs))"
  by pat_completeness auto
termination
  by (relation "measure length") auto

definition secret_values :: "env_vars \<Rightarrow> string list" where
  "secret_values env = map snd (filter (\<lambda>(k, v). is_sensitive_key k \<and> 3 < length v) env)"

definition redact_secrets_in_text :: "env_vars \<Rightarrow> string \<Rightarrow> string" where
  "redact_secrets_in_text env text =
     redact_pairs (fold (\<lambda>v t. replace_all v ''[REDACTED]'' t) (secret_values env) text)"

section \<open>Schemas\<close>

text \<open>A node that describes an object gets \<open>additionalProperties\<close> and \<open>required\<close>, after everything in it.\<close>

definition is_object :: "pydict \<Rightarrow> bool" where
  "is_object d = (dict_get d ''type'' = Some (PStr ''object'') \<or> (\<exists>ps. dict_get d ''properties'' = Some (PDict ps)))"

definition required_of :: "pydict \<Rightarrow> pyval" where
  "required_of d = PList (case dict_get d ''properties'' of Some (PDict ps) \<Rightarrow> map (\<lambda>(k, _). PStr k) ps | _ \<Rightarrow> [])"

definition has_properties :: "pydict \<Rightarrow> bool" where
  "has_properties d = (case dict_get d ''properties'' of Some (PDict _) \<Rightarrow> True | _ \<Rightarrow> False)"

lemma is_object_code [code]:
  "is_object d = (has_properties d \<or> (case dict_get d ''type'' of Some (PStr t) \<Rightarrow> t = ''object'' | _ \<Rightarrow> False))"
  by (auto simp: is_object_def has_properties_def split: option.splits pyval.splits)

definition close_node :: "pydict \<Rightarrow> pydict" where
  "close_node d =
     (if is_object d then dict_set ''required'' (required_of d) (dict_set ''additionalProperties'' (PBool False) d) else d)"

fun strict_json_schema :: "pyval \<Rightarrow> pyval" and strict_items :: "pydict \<Rightarrow> pydict" and strict_elements :: "pyval list \<Rightarrow> pyval list" where
  "strict_json_schema (PDict d) = PDict (close_node (strict_items d))"
| "strict_json_schema (PList xs) = PList (strict_elements xs)"
| "strict_json_schema v = v"
| "strict_items [] = []"
| "strict_items ((k, v) # d) = (k, strict_json_schema v) # strict_items d"
| "strict_elements [] = []"
| "strict_elements (x # xs) = strict_json_schema x # strict_elements xs"

section \<open>Running a command\<close>

datatype captured = Nothing_captured | Captured_text string | Captured_bytes string

text \<open>\<open>decode\<close> is \<open>bytes.decode("utf-8", errors="replace")\<close>.\<close>

definition coerce_text :: "(string \<Rightarrow> string) \<Rightarrow> captured \<Rightarrow> string" where
  "coerce_text decode c = (case c of Nothing_captured \<Rightarrow> [] | Captured_text t \<Rightarrow> t | Captured_bytes b \<Rightarrow> decode b)"

definition last_chars :: "nat \<Rightarrow> string \<Rightarrow> string" where
  "last_chars n s = drop (length s - n) s"

datatype cli_end = Cli_timed_out captured | Cli_raises py_exn | Cli_ended int string captured

record spawned =
  sp_cmd :: "string list"
  sp_cwd :: "string list"
  sp_env :: env_vars
  sp_timeout :: int

record cli_lib =
  cb_which :: "string \<Rightarrow> string option"
  cb_decode :: "string \<Rightarrow> string"
  cb_run :: "spawned \<Rightarrow> filesystem \<Rightarrow> cli_end \<times> filesystem"
  cb_loads :: "string \<Rightarrow> pyval option"

definition ensure_binary :: "cli_lib \<Rightarrow> string \<Rightarrow> string result" where
  "ensure_binary lib name =
     (case cb_which lib name of
        None \<Rightarrow> Inl (ValueError (''Binary '' @ name @ '' not found on PATH. Please ensure it is installed and authenticated.''))
      | Some p \<Rightarrow> Inr p)"

definition AUTH_INDICATORS :: "string list" where
  "AUTH_INDICATORS = [''authentication_failed'', ''oauth session expired'', ''invalid_api_key'', ''not logged in'',
     ''authentication required'', ''unauthorized'']"

definition auth_guidance :: "string \<Rightarrow> string" where
  "auth_guidance binary =
     (if binary = ''claude'' then ''Run `claude auth login` before starting agent-os.''
      else if binary = ''codex'' then ''Run `codex login` before starting agent-os.''
      else ''Authenticate '' @ binary @ '' before starting agent-os.'')"

definition cli_outcome :: "cli_lib \<Rightarrow> env_vars \<Rightarrow> string \<Rightarrow> int \<Rightarrow> cli_end \<Rightarrow> cli_error + string" where
  "cli_outcome lib env binary timeout how =
     (case how of
        Cli_raises e \<Rightarrow> Inl (Other_error e)
      | Cli_timed_out err \<Rightarrow>
          Inl (Backend_timeout (''Command '' @ binary @ '' timed out after '' @ int_str timeout @ '' seconds. Stderr excerpt: '' @
                 redact_secrets_in_text env (last_chars 500 (coerce_text (cb_decode lib) err))))
      | Cli_ended code out err \<Rightarrow>
          if code = 0 then Inr out
          else (let text = coerce_text (cb_decode lib) err; excerpt = redact_secrets_in_text env (last_chars 1000 text) in
            if list_ex (\<lambda>i. contains i (py_lower text)) AUTH_INDICATORS
            then Inl (Authentication_error (''Command '' @ binary @ '' failed due to authentication. '' @ auth_guidance binary @
                   '' Subprocesses are noninteractive and cannot complete login. Stderr excerpt: '' @ excerpt))
            else Inl (Backend_error (''Command '' @ binary @ '' failed with return code '' @ int_str code @
                   ''. Stderr excerpt: '' @ excerpt))))"

definition run_cli_command ::
  "cli_lib \<Rightarrow> env_vars \<Rightarrow> string \<Rightarrow> string list \<Rightarrow> int \<Rightarrow> os_env \<Rightarrow> (cli_error + string) \<times> os_env \<times> spawned list" where
  "run_cli_command lib env binary args timeout os =
     (case validate_cli_args args of
        Inl e \<Rightarrow> (Inl e, os, [])
      | Inr _ \<Rightarrow>
          (case ensure_binary lib binary of
             Inl e \<Rightarrow> (Inl (Other_error e), os, [])
           | Inr path \<Rightarrow>
               (case get_sandbox_root os of
                  Inl e \<Rightarrow> (Inl (Other_error e), os, [])
                | Inr cwd \<Rightarrow>
                    (case make_parents (os_fs os) (cwd @ [''.'']) of
                       Inl e \<Rightarrow> (Inl (Other_error e), os, [])
                     | Inr fs \<Rightarrow>
                         (let sp = \<lparr>sp_cmd = path # args, sp_cwd = cwd, sp_env = build_safe_subprocess_env env, sp_timeout = timeout\<rparr> in
                          case cb_run lib sp fs of
                            (how, fs') \<Rightarrow> (cli_outcome lib env binary timeout how, os\<lparr>os_fs := fs'\<rparr>, [sp]))))))"

section \<open>Reading answers\<close>

text \<open>The text before and after the first occurrence of another.\<close>

fun cut_at :: "string \<Rightarrow> string \<Rightarrow> (string \<times> string) option" where
  "cut_at t [] = (if t = [] then Some ([], []) else None)"
| "cut_at t (c # cs) =
     (if startswith (c # cs) t then Some ([], drop (length t) (c # cs))
      else map_option (\<lambda>(a, b). (c # a, b)) (cut_at t cs))"

text \<open>What stands between the first fence and the next one, without \<open>json\<close>.\<close>

definition fenced_text :: "string \<Rightarrow> string option" where
  "fenced_text s =
     (case cut_at ''```'' s of
        None \<Rightarrow> None
      | Some (_, rest) \<Rightarrow>
          map_option (\<lambda>(a, _). strip a) (cut_at ''```'' (if startswith rest ''json'' then drop 4 rest else rest)))"

definition parse_json_text_payload :: "(string \<Rightarrow> pyval option) \<Rightarrow> string \<Rightarrow> pydict option" where
  "parse_json_text_payload loads s =
     (let text = strip s in
      if text = [] then None
      else case loads (case fenced_text text of Some t \<Rightarrow> t | None \<Rightarrow> text) of
        Some (PDict d) \<Rightarrow> Some d
      | _ \<Rightarrow> None)"

definition or_none :: "pydict \<Rightarrow> string \<Rightarrow> pyval" where
  "or_none d k = (case dict_get d k of None \<Rightarrow> PNone | Some v \<Rightarrow> v)"

definition block_payload :: "(string \<Rightarrow> pyval option) \<Rightarrow> pyval \<Rightarrow> pydict option" where
  "block_payload loads block =
     (case block of
        PDict d \<Rightarrow> if or_none d ''type'' = PStr ''text''
                  then parse_json_text_payload loads (py_str (case dict_get d ''text'' of None \<Rightarrow> PStr [] | Some v \<Rightarrow> v))
                  else None
      | _ \<Rightarrow> None)"

fun first_some :: "('a \<Rightarrow> 'b option) \<Rightarrow> 'a list \<Rightarrow> 'b option" where
  "first_some f [] = None"
| "first_some f (x # xs) = (case f x of Some y \<Rightarrow> Some y | None \<Rightarrow> first_some f xs)"

text \<open>A list or object as the type of an event cannot be looked up in the set of names.\<close>

definition extract_claude_event_payload :: "(string \<Rightarrow> pyval option) \<Rightarrow> pydict \<Rightarrow> pydict option result" where
  "extract_claude_event_payload loads event =
     (case or_none event ''type'' of
        PNone \<Rightarrow> Inr (Some event)
      | PList _ \<Rightarrow> Inl (TypeError ''unhashable type: list'')
      | PDict _ \<Rightarrow> Inl (TypeError ''unhashable type: dict'')
      | PStr t \<Rightarrow>
          Inr (if t = ''result'' then
                 (case or_none event ''structured_output'' of
                    PDict d \<Rightarrow> Some d
                  | _ \<Rightarrow> (case or_none event ''result'' of
                             PDict d \<Rightarrow> Some d
                           | PStr s \<Rightarrow> parse_json_text_payload loads s
                           | _ \<Rightarrow> None))
               else if t = ''assistant'' \<or> t = ''message'' then
                 (case or_none event ''message'' of
                    PDict m \<Rightarrow> (case or_none m ''content'' of
                                 PList blocks \<Rightarrow> first_some (block_payload loads) (rev blocks)
                               | _ \<Rightarrow> None)
                  | _ \<Rightarrow> None)
               else None)
      | _ \<Rightarrow> Inr None)"

definition stream_events :: "(string \<Rightarrow> pyval option) \<Rightarrow> string \<Rightarrow> pydict list" where
  "stream_events loads stdout =
     List.map_filter (\<lambda>l. let t = strip l in
         if t = [] then None else (case loads t of Some (PDict d) \<Rightarrow> Some d | _ \<Rightarrow> None))
       (splitlines_keep (strip stdout))"

fun first_payload :: "(string \<Rightarrow> pyval option) \<Rightarrow> pydict list \<Rightarrow> pydict option result" where
  "first_payload loads [] = Inr None"
| "first_payload loads (e # es) =
     bind_result (extract_claude_event_payload loads e) (\<lambda>p.
       case p of Some d \<Rightarrow> Inr (Some d) | None \<Rightarrow> first_payload loads es)"

definition parse_claude_stream_json :: "cli_lib \<Rightarrow> env_vars \<Rightarrow> string \<Rightarrow> pydict result" where
  "parse_claude_stream_json lib env stdout =
     (if stdout = [] then Inl (ValueError ''Claude CLI provided no stdout'')
      else bind_result (first_payload (cb_loads lib) (rev (stream_events (cb_loads lib) stdout))) (\<lambda>p.
        case p of
          Some d \<Rightarrow> Inr d
        | None \<Rightarrow> Inl (ValueError (''No valid JSON payload found in Claude output. Excerpt: '' @
                    redact_secrets_in_text env (last_chars 500 stdout)))))"

definition parse_codex_output_file :: "cli_lib \<Rightarrow> env_vars \<Rightarrow> filesystem \<Rightarrow> string list \<Rightarrow> pydict result" where
  "parse_codex_output_file lib env fs p =
     (if \<not> os_exists fs p then Inl (ValueError (''Codex output file not found: '' @ abs_str p))
      else case os_read fs p of
        Inl e \<Rightarrow> Inl (ValueError (''Failed to read Codex output file: '' @ exn_message e))
      | Inr raw \<Rightarrow>
          (let content = universal_newlines raw in
           case cb_loads lib content of
             None \<Rightarrow> Inl (ValueError (''Failed to parse Codex JSON output. Excerpt: '' @
                       redact_secrets_in_text env (take 200 content)))
           | Some (PDict d) \<Rightarrow> Inr d
           | Some _ \<Rightarrow> Inl (ValueError ''Expected Codex output to be a JSON object'')))"

section \<open>What a started process gets\<close>

text \<open>The arguments that the checks let through.\<close>

definition args_confined :: "string list \<Rightarrow> bool" where
  "args_confined args =
     ((\<forall>a\<in>set args. a \<notin> set FORBIDDEN_CLI_ARGS \<and> (\<forall>q\<in>set FORBIDDEN_CLI_ARGS. startswith q ''--'' \<longrightarrow> \<not> startswith a (q @ ''=''))) \<and>
      ''--sandbox=danger-full-access'' \<notin> set args \<and> ''--permission-mode=bypassPermissions'' \<notin> set args \<and>
      \<not> sublist [''-s'', ''danger-full-access''] args \<and> \<not> sublist [''--sandbox'', ''danger-full-access''] args \<and>
      \<not> sublist [''--permission-mode'', ''bypassPermissions''] args)"

lemma sublist_pair_Cons: "sublist [a, b] (x # xs) \<longleftrightarrow> (x = a \<and> xs \<noteq> [] \<and> hd xs = b) \<or> sublist [a, b] xs"
  by (cases xs) (auto simp: sublist_Cons_right)

lemma validate_cli_args_iff: "validate_cli_args args = Inr () \<longleftrightarrow> args_confined args"
proof (induction args)
  case (Cons a rest)
  have "forbidden_arg a \<longleftrightarrow> a \<in> set FORBIDDEN_CLI_ARGS \<or>
      (\<exists>q\<in>set FORBIDDEN_CLI_ARGS. startswith q ''--'' \<and> startswith a (q @ ''=''))"
    by (auto simp: forbidden_arg_def FORBIDDEN_CLI_ARG_PREFIXES_def list_ex_iff)
  moreover have "(case rest of [] \<Rightarrow> False | b # _ \<Rightarrow> b = s) \<longleftrightarrow> rest \<noteq> [] \<and> hd rest = s" for s by (cases rest) auto
  ultimately show ?case using Cons.IH by (auto simp: args_confined_def sublist_pair_Cons Let_def simp del: startswith_def)
qed (simp add: args_confined_def)

text \<open>C18: A process is started only with arguments that can neither leave nor disable the sandbox by one of the known
  options, in the sandbox directory, and without any variable whose name looks sensitive; the other
  variables are passed on.\<close>

theorem cli_process_confined:
  assumes "run_cli_command lib env binary args timeout os = (r, os', started)" "sp \<in> set started"
  shows "args_confined args \<and> tl (sp_cmd sp) = args \<and> get_sandbox_root os = Inr (sp_cwd sp) \<and>
    (\<forall>(k, v)\<in>set (sp_env sp). \<not> is_sensitive_key k \<and> (k, v) \<in> set env)"
  using assms validate_cli_args_iff [of args]
  by (auto simp: run_cli_command_def build_safe_subprocess_env_def Let_def split: sum.splits prod.splits)

section \<open>Strict schemas\<close>

text \<open>A schema is closed when every object in it forbids other properties and requires all its own.\<close>

definition node_closed :: "pydict \<Rightarrow> bool" where
  "node_closed d = (is_object d \<longrightarrow> dict_get d ''additionalProperties'' = Some (PBool False) \<and> dict_get d ''required'' = Some (required_of d))"

fun schema_closed :: "pyval \<Rightarrow> bool" and items_closed :: "pydict \<Rightarrow> bool" and elements_closed :: "pyval list \<Rightarrow> bool" where
  "schema_closed (PDict d) = (node_closed d \<and> items_closed d)"
| "schema_closed (PList xs) = elements_closed xs"
| "schema_closed _ = True"
| "items_closed [] = True"
| "items_closed ((k, v) # d) = (schema_closed v \<and> items_closed d)"
| "elements_closed [] = True"
| "elements_closed (x # xs) = (schema_closed x \<and> elements_closed xs)"

lemma items_closed_iff: "items_closed d \<longleftrightarrow> (\<forall>(k, v)\<in>set d. schema_closed v)"
  by (induction d) auto

lemma elements_closed_iff: "elements_closed xs \<longleftrightarrow> (\<forall>x\<in>set xs. schema_closed x)"
  by (induction xs) auto

lemma items_closed_set: "items_closed d \<Longrightarrow> schema_closed v \<Longrightarrow> items_closed (dict_set k v d)"
  by (induction d) auto

lemma close_node_closed:
  assumes "items_closed d"
  shows "node_closed (close_node d) \<and> items_closed (close_node d)"
proof -
  have other: "is_object (close_node d) = is_object d" "required_of (close_node d) = required_of d"
    by (simp_all add: close_node_def is_object_def required_of_def update_conv')
  have "schema_closed (required_of d)"
    by (auto simp: required_of_def elements_closed_iff split: option.splits pyval.splits)
  with assms have "items_closed (close_node d)" by (simp add: close_node_def items_closed_set)
  moreover have "node_closed (close_node d)"
    unfolding node_closed_def other by (auto simp: close_node_def update_conv')
  ultimately show ?thesis by simp
qed

text \<open>Every object of a strict schema is closed, at any depth.\<close>

theorem strict_schema_closed: "schema_closed (strict_json_schema v)"
proof -
  have "schema_closed (strict_json_schema v)" "items_closed (strict_items d)" "elements_closed (strict_elements xs)" for d xs
    by (induction v and d and xs rule: strict_json_schema_strict_items_strict_elements.induct) (simp_all add: close_node_closed)
  then show ?thesis by blast
qed

section \<open>The last answer counts\<close>

lemma first_split_Cons:
  "(\<exists>xs f ys. e # es = xs @ f # ys \<and> P f \<and> (\<forall>x\<in>set xs. Q x)) \<longleftrightarrow>
   P e \<or> (Q e \<and> (\<exists>xs f ys. es = xs @ f # ys \<and> P f \<and> (\<forall>x\<in>set xs. Q x)))" (is "?l \<longleftrightarrow> ?r")
proof
  assume ?l
  then obtain xs f ys where s: "e # es = xs @ f # ys" "P f" "\<forall>x\<in>set xs. Q x" by blast
  show ?r
  proof (cases xs)
    case (Cons x zs)
    with s have "Q e" "es = zs @ f # ys" "\<forall>x\<in>set zs. Q x" by auto
    with s(2) show ?thesis by blast
  qed (use s in auto)
next
  show "?r \<Longrightarrow> ?l"
  proof (elim disjE conjE exE)
    show "P e \<Longrightarrow> ?l" by (intro exI [of _ "[]"]) auto
    show "?l" if "Q e" "es = xs @ f # ys" "P f" "\<forall>x\<in>set xs. Q x" for xs f ys
      using that by (intro exI [of _ "e # xs"] exI [of _ f] exI [of _ ys]) auto
  qed
qed

lemma last_split:
  "(\<exists>xs f ys. rev es = xs @ f # ys \<and> P f \<and> (\<forall>x\<in>set xs. Q x)) \<longleftrightarrow>
   (\<exists>xs f ys. es = xs @ f # ys \<and> P f \<and> (\<forall>y\<in>set ys. Q y))" (is "?l \<longleftrightarrow> ?r")
proof
  assume ?l
  then obtain xs f ys where "rev es = xs @ f # ys" "P f" "\<forall>x\<in>set xs. Q x" by blast
  then have "es = rev ys @ f # rev xs" "P f" "\<forall>x\<in>set (rev xs). Q x" by (simp_all add: rev_swap)
  then show ?r by blast
next
  assume ?r
  then obtain xs f ys where "es = xs @ f # ys" "P f" "\<forall>y\<in>set ys. Q y" by blast
  then have "rev es = rev ys @ f # rev xs" "P f" "\<forall>x\<in>set (rev ys). Q x" by simp_all
  then show ?l by blast
qed

lemma first_payload_Some:
  "first_payload loads es = Inr (Some p) \<longleftrightarrow>
   (\<exists>xs e ys. es = xs @ e # ys \<and> extract_claude_event_payload loads e = Inr (Some p) \<and>
      (\<forall>x\<in>set xs. extract_claude_event_payload loads x = Inr None))"
proof (induction es)
  case (Cons e es)
  have "first_payload loads (e # es) = Inr (Some p) \<longleftrightarrow> extract_claude_event_payload loads e = Inr (Some p) \<or>
      (extract_claude_event_payload loads e = Inr None \<and> first_payload loads es = Inr (Some p))"
    by (cases "extract_claude_event_payload loads e") (auto split: option.split)
  then show ?case unfolding first_split_Cons Cons.IH .
qed simp

text \<open>What is read from the output of the agent is the payload of the last event that has one.\<close>

theorem last_payload_wins:
  "parse_claude_stream_json lib env stdout = Inr p \<longleftrightarrow>
   (\<exists>before e after. stdout \<noteq> [] \<and> stream_events (cb_loads lib) stdout = before @ e # after \<and>
      extract_claude_event_payload (cb_loads lib) e = Inr (Some p) \<and>
      (\<forall>x\<in>set after. extract_claude_event_payload (cb_loads lib) x = Inr None))"
proof -
  have "parse_claude_stream_json lib env stdout = Inr p \<longleftrightarrow>
      stdout \<noteq> [] \<and> first_payload (cb_loads lib) (rev (stream_events (cb_loads lib) stdout)) = Inr (Some p)"
    by (auto simp: parse_claude_stream_json_def split: option.splits)
  then show ?thesis unfolding first_payload_Some last_split by blast
qed

section \<open>Where the checks fall short\<close>

text \<open>An option with its value attached is another argument than the option: the sandbox mode, the working
  directory and the approval bypass of a configuration override pass the check.\<close>

theorem attached_options_pass:
  "validate_cli_args [''-sdanger-full-access''] = Inr () \<and> validate_cli_args [''-C/''] = Inr () \<and>
   validate_cli_args [''-c'', ''sandbox_mode=danger-full-access''] = Inr ()"
  by code_simp

lemma replace_all_absent: "c \<in> set old \<Longrightarrow> c \<notin> set s \<Longrightarrow> replace_all old new s = s"
proof (induction old new s rule: replace_all.induct)
  case (2 old new x xs)
  have "\<not> startswith (x # xs) old"
  proof
    assume "startswith (x # xs) old"
    then have "set old \<subseteq> set (x # xs)" unfolding startswith_def by (metis set_take_subset)
    with 2 show False by auto
  qed
  with 2 show ?case by simp
qed simp

lemma redact_pairs_no_separator: "CHR ''='' \<notin> set s \<Longrightarrow> CHR '':'' \<notin> set s \<Longrightarrow> redact_pairs s = s"
proof (induction s)
  case (Cons c s)
  have "secret_at (c # s) = None"
    using Cons.prems nth_mem [of _ "c # s"]
    by (fastforce simp: secret_at_def Let_def simp del: nth_mem split: option.splits)
  with Cons show ?case by simp
qed simp

text \<open>The excerpt is cut before it is redacted. When the cut falls inside a secret, the rest of the secret is no
  longer the value of the variable and is shown.\<close>

theorem cut_secret_is_shown:
  assumes "is_sensitive_key k" "length x = 494" "CHR ''='' \<notin> set x" "CHR '':'' \<notin> set x" "CHR ''a'' \<notin> set x"
  shows "redact_secrets_in_text [(k, ''abcdefgh'')] (last_chars 500 (''abcdefgh'' @ x)) = ''cdefgh'' @ x"
proof -
  let ?s = "''cdefgh'' @ x"
  have "last_chars 500 (''abcdefgh'' @ x) = ?s" using assms(2) by (simp add: last_chars_def)
  moreover have "secret_values [(k, ''abcdefgh'')] = [''abcdefgh'']" using assms(1) by (simp add: secret_values_def)
  moreover have "replace_all ''abcdefgh'' ''[REDACTED]'' ?s = ?s"
    by (rule replace_all_absent [of "CHR ''a''"]) (use assms(5) in auto)
  moreover have "redact_pairs ?s = ?s" by (rule redact_pairs_no_separator) (use assms(3,4) in auto)
  ultimately show ?thesis unfolding redact_secrets_in_text_def by (simp del: append_Cons append_Nil replace_all.simps redact_pairs.simps)
qed

section \<open>Witnesses\<close>

definition quiet_cli :: cli_lib where
  "quiet_cli = \<lparr>cb_which = (\<lambda>b. Some (''/bin/'' @ b)), cb_decode = id, cb_run = (\<lambda>_ fs. (Cli_ended 0 [] Nothing_captured, fs)),
     cb_loads = (\<lambda>_. None)\<rparr>"

theorem cli_process_confined_witness:
  "\<exists>sp. snd (snd (run_cli_command quiet_cli [(''API_TOKEN'', ''x''), (''PATH'', ''/bin'')] ''claude'' [''-p''] 5
      \<lparr>os_fs = [([''s''], Directory)], os_cwd = [], os_sandbox_env = None, sandbox_override = Some [''s'']\<rparr>)) = [sp] \<and>
    args_confined (tl (sp_cmd sp)) \<and> (''API_TOKEN'', ''x'') \<notin> set (sp_env sp)"
proof -
  let ?os = "\<lparr>os_fs = [([''s''], Directory)], os_cwd = [], os_sandbox_env = None, sandbox_override = Some [''s'']\<rparr>"
  let ?run = "run_cli_command quiet_cli [(''API_TOKEN'', ''x''), (''PATH'', ''/bin'')] ''claude'' [''-p''] 5 ?os"
  have "length (snd (snd ?run)) = 1" by code_simp
  then obtain sp where "snd (snd ?run) = [sp]" by (auto simp: length_Suc_conv)
  then obtain r os' where run: "?run = (r, os', [sp])" by (cases ?run) auto
  have "is_sensitive_key ''API_TOKEN''" by code_simp
  with cli_process_confined [OF run, of sp] run show ?thesis by fastforce
qed

theorem last_payload_wins_witness:
  "\<exists>e. extract_claude_event_payload (\<lambda>_. Some (PDict [])) e = Inr (Some [])"
proof -
  let ?lib = "quiet_cli\<lparr>cb_loads := (\<lambda>_. Some (PDict []))\<rparr>"
  have "\<exists>p. parse_claude_stream_json ?lib [] ''x'' = Inr p \<and> p = []"
    by (simp add: parse_claude_stream_json_def quiet_cli_def stream_events_def extract_claude_event_payload_def or_none_def
        strip_def lstrip_with_def py_isspace_def List.map_filter_def line_break_def)
  then have "parse_claude_stream_json ?lib [] ''x'' = Inr []" by blast
  from this [unfolded last_payload_wins] show ?thesis by auto
qed

theorem cut_secret_is_shown_witness:
  "redact_secrets_in_text [(''API_TOKEN'', ''abcdefgh'')] (last_chars 500 (''abcdefgh'' @ replicate 494 CHR ''x'')) =
     ''cdefgh'' @ replicate 494 CHR ''x''"
proof -
  have "is_sensitive_key ''API_TOKEN''" by code_simp
  then show ?thesis by (rule cut_secret_is_shown) auto
qed

end
