(* ===== verification/Run_Executor.thy ===== *)
theory Run_Executor
  imports Events Policy
begin

text \<open>
  \<open>agent_os/server/run_executor.py\<close>: one execution of a run.

  \<^item> The graph and everything it drives (LangGraph, the models, the tools, the sandbox and the
    checkpointer) is a \<open>graph_run\<close>: the stream events it produced, its effect on the policy state,
    and how it ended, with a snapshot, an exception or the cancellation of the task.
  \<^item> \<open>exec_world\<close> is the state the executor touches: the ledger, the session grants, what the event
    sinks act on, the captured observations and the clock, whose readings are a sequence.
  \<^item> \<open>execute_run\<close> is \<open>start_run\<close>, the stream, and \<open>conclude_run\<close>, with the session cleanup of its
    \<open>finally\<close> clause. \<open>json.loads\<close>, the observation store and the task digest are parameters.
  \<^item> The theorems: an execution always ends the run or leaves it interrupted, with the event that
    says so; session grants outlive only an interrupt; and the unconditional status write at the
    end overrides a cancellation that happened meanwhile.
\<close>

section \<open>Stream events and results\<close>

record stream_event =
  stream_type :: pyval
  stream_name :: pyval
  stream_content :: "pyval option"

datatype stream_item = NotADict | StreamEvent stream_event

definition is_node_event :: "pyval \<Rightarrow> pyval \<Rightarrow> bool" where
  "is_node_event event_type name =
     (event_type \<in> {PStr ''on_chain_start'', PStr ''on_chain_end''} \<and> is_str name \<and>
      name \<notin> {PStr ''LangGraph'', PStr ''__start__''})"

definition append_stream_event :: "datetime \<Rightarrow> string \<Rightarrow> stream_item \<Rightarrow> ledger \<Rightarrow> ledger" where
  "append_stream_event now rid item l =
     (case item of
        NotADict \<Rightarrow> l
      | StreamEvent e \<Rightarrow>
          if is_node_event (stream_type e) (stream_name e)
          then snd (append_event now rid ''node''
                 [(''name'', stream_name e), (''event'', stream_type e)] l)
          else if stream_type e = PStr ''on_chat_model_stream''
          then (case stream_content e of
                  None \<Rightarrow> l
                | Some c \<Rightarrow> if truthy c
                            then snd (append_event now rid ''token'' [(''content'', c)] l) else l)
          else l)"

text \<open>A snapshot: its values, where models stand for the dictionaries they are dumped to, and the
  interrupts of each pending task.\<close>

record snapshot =
  snap_values :: pyval
  snap_interrupts :: "pyval list list"

fun pending_interrupt_in :: "pyval list list \<Rightarrow> pyval option" where
  "pending_interrupt_in [] = None"
| "pending_interrupt_in ([] # ts) = pending_interrupt_in ts"
| "pending_interrupt_in ((v # vs) # ts) = (if v = PNone then None else Some v)"

definition pending_interrupt :: "snapshot \<Rightarrow> pyval option" where
  "pending_interrupt s = pending_interrupt_in (snap_interrupts s)"

fun as_dict_value :: "pyval option \<Rightarrow> pydict option" where
  "as_dict_value (Some (PDict d)) = Some d"
| "as_dict_value _ = None"

definition result_payload :: "snapshot \<Rightarrow> pydict" where
  "result_payload s =
     (case snap_values s of
        PDict values \<Rightarrow>
          (case as_dict_value (dict_get values ''tool_result'') of
             Some d \<Rightarrow> [(''tool_result'', PDict d)] | None \<Rightarrow> []) @
          (case as_dict_value (dict_get values ''executor_output'') of
             Some d \<Rightarrow> (case as_dict_value (dict_get d ''self_check'') of
                          Some c \<Rightarrow> [(''self_check'', PDict c)] | None \<Rightarrow> [])
           | None \<Rightarrow> [])
      | _ \<Rightarrow> [])"

definition get_or :: "pydict \<Rightarrow> string \<Rightarrow> string \<Rightarrow> string" where
  "get_or d k dflt =
     (case dict_get d k of None \<Rightarrow> dflt | Some v \<Rightarrow> if truthy v then py_str v else dflt)"

definition failure_errors :: "pyval option \<Rightarrow> string list" where
  "failure_errors v =
     (case v of Some (PList xs) \<Rightarrow> filter (\<lambda>s. strip s \<noteq> []) (map py_str xs) | _ \<Rightarrow> [])"

definition terminal_tool_failure ::
  "(string \<Rightarrow> pyval option) \<Rightarrow> snapshot \<Rightarrow> (string \<times> string) option" where
  "terminal_tool_failure json_loads s =
     (case as_dict_value (dict_get (result_payload s) ''tool_result'') of
        None \<Rightarrow> None
      | Some result \<Rightarrow>
          if dict_get result ''success'' \<noteq> Some (PBool False) then None
          else
            (let tool = get_or result ''tool'' ''tool'';
                 (stat, errors) =
                   (case dict_get result ''output'' of
                      Some (PStr raw) \<Rightarrow>
                        (let parsed = as_dict_value (json_loads raw);
                             st = (case parsed of
                                     None \<Rightarrow> ''error''
                                   | Some d \<Rightarrow> if dict_get d ''status'' = Some (PStr ''cancelled'')
                                               then ''cancelled'' else ''error'');
                             errs = (case parsed of
                                       None \<Rightarrow> [] | Some d \<Rightarrow> failure_errors (dict_get d ''errors''))
                         in (st, if errs = [] \<and> strip raw \<noteq> [] then [raw] else errs))
                    | _ \<Rightarrow> (''error'', []));
                 joined = join ''; '' errors
             in Some (stat, if joined = [] then tool @ '' did not complete successfully'' else joined)))"

section \<open>The world of an execution\<close>

record observation =
  obs_run_id :: string
  obs_thread_id :: string
  obs_task_kind :: string
  obs_task_signature :: "string option"
  obs_approach :: string
  obs_outcome_signal :: string
  obs_outcome_evidence :: string
  obs_source :: string

record ('s, 'o) exec_world =
  w_ledger :: ledger
  w_policy :: "'s policy_world"
  w_outside :: 'o
  w_observations :: "observation list"
  w_clock :: "nat \<Rightarrow> datetime"

record 'o exec_lib =
  json_loads :: "string \<Rightarrow> pyval option"
  event_sinks :: "'o sink list"
  observation_store_ok :: bool
  task_signature :: "string option \<Rightarrow> string option"

text \<open>A ledger call reads the clock once.\<close>

definition stamped ::
  "(datetime \<Rightarrow> ledger \<Rightarrow> ledger) \<Rightarrow> ('s, 'o) exec_world \<Rightarrow> ('s, 'o) exec_world" where
  "stamped f w =
     w\<lparr>w_ledger := f (w_clock w 0) (w_ledger w), w_clock := (\<lambda>n. w_clock w (Suc n))\<rparr>"

definition log_event ::
  "string \<Rightarrow> string \<Rightarrow> pydict \<Rightarrow> ('s, 'o) exec_world \<Rightarrow> ('s, 'o) exec_world" where
  "log_event rid kind payload = stamped (\<lambda>now l. snd (append_event now rid kind payload l))"

definition put ::
  "string \<Rightarrow> string \<Rightarrow> string option \<Rightarrow> bool \<Rightarrow> ('s, 'o) exec_world \<Rightarrow> ('s, 'o) exec_world" where
  "put rid stat err ended = stamped (\<lambda>now l. set_status now rid stat err ended l)"

definition workspace_label :: "run_row \<Rightarrow> string" where
  "workspace_label r = or_str (run_workspace_id r) (or_str (run_workspace r) ''default'')"

definition emit ::
  "'o exec_lib \<Rightarrow> string \<Rightarrow> string \<Rightarrow> run_row \<Rightarrow> string \<Rightarrow> ('s, 'o) exec_world \<Rightarrow> ('s, 'o) exec_world" where
  "emit lib event_type stat run thread w =
     (case emit_run_lifecycle_event (event_sinks lib) (w_clock w 0) event_type (run_id run)
             (workspace_label run) stat None (Some run) (Some thread) (w_outside w) of
        Inl _ \<Rightarrow> w
      | Inr out \<Rightarrow> w\<lparr>w_outside := out, w_clock := (\<lambda>n. w_clock w (Suc n))\<rparr>)"

definition capture_terminal_observation ::
  "'o exec_lib \<Rightarrow> run_row \<Rightarrow> snapshot option \<Rightarrow> string \<Rightarrow> ('s, 'o) exec_world \<Rightarrow> ('s, 'o) exec_world" where
  "capture_terminal_observation lib run snap terminal_status w =
     (let result = (case snap of
                      None \<Rightarrow> None
                    | Some s \<Rightarrow> as_dict_value (dict_get (result_payload s) ''tool_result''));
          tool = (case result of None \<Rightarrow> PNone
                  | Some d \<Rightarrow> (case dict_get d ''tool'' of None \<Rightarrow> PNone | Some v \<Rightarrow> v));
          hint = (case snap of
                    None \<Rightarrow> None
                  | Some s \<Rightarrow> (case snap_values s of
                                 PDict values \<Rightarrow> as_dict_value (dict_get values ''strategy_hint'')
                               | _ \<Rightarrow> None));
          strategy = (case hint of None \<Rightarrow> PNone
                      | Some d \<Rightarrow> (case dict_get d ''strategy_id'' of None \<Rightarrow> PNone | Some v \<Rightarrow> v));
          hint_kind = (case hint of None \<Rightarrow> PNone
                       | Some d \<Rightarrow> (case dict_get d ''task_kind'' of None \<Rightarrow> PNone | Some v \<Rightarrow> v));
          task_kind = (if truthy hint_kind then py_str hint_kind
                       else if truthy tool then py_str tool else ''workflow'');
          approach = (if truthy strategy then py_str strategy
                      else if truthy tool then ''native_tool:'' @ task_kind else ''graph_terminal'')
      in if \<not> observation_store_ok lib then w
         else w\<lparr>w_observations := w_observations w @
           [\<lparr>obs_run_id = run_id run, obs_thread_id = thread_id run, obs_task_kind = task_kind,
             obs_task_signature = task_signature lib (run_task run), obs_approach = approach,
             obs_outcome_signal = ''unknown'',
             obs_outcome_evidence = ''terminal_status='' @ terminal_status,
             obs_source = ''server.run''\<rparr>]\<rparr>)"

section \<open>Executing a run\<close>

datatype graph_end = Finished snapshot | Raised string | TaskCancelled

record 's graph_run =
  graph_stream :: "stream_item list"
  graph_policy :: "'s policy_world \<Rightarrow> 's policy_world"
  graph_ended :: graph_end

datatype exec_end = Returned | Reraised

definition start_run :: "string \<Rightarrow> ('s, 'o) exec_world \<Rightarrow> ('s, 'o) exec_world" where
  "start_run rid = put rid ''running'' None False"

definition run_stream ::
  "string \<Rightarrow> stream_item list \<Rightarrow> ('s, 'o) exec_world \<Rightarrow> ('s, 'o) exec_world" where
  "run_stream rid items w =
     fold (\<lambda>item. stamped (\<lambda>now l. append_stream_event now rid item l)) items w"

definition conclude_finished ::
  "'o exec_lib \<Rightarrow> string \<Rightarrow> string \<Rightarrow> run_row \<Rightarrow> snapshot \<Rightarrow> ('s, 'o) exec_world \<Rightarrow> ('s, 'o) exec_world" where
  "conclude_finished lib rid thread run snap w =
     (case pending_interrupt snap of
        Some prompt \<Rightarrow>
          emit lib ''run.interrupted'' ''interrupted'' run thread
            (put rid ''interrupted'' None False
              (log_event rid ''interrupt'' [(''prompt'', PStr (py_str prompt))] w))
      | None \<Rightarrow>
          (let w1 = log_event rid ''result'' (result_payload snap) w
           in case terminal_tool_failure (json_loads lib) snap of
                None \<Rightarrow>
                  capture_terminal_observation lib run (Some snap) ''completed''
                    (emit lib ''run.completed'' ''completed'' run thread
                      (put rid ''completed'' None True w1))
              | Some (stat, message) \<Rightarrow>
                  emit lib (if stat = ''cancelled'' then ''run.cancelled'' else ''run.failed'')
                    stat run thread (put rid stat (Some message) True w1)))"

definition conclude_cancelled ::
  "'o exec_lib \<Rightarrow> string \<Rightarrow> string \<Rightarrow> ('s, 'o) exec_world \<Rightarrow> ('s, 'o) exec_world" where
  "conclude_cancelled lib rid thread w =
     (case get_run rid (w_ledger w) of
        None \<Rightarrow> w
      | Some run \<Rightarrow>
          if run_status run \<in> set TERMINAL_RUN_STATUSES then w
          else emit lib ''run.cancelled'' ''cancelled'' run thread
                 (log_event rid ''status'' [(''status'', PStr ''cancelled'')]
                   (put rid ''cancelled'' None True w)))"

definition conclude_raised ::
  "'o exec_lib \<Rightarrow> string \<Rightarrow> string \<Rightarrow> string \<Rightarrow> ('s, 'o) exec_world \<Rightarrow> ('s, 'o) exec_world" where
  "conclude_raised lib rid thread message w =
     (let w1 = put rid ''error'' (Some message) True
                 (log_event rid ''error'' [(''message'', PStr message)] w)
      in case get_run rid (w_ledger w1) of
           None \<Rightarrow> w1
         | Some run \<Rightarrow>
             capture_terminal_observation lib run None ''error''
               (emit lib ''run.failed'' ''error'' run thread w1))"

definition conclude_run ::
  "'o exec_lib \<Rightarrow> string \<Rightarrow> string \<Rightarrow> run_row \<Rightarrow> graph_end \<Rightarrow> ('s, 'o) exec_world
     \<Rightarrow> exec_end \<times> ('s, 'o) exec_world" where
  "conclude_run lib rid thread run ending w =
     (case ending of
        Finished snap \<Rightarrow> (Returned, conclude_finished lib rid thread run snap w)
      | Raised message \<Rightarrow> (Returned, conclude_raised lib rid thread message w)
      | TaskCancelled \<Rightarrow> (Reraised, conclude_cancelled lib rid thread w))"

definition preserves_session :: "graph_end \<Rightarrow> bool" where
  "preserves_session ending =
     (case ending of Finished snap \<Rightarrow> pending_interrupt snap \<noteq> None | _ \<Rightarrow> False)"

definition cleanup ::
  "string \<Rightarrow> bool \<Rightarrow> ('s, 'o) exec_world \<Rightarrow> ('s, 'o) exec_world" where
  "cleanup rid preserve w = (if preserve then w else w\<lparr>w_policy := clear_session rid (w_policy w)\<rparr>)"

definition execute_run ::
  "'o exec_lib \<Rightarrow> string \<Rightarrow> string \<Rightarrow> 's graph_run \<Rightarrow> ('s, 'o) exec_world
     \<Rightarrow> exec_end \<times> ('s, 'o) exec_world" where
  "execute_run lib rid thread g w =
     (case get_run rid (w_ledger w) of
        None \<Rightarrow>
          (Returned, cleanup rid False
             (conclude_raised lib rid thread (''Run '' @ rid @ '' does not exist'') w))
      | Some run \<Rightarrow>
          (let w1 = run_stream rid (graph_stream g) (start_run rid w);
               w2 = w1\<lparr>w_policy := graph_policy g (w_policy w1)\<rparr>;
               (how, w3) = conclude_run lib rid thread run (graph_ended g) w2
           in (how, cleanup rid (preserves_session (graph_ended g)) w3)))"

section \<open>Frames\<close>

lemma emit_frame [simp]:
  "w_ledger (emit lib ev st run th w) = w_ledger w" "w_policy (emit lib ev st run th w) = w_policy w"
  "w_observations (emit lib ev st run th w) = w_observations w"
  by (simp_all add: emit_def split: sum.splits)

lemma capture_frame [simp]:
  "w_ledger (capture_terminal_observation lib run s st w) = w_ledger w"
  "w_policy (capture_terminal_observation lib run s st w) = w_policy w"
  by (simp_all add: capture_terminal_observation_def Let_def)

lemma log_event_runs [simp]:
  "runs_table (w_ledger (log_event rid k p w)) = runs_table (w_ledger w)"
  "w_policy (log_event rid k p w) = w_policy w"
  by (simp_all add: log_event_def stamped_def append_event_def Let_def)

lemma put_frame [simp]:
  "run_events (w_ledger (put rid st e d w)) = run_events (w_ledger w)"
  "run_approvals (w_ledger (put rid st e d w)) = run_approvals (w_ledger w)"
  "w_policy (put rid st e d w) = w_policy w"
  by (simp_all add: put_def stamped_def set_status_def)

lemma run_stream_frame [simp]:
  "runs_table (w_ledger (run_stream rid items w)) = runs_table (w_ledger w)"
  "w_policy (run_stream rid items w) = w_policy w"
proof -
  have "runs_table (append_stream_event now rid item l) = runs_table l" for now item l
    by (auto simp: append_stream_event_def append_event_def Let_def split: stream_item.splits option.splits)
  then show "runs_table (w_ledger (run_stream rid items w)) = runs_table (w_ledger w)"
    "w_policy (run_stream rid items w) = w_policy w"
    unfolding run_stream_def by (induction items arbitrary: w) (simp_all add: stamped_def)
qed

text \<open>What a status write shows: the run with its new status and error, ended when it said so.\<close>

lemma get_run_put:
  "get_run rid (w_ledger (put rid st e d w)) =
     map_option (put_status (w_clock w 0) st e d) (get_run rid (w_ledger w))"
proof (cases "lookup run_id rid (runs_table (w_ledger w))")
  case (Some r)
  then have "run_id r = rid" using lookup_Some_in by fastforce
  with Some show ?thesis
    by (simp add: put_def stamped_def set_status_def get_run_def lookup_update_where)
qed (simp add: put_def stamped_def set_status_def get_run_def lookup_update_where)

lemma get_run_runs: "runs_table l = runs_table l' \<Longrightarrow> get_run rid l = get_run rid l'"
  by (simp add: get_run_def)

lemma status_put:
  "status_of rid (w_ledger (put rid st e d w)) =
     (if get_run rid (w_ledger w) = None then None else Some st)"
  by (cases "get_run rid (w_ledger w)") (simp_all add: status_of_def get_run_put)

section \<open>How an execution ends\<close>

text \<open>The status an execution writes last.\<close>

definition final_status :: "(string \<Rightarrow> pyval option) \<Rightarrow> graph_end \<Rightarrow> string" where
  "final_status jl ending =
     (case ending of
        Finished snap \<Rightarrow>
          if pending_interrupt snap \<noteq> None then ''interrupted''
          else (case terminal_tool_failure jl snap of None \<Rightarrow> ''completed'' | Some (st, _) \<Rightarrow> st)
      | Raised _ \<Rightarrow> ''error''
      | TaskCancelled \<Rightarrow> ''cancelled'')"

lemma join_Nil_iff: "join sep xs = [] \<Longrightarrow> list_all (\<lambda>x. x \<noteq> []) xs \<Longrightarrow> xs = []"
  by (induction sep xs rule: join.induct) auto

lemma terminal_failure_status:
  "terminal_tool_failure jl snap = Some (st, msg) \<Longrightarrow> st \<in> {''error'', ''cancelled''} \<and> msg \<noteq> []"
  by (auto simp: terminal_tool_failure_def Let_def split: option.splits if_splits pyval.splits)

lemma conclude_status:
  assumes "get_run rid (w_ledger w) \<noteq> None"
    and "\<And>r. ending = TaskCancelled \<Longrightarrow> get_run rid (w_ledger w) = Some r \<Longrightarrow>
           run_status r \<notin> set TERMINAL_RUN_STATUSES"
  shows "status_of rid (w_ledger (snd (conclude_run lib rid th run ending w))) =
    Some (final_status (json_loads lib) ending)"
proof (cases ending)
  case (Finished snap)
  have log: "get_run rid (w_ledger (log_event rid k p w)) \<noteq> None" for k p
    using assms(1) get_run_runs [of "w_ledger (log_event rid k p w)" "w_ledger w"] by simp
  show ?thesis
  proof (cases "pending_interrupt snap")
    case (Some v)
    with Finished log show ?thesis
      by (simp add: conclude_run_def conclude_finished_def final_status_def status_put)
  next
    case None
    with Finished log show ?thesis
      by (cases "terminal_tool_failure (json_loads lib) snap")
         (auto simp: conclude_run_def conclude_finished_def final_status_def status_put Let_def)
  qed
next
  case (Raised m)
  have "get_run rid (w_ledger (log_event rid k p w)) \<noteq> None" for k p
    using assms(1) get_run_runs [of "w_ledger (log_event rid k p w)" "w_ledger w"] by simp
  then have st: "status_of rid (w_ledger (put rid ''error'' (Some m) True
      (log_event rid ''error'' [(''message'', PStr m)] w))) = Some ''error''"
    by (simp add: status_put)
  with Raised show ?thesis
    by (auto simp: conclude_run_def conclude_raised_def final_status_def Let_def split: option.splits)
next
  case TaskCancelled
  from assms(1) obtain r where r: "get_run rid (w_ledger w) = Some r" by blast
  have "get_run rid (w_ledger (log_event rid k p (put rid st e d w))) =
      get_run rid (w_ledger (put rid st e d w))" for k p st e d
    by (rule get_run_runs) simp
  with TaskCancelled r assms(2) [OF TaskCancelled r] show ?thesis
    by (simp add: conclude_run_def conclude_cancelled_def final_status_def status_of_def get_run_put)
qed


text \<open>Session grants outlive only an interrupt. After an execution the run has no session grant
  left unless the graph stopped at an interrupt, also when it raised, was cancelled or the run did
  not exist; grants of other sessions are what the graph left.\<close>

theorem execute_run_clears_session:
  assumes "execute_run lib rid th g w = (how, w')"
    and "\<not> (get_run rid (w_ledger w) \<noteq> None \<and> preserves_session (graph_ended g))"
  shows "session_approved (w_policy w') rid = None \<and>
         (other \<noteq> rid \<longrightarrow> session_approved (w_policy w') other =
            (if get_run rid (w_ledger w) = None then session_approved (w_policy w) other
             else session_approved (graph_policy g (w_policy w)) other))"
proof -
  have c: "w_policy (snd (conclude_run lib rid th run e v)) = w_policy v" for run e v
    by (auto simp: conclude_run_def conclude_finished_def conclude_raised_def conclude_cancelled_def
        Let_def split: graph_end.splits option.splits)
  have r: "w_policy (conclude_raised lib rid th m v) = w_policy v" for m v
    by (auto simp: conclude_raised_def Let_def split: option.splits)
  show ?thesis
  proof (cases "get_run rid (w_ledger w)")
    case None
    with assms(1) have "w_policy w' = clear_session rid (w_policy w)"
      by (auto simp: execute_run_def cleanup_def r)
    with None show ?thesis by (simp add: clear_session_def)
  next
    case (Some run)
    with assms have "w_policy w' = clear_session rid (graph_policy g (w_policy w))"
      by (auto simp: execute_run_def cleanup_def c Let_def case_prod_beta start_run_def)
    with Some show ?thesis by (simp add: clear_session_def)
  qed
qed

text \<open>A cancellation of a run whose task is not cancelled with it does not last. The status
  write at the end of an execution is unconditional, so when a running run is cancelled in the
  ledger, the audit record written and \<open>True\<close> returned, and its graph then finishes normally, the
  run ends as \<open>completed\<close>.\<close>

theorem cancellation_overwritten:
  assumes "ledger_inv (w_ledger w)" "status_of rid (w_ledger w) = Some ''running''"
    and "pending_interrupt snap = None" "terminal_tool_failure (json_loads lib) snap = None"
    and "record_cancellation_and_transition now rid a (w_ledger w) = (ok, l')"
  shows "ok \<and> status_of rid l' = Some ''cancelled'' \<and>
         status_of rid (w_ledger (conclude_finished lib rid th run snap (w\<lparr>w_ledger := l'\<rparr>)))
           = Some ''completed''"
proof -
  have c: "ok" "status_of rid l' = Some ''cancelled''"
    using cancel_facts [OF assms(1,5)] assms(2) by (auto simp: TERMINAL_RUN_STATUSES_def)
  then have "get_run rid (w_ledger (log_event rid k p (w\<lparr>w_ledger := l'\<rparr>))) \<noteq> None" for k p
    using get_run_runs [of "w_ledger (log_event rid k p (w\<lparr>w_ledger := l'\<rparr>))" l' rid]
    by (auto simp: status_of_def)
  with c assms(3,4) show ?thesis by (simp add: conclude_finished_def status_put Let_def)
qed

section \<open>Samples\<close>

definition sample_lib :: "unit exec_lib" where
  "sample_lib = \<lparr>json_loads = (\<lambda>_. None), event_sinks = [], observation_store_ok = True,
     task_signature = (\<lambda>_. None)\<rparr>"

definition sample_exec :: "string \<Rightarrow> (unit, unit) exec_world" where
  "sample_exec st = \<lparr>w_ledger = sample_ledger st,
     w_policy = \<lparr>rule_store = (), session_approved = (\<lambda>s. if s = ''r'' then Some {''k''} else None)\<rparr>,
     w_outside = (), w_observations = [], w_clock = int\<rparr>"

definition sample_snapshot :: snapshot where
  "sample_snapshot = \<lparr>snap_values = PDict [(''tool_result'', PDict [(''success'', PBool True)])],
     snap_interrupts = [[]]\<rparr>"

definition sample_graph :: "unit graph_run" where
  "sample_graph = \<lparr>graph_stream = [NotADict], graph_policy = (\<lambda>w. w), graph_ended = Finished sample_snapshot\<rparr>"

lemma sample_get: "get_run ''r'' (w_ledger (sample_exec st)) = Some (sample_run st)"
  by (simp add: get_run_def sample_exec_def sample_ledger_def sample_run_def lookup_Cons)

lemma sample_snapshot_facts:
  "pending_interrupt sample_snapshot = None" "terminal_tool_failure jl sample_snapshot = None"
  by (simp_all add: pending_interrupt_def sample_snapshot_def terminal_tool_failure_def
      result_payload_def)


theorem execute_run_clears_session_witness:
  "\<exists>how w'. execute_run sample_lib ''r'' ''t'' sample_graph (sample_exec ''queued'') = (how, w') \<and>
     session_approved (w_policy (sample_exec ''queued'')) ''r'' = Some {''k''} \<and>
     session_approved (w_policy w') ''r'' = None"
proof -
  obtain how w' where e: "execute_run sample_lib ''r'' ''t'' sample_graph (sample_exec ''queued'') = (how, w')"
    by fastforce
  have "\<not> preserves_session (graph_ended sample_graph)"
    by (simp add: preserves_session_def sample_graph_def sample_snapshot_facts)
  with execute_run_clears_session [OF e] have "session_approved (w_policy w') ''r'' = None" by blast
  with e show ?thesis by (simp add: sample_exec_def)
qed

theorem cancellation_overwritten_witness:
  "\<exists>l'. record_cancellation_and_transition 3 ''r'' (sample_approval ''alice'')
          (sample_ledger ''running'') = (True, l') \<and>
        status_of ''r'' (w_ledger (conclude_finished sample_lib ''r'' ''t'' (sample_run ''running'')
          sample_snapshot ((sample_exec ''running'')\<lparr>w_ledger := l'\<rparr>))) = Some ''completed''"
proof -
  obtain ok l' where c: "record_cancellation_and_transition 3 ''r'' (sample_approval ''alice'')
      (w_ledger (sample_exec ''running'')) = (ok, l')" by fastforce
  have l: "w_ledger (sample_exec st) = sample_ledger st" for st by (simp add: sample_exec_def)
  from cancellation_overwritten [OF _ _ sample_snapshot_facts(1) sample_snapshot_facts(2) c,
      of sample_lib "''t''" "sample_run ''running''"]
  have ok "status_of ''r'' (w_ledger (conclude_finished sample_lib ''r'' ''t'' (sample_run ''running'')
          sample_snapshot ((sample_exec ''running'')\<lparr>w_ledger := l'\<rparr>))) = Some ''completed''"
    by (simp_all add: l sample_ledger_inv sample_status)
  with c l show ?thesis by auto
qed

end
