(* ===== verification/Scheduler.thy ===== *)
theory Scheduler
  imports Run_Executor
begin

text \<open>
  \<open>agent_os/scheduler.py\<close>: dispatching claimed schedules and the tick loop.

  \<^item> \<open>dispatch_schedule\<close> works on \<open>sched_world\<close>, the schedule table beside the world of an execution.
    What it calls outside the modelled part is the record \<open>dispatch_lib\<close>: the graph of a run, the
    brief (\<open>execute_brief\<close>) and the HTTP client, each with the ways it can end.
  \<^item> The JSON types of a payload are those \<open>ScheduleInput\<close> lets through: \<open>task\<close> and \<open>workspace\<close> are
    strings when present.
  \<^item> \<open>SchedulerService\<close> is the record \<open>service\<close> with \<open>tick\<close>, \<open>start\<close>, \<open>stop\<close> and the completion
    of a child task as steps of \<open>service_step\<close>; claims, toggles and removals by others interleave.
  \<^item> The theorems: a dispatch records what it returns and touches nothing else of the table, at most
    ten dispatches are in flight, and no occurrence of a schedule is ever claimed twice.
\<close>

section \<open>Dispatch\<close>

record dispatch_result =
  result_schedule_id :: string
  result_kind :: string
  result_status :: string
  result_run_id :: "string option"
  result_ref :: "string option"
  result_error :: "string option"

datatype brief_outcome =
    BriefDone bool "string option" "string option"
  | BriefRaised string
  | BriefCancelled

datatype http_outcome =
    HttpResponse int
  | HttpRaised string
  | HttpCancelled

record ('s, 'o) dispatch_lib =
  d_exec :: "'o exec_lib"
  d_graph :: "'s graph_run"
  d_thread_uuid :: string
  d_run_uuid :: string
  d_brief :: brief_outcome
  d_http :: "string \<Rightarrow> pyval \<Rightarrow> pyval \<Rightarrow> pyval \<Rightarrow> http_outcome"

record ('s, 'o) sched_world =
  s_exec :: "('s, 'o) exec_world"
  s_table :: sched_table

datatype dispatch_end = Dispatched dispatch_result | ShutDown

definition record_result ::
  "string \<Rightarrow> string \<Rightarrow> string option \<Rightarrow> ('s, 'o) sched_world \<Rightarrow> ('s, 'o) sched_world" where
  "record_result sid stat err w =
     w\<lparr>s_table := record_schedule_result (w_clock (s_exec w) 0) sid stat err (s_table w),
       s_exec := (s_exec w)\<lparr>w_clock := (\<lambda>n. w_clock (s_exec w) (Suc n))\<rparr>\<rparr>"

definition finish_dispatch ::
  "schedule \<Rightarrow> string \<Rightarrow> string option \<Rightarrow> string option \<Rightarrow> string option \<Rightarrow> ('s, 'o) sched_world
     \<Rightarrow> dispatch_end \<times> ('s, 'o) sched_world" where
  "finish_dispatch sch stat rid ref err w =
     (Dispatched \<lparr>result_schedule_id = schedule_id sch, result_kind = sched_kind sch,
        result_status = stat, result_run_id = rid, result_ref = ref, result_error = err\<rparr>,
      record_result (schedule_id sch) stat err w)"

definition shut_down ::
  "schedule \<Rightarrow> ('s, 'o) sched_world \<Rightarrow> dispatch_end \<times> ('s, 'o) sched_world" where
  "shut_down sch w = (ShutDown, record_result (schedule_id sch) ''error'' (Some ''Scheduler shutdown'') w)"

definition str_item :: "pydict \<Rightarrow> string \<Rightarrow> string option" where
  "str_item d k = (case dict_get d k of Some (PStr s) \<Rightarrow> Some s | _ \<Rightarrow> None)"

definition item_or_none :: "pydict \<Rightarrow> string \<Rightarrow> pyval" where
  "item_or_none d k = (case dict_get d k of None \<Rightarrow> PNone | Some v \<Rightarrow> v)"

definition schedule_run_args :: "schedule \<Rightarrow> principal \<Rightarrow> run_args" where
  "schedule_run_args sch p =
     \<lparr>run_arg_workspace = str_item (sched_payload sch) ''workspace'',
      run_arg_task = Some (case str_item (sched_payload sch) ''task'' of None \<Rightarrow> [] | Some t \<Rightarrow> t),
      run_arg_workspace_id = str_item (sched_payload sch) ''workspace'',
      run_arg_created_by = None, run_arg_created_by_kind = None, run_arg_principal = Some p\<rparr>"

definition dispatch_run ::
  "('s, 'o) dispatch_lib \<Rightarrow> schedule \<Rightarrow> ('s, 'o) sched_world \<Rightarrow> dispatch_end \<times> ('s, 'o) sched_world" where
  "dispatch_run lib sch w =
     (let x = s_exec w
      in case bind_result (schedule_principal (schedule_id sch)) (\<lambda>p.
                create_run (d_run_uuid lib) (w_clock x 0) (d_thread_uuid lib) (schedule_run_args sch p)
                  (w_ledger x)) of
           Inl e \<Rightarrow> finish_dispatch sch ''error'' None None (Some (exn_message e)) w
         | Inr (rid, l) \<Rightarrow>
             (let x1 = x\<lparr>w_ledger := l, w_clock := (\<lambda>n. w_clock x (Suc n))\<rparr>
              in case execute_run (d_exec lib) rid (d_thread_uuid lib) (d_graph lib) x1 of
                   (Reraised, x2) \<Rightarrow>
                     shut_down sch (w\<lparr>s_exec := put rid ''error'' (Some ''Scheduler shutdown'') True
                       (log_event rid ''error'' [(''message'', PStr ''Scheduler shutdown'')] x2)\<rparr>)
                 | (Returned, x2) \<Rightarrow>
                     (case get_run rid (w_ledger x2) of
                        None \<Rightarrow> finish_dispatch sch ''error'' (Some rid) None None (w\<lparr>s_exec := x2\<rparr>)
                      | Some run \<Rightarrow>
                          finish_dispatch sch (run_status run) (Some rid) None (run_error run)
                            (w\<lparr>s_exec := x2\<rparr>))))"

definition dispatch_brief ::
  "('s, 'o) dispatch_lib \<Rightarrow> schedule \<Rightarrow> ('s, 'o) sched_world \<Rightarrow> dispatch_end \<times> ('s, 'o) sched_world" where
  "dispatch_brief lib sch w =
     (case d_brief lib of
        BriefRaised m \<Rightarrow> finish_dispatch sch ''error'' None None (Some m) w
      | BriefCancelled \<Rightarrow> shut_down sch w
      | BriefDone saved err ref \<Rightarrow>
          if \<not> saved
          then finish_dispatch sch ''error'' None None
                 (Some (or_str err ''Brief write was not committed'')) w
          else finish_dispatch sch ''completed'' None ref None w)"

definition is_success :: "int \<Rightarrow> bool" where
  "is_success code = (200 \<le> code \<and> code \<le> 299)"

definition dispatch_callback ::
  "('s, 'o) dispatch_lib \<Rightarrow> schedule \<Rightarrow> ('s, 'o) sched_world \<Rightarrow> dispatch_end \<times> ('s, 'o) sched_world" where
  "dispatch_callback lib sch w =
     (let payload = sched_payload sch;
          url = (case dict_get payload ''url'' of None \<Rightarrow> PStr [] | Some v \<Rightarrow> v)
      in case (case dict_get payload ''method'' of None \<Rightarrow> PStr ''POST'' | Some v \<Rightarrow> v) of
           PStr m \<Rightarrow>
             if \<not> truthy url
             then finish_dispatch sch ''error'' None None
                    (Some ''kind=app_callback requires 'url' in payload'') w
             else (case d_http lib (py_upper m) url (item_or_none payload ''headers'')
                          (item_or_none payload ''body'') of
                     HttpCancelled \<Rightarrow> shut_down sch w
                   | HttpRaised t \<Rightarrow>
                       finish_dispatch sch ''error'' None None (Some (''HTTP request failed: '' @ t)) w
                   | HttpResponse code \<Rightarrow>
                       if is_success code
                       then finish_dispatch sch ''completed'' None (Some (int_str code)) None w
                       else finish_dispatch sch ''error'' None (Some (int_str code))
                              (Some (''HTTP '' @ int_str code)) w)
         | _ \<Rightarrow> finish_dispatch sch ''error'' None None (Some ''object has no attribute upper'') w)"

definition dispatch_schedule ::
  "('s, 'o) dispatch_lib \<Rightarrow> schedule \<Rightarrow> ('s, 'o) sched_world \<Rightarrow> dispatch_end \<times> ('s, 'o) sched_world" where
  "dispatch_schedule lib sch w =
     (if sched_kind sch = ''run'' then dispatch_run lib sch w
      else if sched_kind sch = ''brief'' then dispatch_brief lib sch w
      else if sched_kind sch = ''app_callback'' then dispatch_callback lib sch w
      else finish_dispatch sch ''error'' None None
             (Some (''Unknown schedule kind: '' @ sched_kind sch)) w)"

section \<open>The service\<close>

record service =
  svc_running :: bool
  svc_children :: "schedule list"
  svc_table :: sched_table

definition scheduler_enabled :: "environ \<Rightarrow> bool" where
  "scheduler_enabled env =
     (py_lower (getenv_or env ''AGENT_OS_SCHEDULER_ENABLED'' ''true'')
        \<in> {''true'', ''1'', ''yes'', ''on''})"

definition service_start :: "environ \<Rightarrow> service \<Rightarrow> service" where
  "service_start env s =
     (if svc_running s then s else if \<not> scheduler_enabled env then s else s\<lparr>svc_running := True\<rparr>)"

text \<open>\<open>stop\<close> ends the claiming; it then waits for the children, each of which leaves by a completion.\<close>

definition service_stop :: "service \<Rightarrow> service" where
  "service_stop s = s\<lparr>svc_running := False\<rparr>"

definition capacity :: "service \<Rightarrow> int" where
  "capacity s = max 0 (10 - int (length (svc_children s)))"

definition tick :: "cron_lib \<Rightarrow> datetime \<Rightarrow> service \<Rightarrow> service" where
  "tick lib now s =
     (if \<not> svc_running s then s
      else if capacity s \<le> 0 then s
      else (case claim_due_schedules lib now (capacity s) (svc_table s) of
              Inl _ \<Rightarrow> s
            | Inr (claimed, tbl) \<Rightarrow>
                s\<lparr>svc_children := svc_children s @ claimed, svc_table := tbl\<rparr>))"

definition child_done :: "nat \<Rightarrow> string \<Rightarrow> string option \<Rightarrow> datetime \<Rightarrow> service \<Rightarrow> service" where
  "child_done i stat err now s =
     (if i < length (svc_children s)
      then s\<lparr>svc_children := take i (svc_children s) @ drop (Suc i) (svc_children s),
             svc_table := record_schedule_result now (schedule_id (svc_children s ! i)) stat err
                            (svc_table s)\<rparr>
      else s)"

text \<open>One process's service among others that use the same table.\<close>

inductive service_step :: "cron_lib \<Rightarrow> url_lib \<Rightarrow> service \<Rightarrow> service \<Rightarrow> bool" for lib ulib where
  start_step: "service_step lib ulib s (service_start env s)"
| stop_step: "service_step lib ulib s (service_stop s)"
| tick_step: "service_step lib ulib s (tick lib now s)"
| child_step: "service_step lib ulib s (child_done i stat err now s)"
| table_step: "service_step lib ulib s (s\<lparr>svc_table := sched_exec lib ulib opn (svc_table s)\<rparr>)"

inductive service_reachable :: "cron_lib \<Rightarrow> url_lib \<Rightarrow> service \<Rightarrow> bool" for lib ulib where
  service_init: "service_reachable lib ulib \<lparr>svc_running = False, svc_children = [], svc_table = []\<rparr>"
| service_next: "service_reachable lib ulib s \<Longrightarrow> service_step lib ulib s s' \<Longrightarrow> service_reachable lib ulib s'"

section \<open>A dispatch records its result\<close>

text \<open>What the table shows after a dispatch that ended with \<open>stat\<close> and \<open>err\<close>.\<close>

definition recorded ::
  "string \<Rightarrow> string \<Rightarrow> string option \<Rightarrow> sched_table \<Rightarrow> sched_table \<Rightarrow> bool" where
  "recorded sid stat err tbl tbl' =
     (\<exists>t. tbl' = record_schedule_result t sid stat err tbl)"

lemma finish_dispatch_recorded:
  "finish_dispatch sch stat rid ref err w = (Dispatched r, w') \<Longrightarrow>
   recorded (schedule_id sch) (result_status r) (result_error r) (s_table w) (s_table w')"
  by (auto simp: finish_dispatch_def record_result_def recorded_def)

lemma finish_not_shut [simp]: "finish_dispatch sch stat rid ref err w \<noteq> (ShutDown, w')"
  by (simp add: finish_dispatch_def)

lemma shut_down_eq [simp]: "shut_down sch w \<noteq> (Dispatched r, w')"
  by (simp add: shut_down_def)

lemma shut_down_recorded:
  "shut_down sch w = (ShutDown, w') \<Longrightarrow>
   recorded (schedule_id sch) ''error'' (Some ''Scheduler shutdown'') (s_table w) (s_table w')"
  by (auto simp: shut_down_def record_result_def recorded_def)

fun end_status :: "dispatch_end \<Rightarrow> string" where
  "end_status (Dispatched r) = result_status r"
| "end_status ShutDown = ''error''"

fun end_error :: "dispatch_end \<Rightarrow> string option" where
  "end_error (Dispatched r) = result_error r"
| "end_error ShutDown = Some ''Scheduler shutdown''"

lemma finish_end:
  "finish_dispatch sch stat rid ref err w = (e, w') \<Longrightarrow>
   recorded (schedule_id sch) (end_status e) (end_error e) (s_table w) (s_table w')"
  by (auto simp: finish_dispatch_def record_result_def recorded_def)

lemma shut_end:
  "shut_down sch w = (e, w') \<Longrightarrow>
   recorded (schedule_id sch) (end_status e) (end_error e) (s_table w) (s_table w')"
  by (auto simp: shut_down_def record_result_def recorded_def)

lemma dispatch_recorded:
  assumes "dispatch_schedule lib sch w = (e, w')"
  shows "recorded (schedule_id sch) (end_status e) (end_error e) (s_table w) (s_table w')"
proof -
  have brief: "recorded (schedule_id sch) (end_status e) (end_error e) (s_table w) (s_table w')"
    if "dispatch_brief lib sch w = (e, w')"
    using that finish_end shut_end unfolding dispatch_brief_def
    by (cases "d_brief lib") (auto split: if_splits)
  have callback: "recorded (schedule_id sch) (end_status e) (end_error e) (s_table w) (s_table w')"
    if "dispatch_callback lib sch w = (e, w')"
    using that finish_end shut_end unfolding dispatch_callback_def Let_def
    by (auto split: pyval.splits http_outcome.splits if_splits)
  have exec1: "recorded (schedule_id sch) (end_status e) (end_error e) (s_table w) (s_table w')"
    if "finish_dispatch sch st rid ref err (w\<lparr>s_exec := x\<rparr>) = (e, w')" for st rid ref err x
    using finish_end [OF that] by simp
  have exec2: "recorded (schedule_id sch) (end_status e) (end_error e) (s_table w) (s_table w')"
    if "shut_down sch (w\<lparr>s_exec := x\<rparr>) = (e, w')" for x
    using shut_end [OF that] by simp
  have run: "recorded (schedule_id sch) (end_status e) (end_error e) (s_table w) (s_table w')"
    if "dispatch_run lib sch w = (e, w')"
    using that unfolding dispatch_run_def Let_def
    by (auto split: sum.splits exec_end.splits option.splits prod.splits
        simp del: bind_result_Inr_iff dest: exec1 exec2 finish_end)
  show ?thesis
    using assms brief callback run finish_end unfolding dispatch_schedule_def
    by (auto split: if_splits)
qed

text \<open>A dispatch records exactly what it reports and nothing else. Whatever happens inside it,
  the schedule's \<open>last_status\<close> and \<open>last_error\<close> become the status and error it returns, or
  \<open>error\<close> and the shutdown message when it is cancelled; its recurrence and its enabled flag stay as
  they were, so a failed dispatch waits for the next occurrence, and other schedules are untouched.\<close>

theorem dispatch_records_result:
  assumes "dispatch_schedule lib sch w = (e, w')"
    and "lookup schedule_id (schedule_id sch) (s_table w) = Some row"
  shows "\<exists>row'. lookup schedule_id (schedule_id sch) (s_table w') = Some row' \<and>
           sched_last_status row' = Some (end_status e) \<and> sched_last_error row' = end_error e \<and>
           sched_next_run_at row' = sched_next_run_at row \<and>
           sched_enabled row' = sched_enabled row \<and> sched_last_run_at row' = sched_last_run_at row \<and>
           (\<forall>other. other \<noteq> schedule_id sch \<longrightarrow>
              lookup schedule_id other (s_table w') = lookup schedule_id other (s_table w))"
proof -
  from dispatch_recorded [OF assms(1)] obtain t where
    t: "s_table w' = record_schedule_result t (schedule_id sch) (end_status e) (end_error e) (s_table w)"
    by (auto simp: recorded_def)
  have id: "schedule_id row = schedule_id sch" using assms(2) lookup_Some_in by fastforce
  have look: "lookup schedule_id k (s_table w') = map_option (\<lambda>r. if schedule_id r = schedule_id sch
      then r\<lparr>sched_last_status := Some (end_status e), sched_last_error := end_error e,
             sched_updated_at := isoformat t\<rparr> else r) (lookup schedule_id k (s_table w))" for k
    unfolding t record_schedule_result_def by (rule lookup_update_where) simp
  have other: "lookup schedule_id k (s_table w') = lookup schedule_id k (s_table w)"
    if "k \<noteq> schedule_id sch" for k
  proof (cases "lookup schedule_id k (s_table w)")
    case (Some r)
    then have "schedule_id r = k" using lookup_Some_in by fastforce
    with Some that show ?thesis unfolding look by simp
  qed (simp add: look)
  define row' where "row' = row\<lparr>sched_last_status := Some (end_status e),
      sched_last_error := end_error e, sched_updated_at := isoformat t\<rparr>"
  have "lookup schedule_id (schedule_id sch) (s_table w') = Some row'"
    unfolding look assms(2) using id by (simp add: row'_def)
  with other show ?thesis by (intro exI [of _ row']) (simp add: row'_def)
qed

section \<open>At most ten in flight\<close>

lemma tick_capacity:
  assumes "cron_contract lib" "sched_inv (svc_table s)" "length (svc_children s) \<le> 10"
  shows "length (svc_children (tick lib now s)) \<le> 10"
proof (cases "svc_running s \<and> capacity s > 0")
  case True
  then have cap: "capacity s = int (10 - length (svc_children s))"
    using assms(3) by (simp add: capacity_def)
  show ?thesis
  proof (cases "claim_due_schedules lib now (capacity s) (svc_table s)")
    case (Inr x)
    obtain cl tbl where x: "x = (cl, tbl)" by (cases x)
    have "length cl \<le> 10 - length (svc_children s)"
      using claim_count [OF assms(1,2), of now "10 - length (svc_children s)" cl tbl] Inr
      by (simp add: cap x)
    with True Inr assms(3) show ?thesis by (simp add: tick_def x)
  qed (use True assms(3) in \<open>simp add: tick_def\<close>)
qed (use assms(3) in \<open>auto simp: tick_def\<close>)

lemma service_invariant:
  assumes "cron_contract lib" "service_reachable lib ulib s"
  shows "length (svc_children s) \<le> 10 \<and> sched_inv (svc_table s)"
  using assms(2)
proof (induction rule: service_reachable.induct)
  case service_init
  show ?case by (simp add: sched_inv_def)
next
  case (service_next s s')
  from service_next.hyps(2) show ?case
  proof cases
    case (tick_step now)
    have "sched_inv (svc_table (tick lib now s))"
      using service_next.IH claim_keeps_inv [OF assms(1)]
      by (auto simp: tick_def split: sum.splits)
    with tick_step service_next.IH tick_capacity [OF assms(1)] show ?thesis by simp
  next
    case (child_step i stat err now)
    have "sched_inv (record_schedule_result now sid stat err (svc_table s))" for sid
      using sched_exec_inv [OF assms(1), of "svc_table s" ulib "OpRecord now sid stat err"]
        service_next.IH by simp
    with child_step service_next.IH show ?thesis by (auto simp: child_done_def)
  next
    case (table_step opn)
    with service_next.IH sched_exec_inv [OF assms(1)] show ?thesis by simp
  qed (use service_next.IH in \<open>auto simp: service_start_def service_stop_def\<close>)
qed

text \<open>At most ten dispatches of a service are in flight at any time, over all interleavings of
  ticks, completions, restarts and operations of other processes on the table.\<close>

theorem at_most_ten_in_flight:
  assumes "cron_contract lib" "service_reachable lib ulib s"
  shows "length (svc_children s) \<le> 10"
  using service_invariant [OF assms] by blast

section \<open>No occurrence is claimed twice\<close>

text \<open>A history with the ids ever handed out and the occurrences ever claimed. \<open>uuid4\<close> never repeats
  an id.\<close>

definition claim_log :: "schedule list \<Rightarrow> (string \<times> string) list" where
  "claim_log claimed = map (\<lambda>s. (schedule_id s, sched_next_run_at s)) claimed"

fun is_create_or_claim :: "sched_op \<Rightarrow> bool" where
  "is_create_or_claim (OpCreate _ _ _) = True"
| "is_create_or_claim (OpClaim _ _) = True"
| "is_create_or_claim _ = False"

inductive history ::
  "cron_lib \<Rightarrow> url_lib \<Rightarrow> string set \<Rightarrow> (string \<times> string) list \<Rightarrow> sched_table \<Rightarrow> bool" for lib ulib where
  history_init: "history lib ulib {} [] []"
| history_create: "history lib ulib used log tbl \<Longrightarrow> uuid \<notin> used \<Longrightarrow>
    history lib ulib (insert uuid used) log (sched_exec lib ulib (OpCreate uuid now a) tbl)"
| history_claim: "history lib ulib used log tbl \<Longrightarrow> in_range now \<Longrightarrow>
    claim_due_schedules lib now limit tbl = Inr (claimed, tbl') \<Longrightarrow>
    history lib ulib used (log @ claim_log claimed) tbl'"
| history_other: "history lib ulib used log tbl \<Longrightarrow> \<not> is_create_or_claim opn \<Longrightarrow>
    history lib ulib used log (sched_exec lib ulib opn tbl)"

definition claimed_before :: "(string \<times> string) list \<Rightarrow> int schedule_row \<Rightarrow> bool" where
  "claimed_before log r = (\<forall>t. (schedule_id r, t) \<in> set log \<longrightarrow> t < sched_next_run_at r)"

definition history_inv :: "string set \<Rightarrow> (string \<times> string) list \<Rightarrow> sched_table \<Rightarrow> bool" where
  "history_inv used log tbl =
     (sched_inv tbl \<and> schedule_id ` set tbl \<subseteq> used \<and> fst ` set log \<subseteq> used \<and> distinct log \<and>
      (\<forall>r\<in>set tbl. claimed_before log r))"

lemma claim_log_fst [simp]: "fst ` set (claim_log claimed) = schedule_id ` set claimed"
  by (force simp: claim_log_def image_iff)

lemma sched_inv_inj:
  "sched_inv tbl \<Longrightarrow> r \<in> set tbl \<Longrightarrow> q \<in> set tbl \<Longrightarrow> schedule_id q = schedule_id r \<Longrightarrow> q = r"
  by (auto simp: sched_inv_def unique_key_def distinct_map inj_on_def)

text \<open>A claimed row has moved past every occurrence claimed for it, this one included.\<close>

lemma moved_past_claims:
  assumes "cron_contract lib" "sched_inv tbl" "in_range now" "r \<in> set tbl" "claimed_before log r"
    and "\<forall>i\<in>schedule_id ` set (select_due now limit tbl). now < nxt i \<and> in_range (nxt i)"
  shows "claimed_before
    (log @ map (\<lambda>r. (schedule_id r, sched_next_run_at r)) (select_due now limit tbl))
    (moved now (schedule_id ` set (select_due now limit tbl)) nxt r)"
proof (cases "schedule_id r \<in> schedule_id ` set (select_due now limit tbl)")
  case True
  let ?sel = "select_due now limit tbl"
  have row: "q = r" if "q \<in> set ?sel" "schedule_id q = schedule_id r" for q
    using that select_due_set assms(2,4) sched_inv_inj by blast
  have due: "sched_next_run_at r \<le> isoformat now"
    using True row select_due_set [of now limit tbl] by (force simp: due_row_def)
  have new: "isoformat now < sched_next_run_at (moved now (schedule_id ` set ?sel) nxt r)"
    using True assms(3) bspec [OF assms(6) True] by (simp add: moved_def isoformat_less_iff)
  have "t \<le> sched_next_run_at r"
    if "(schedule_id r, t) \<in> set (log @ map (\<lambda>r. (schedule_id r, sched_next_run_at r)) ?sel)" for t
    using that assms(5) row by (fastforce simp: claimed_before_def)
  with due new show ?thesis by (fastforce simp: claimed_before_def)
next
  case False
  then show ?thesis using assms(5) by (auto simp: claimed_before_def moved_def)
qed

lemma history_claim_inv:
  assumes "cron_contract lib" "history_inv used log tbl" "in_range now"
    and "claim_due_schedules lib now limit tbl = Inr (claimed, tbl')"
  shows "history_inv used (log @ claim_log claimed) tbl'"
proof -
  have inv: "sched_inv tbl" and used: "schedule_id ` set tbl \<subseteq> used" "fst ` set log \<subseteq> used"
    and dist: "distinct log" and before: "\<forall>r\<in>set tbl. claimed_before log r"
    using assms(2) by (auto simp: history_inv_def)
  let ?sel = "select_due now limit tbl" and ?ids = "schedule_id ` set (select_due now limit tbl)"
  from assms(1) inv assms(4) obtain nxt where
    cl: "claimed = map decode_row ?sel" and
    n: "\<forall>i\<in>?ids. now < nxt i \<and> in_range (nxt i)" and
    tb: "tbl' = map (moved now ?ids nxt) tbl"
    by (rule claim_due_spec) blast
  have sel: "r \<in> set tbl" "due_row now r" if "r \<in> set ?sel" for r
    using that select_due_set by blast+
  have log: "claim_log claimed = map (\<lambda>r. (schedule_id r, sched_next_run_at r)) ?sel"
    by (simp add: claim_log_def cl decode_row_def)
  have "distinct (map fst (claim_log claimed))"
    using select_due_distinct [of tbl now limit] inv by (simp add: log comp_def sched_inv_def)
  then have d2: "distinct (claim_log claimed)" by (simp add: distinct_map)
  have disj: "set log \<inter> set (claim_log claimed) = {}"
    using before sel by (fastforce simp: log claimed_before_def)
  have "claimed_before (log @ claim_log claimed) (moved now ?ids nxt r)" if "r \<in> set tbl" for r
    unfolding log using moved_past_claims [OF assms(1) inv assms(3) that _ n] before that by blast
  moreover have "schedule_id ` set claimed \<subseteq> used" using used(1) sel(1) by (auto simp: cl)
  ultimately show ?thesis
    using claim_keeps_inv [OF assms(1) inv assms(4)] used dist d2 disj
    by (auto simp: history_inv_def tb image_Un)
qed

text \<open>Operations that neither create nor claim keep the ids and the fire times of the rows they keep.\<close>

lemma other_op_rows:
  assumes "\<not> is_create_or_claim opn" "r' \<in> set (sched_exec lib ulib opn tbl)"
  shows "\<exists>r\<in>set tbl. schedule_id r' = schedule_id r \<and> sched_next_run_at r' = sched_next_run_at r"
  using assms
  by (cases opn)
     (auto simp: remove_schedule_def set_schedule_enabled_def record_schedule_result_def
       update_where_def delete_where_def split: if_splits)

lemma create_rows:
  assumes "r \<in> set (sched_exec lib ulib (OpCreate uuid now a) tbl)"
  shows "r \<in> set tbl \<or> schedule_id r = uuid"
  using assms by (auto simp: create_schedule_def split: sum.splits if_splits)

lemma history_invariant:
  assumes "cron_contract lib" "history lib ulib used log tbl"
  shows "history_inv used log tbl"
  using assms(2)
proof (induction rule: history.induct)
  case history_init
  show ?case by (simp add: history_inv_def sched_inv_def)
next
  case (history_create used log tbl uuid now a)
  let ?tbl = "sched_exec lib ulib (OpCreate uuid now a) tbl"
  have "claimed_before log r" if "r \<in> set ?tbl" for r
    using create_rows [OF that] history_create by (force simp: history_inv_def claimed_before_def)
  moreover have "sched_inv ?tbl"
    using history_create.IH unfolding history_inv_def by (blast intro: sched_exec_inv [OF assms(1)])
  moreover have "schedule_id ` set ?tbl \<subseteq> insert uuid used"
    using create_rows [of _ lib ulib uuid now a tbl] history_create.IH by (force simp: history_inv_def)
  ultimately show ?case using history_create.IH by (auto simp: history_inv_def)
next
  case (history_claim used log tbl now limit claimed tbl')
  with assms(1) show ?case by (simp add: history_claim_inv)
next
  case (history_other used log tbl opn)
  let ?tbl = "sched_exec lib ulib opn tbl"
  note rows = other_op_rows [OF history_other.hyps(2), of _ lib ulib tbl]
  have "claimed_before log r" if "r \<in> set ?tbl" for r
    using rows [OF that] history_other.IH by (auto simp: history_inv_def claimed_before_def)
  moreover have "schedule_id ` set ?tbl \<subseteq> used"
    using rows history_other.IH by (fastforce simp: history_inv_def)
  moreover have "sched_inv ?tbl"
    using sched_exec_inv [OF assms(1)] history_other.IH by (simp add: history_inv_def)
  ultimately show ?case using history_other.IH by (simp add: history_inv_def)
qed

text \<open>C10: no occurrence of a schedule is ever claimed twice. Over any history of creations under
  fresh ids, claims by any number of processes, toggles, removals and recorded results, and even
  when their clocks disagree or run backwards, the pairs of schedule id and fire time handed out
  are all different.\<close>

theorem occurrence_claimed_once:
  assumes "cron_contract lib" "history lib ulib used log tbl"
  shows "distinct log"
  using history_invariant [OF assms] by (simp add: history_inv_def)

section \<open>Samples\<close>

definition sample_dispatch :: "(unit, unit) dispatch_lib" where
  "sample_dispatch = \<lparr>d_exec = sample_lib, d_graph = sample_graph, d_thread_uuid = ''t'',
     d_run_uuid = ''r1'', d_brief = BriefDone False None None, d_http = (\<lambda>_ _ _ _. HttpResponse 204)\<rparr>"

definition sample_sched_world :: "(unit, unit) sched_world" where
  "sample_sched_world = \<lparr>s_exec = sample_exec ''queued'', s_table = sample_tbl\<rparr>"

theorem dispatch_records_result_witness:
  "\<exists>e w' row'. dispatch_schedule sample_dispatch (decode_row (sample_row ''a'' 1000000)) sample_sched_world
       = (e, w') \<and> end_status e = ''error'' \<and>
     lookup schedule_id ''a'' (s_table w') = Some row' \<and> sched_last_status row' = Some ''error'' \<and>
     sched_last_error row' = Some ''Brief write was not committed''"
proof -
  let ?sch = "decode_row (sample_row ''a'' 1000000)"
  obtain e w' where d: "dispatch_schedule sample_dispatch ?sch sample_sched_world = (e, w')" by fastforce
  have id: "schedule_id ?sch = ''a''" "sched_kind ?sch = ''brief''"
    by (simp_all add: decode_row_def sample_row_def)
  have e: "end_status e = ''error''" "end_error e = Some ''Brief write was not committed''"
    using d id by (auto simp: dispatch_schedule_def dispatch_brief_def sample_dispatch_def
        finish_dispatch_def)
  have "lookup schedule_id (schedule_id ?sch) (s_table sample_sched_world) = Some (sample_row ''a'' 1000000)"
    by (simp add: id sample_sched_world_def sample_tbl_def lookup_Cons, simp add: sample_row_def)
  from dispatch_records_result [OF d this] e id d show ?thesis by fastforce
qed

definition sample_service :: service where
  "sample_service = \<lparr>svc_running = True, svc_children = [], svc_table = []\<rparr>"

lemma sample_service_reachable: "service_reachable sample_cron sample_url_lib sample_service"
proof -
  have "service_reachable sample_cron sample_url_lib
    (service_start (\<lambda>_. None) \<lparr>svc_running = False, svc_children = [], svc_table = []\<rparr>)"
    by (rule service_reachable.service_next [OF service_reachable.service_init])
       (rule service_step.start_step)
  moreover have "py_lower ''true'' = ''true''" by code_simp
  ultimately show ?thesis
    by (simp add: service_start_def scheduler_enabled_def getenv_or_def sample_service_def)
qed

theorem at_most_ten_in_flight_witness: "length (svc_children sample_service) \<le> 10"
  by (rule at_most_ten_in_flight [OF sample_cron_contract sample_service_reachable])

lemma sample_history:
  "history sample_cron sample_url_lib {''a''}
     [(''a'', isoformat 10000000), (''a'', isoformat 20000000)]
     [advance 23000000 30000000 (advance 11000000 20000000 (sample_row ''a'' 10000000))]"
proof -
  have h1: "history sample_cron sample_url_lib {''a''} [] [sample_row ''a'' 10000000]"
    using history.history_create [OF history.history_init, of "''a''" sample_cron sample_url_lib 0 sample_args]
    by (simp add: sample_create)
  have co: "coalesce_next_run sample_cron ''interval'' ''10s'' ''UTC'' 10000000 11000000 = Inr 20000000"
    "coalesce_next_run sample_cron ''interval'' ''10s'' ''UTC'' 20000000 23000000 = Inr 30000000"
    by (simp_all add: coalesce_next_run_def sample_interval datetime_add_def sample_in_range)
  have c1: "claim_due_schedules sample_cron 11000000 5 [sample_row ''a'' 10000000] =
    Inr ([decode_row (sample_row ''a'' 10000000)],
         [advance 11000000 20000000 (sample_row ''a'' 10000000)])"
    by (simp add: claim_due_schedules_def select_due_def sample_row_def due_row_def order_asc_def
        sql_limit_def isoformat_le_iff sample_in_range fromisoformat_isoformat co update_where_def)
  have c2: "claim_due_schedules sample_cron 23000000 5
      [advance 11000000 20000000 (sample_row ''a'' 10000000)] =
    Inr ([decode_row (advance 11000000 20000000 (sample_row ''a'' 10000000))],
         [advance 23000000 30000000 (advance 11000000 20000000 (sample_row ''a'' 10000000))])"
    by (simp add: claim_due_schedules_def select_due_def sample_row_def due_row_def order_asc_def
        sql_limit_def isoformat_le_iff sample_in_range fromisoformat_isoformat co update_where_def
        advance_def)
  have "history sample_cron sample_url_lib {''a''}
     (([] @ claim_log [decode_row (sample_row ''a'' 10000000)]) @
      claim_log [decode_row (advance 11000000 20000000 (sample_row ''a'' 10000000))])
     [advance 23000000 30000000 (advance 11000000 20000000 (sample_row ''a'' 10000000))]"
    by (rule history.history_claim [OF history.history_claim [OF h1 _ c1] _ c2])
       (simp_all add: sample_in_range)
  then show ?thesis by (simp add: claim_log_def decode_row_def sample_row_def)
qed

theorem occurrence_claimed_once_witness:
  "distinct [(''a'', isoformat 10000000), (''a'', isoformat 20000000)]"
  by (rule occurrence_claimed_once [OF sample_cron_contract sample_history])

end
