(* ===== verification/Schedule_Models.thy ===== *)
theory Schedule_Models
  imports Schedules
begin

text \<open>
  \<open>agent_os/schedule_models.py\<close>: \<open>ScheduleInput\<close>, the validated input of the API and the command
  line.

  \<^item> \<open>schedule_input\<close> has the fields of the pydantic model; \<open>validate_input\<close> runs the field
    constraints, the field validators and the cross-field validator in their order and returns the
    input as the validators leave it, or the first error.
  \<^item> The theorem is the reason the module exists: its rules and those of the store cannot drift
    apart. A payload built from a valid input passes the store's validation, unchanged.
\<close>

record schedule_input =
  in_name :: string
  in_kind :: string
  in_cron :: "string option"
  in_every :: "string option"
  in_timezone :: string
  in_task :: "string option"
  in_workspace :: "string option"
  in_url :: "string option"
  in_method :: "string option"
  in_headers :: "(string \<times> string) list option"
  in_body :: "pydict option"

definition length_between :: "nat \<Rightarrow> nat \<Rightarrow> string \<Rightarrow> unit result" where
  "length_between lo hi s =
     (if lo \<le> length s \<and> length s \<le> hi then Inr ()
      else Inl (ValueError ''String has too few or too many characters''))"

fun strip_and_check_empty :: "string option \<Rightarrow> string option result" where
  "strip_and_check_empty None = Inr None"
| "strip_and_check_empty (Some v) =
     (if strip v = [] then Inl (ValueError ''String cannot be empty or only whitespace'')
      else Inr (Some (strip v)))"

definition validate_fields :: "schedule_input \<Rightarrow> schedule_input result" where
  "validate_fields i =
     bind_result (length_between 1 255 (in_name i)) (\<lambda>_.
     bind_result (strip_and_check_empty (Some (in_name i))) (\<lambda>name.
     if in_kind i \<notin> set ALLOWED_KINDS then Inl (ValueError ''Input should be run, brief or app_callback'')
     else
     bind_result (case in_task i of None \<Rightarrow> Inr () | Some t \<Rightarrow> length_between 1 4096 t) (\<lambda>_.
     bind_result (strip_and_check_empty (in_task i)) (\<lambda>task.
     bind_result (strip_and_check_empty (in_url i)) (\<lambda>url.
       Inr (i\<lparr>in_name := the name, in_task := task, in_url := url\<rparr>))))))"

definition http_fields :: "schedule_input \<Rightarrow> bool" where
  "http_fields i = (in_url i \<noteq> None \<or> in_method i \<noteq> None \<or> in_headers i \<noteq> None \<or> in_body i \<noteq> None)"

definition cross_field_rules :: "url_lib \<Rightarrow> schedule_input \<Rightarrow> schedule_input result" where
  "cross_field_rules ulib i =
     (if opt_truthy (in_cron i) \<and> opt_truthy (in_every i)
      then Inl (ValueError ''Specify exactly one of cron and every, not both'')
      else if \<not> opt_truthy (in_cron i) \<and> \<not> opt_truthy (in_every i)
      then Inl (ValueError ''Specify exactly one of cron and every'')
      else if in_kind i = ''run'' then
        (if \<not> opt_truthy (in_task i) then Inl (ValueError ''kind=run requires task'')
         else if http_fields i
         then Inl (ValueError ''kind=run does not accept url, method, headers, or body'')
         else Inr i)
      else if in_kind i = ''brief'' then
        (if in_task i \<noteq> None then Inl (ValueError ''kind=brief does not accept task'')
         else if in_workspace i \<noteq> None
         then Inl (ValueError ''kind=brief does not accept workspace'')
         else if http_fields i
         then Inl (ValueError ''kind=brief does not accept url, method, headers, or body'')
         else Inr i)
      else if in_kind i = ''app_callback'' then
        (if in_task i \<noteq> None then Inl (ValueError ''kind=app_callback does not accept task'')
         else if in_workspace i \<noteq> None
         then Inl (ValueError ''kind=app_callback does not accept workspace'')
         else case in_url i of
           None \<Rightarrow> Inl (ValueError ''kind=app_callback requires url'')
         | Some url \<Rightarrow>
             if url = [] then Inl (ValueError ''kind=app_callback requires url'')
             else bind_result (validate_app_callback_url ulib (PStr url)) (\<lambda>u.
               let meth = py_upper (or_str (in_method i) ''POST'')
               in if meth \<notin> set ALLOWED_HTTP_METHODS
                  then Inl (ValueError ''method must be one of ALLOWED_HTTP_METHODS'')
                  else Inr (i\<lparr>in_url := Some u, in_method := Some meth\<rparr>)))
      else Inr i)"

definition validate_input :: "url_lib \<Rightarrow> schedule_input \<Rightarrow> schedule_input result" where
  "validate_input ulib i = bind_result (validate_fields i) (cross_field_rules ulib)"

definition input_trigger_kind :: "schedule_input \<Rightarrow> string" where
  "input_trigger_kind i = (if opt_truthy (in_cron i) then ''cron'' else ''interval'')"

definition input_trigger_value :: "schedule_input \<Rightarrow> string" where
  "input_trigger_value i = or_str (in_cron i) (or_str (in_every i) [])"

definition opt_item :: "string \<Rightarrow> ('a \<Rightarrow> pyval) \<Rightarrow> 'a option \<Rightarrow> pydict" where
  "opt_item k f v = (case v of None \<Rightarrow> [] | Some x \<Rightarrow> [(k, f x)])"

definition truthy_item :: "string \<Rightarrow> string option \<Rightarrow> pydict" where
  "truthy_item k v = (if opt_truthy v then [(k, PStr (the v))] else [])"

definition input_payload :: "schedule_input \<Rightarrow> pydict" where
  "input_payload i =
     (if in_kind i = ''run'' then
        truthy_item ''task'' (in_task i) @ truthy_item ''workspace'' (in_workspace i)
      else if in_kind i = ''app_callback'' then
        truthy_item ''url'' (in_url i) @ truthy_item ''method'' (in_method i) @
        opt_item ''headers'' (\<lambda>h. PDict (map (\<lambda>(k, v). (k, PStr v)) h)) (in_headers i) @
        opt_item ''body'' PDict (in_body i)
      else [])"

section \<open>A valid input passes the store's checks\<close>

lemma update_same: "map_of d k = Some v \<Longrightarrow> AList.update k v d = d"
  by (induction d) (auto split: if_splits)

lemma py_upper_allowed: "m \<in> set ALLOWED_HTTP_METHODS \<Longrightarrow> py_upper m = m"
proof -
  have "list_all (\<lambda>m. py_upper m = m) ALLOWED_HTTP_METHODS" by code_simp
  then show "m \<in> set ALLOWED_HTTP_METHODS \<Longrightarrow> py_upper m = m" by (simp add: list_all_iff)
qed

lemma allowed_not_empty: "m \<in> set ALLOWED_HTTP_METHODS \<Longrightarrow> m \<noteq> []"
  by (auto simp: ALLOWED_HTTP_METHODS_def)

definition callback_payload :: "string \<Rightarrow> string \<Rightarrow> (string \<times> string) list option \<Rightarrow> pydict option \<Rightarrow> pydict" where
  "callback_payload u m h b =
     [(''url'', PStr u), (''method'', PStr m)] @
     opt_item ''headers'' (\<lambda>h. PDict (map (\<lambda>(k, v). (k, PStr v)) h)) h @ opt_item ''body'' PDict b"

lemma callback_payload_get:
  "dict_get (callback_payload u m h b) ''url'' = Some (PStr u)"
  "dict_get (callback_payload u m h b) ''method'' = Some (PStr m)"
  "dict_get (callback_payload u m h b) ''headers'' =
     map_option (\<lambda>h. PDict (map (\<lambda>(k, v). (k, PStr v)) h)) h"
  "dict_get (callback_payload u m h b) ''body'' = map_option PDict b"
  by (simp_all add: callback_payload_def opt_item_def split: option.splits)

lemma callback_payload_valid:
  assumes "validate_app_callback_url ulib (PStr u) = Inr u" "u \<noteq> []"
    and "m \<in> set ALLOWED_HTTP_METHODS"
  shows "validate_callback_payload ulib (callback_payload u m h b) = Inr (callback_payload u m h b)"
proof -
  let ?p = "callback_payload u m h b"
  have keys: "\<not> unknown_keys ?p APP_CALLBACK_PAYLOAD_KEYS"
    by (simp add: unknown_keys_def callback_payload_def opt_item_def APP_CALLBACK_PAYLOAD_KEYS_def
        split: option.splits)
  have upd: "dict_set ''url'' (PStr u) ?p = ?p" "dict_set ''method'' (PStr m) ?p = ?p"
    by (simp_all add: update_same callback_payload_get)
  have "unless_none ?p ''headers'' is_str_dict" "unless_none ?p ''body'' is_dict"
    by (simp_all add: unless_none_def callback_payload_get list_all_iff case_prod_beta
        split: option.splits)
  with keys upd assms py_upper_allowed [OF assms(3)] allowed_not_empty [OF assms(3)] show ?thesis
    by (simp add: validate_callback_payload_def callback_payload_get)
qed

lemma cross_field_callback:
  assumes "cross_field_rules ulib i = Inr j" "in_kind i = ''app_callback''"
  obtains u m where "validate_app_callback_url ulib (PStr u) = Inr u" "u \<noteq> []"
    "m \<in> set ALLOWED_HTTP_METHODS" "j = i\<lparr>in_url := Some u, in_method := Some m\<rparr>"
proof -
  from assms obtain url u where url: "validate_app_callback_url ulib (PStr url) = Inr u"
    and m: "py_upper (or_str (in_method i) ''POST'') \<in> set ALLOWED_HTTP_METHODS"
    and j: "j = i\<lparr>in_url := Some u, in_method := Some (py_upper (or_str (in_method i) ''POST''))\<rparr>"
    by (auto simp: cross_field_rules_def Let_def split: if_splits option.splits)
  have again: "validate_app_callback_url ulib (PStr u) = Inr u"
    using callback_url_accepted [OF url] by blast
  moreover have "u \<noteq> []"
  proof
    assume "u = []"
    with again have "validate_app_callback_url ulib (PStr []) = Inr []" by simp
    then show False
      by (simp add: validate_app_callback_url_def urlsplit_def partition_at_def strip_def
          startswith_def url_port_def hostinfo_def after_last_def after_first_def)
  qed
  ultimately show ?thesis using that m j by blast
qed

text \<open>The two layers of validation agree. If \<open>ScheduleInput\<close> accepts an input and its trigger is
  valid, the store accepts the kind, the trigger and the payload built from it, and stores that
  payload unchanged; the trigger is exactly one of \<open>cron\<close> and \<open>every\<close>.\<close>

theorem valid_input_accepted:
  assumes "validate_input ulib raw = Inr i"
    and "validate_trigger lib (input_trigger_kind i) (input_trigger_value i) (in_timezone i) = Inr ()"
  shows "validate_schedule_fields lib ulib (in_kind i) (input_trigger_kind i)
           (input_trigger_value i) (in_timezone i) (input_payload i) = Inr (input_payload i) \<and>
         (opt_truthy (in_cron i) \<noteq> opt_truthy (in_every i)) \<and> input_trigger_value i \<noteq> []"
proof -
  from assms(1) obtain r where r: "validate_fields raw = Inr r" "cross_field_rules ulib r = Inr i"
    by (auto simp: validate_input_def)
  have kind: "in_kind r \<in> set ALLOWED_KINDS"
    using r(1) by (auto simp: validate_fields_def split: if_splits)
  have same: "in_kind i = in_kind r" "in_cron i = in_cron r" "in_every i = in_every r"
    using r(2) by (auto simp: cross_field_rules_def Let_def split: if_splits option.splits)
  have xor: "opt_truthy (in_cron i) \<noteq> opt_truthy (in_every i)"
    using r(2) same by (auto simp: cross_field_rules_def split: if_splits)
  then have ne: "input_trigger_value i \<noteq> []"
    by (cases "in_cron i"; cases "in_every i") (auto simp: input_trigger_value_def)
  have tk: "input_trigger_kind i \<in> set ALLOWED_TRIGGER_KINDS"
    by (simp add: input_trigger_kind_def ALLOWED_TRIGGER_KINDS_def)
  consider "in_kind r = ''run''" | "in_kind r = ''brief''" | "in_kind r = ''app_callback''"
    using kind by (auto simp: ALLOWED_KINDS_def)
  then have "validate_schedule_fields lib ulib (in_kind i) (input_trigger_kind i)
           (input_trigger_value i) (in_timezone i) (input_payload i) = Inr (input_payload i)"
  proof cases
    case 1
    then have "opt_truthy (in_task i)" "i = r"
      using r(2) by (auto simp: cross_field_rules_def split: if_splits)
    with 1 tk assms(2) show ?thesis
      by (simp add: validate_schedule_fields_def ALLOWED_KINDS_def input_payload_def
          truthy_item_def unknown_keys_def RUN_PAYLOAD_KEYS_def)
  next
    case 2
    with same(1) tk assms(2) show ?thesis
      by (simp add: validate_schedule_fields_def ALLOWED_KINDS_def input_payload_def
          unknown_keys_def)
  next
    case 3
    from r(2) 3 obtain u m where u: "validate_app_callback_url ulib (PStr u) = Inr u" "u \<noteq> []"
      "m \<in> set ALLOWED_HTTP_METHODS" "i = r\<lparr>in_url := Some u, in_method := Some m\<rparr>"
      by (rule cross_field_callback)
    have "input_payload i = callback_payload u m (in_headers i) (in_body i)"
      using 3 u(2,4) allowed_not_empty [OF u(3)]
      by (simp add: input_payload_def truthy_item_def callback_payload_def)
    with 3 same(1) tk assms(2) callback_payload_valid [OF u(1-3)] show ?thesis
      by (simp add: validate_schedule_fields_def ALLOWED_KINDS_def)
  qed
  with xor ne show ?thesis by blast
qed

definition sample_input :: schedule_input where
  "sample_input = \<lparr>in_name = '' hook '', in_kind = ''app_callback'', in_cron = None,
     in_every = Some ''10s'', in_timezone = ''UTC'', in_task = None, in_workspace = None,
     in_url = Some '' https://h/x'', in_method = Some ''put'',
     in_headers = Some [(''X'', ''1'')], in_body = None\<rparr>"

definition sample_validated :: schedule_input where
  "sample_validated = sample_input\<lparr>in_name := ''hook'', in_url := Some ''https://h/x'',
     in_method := Some ''PUT''\<rparr>"

lemma sample_url_ok:
  "validate_app_callback_url sample_url_lib (PStr ''https://h/x'') = Inr ''https://h/x''"
  by code_simp

theorem valid_input_accepted_witness:
  "validate_schedule_fields sample_cron sample_url_lib ''app_callback'' ''interval'' ''10s'' ''UTC''
     (input_payload sample_validated) = Inr (input_payload sample_validated)"
proof -
  have s: "strip '' hook '' = ''hook''" "strip '' https://h/x'' = ''https://h/x''" "py_upper ''put'' = ''PUT''"
    by code_simp+
  have "validate_input sample_url_lib sample_input = Inr sample_validated"
    by (simp add: validate_input_def validate_fields_def length_between_def sample_input_def
        sample_validated_def ALLOWED_KINDS_def cross_field_rules_def s sample_url_ok
        ALLOWED_HTTP_METHODS_def)
  moreover have f: "input_trigger_kind sample_validated = ''interval''"
    "input_trigger_value sample_validated = ''10s''" "in_timezone sample_validated = ''UTC''"
    "in_kind sample_validated = ''app_callback''"
    by (simp_all add: sample_validated_def sample_input_def input_trigger_kind_def
        input_trigger_value_def)
  moreover have "validate_trigger sample_cron ''interval'' ''10s'' ''UTC'' = Inr ()"
    by (simp add: validate_trigger_def sample_interval)
  ultimately show ?thesis
    using valid_input_accepted [of sample_url_lib sample_input sample_validated sample_cron] by simp
qed

end
