(* ===== verification/Strategies.thy ===== *)
theory Strategies
  imports Observations "HOL-Library.Multiset"
begin

text \<open>
  \<open>agent_os/strategies.py\<close>: which of the fixed planning strategies a run is given, and
  \<open>task_kind_for_input\<close> of \<open>agent_os/server/runtime.py\<close>.

  \<^item> \<open>WORKFLOW_STRATEGIES\<close> is the registry, \<open>evidence_winner\<close> the decision on aggregated outcomes with
    its floating point comparisons, \<open>select_strategy\<close> the selector. The store is passed and
    returned; \<open>None\<close> stands for a store that could not be opened.
  \<^item> The theorems: a selection is one of the registered strategies; a run keeps its strategy
    through anything that happens to the store; evidence wins exactly when the best labelled
    strategy leads by enough; what users write as evidence has no influence; the lead that is
    enough depends on where it lies; and an assignment to a strategy that is no longer
    registered makes every later selection of that run fail.
\<close>

section \<open>The registry\<close>

record strategy_definition =
  sd_strategy_id :: string
  sd_version :: int
  sd_task_kind :: string
  sd_directive :: string

record strategy_hint =
  sh_strategy_id :: string
  sh_version :: int
  sh_task_kind :: string
  sh_selection_reason :: string
  sh_directive :: string

type_synonym strategy_selection = "strategy_hint \<times> outcome_pattern list"

definition MIN_LABELLED_PER_STRATEGY :: nat where "MIN_LABELLED_PER_STRATEGY = 5"

definition MIN_ACTIONABLE_SCORE :: rat where "MIN_ACTIONABLE_SCORE = to_double (70 / 100)"

definition MIN_ACTIONABLE_LEAD :: rat where "MIN_ACTIONABLE_LEAD = to_double (15 / 100)"

definition SELECTOR_VERSION :: string where "SELECTOR_VERSION = ''v1.0''"

definition DEFAULT_STRATEGY :: strategy_definition where
  "DEFAULT_STRATEGY = \<lparr>sd_strategy_id = ''default-v1'', sd_version = 1, sd_task_kind = ''workflow'',
     sd_directive = ''Create a clear direct plan, identify material assumptions, and include '' @
       ''necessary validation without extra exploration.''\<rparr>"

definition WORKFLOW_STRATEGIES :: "strategy_definition list" where
  "WORKFLOW_STRATEGIES =
     [DEFAULT_STRATEGY,
      \<lparr>sd_strategy_id = ''verification-first-v1'', sd_version = 1, sd_task_kind = ''workflow'',
       sd_directive = ''Inspect relevant constraints and files before proposing a plan; identify '' @
         ''risks and unknowns, favor minimal reversible changes, and include explicit '' @
         ''validation plus rollback or safety checkpoints.''\<rparr>,
      \<lparr>sd_strategy_id = ''concise-plan-v1'', sd_version = 1, sd_task_kind = ''workflow'',
       sd_directive = ''Produce only necessary ordered steps, the top risks, and exact validation; '' @
         ''avoid optional discovery or expanded scope.''\<rparr>,
      \<lparr>sd_strategy_id = ''clarify-first-v1'', sd_version = 1, sd_task_kind = ''workflow'',
       sd_directive = ''Before proposing a plan or taking any action, surface 3-5 binary '' @
         ''(pass/fail) acceptance criteria that define '' @ [CHR 0x27] @ ''done'' @ [CHR 0x27] @ '' for this task and '' @
         ''place them in the structured acceptance_criteria field as concise statements. '' @
         ''Classify each intended side-effect as reversible or irreversible. '' @
         ''Present these to the human for confirmation or adjustment first; do not '' @
         ''execute irreversible side-effects until criteria are confirmed. This '' @
         ''directive cannot change permission, tool-safety, or execution constraints.''\<rparr>]"

definition strategies_for :: "string \<Rightarrow> strategy_definition list" where
  "strategies_for kind = (if kind = ''workflow'' then WORKFLOW_STRATEGIES else [])"

definition task_kind_for_input :: "string \<Rightarrow> string" where
  "task_kind_for_input task =
     (if startswith (py_lower (dropWhile py_isspace task)) ''memory_write'' then ''memory_write'' else ''workflow'')"

definition hint_of :: "strategy_definition \<Rightarrow> string \<Rightarrow> strategy_hint" where
  "hint_of d reason =
     \<lparr>sh_strategy_id = sd_strategy_id d, sh_version = sd_version d, sh_task_kind = sd_task_kind d,
      sh_selection_reason = reason, sh_directive = sd_directive d\<rparr>"

definition by_id :: "strategy_definition list \<Rightarrow> string \<Rightarrow> strategy_definition option" where
  "by_id defs i = lookup sd_strategy_id i defs"

section \<open>Selection\<close>

definition eligible :: "outcome_pattern list \<Rightarrow> outcome_pattern list" where
  "eligible patterns = filter (\<lambda>p. MIN_LABELLED_PER_STRATEGY \<le> pt_labelled_count p) patterns"

definition rank :: "outcome_pattern list \<Rightarrow> outcome_pattern list" where
  "rank ps = sort_key (\<lambda>p. - pt_outcome_score p) (sort_key pt_strategy_id ps)"

definition evidence_winner :: "outcome_pattern list \<Rightarrow> (outcome_pattern \<times> outcome_pattern) option" where
  "evidence_winner patterns =
     (case rank (eligible patterns) of
        winner # comparator # _ \<Rightarrow>
          if pt_outcome_score winner < MIN_ACTIONABLE_SCORE then None
          else if float_sub (pt_outcome_score winner) (pt_outcome_score comparator) < MIN_ACTIONABLE_LEAD then None
          else Some (winner, comparator)
      | _ \<Rightarrow> None)"

definition evidence_summary :: "outcome_pattern list \<Rightarrow> outcome_pattern \<Rightarrow> outcome_pattern \<Rightarrow> pydict" where
  "evidence_summary patterns winner second =
     [(''labelled_counts'', PDict (map (\<lambda>p. (pt_strategy_id p, PInt (int (pt_labelled_count p)))) patterns)),
      (''scores'', PDict (map (\<lambda>p. (pt_strategy_id p, PFloat (round4 (pt_outcome_score p)))) patterns)),
      (''winner'', PStr (pt_strategy_id winner)),
      (''threshold_met'', PBool True),
      (''margin'', PFloat (round4 (float_sub (pt_outcome_score winner) (pt_outcome_score second))))]"

definition hint_for ::
  "strategy_definition list \<Rightarrow> string result \<times> obs_store \<Rightarrow> string \<Rightarrow> outcome_pattern list
     \<Rightarrow> strategy_selection result \<times> obs_store option" where
  "hint_for defs assigned reason patterns =
     (case assigned of
        (Inl e, s) \<Rightarrow> (Inl e, Some s)
      | (Inr strategy, s) \<Rightarrow>
          (case by_id defs strategy of
             None \<Rightarrow> (Inl (KeyError strategy), Some s)
           | Some d \<Rightarrow> (Inr (hint_of d reason, patterns), Some s)))"

definition assign_new ::
  "hash_lib \<Rightarrow> string \<Rightarrow> string \<Rightarrow> string \<Rightarrow> strategy_definition list \<Rightarrow> string \<Rightarrow> string option \<Rightarrow> obs_store
     \<Rightarrow> strategy_selection result \<times> obs_store option" where
  "assign_new h now workspace kind defs run explicit s =
     (case explicit of
        Some i \<Rightarrow>
          hint_for defs
            (assign_strategy now workspace kind run i (sd_version (the (by_id defs i))) ''explicit''
               SELECTOR_VERSION None s) ''explicit'' []
      | None \<Rightarrow>
          (let patterns = aggregate_patterns workspace kind (map sd_strategy_id defs) s
           in case evidence_winner patterns of
                Some (winner, second) \<Rightarrow>
                  hint_for defs
                    (assign_strategy now workspace kind run (pt_strategy_id winner)
                       (sd_version (the (by_id defs (pt_strategy_id winner)))) ''evidence_backed''
                       SELECTOR_VERSION (Some (evidence_summary patterns winner second)) s)
                    ''evidence_backed'' patterns
              | None \<Rightarrow>
                  hint_for defs
                    (assign_balanced_exploration h now workspace kind run (map sd_strategy_id defs)
                       (map (\<lambda>d. (sd_strategy_id d, sd_version d)) defs) SELECTOR_VERSION s)
                    ''exploration'' patterns))"

definition select_strategy ::
  "hash_lib \<Rightarrow> string \<Rightarrow> string \<Rightarrow> string \<Rightarrow> string option \<Rightarrow> string option \<Rightarrow> obs_store option
     \<Rightarrow> strategy_selection result \<times> obs_store option" where
  "select_strategy h now workspace kind run_id explicit store =
     (let defs = strategies_for kind
      in if defs = [] then (Inr (hint_of DEFAULT_STRATEGY ''default'', []), store)
         else if (case explicit of None \<Rightarrow> False | Some i \<Rightarrow> by_id defs i = None)
         then (Inl (ValueError (''Strategy '' @ [CHR 0x27] @ the explicit @ [CHR 0x27] @
                 '' is not allowed for task kind '' @ [CHR 0x27] @ kind @ [CHR 0x27])), store)
         else case (store, run_id) of
           (Some s, Some run) \<Rightarrow>
             (case get_strategy_assignment run s of
                Some existing \<Rightarrow>
                  (case by_id defs (sa_strategy_id existing) of
                     Some d \<Rightarrow> (Inr (hint_of d (sa_selection_reason existing), []), store)
                   | None \<Rightarrow> assign_new h now workspace kind defs run explicit s)
              | None \<Rightarrow> assign_new h now workspace kind defs run explicit s)
         | _ \<Rightarrow>
             (Inr (hint_of (case explicit of None \<Rightarrow> DEFAULT_STRATEGY
                            | Some i \<Rightarrow> (case by_id defs i of None \<Rightarrow> DEFAULT_STRATEGY | Some d \<Rightarrow> d))
                     (if opt_truthy explicit then ''explicit'' else ''default''), []), store))"

section \<open>Evidence\<close>

lemma set_rank [simp]: "set (rank ps) = set ps" "length (rank ps) = length ps"
  by (simp_all add: rank_def)

lemma sorted_rank: "sorted (map (\<lambda>p. - pt_outcome_score p) (rank ps))"
  by (simp add: rank_def)

lemma mset_rank: "mset (rank ps) = mset ps"
  by (simp add: rank_def)

definition two_best :: "outcome_pattern \<Rightarrow> outcome_pattern \<Rightarrow> outcome_pattern list \<Rightarrow> bool" where
  "two_best w c others =
     (pt_outcome_score c \<le> pt_outcome_score w \<and>
      list_all (\<lambda>p. pt_outcome_score p \<le> pt_outcome_score c) others)"

text \<open>Evidence wins only when it is clear. A strategy wins on evidence exactly when at least two
  strategies have five labelled outcomes, the best of them has the least score and its lead over
  the second has the least size (both in floating point); winner and comparator are the two best,
  every other candidate scores no higher than the comparator.\<close>

theorem evidence_winner_spec:
  "case evidence_winner patterns of
     None \<Rightarrow>
       length (eligible patterns) < 2 \<or>
       (\<exists>w c others. mset (eligible patterns) = mset (w # c # others) \<and> two_best w c others \<and>
          (pt_outcome_score w < MIN_ACTIONABLE_SCORE \<or>
           float_sub (pt_outcome_score w) (pt_outcome_score c) < MIN_ACTIONABLE_LEAD))
   | Some (w, c) \<Rightarrow>
       (\<exists>others. mset (eligible patterns) = mset (w # c # others) \<and> two_best w c others) \<and>
       5 \<le> pt_labelled_count w \<and> 5 \<le> pt_labelled_count c \<and>
       MIN_ACTIONABLE_SCORE \<le> pt_outcome_score w \<and>
       MIN_ACTIONABLE_LEAD \<le> float_sub (pt_outcome_score w) (pt_outcome_score c)"
proof (cases "length (eligible patterns) < 2")
  case True
  then have "length (rank (eligible patterns)) < 2" by simp
  then have "evidence_winner patterns = None"
    by (auto simp: evidence_winner_def simp del: set_rank split: list.splits)
  with True show ?thesis by simp
next
  case False
  then have "2 \<le> length (rank (eligible patterns))" by simp
  then obtain w c others where r: "rank (eligible patterns) = w # c # others"
    by (auto simp: Suc_le_length_iff numeral_2_eq_2 simp del: set_rank)
  then have best: "mset (eligible patterns) = mset (w # c # others)" "two_best w c others"
    using mset_rank [of "eligible patterns"] sorted_rank [of "eligible patterns"]
    by (auto simp: two_best_def list_all_iff)
  have "w \<in> set (eligible patterns)" "c \<in> set (eligible patterns)"
    using r set_rank(1) [of "eligible patterns"] by auto
  then have "5 \<le> pt_labelled_count w" "5 \<le> pt_labelled_count c"
    by (simp_all add: eligible_def MIN_LABELLED_PER_STRATEGY_def)
  with best r show ?thesis
    by (auto simp: evidence_winner_def not_less)
qed

section \<open>A run keeps its strategy\<close>

lemma lookup_append_keeps: "lookup key k rows = Some r \<Longrightarrow> lookup key k (rows @ xs) = Some r"
  by (simp add: lookup_append)

lemma assignment_persists:
  assumes "get_strategy_assignment run s = Some row"
  shows "get_strategy_assignment run (obs_exec op s) = Some row"
proof (cases op)
  case (DoCreate uuid now a)
  with assms show ?thesis
    by (auto simp: get_strategy_assignment_def create_observation_def split: sum.splits)
next
  case (DoOutcome now i signal ev)
  with assms show ?thesis
    by (auto simp: get_strategy_assignment_def record_outcome_def Let_def split: sum.splits)
next
  case (DoAssign now w k r st ver reason sel ev)
  with assms assign_effect [of now w k r st ver reason sel ev s] show ?thesis
    by (auto simp: get_strategy_assignment_def adds_row_def lookup_append_keeps)
next
  case (DoExplore h now w k r ids versions sel)
  with assms explore_effect [of h now w k r ids versions sel s] show ?thesis
    by (auto simp: get_strategy_assignment_def adds_row_def lookup_append_keeps)
qed

lemma assignment_persists_run:
  "get_strategy_assignment run s = Some row \<Longrightarrow> get_strategy_assignment run (obs_run ops s) = Some row"
  by (rule obs_run_invariant [where P = "\<lambda>s. get_strategy_assignment run s = Some row"])
     (auto intro: assignment_persists)

lemma by_id_Some: "by_id defs i = Some d \<Longrightarrow> d \<in> set defs \<and> sd_strategy_id d = i"
  using lookup_Some_in [of sd_strategy_id i defs d] by (simp add: by_id_def)

text \<open>What a successful first assignment leaves behind.\<close>

lemma lookup_snoc_new: "lookup key (key r) rows = None \<Longrightarrow> lookup key (key r) (rows @ [r]) = Some r"
  by (simp add: lookup_append lookup_Cons)

lemma assign_strategy_new:
  assumes "assign_strategy now w k run st ver reason sel ev s = (Inr i, s')"
    and "get_strategy_assignment run s = None"
  shows "\<exists>row. get_strategy_assignment run s' = Some row \<and> sa_strategy_id row = i \<and> sa_selection_reason row = reason"
  using assms
  by (auto simp: assign_strategy_def get_strategy_assignment_def lookup_append lookup_Cons
      split: sum.splits option.splits)

lemma explore_new:
  assumes "assign_balanced_exploration h now w k run ids versions sel s = (Inr i, s')"
    and "get_strategy_assignment run s = None"
  shows "\<exists>row. get_strategy_assignment run s' = Some row \<and> sa_strategy_id row = i \<and>
           sa_selection_reason row = ''exploration''"
  using assms
  by (auto simp: assign_balanced_exploration_def get_strategy_assignment_def lookup_append lookup_Cons Let_def
      split: if_splits)

lemma hint_for_Inr:
  assumes "hint_for defs assigned reason ps = (Inr sel, store)"
  obtains i s d where "assigned = (Inr i, s)" "store = Some s" "by_id defs i = Some d" "sel = (hint_of d reason, ps)"
  using assms by (auto simp: hint_for_def split: prod.splits sum.splits option.splits)

lemma assign_new_leaves:
  assumes "assign_new h now w k defs run explicit s = (Inr (hint, ps), store)"
    and "get_strategy_assignment run s = None"
  shows "\<exists>s' row d. store = Some s' \<and> get_strategy_assignment run s' = Some row \<and>
           by_id defs (sa_strategy_id row) = Some d \<and> hint = hint_of d (sa_selection_reason row)"
proof (cases explicit)
  case (Some i)
  with assms show ?thesis
    by (auto simp: assign_new_def elim!: hint_for_Inr dest!: assign_strategy_new)
next
  case None
  show ?thesis
  proof (cases "evidence_winner (aggregate_patterns w k (map sd_strategy_id defs) s)")
    case none: None
    with None assms show ?thesis
      by (auto simp: assign_new_def Let_def elim!: hint_for_Inr dest!: explore_new)
  next
    case (Some wc)
    with None assms show ?thesis
      by (cases wc) (auto simp: assign_new_def Let_def elim!: hint_for_Inr dest!: assign_strategy_new)
  qed
qed

text \<open>With a row of another strategy in the way, assigning returns that strategy, which is not in
  the registry.\<close>

lemma assign_new_stale:
  assumes "get_strategy_assignment run s = Some row" "by_id defs (sa_strategy_id row) = None"
    and "defs \<noteq> []" "assign_new h now w k defs run explicit s = (res, store)"
  shows "(\<exists>e. res = Inl e) \<and> store = Some s"
  using assms
  by (auto simp: assign_new_def hint_for_def assign_strategy_def assign_balanced_exploration_def
      get_strategy_assignment_def Let_def split: option.splits sum.splits if_splits prod.splits)

text \<open>C26: a run keeps its strategy. Once a selection for a run has succeeded with a store, every later
  selection for that run returns the same hint, explicit wishes and new evidence notwithstanding,
  and leaves the store as it is, whatever was done to the store in between.\<close>

theorem selection_is_stable:
  assumes "select_strategy h now w k (Some run) explicit (Some s) = (Inr (hint, ps), Some s')"
    and "strategies_for k \<noteq> []" "case explicit' of None \<Rightarrow> True | Some i \<Rightarrow> by_id (strategies_for k) i \<noteq> None"
  shows "select_strategy h' now' w' k (Some run) explicit' (Some (obs_run ops s')) =
           (Inr (hint, []), Some (obs_run ops s'))"
proof -
  let ?defs = "strategies_for k"
  have "\<exists>row d. get_strategy_assignment run s' = Some row \<and> by_id ?defs (sa_strategy_id row) = Some d \<and>
      hint = hint_of d (sa_selection_reason row)"
  proof (cases "get_strategy_assignment run s")
    case None
    with assms(1,2) show ?thesis
      by (auto simp: select_strategy_def Let_def split: if_splits dest!: assign_new_leaves)
  next
    case (Some row)
    with assms(1,2) show ?thesis
      by (cases "by_id ?defs (sa_strategy_id row)")
         (auto simp: select_strategy_def Let_def split: if_splits
           dest!: assign_new_stale [of run s row ?defs, rotated 3])
  qed
  then obtain row d where row: "get_strategy_assignment run s' = Some row"
    "by_id ?defs (sa_strategy_id row) = Some d" "hint = hint_of d (sa_selection_reason row)" by blast
  from assignment_persists_run [OF row(1), of ops] row(2,3) assms(2,3) show ?thesis
    by (auto simp: select_strategy_def Let_def split: option.splits)
qed

text \<open>A stale assignment is fatal. When the strategy stored for a run is no longer registered, the
  selector falls through to a new assignment, which returns the stored strategy again: every
  selection for that run raises, and nothing is repaired.\<close>

theorem stale_assignment_fails:
  assumes "get_strategy_assignment run s = Some row" "by_id (strategies_for k) (sa_strategy_id row) = None"
    and "strategies_for k \<noteq> []"
  shows "\<exists>e. select_strategy h now w k (Some run) explicit (Some s) = (Inl e, Some s)"
proof -
  obtain res store where a: "assign_new h now w k (strategies_for k) run explicit s = (res, store)" by fastforce
  from assign_new_stale [OF assms this] a assms show ?thesis
    by (auto simp: select_strategy_def Let_def)
qed

section \<open>What a selection depends on\<close>

lemma strategies_for_cases: "strategies_for k = [] \<or> strategies_for k = WORKFLOW_STRATEGIES"
  by (simp add: strategies_for_def)

lemma strategies_for_registered: "by_id (strategies_for k) i = Some d \<Longrightarrow> d \<in> set WORKFLOW_STRATEGIES"
  using strategies_for_cases [of k] by (auto dest: by_id_Some)

lemma assign_new_registered:
  "assign_new h now w k (strategies_for k') run explicit s = (Inr (hint, ps), store) \<Longrightarrow>
     \<exists>d\<in>set WORKFLOW_STRATEGIES. \<exists>reason. hint = hint_of d reason"
  by (auto simp: assign_new_def Let_def split: option.splits elim!: hint_for_Inr dest: strategies_for_registered)

text \<open>The selector never invents a strategy: the hint of every successful selection carries the id,
  version and directive of a registered strategy, and no text of a task, a model or a store.\<close>

theorem selection_is_registered:
  assumes "select_strategy h now w k run explicit store = (Inr (hint, ps), store')"
  shows "\<exists>d\<in>set WORKFLOW_STRATEGIES. \<exists>reason. hint = hint_of d reason"
proof -
  have default: "DEFAULT_STRATEGY \<in> set WORKFLOW_STRATEGIES" by (simp add: WORKFLOW_STRATEGIES_def)
  show ?thesis
    using assms default
    by (auto simp: select_strategy_def Let_def split: if_splits option.splits
        dest: strategies_for_registered assign_new_registered)
qed

lemma assigned_count_cong:
  "assignments_tbl s = assignments_tbl s' \<Longrightarrow> assigned_count w k s = assigned_count w k s'"
  by (simp add: fun_eq_iff assigned_count_def)

lemma assign_by_label:
  "assignments_tbl s = assignments_tbl s' \<Longrightarrow>
     fst (assign_strategy now w k run st ver reason sel ev s) = fst (assign_strategy now w k run st ver reason sel ev s')"
  "assignments_tbl s = assignments_tbl s' \<Longrightarrow>
     fst (assign_balanced_exploration h now w k run ids versions sel s) =
     fst (assign_balanced_exploration h now w k run ids versions sel s')"
  using assigned_count_cong [of s s' w k]
  by (auto simp: assign_strategy_def assign_balanced_exploration_def Let_def split: sum.splits option.splits)

lemma hint_for_fst: "fst a = fst b \<Longrightarrow> fst (hint_for defs a reason ps) = fst (hint_for defs b reason ps)"
  by (cases a; cases b) (auto simp: hint_for_def split: sum.splits option.splits)

text \<open>What people write about an outcome cannot steer the selector. Two stores with the same
  assignments whose observations agree on workspace, kind, strategy, label and time lead to the
  same selection, whatever their evidence texts, references, sources, runs and threads are.\<close>

theorem evidence_text_never_steers:
  assumes "map label_of (observations_tbl s) = map label_of (observations_tbl s')"
    and "assignments_tbl s = assignments_tbl s'"
  shows "fst (select_strategy h now w k run explicit (Some s)) = fst (select_strategy h now w k run explicit (Some s'))"
proof -
  have get: "get_strategy_assignment r s = get_strategy_assignment r s'" for r
    using assms(2) by (simp add: get_strategy_assignment_def)
  have agg: "aggregate_patterns w k ids s = aggregate_patterns w k ids s'" for ids
    using assms(1) by (rule aggregate_by_label)
  have new: "fst (assign_new h now w k defs r ex s) = fst (assign_new h now w k defs r ex s')" for defs r ex
    unfolding assign_new_def Let_def agg
    by (auto intro!: hint_for_fst assign_by_label [OF assms(2)] split: option.splits)
  show ?thesis
    unfolding select_strategy_def Let_def by (simp add: get new split: option.splits)
qed

section \<open>The lead in floating point\<close>

definition pattern_with :: "string \<Rightarrow> nat \<Rightarrow> nat \<Rightarrow> outcome_pattern" where
  "pattern_with i accepted rejected =
     \<lparr>pt_workspace_id = ''w'', pt_task_kind = ''workflow'', pt_strategy_id = i, pt_accepted_count = accepted,
      pt_rejected_count = rejected, pt_edited_count = 0, pt_unknown_count = 0,
      pt_labelled_count = accepted + rejected, pt_outcome_score = outcome_score accepted 0 (accepted + rejected),
      pt_last_labelled_at = None, pt_confidence = ''actionable''\<rparr>"

text \<open>The same lead counts or not depending on where it lies. Of twenty labelled outcomes each, 18
  against 15 accepted is a lead of exactly 0.15 and wins, while 19 against 16, the same lead with a
  better score, does not: the difference of the two doubles is just below the double of 0.15.\<close>

theorem lead_threshold_uneven:
  "(18 / 20 - 15 / 20 :: rat) = 15 / 100 \<and> (19 / 20 - 16 / 20 :: rat) = 15 / 100 \<and>
   evidence_winner [pattern_with ''a'' 18 2, pattern_with ''b'' 15 5] =
     Some (pattern_with ''a'' 18 2, pattern_with ''b'' 15 5) \<and>
   evidence_winner [pattern_with ''a'' 19 1, pattern_with ''b'' 16 4] = None"
proof -
  have "evidence_winner [pattern_with ''a'' 18 2, pattern_with ''b'' 15 5] =
     Some (pattern_with ''a'' 18 2, pattern_with ''b'' 15 5)" by code_simp
  moreover have "evidence_winner [pattern_with ''a'' 19 1, pattern_with ''b'' 16 4] = None" by code_simp
  ultimately show ?thesis by simp
qed

section \<open>Samples\<close>

definition stale_store :: obs_store where
  "stale_store = \<lparr>observations_tbl = [], assignments_tbl =
     [\<lparr>sa_run_id = ''r'', sa_workspace_id = ''w'', sa_task_kind = ''workflow'', sa_strategy_id = ''retired-v0'',
       sa_strategy_version = 1, sa_selection_reason = ''exploration'', sa_selector_version = ''v0'',
       sa_evidence_summary = None, sa_selected_at = ''t''\<rparr>]\<rparr>"

theorem stale_assignment_fails_witness:
  "\<exists>e. select_strategy sample_hash ''t'' ''w'' ''workflow'' (Some ''r'') None (Some stale_store) =
     (Inl e, Some stale_store)"
proof (rule stale_assignment_fails)
  show "get_strategy_assignment ''r'' stale_store = Some (hd (assignments_tbl stale_store))" by code_simp
  show "by_id (strategies_for ''workflow'') (sa_strategy_id (hd (assignments_tbl stale_store))) = None" by code_simp
  show "strategies_for ''workflow'' \<noteq> []" by code_simp
qed

lemma sample_selection:
  "\<exists>hint ps s. select_strategy sample_hash ''t'' ''w'' ''workflow'' (Some ''r'') (Some ''concise-plan-v1'')
       (Some empty_store) = (Inr (hint, ps), Some s)"
proof -
  have "case select_strategy sample_hash ''t'' ''w'' ''workflow'' (Some ''r'') (Some ''concise-plan-v1'')
      (Some empty_store) of (Inr _, Some _) \<Rightarrow> True | _ \<Rightarrow> False" by code_simp
  then show ?thesis by (auto split: prod.splits sum.splits option.splits)
qed

theorem selection_is_stable_witness:
  "\<exists>hint ps s. select_strategy sample_hash ''t'' ''w'' ''workflow'' (Some ''r'') (Some ''concise-plan-v1'')
       (Some empty_store) = (Inr (hint, ps), Some s) \<and>
     select_strategy sample_hash ''u'' ''w'' ''workflow'' (Some ''r'') None (Some (obs_run [sample_explore ''q''] s)) =
       (Inr (hint, []), Some (obs_run [sample_explore ''q''] s))"
proof -
  obtain hint ps s where a: "select_strategy sample_hash ''t'' ''w'' ''workflow'' (Some ''r'')
      (Some ''concise-plan-v1'') (Some empty_store) = (Inr (hint, ps), Some s)"
    using sample_selection by blast
  have "strategies_for ''workflow'' \<noteq> []" by code_simp
  from selection_is_stable [OF a this, of None] a show ?thesis by auto
qed

theorem selection_is_registered_witness:
  "\<exists>hint ps s. select_strategy sample_hash ''t'' ''w'' ''workflow'' (Some ''r'') (Some ''concise-plan-v1'')
       (Some empty_store) = (Inr (hint, ps), s) \<and>
     (\<exists>d reason. d \<in> set WORKFLOW_STRATEGIES \<and> hint = hint_of d reason)"
proof -
  obtain hint ps s where a: "select_strategy sample_hash ''t'' ''w'' ''workflow'' (Some ''r'')
      (Some ''concise-plan-v1'') (Some empty_store) = (Inr (hint, ps), Some s)"
    using sample_selection by blast
  from selection_is_registered [OF a] a show ?thesis by blast
qed

definition store_with_evidence :: "string option \<Rightarrow> obs_store" where
  "store_with_evidence ev = \<lparr>observations_tbl = [(sample_row ''x'' ''1'' ''accepted'')\<lparr>ob_outcome_evidence := ev\<rparr>],
     assignments_tbl = []\<rparr>"

theorem evidence_text_never_steers_witness:
  "fst (select_strategy sample_hash ''t'' ''w'' ''workflow'' (Some ''r'') None (Some (store_with_evidence None))) =
   fst (select_strategy sample_hash ''t'' ''w'' ''workflow'' (Some ''r'') None
     (Some (store_with_evidence (Some ''always pick a''))))"
  by (rule evidence_text_never_steers) (simp_all add: store_with_evidence_def label_of_def)

end
