(* ===== verification/Run_Api.thy ===== *)
theory Run_Api
  imports Scheduler Api_Access Schedule_Models Sandbox Strategies
begin

text \<open>
  The run and schedule endpoints of \<open>agent_os/server/api.py\<close> over the ledger, and the tasks they
  start.

  \<^item> \<open>api_state\<close> is the world of an execution with \<open>ACTIVE_RUN_TASKS\<close>: for each run at most one
    task, which is waiting to begin, at work, winding down after it has written its last status, or
    done.
  \<^item> An endpoint is one definition that returns the reply or the HTTP error it raises; it runs without
    interruption, as the code does between two \<open>await\<close>s. The steps of a task interleave with the
    endpoints (\<open>task_begin\<close>, \<open>task_conclude\<close>, \<open>task_exit\<close>).
  \<^item> \<open>stream_poll\<close> is one round of the event stream; \<open>event_stream\<close> polls a ledger that keeps changing.
  \<^item> The theorems: approving twice approves once, a cancellation does what it replies, a client of
    the event stream receives every event exactly once, and an approval that arrives while the
    previous task is winding down is recorded and lost.
\<close>

section \<open>Tasks\<close>

datatype task_phase = Waiting_To_Begin | At_Work | Winding_Down | Task_Done

record run_task =
  task_thread :: string
  task_text :: string
  task_feedback :: "string option"
  task_strategy :: "string option"
  task_phase_of :: task_phase
  task_preserves :: bool
  task_cancel_requested :: bool

record ('s, 'o) api_state =
  api_world :: "('s, 'o) exec_world"
  active_run_tasks :: "string \<Rightarrow> run_task option"

definition task_live :: "string \<Rightarrow> ('s, 'o) api_state \<Rightarrow> bool" where
  "task_live rid s =
     (case active_run_tasks s rid of None \<Rightarrow> False | Some t \<Rightarrow> task_phase_of t \<noteq> Task_Done)"

definition start_run_task ::
  "string \<Rightarrow> string \<Rightarrow> string \<Rightarrow> string option \<Rightarrow> string option \<Rightarrow> ('s, 'o) api_state \<Rightarrow> ('s, 'o) api_state" where
  "start_run_task rid thread text feedback strategy s =
     (if task_live rid s then s
      else s\<lparr>active_run_tasks := (active_run_tasks s)(rid \<mapsto>
             \<lparr>task_thread = thread, task_text = text, task_feedback = feedback, task_strategy = strategy,
              task_phase_of = Waiting_To_Begin, task_preserves = False,
              task_cancel_requested = False\<rparr>)\<rparr>)"

definition set_task :: "string \<Rightarrow> (run_task \<Rightarrow> run_task) \<Rightarrow> ('s, 'o) api_state \<Rightarrow> ('s, 'o) api_state" where
  "set_task rid f s =
     s\<lparr>active_run_tasks := (active_run_tasks s)(rid := map_option f (active_run_tasks s rid))\<rparr>"

text \<open>The first step of a task. One that was cancelled before it began never enters \<open>runner\<close>: it is
  done, and stays in the table because the \<open>finally\<close> that removes it is not reached.\<close>

definition task_begin :: "string \<Rightarrow> ('s, 'o) api_state \<Rightarrow> ('s, 'o) api_state" where
  "task_begin rid s =
     (case active_run_tasks s rid of
        None \<Rightarrow> s
      | Some t \<Rightarrow>
          if task_cancel_requested t then set_task rid (\<lambda>t. t\<lparr>task_phase_of := Task_Done\<rparr>) s
          else set_task rid (\<lambda>t. t\<lparr>task_phase_of := At_Work\<rparr>)
                 (s\<lparr>api_world := start_run rid (api_world s)\<rparr>))"

text \<open>The graph has ended: the executor has written its last status, and the task awaits the end of
  its checkpointer.\<close>

definition task_conclude ::
  "'o exec_lib \<Rightarrow> string \<Rightarrow> run_row \<Rightarrow> graph_end \<Rightarrow> ('s, 'o) api_state \<Rightarrow> ('s, 'o) api_state" where
  "task_conclude lib rid run ending s =
     (case active_run_tasks s rid of
        None \<Rightarrow> s
      | Some t \<Rightarrow>
          set_task rid (\<lambda>t. t\<lparr>task_phase_of := Winding_Down, task_preserves := preserves_session ending\<rparr>)
            (s\<lparr>api_world := snd (conclude_run lib rid (task_thread t) run ending (api_world s))\<rparr>))"

text \<open>What \<open>runner\<close> does when \<open>execute_run\<close> was cancelled.\<close>

definition runner_cancelled :: "string \<Rightarrow> ('s, 'o) exec_world \<Rightarrow> ('s, 'o) exec_world" where
  "runner_cancelled rid w =
     (case get_run rid (w_ledger w) of
        None \<Rightarrow> w
      | Some run \<Rightarrow>
          if run_status run \<in> set TERMINAL_RUN_STATUSES then w
          else log_event rid ''status'' [(''status'', PStr ''cancelled'')] (put rid ''cancelled'' None True w))"

definition task_exit :: "string \<Rightarrow> ('s, 'o) api_state \<Rightarrow> ('s, 'o) api_state" where
  "task_exit rid s =
     (case active_run_tasks s rid of
        None \<Rightarrow> s
      | Some t \<Rightarrow>
          (let w = cleanup rid (task_preserves t) (api_world s)
           in s\<lparr>api_world := (if task_cancel_requested t then runner_cancelled rid w else w),
                active_run_tasks := (active_run_tasks s)(rid := None)\<rparr>))"

section \<open>Creating, approving and cancelling\<close>

record create_run_request =
  req_task :: string
  req_thread_id :: "string option"
  req_workspace :: "string option"
  req_strategy_id :: "string option"

record run_api_lib =
  api_os :: os_env
  api_host :: host_lib

definition strategy_allowed :: "string \<Rightarrow> string \<Rightarrow> bool" where
  "strategy_allowed task i = (i \<in> set (map sd_strategy_id (strategies_for (task_kind_for_input task))))"

definition path_string :: "string list \<Rightarrow> string" where
  "path_string p = ''/'' @ join ''/'' p"

definition emit_with ::
  "'o exec_lib \<Rightarrow> string \<Rightarrow> string \<Rightarrow> string \<Rightarrow> string \<Rightarrow> principal \<Rightarrow> string option
     \<Rightarrow> ('s, 'o) exec_world \<Rightarrow> ('s, 'o) exec_world" where
  "emit_with lib event_type rid workspace_id st p thread w =
     (case emit_run_lifecycle_event (event_sinks lib) (w_clock w 0) event_type rid workspace_id st
             (Some p) None thread (w_outside w) of
        Inl _ \<Rightarrow> w
      | Inr out \<Rightarrow> w\<lparr>w_outside := out, w_clock := (\<lambda>n. w_clock w (Suc n))\<rparr>)"

definition create_run_endpoint ::
  "run_api_lib \<Rightarrow> 'o exec_lib \<Rightarrow> string \<Rightarrow> string \<Rightarrow> create_run_request \<Rightarrow> request_context
     \<Rightarrow> ('s, 'o) api_state \<Rightarrow> (string \<times> string \<times> string) reply result \<times> ('s, 'o) api_state" where
  "create_run_endpoint alib lib thread_uuid run_uuid req ctx s =
     (if (case req_strategy_id req of None \<Rightarrow> False | Some i \<Rightarrow> \<not> strategy_allowed (req_task req) i)
      then (Inr (HttpError 422 ''Strategy is not allowed for this task kind''), s)
      else case resolve_workspace_root (api_os alib) (req_workspace req) of
        Inl (ValueError m) \<Rightarrow> (Inr (HttpError 422 m), s)
      | Inl e \<Rightarrow> (Inl e, s)
      | Inr base \<Rightarrow>
          (let workspace = path_string base; thread = or_str (req_thread_id req) thread_uuid
           in case resolve_principal (api_host alib) ctx of
                Inl e \<Rightarrow> (Inl e, s)
              | Inr p \<Rightarrow>
                  (let w = api_world s
                   in case create_run run_uuid (w_clock w 0) thread
                             \<lparr>run_arg_workspace = Some workspace, run_arg_task = Some (req_task req),
                              run_arg_workspace_id = Some workspace, run_arg_created_by = None,
                              run_arg_created_by_kind = None, run_arg_principal = Some p\<rparr>
                             (w_ledger w) of
                        Inl e \<Rightarrow> (Inl e, s)
                      | Inr (rid, l) \<Rightarrow>
                          (let w1 = w\<lparr>w_ledger := l, w_clock := (\<lambda>n. w_clock w (Suc n))\<rparr>;
                               w2 = emit_with lib ''run.created'' rid workspace ''queued'' p (Some thread) w1
                           in (Inr (Pass (rid, thread, ''queued'')),
                               start_run_task rid thread (req_task req) None (req_strategy_id req) (s\<lparr>api_world := w2\<rparr>))))))"

definition approval_of :: "principal \<Rightarrow> string \<Rightarrow> string option \<Rightarrow> approval_args" where
  "approval_of p what why =
     \<lparr>arg_decision = what, arg_actor_id = principal_id p, arg_actor_kind = principal_kind p,
      arg_on_behalf_of = principal_on_behalf_of p, arg_reason = why\<rparr>"

definition truthy_opt :: "string option \<Rightarrow> string option" where
  "truthy_opt v = (if opt_truthy v then v else None)"

definition approve_run_endpoint ::
  "run_api_lib \<Rightarrow> 'o exec_lib \<Rightarrow> string \<Rightarrow> string option \<Rightarrow> request_context \<Rightarrow> ('s, 'o) api_state
     \<Rightarrow> string reply result \<times> ('s, 'o) api_state" where
  "approve_run_endpoint alib lib rid feedback ctx s =
     (let w = api_world s
      in case get_run rid (w_ledger w) of
           None \<Rightarrow> (Inr (HttpError 404 ''Run not found''), s)
         | Some run \<Rightarrow>
             if run_status run \<noteq> ''interrupted'' then
               (if run_status run = ''running'' then (Inr (Pass ''running''), s)
                else (Inr (HttpError 409 ''Run is not interrupted''), s))
             else case resolve_principal (api_host alib) ctx of
               Inl e \<Rightarrow> (Inl e, s)
             | Inr p \<Rightarrow>
                 (case record_approval_and_transition (w_clock w 0) rid
                         (approval_of p ''approved'' (truthy_opt feedback)) ''interrupted'' ''running''
                         None False (w_ledger w) of
                    (False, _) \<Rightarrow>
                      (case get_run rid (w_ledger w) of
                         Some latest \<Rightarrow>
                           if run_status latest = ''running'' then (Inr (Pass ''running''), s)
                           else (Inr (HttpError 409 ''Run is not interrupted''), s)
                       | None \<Rightarrow> (Inr (HttpError 409 ''Run is not interrupted''), s))
                  | (True, l) \<Rightarrow>
                      (let w1 = w\<lparr>w_ledger := l, w_clock := (\<lambda>n. w_clock w (Suc n))\<rparr>;
                           w2 = emit_with lib ''run.approved'' rid (workspace_label run) ''running'' p
                                  (Some (thread_id run)) w1
                       in (Inr (Pass ''running''),
                           start_run_task rid (thread_id run) []
                             (Some (case feedback of None \<Rightarrow> [] | Some f \<Rightarrow> f)) None (s\<lparr>api_world := w2\<rparr>)))))"

definition request_cancel :: "string \<Rightarrow> ('s, 'o) api_state \<Rightarrow> ('s, 'o) api_state" where
  "request_cancel rid s =
     (if task_live rid s then set_task rid (\<lambda>t. t\<lparr>task_cancel_requested := True\<rparr>) s else s)"

definition cancel_run_endpoint ::
  "run_api_lib \<Rightarrow> 'o exec_lib \<Rightarrow> string \<Rightarrow> request_context \<Rightarrow> ('s, 'o) api_state
     \<Rightarrow> string reply result \<times> ('s, 'o) api_state" where
  "cancel_run_endpoint alib lib rid ctx s =
     (let w = api_world s
      in case get_run rid (w_ledger w) of
           None \<Rightarrow> (Inr (HttpError 404 ''Run not found''), s)
         | Some run \<Rightarrow>
             if run_status run \<in> set TERMINAL_RUN_STATUSES
             then (Inr (HttpError 409 ''Run is already terminal''), s)
             else case resolve_principal (api_host alib) ctx of
               Inl e \<Rightarrow> (Inl e, s)
             | Inr p \<Rightarrow>
                 (case record_cancellation_and_transition (w_clock w 0) rid
                         (approval_of p ''cancelled'' None) (w_ledger w) of
                    (False, _) \<Rightarrow>
                      (case get_run rid (w_ledger w) of
                         None \<Rightarrow> (Inr (HttpError 404 ''Run not found''), s)
                       | Some _ \<Rightarrow> (Inr (HttpError 409 ''Run is already terminal''), s))
                  | (True, l) \<Rightarrow>
                      (let w1 = log_event rid ''status'' [(''status'', PStr ''cancelled'')]
                                  (w\<lparr>w_ledger := l, w_clock := (\<lambda>n. w_clock w (Suc n))\<rparr>);
                           w2 = emit_with lib ''run.cancelled'' rid (workspace_label run) ''cancelled'' p
                                  (Some (thread_id run)) w1;
                           w3 = w2\<lparr>w_policy := clear_session rid (w_policy w2)\<rparr>
                       in (Inr (Pass ''cancelled''), (request_cancel rid s)\<lparr>api_world := w3\<rparr>))))"

section \<open>Reading runs\<close>

fun latest_self_check :: "event_row list \<Rightarrow> pydict option" where
  "latest_self_check [] = None"
| "latest_self_check (e # es) =
     (if event_kind e \<noteq> ''result'' then latest_self_check es
      else (case as_dict_value (dict_get (event_payload e) ''self_check'') of
              Some d \<Rightarrow> Some d | None \<Rightarrow> latest_self_check es))"

definition latest_result_self_check :: "string \<Rightarrow> ledger \<Rightarrow> pydict option" where
  "latest_result_self_check rid l = latest_self_check (rev (list_events rid 0 l))"

definition latest_interrupt_prompt :: "string \<Rightarrow> ledger \<Rightarrow> pyval option" where
  "latest_interrupt_prompt rid l =
     (case find (\<lambda>e. event_kind e = ''interrupt'') (rev (list_events rid 0 l)) of
        None \<Rightarrow> None
      | Some e \<Rightarrow> dict_get (event_payload e) ''prompt'')"

record run_view =
  view_run :: run_row
  view_self_check :: "pydict option"
  view_interrupt :: "pyval option"

definition with_result_self_check :: "ledger \<Rightarrow> run_row \<Rightarrow> run_view" where
  "with_result_self_check l run =
     \<lparr>view_run = run,
      view_self_check = (if run_status run = ''completed''
                         then latest_result_self_check (run_id run) l else None),
      view_interrupt = None\<rparr>"

definition get_run_endpoint :: "string \<Rightarrow> ledger \<Rightarrow> run_view reply" where
  "get_run_endpoint rid l =
     (case get_run rid l of
        None \<Rightarrow> HttpError 404 ''Run not found''
      | Some run \<Rightarrow> Pass ((with_result_self_check l run)
          \<lparr>view_interrupt := (if run_status run = ''interrupted''
                              then latest_interrupt_prompt rid l else None)\<rparr>))"

definition list_runs_endpoint :: "string option \<Rightarrow> string option \<Rightarrow> int \<Rightarrow> ledger \<Rightarrow> run_view list" where
  "list_runs_endpoint st workspace limit l =
     map (with_result_self_check l) (list_runs st workspace None limit l)"

definition get_run_approvals_endpoint :: "string \<Rightarrow> ledger \<Rightarrow> approval_row list reply" where
  "get_run_approvals_endpoint rid l =
     (if get_run rid l = None then HttpError 404 ''Run not found'' else Pass (list_approvals rid l))"

section \<open>The event stream\<close>

text \<open>One round: the events after the last number sent, the new last number, and whether the stream
  ends because the run is gone or has ended.\<close>

definition last_seq :: "int \<Rightarrow> event_row list \<Rightarrow> int" where
  "last_seq seen es = (if es = [] then seen else event_seq (last es))"

definition stream_poll :: "string \<Rightarrow> int \<Rightarrow> ledger \<Rightarrow> event_row list \<times> int \<times> bool" where
  "stream_poll rid seen l =
     (let es = list_events rid seen l
      in (es, last_seq seen es,
          case get_run rid l of None \<Rightarrow> True | Some run \<Rightarrow> run_status run \<in> set TERMINAL_RUN_STATUSES))"

text \<open>The stream of a client over the ledgers it finds at its polls. The first batch is sent without
  looking at the status.\<close>

fun stream_rounds :: "string \<Rightarrow> int \<Rightarrow> ledger list \<Rightarrow> event_row list" where
  "stream_rounds rid seen [] = []"
| "stream_rounds rid seen (l # ls) =
     (case stream_poll rid seen l of
        (es, seen', stop) \<Rightarrow> es @ (if stop then [] else stream_rounds rid seen' ls))"

definition event_stream :: "string \<Rightarrow> int \<Rightarrow> ledger \<Rightarrow> ledger list \<Rightarrow> event_row list" where
  "event_stream rid after l0 ls =
     list_events rid after l0 @ stream_rounds rid (last_seq after (list_events rid after l0)) ls"

section \<open>Schedules\<close>

definition create_schedule_endpoint ::
  "cron_lib \<Rightarrow> url_lib \<Rightarrow> string \<Rightarrow> datetime \<Rightarrow> schedule_input \<Rightarrow> sched_table
     \<Rightarrow> schedule reply result \<times> sched_table" where
  "create_schedule_endpoint lib ulib uuid now i tbl =
     (case create_schedule lib ulib uuid now
             \<lparr>arg_name = in_name i, arg_kind = in_kind i, arg_trigger_kind = input_trigger_kind i,
              arg_trigger_value = input_trigger_value i, arg_timezone = in_timezone i,
              arg_payload = Some (input_payload i), arg_enabled = True\<rparr> tbl of
        Inl (ValueError m) \<Rightarrow> (Inr (HttpError 422 m), tbl)
      | Inl e \<Rightarrow> (Inl e, tbl)
      | Inr (sid, tbl') \<Rightarrow>
          (case get_schedule sid tbl' of
             None \<Rightarrow> (Inr (HttpError 500 ''Failed to retrieve created schedule''), tbl')
           | Some sch \<Rightarrow> (Inr (Pass sch), tbl')))"

section \<open>Creating\<close>

lemma emit_with_frame [simp]:
  "w_ledger (emit_with lib ev rid ws st p th w) = w_ledger w"
  "w_policy (emit_with lib ev rid ws st p th w) = w_policy w"
  by (simp_all add: emit_with_def split: sum.splits)

lemma start_run_task_frame [simp]: "api_world (start_run_task rid th tx fb st s) = api_world s"
  by (simp add: start_run_task_def)

lemma start_run_task_live [simp]: "task_live rid (start_run_task rid th tx fb st s)"
  by (simp add: start_run_task_def task_live_def)

lemma get_created_run:
  assumes "create_run uuid now thread a l = Inr (rid, l')" "run_arg_workspace a = Some ws"
  shows "\<exists>run. get_run rid l' = Some run \<and> run_status run = ''queued'' \<and> run_workspace run = Some ws \<and>
           thread_id run = thread \<and> run_task run = run_arg_task a"
  using assms
  by (auto simp: create_run_def get_run_def Let_def lookup_append lookup_Cons split: if_splits)

text \<open>A run that the endpoint creates is confined. The reply names a run that is queued in the
  ledger with a live task; its workspace is an existing directory below the configured sandbox
  reached without symbolic links, and a strategy it asks for is registered for its kind of
  task.\<close>

theorem created_run_confined:
  assumes "create_run_endpoint alib lib tu ru req ctx s = (Inr (Pass (rid, thread, st)), s')"
  shows "\<exists>base x run. configured_sandbox_root (api_os alib) = Inr base \<and>
           is_dir (os_fs (api_os alib)) (base @ x) \<and> link_free (os_fs (api_os alib)) (base @ x) \<and>
           get_run rid (w_ledger (api_world s')) = Some run \<and> run_status run = ''queued'' \<and> st = ''queued'' \<and>
           run_workspace run = Some (path_string (base @ x)) \<and> task_live rid s' \<and>
           (case req_strategy_id req of None \<Rightarrow> True | Some i \<Rightarrow> strategy_allowed (req_task req) i)"
proof -
  let ?w = "api_world s"
  from assms obtain p where r: "resolve_workspace_root (api_os alib) (req_workspace req) = Inr p"
    by (auto simp: create_run_endpoint_def split: if_splits sum.splits py_exn.splits)
  from assms r obtain pr where pr: "resolve_principal (api_host alib) ctx = Inr pr"
    by (auto simp: create_run_endpoint_def Let_def split: if_splits sum.splits)
  define a where "a = \<lparr>run_arg_workspace = Some (path_string p), run_arg_task = Some (req_task req),
      run_arg_workspace_id = Some (path_string p), run_arg_created_by = None,
      run_arg_created_by_kind = None, run_arg_principal = Some pr\<rparr>"
  from assms r pr obtain l where c: "create_run ru (w_clock ?w 0) thread a (w_ledger ?w) = Inr (rid, l)"
    and l: "w_ledger (api_world s') = l" "task_live rid s'" "st = ''queued''"
      "case req_strategy_id req of None \<Rightarrow> True | Some i \<Rightarrow> strategy_allowed (req_task req) i"
    by (auto simp: create_run_endpoint_def Let_def a_def split: if_splits sum.splits option.splits)
  from get_created_run [OF c, of "path_string p"] have run: "\<exists>run. get_run rid l = Some run \<and>
      run_status run = ''queued'' \<and> run_workspace run = Some (path_string p)" by (auto simp: a_def)
  from r show ?thesis by (rule workspace_root_facts) (use run l in auto)
qed

section \<open>Approving\<close>

text \<open>The approval of an interrupted run, in one equation.\<close>

lemma approve_endpoint_interrupted:
  assumes "get_run rid (w_ledger (api_world s)) = Some run" "run_status run = ''interrupted''"
    and "resolve_principal (api_host alib) ctx = Inr p"
  obtains w where
    "approve_run_endpoint alib lib rid fb ctx s =
       (Inr (Pass ''running''), start_run_task rid (thread_id run) []
          (Some (case fb of None \<Rightarrow> [] | Some f \<Rightarrow> f)) None (s\<lparr>api_world := w\<rparr>))"
    "w_ledger w = snd (record_approval_and_transition (w_clock (api_world s) 0) rid
       (approval_of p ''approved'' (truthy_opt fb)) ''interrupted'' ''running'' None False
       (w_ledger (api_world s)))"
proof -
  let ?r = "record_approval_and_transition (w_clock (api_world s) 0) rid
       (approval_of p ''approved'' (truthy_opt fb)) ''interrupted'' ''running'' None False
       (w_ledger (api_world s))"
  have "fst ?r" using assms(1,2) by (simp add: approve_eq status_of_def)
  then obtain l where r: "?r = (True, l)" by (cases ?r) auto
  show ?thesis
    by (rule that [of "emit_with lib ''run.approved'' rid (workspace_label run) ''running'' p
          (Some (thread_id run)) ((api_world s)\<lparr>w_ledger := l,
            w_clock := (\<lambda>n. w_clock (api_world s) (Suc n))\<rparr>)"])
       (simp_all add: approve_run_endpoint_def Let_def assms r)
qed

text \<open>C16: approving twice approves once. Approving an interrupted run that has no live task replies
  \<open>running\<close>, writes one audit record of the caller and starts one task with the feedback; a second
  approval, whoever sends it, replies \<open>running\<close> and changes nothing.\<close>

theorem approve_endpoint_idempotent:
  assumes "ledger_inv (w_ledger (api_world s))" "\<not> task_live rid s"
    and "status_of rid (w_ledger (api_world s)) = Some ''interrupted''"
    and "resolve_principal (api_host alib) ctx = Inr p"
    and "approve_run_endpoint alib lib rid fb ctx s = (rep, s')"
  shows "rep = Inr (Pass ''running'') \<and> status_of rid (w_ledger (api_world s')) = Some ''running'' \<and>
         length (list_approvals rid (w_ledger (api_world s'))) =
           Suc (length (list_approvals rid (w_ledger (api_world s)))) \<and>
         (\<exists>t. active_run_tasks s' rid = Some t \<and> task_phase_of t = Waiting_To_Begin \<and>
              task_feedback t = Some (case fb of None \<Rightarrow> [] | Some f \<Rightarrow> f)) \<and>
         approve_run_endpoint alib lib rid fb' ctx' s' = (Inr (Pass ''running''), s')"
proof -
  let ?l = "w_ledger (api_world s)" and ?now = "w_clock (api_world s) 0"
    and ?a = "approval_of p ''approved'' (truthy_opt fb)"
  from assms(3) obtain run where run: "get_run rid ?l = Some run" "run_status run = ''interrupted''"
    by (auto simp: status_of_def)
  from run assms(4) obtain w where e: "approve_run_endpoint alib lib rid fb ctx s =
       (Inr (Pass ''running''), start_run_task rid (thread_id run) []
          (Some (case fb of None \<Rightarrow> [] | Some f \<Rightarrow> f)) None (s\<lparr>api_world := w\<rparr>))"
    and l': "w_ledger w = snd (record_approval_and_transition ?now rid ?a ''interrupted'' ''running''
       None False ?l)"
    by (rule approve_endpoint_interrupted)
  have s': "rep = Inr (Pass ''running'')" "s' = start_run_task rid (thread_id run) []
      (Some (case fb of None \<Rightarrow> [] | Some f \<Rightarrow> f)) None (s\<lparr>api_world := w\<rparr>)" using assms(5) e by auto
  have c: "contend approve_cas rid ''interrupted'' [((?now, ?a, None, False), ''running'')] ?l =
      ([True], w_ledger w)"
    using approval.one_winner [OF assms(1,3), of "''running''" "(?now, ?a, None, False)" "[]"]
    by (simp add: l' approve_cas_def)
  note once = approve_once_facts [OF assms(1,3) c]
  then have st: "status_of rid (w_ledger w) = Some ''running''"
    and len: "length (list_approvals rid (w_ledger w)) = Suc (length (list_approvals rid ?l))" by auto
  have again: "approve_run_endpoint alib lib rid fb' ctx' s' = (Inr (Pass ''running''), s')"
    using st by (auto simp: approve_run_endpoint_def Let_def s' status_of_def)
  show ?thesis using s' st len again assms(2) by (simp add: start_run_task_def task_live_def)
qed

text \<open>An approval can be lost. Between the moment a task has written \<open>interrupted\<close> to the ledger
  and the moment it has left the task table, an approval is accepted, audited and answered with
  \<open>running\<close>, but no task is started; once the old task has left, the run is \<open>running\<close> with nothing
  running it, and every further approval is answered with \<open>running\<close> as well.\<close>

theorem approval_lost_while_winding_down:
  assumes "ledger_inv (w_ledger (api_world s))"
    and "active_run_tasks s rid = Some t" "task_phase_of t = Winding_Down"
    and "\<not> task_cancel_requested t"
    and "status_of rid (w_ledger (api_world s)) = Some ''interrupted''"
    and "resolve_principal (api_host alib) ctx = Inr p"
    and "approve_run_endpoint alib lib rid fb ctx s = (rep, s')"
  shows "rep = Inr (Pass ''running'') \<and>
         status_of rid (w_ledger (api_world (task_exit rid s'))) = Some ''running'' \<and>
         active_run_tasks (task_exit rid s') rid = None \<and>
         approve_run_endpoint alib lib rid fb' ctx' (task_exit rid s') =
           (Inr (Pass ''running''), task_exit rid s')"
proof -
  let ?l = "w_ledger (api_world s)"
  from assms(5) obtain run where run: "get_run rid ?l = Some run" "run_status run = ''interrupted''"
    by (auto simp: status_of_def)
  from run assms(6) obtain w where e: "approve_run_endpoint alib lib rid fb ctx s =
       (Inr (Pass ''running''), start_run_task rid (thread_id run) []
          (Some (case fb of None \<Rightarrow> [] | Some f \<Rightarrow> f)) None (s\<lparr>api_world := w\<rparr>))"
    and l': "w_ledger w = snd (record_approval_and_transition (w_clock (api_world s) 0) rid
       (approval_of p ''approved'' (truthy_opt fb)) ''interrupted'' ''running'' None False ?l)"
    by (rule approve_endpoint_interrupted)
  have st: "status_of rid (w_ledger w) = Some ''running''"
    using approval.cas_status [OF assms(1), of rid "(w_clock (api_world s) 0,
        approval_of p ''approved'' (truthy_opt fb), None, False)" rid "''interrupted''" "''running''"]
      assms(5)
    by (simp add: l' approve_cas_def)
  have "s' = s\<lparr>api_world := w\<rparr>" and rep: "rep = Inr (Pass ''running'')"
    using assms(2,3,7) e by (simp_all add: start_run_task_def task_live_def)
  then have "w_ledger (api_world (task_exit rid s')) = w_ledger w"
    and gone: "active_run_tasks (task_exit rid s') rid = None"
    using assms(2,4) by (simp_all add: task_exit_def Let_def cleanup_def)
  with st have "status_of rid (w_ledger (api_world (task_exit rid s'))) = Some ''running''" by simp
  then show ?thesis
    using rep gone by (auto simp: approve_run_endpoint_def Let_def status_of_def)
qed

section \<open>Cancelling\<close>

lemma list_events_log:
  assumes "ledger_inv (w_ledger w)"
  shows "\<exists>e. list_events rid 0 (w_ledger (log_event rid k p w)) = list_events rid 0 (w_ledger w) @ [e] \<and>
             event_kind e = k \<and> event_payload e = p"
proof -
  let ?l = "w_ledger w" and ?l' = "w_ledger (log_event rid k p w)"
  have l': "?l' = ledger_exec (DoEvent (w_clock w 0) rid k p) ?l" by (simp add: log_event_def stamped_def)
  have i: "ledger_inv ?l'" unfolding l' using assms by (rule ledger_exec_inv)
  show ?thesis
    using list_events_raw [OF i, of rid 0] list_events_raw [OF assms, of rid 0]
    unfolding l' by (auto simp: append_event_def Let_def)
qed

text \<open>A cancellation does what it replies. The endpoint answers 404 exactly for an unknown run and
  409 exactly for one that has ended, and then changes nothing; otherwise it answers \<open>cancelled\<close>,
  the run is \<open>cancelled\<close> in the ledger, its log ends with that status, its task, if it has a live one, is
  asked to stop and its session grants are gone.\<close>

theorem cancel_endpoint_effect:
  assumes "ledger_inv (w_ledger (api_world s))"
    and "resolve_principal (api_host alib) ctx = Inr p"
    and "cancel_run_endpoint alib lib rid ctx s = (rep, s')"
  shows "case status_of rid (w_ledger (api_world s)) of
           None \<Rightarrow> rep = Inr (HttpError 404 ''Run not found'') \<and> s' = s
         | Some st \<Rightarrow>
             if st \<in> set TERMINAL_RUN_STATUSES
             then rep = Inr (HttpError 409 ''Run is already terminal'') \<and> s' = s
             else rep = Inr (Pass ''cancelled'') \<and>
                  status_of rid (w_ledger (api_world s')) = Some ''cancelled'' \<and>
                  (\<exists>e. list_events rid 0 (w_ledger (api_world s')) =
                         list_events rid 0 (w_ledger (api_world s)) @ [e] \<and>
                       event_payload e = [(''status'', PStr ''cancelled'')]) \<and>
                  (if task_live rid s
                   then map_option task_cancel_requested (active_run_tasks s' rid) = Some True
                   else active_run_tasks s' = active_run_tasks s) \<and>
                  session_approved (w_policy (api_world s')) rid = None"
proof (cases "get_run rid (w_ledger (api_world s))")
  case None
  with assms(3) show ?thesis by (simp add: cancel_run_endpoint_def status_of_def)
next
  case (Some run)
  let ?w = "api_world s"
  let ?a = "approval_of p ''cancelled'' None"
  obtain ok l where c: "record_cancellation_and_transition (w_clock ?w 0) rid ?a (w_ledger ?w) = (ok, l)"
    by fastforce
  note eff = cancel_facts [OF assms(1) c]
  show ?thesis
  proof (cases "run_status run \<in> set TERMINAL_RUN_STATUSES")
    case True
    with Some assms(3) show ?thesis by (simp add: cancel_run_endpoint_def status_of_def)
  next
    case False
    have ok: "ok" "status_of rid l = Some ''cancelled''"
      using eff Some False by (auto simp: status_of_def)
    let ?wa = "?w\<lparr>w_ledger := l, w_clock := (\<lambda>n. w_clock ?w (Suc n))\<rparr>"
    let ?wb = "log_event rid ''status'' [(''status'', PStr ''cancelled'')] ?wa"
    have s': "rep = Inr (Pass ''cancelled'')" "w_ledger (api_world s') = w_ledger ?wb"
      "session_approved (w_policy (api_world s')) rid = None"
      "active_run_tasks s' = active_run_tasks (request_cancel rid s)"
      using assms(2,3) Some False c ok(1)
      by (auto simp: cancel_run_endpoint_def Let_def clear_session_def)
    have inv: "ledger_inv l" using cancel_inv [OF assms(1)] c by (metis snd_conv)
    have ev: "list_events rid 0 l = list_events rid 0 (w_ledger ?w)"
      using cancel_events [OF c] by (simp add: list_events_def)
    have st: "status_of rid (w_ledger ?wb) = Some ''cancelled''"
      unfolding ok(2) [symmetric] status_of_def using get_run_runs [of "w_ledger ?wb" l rid] by simp
    have log: "\<exists>e. list_events rid 0 (w_ledger ?wb) = list_events rid 0 (w_ledger ?w) @ [e] \<and>
                   event_payload e = [(''status'', PStr ''cancelled'')]"
      using list_events_log [of ?wa rid "''status''" "[(''status'', PStr ''cancelled'')]"] inv
      unfolding ev [symmetric] by force
    have task: "if task_live rid s
                then map_option task_cancel_requested (active_run_tasks s' rid) = Some True
                else active_run_tasks s' = active_run_tasks s"
      unfolding s'(4)
      by (cases "active_run_tasks s rid") (simp_all add: request_cancel_def task_live_def set_task_def)
    have "status_of rid (w_ledger ?w) = Some (run_status run)"
      using Some by (simp add: status_of_def)
    with False st log task s'(1,3) show ?thesis
      unfolding s'(2) [symmetric] by simp
  qed
qed

section \<open>Streaming\<close>

fun polls :: "ledger \<Rightarrow> ledger_op list list \<Rightarrow> ledger list" where
  "polls l [] = []"
| "polls l (ops # more_ops) = ledger_run ops l # polls (ledger_run ops l) more_ops"

text \<open>The last ledger a stream looks at.\<close>

fun stream_end :: "string \<Rightarrow> ledger \<Rightarrow> ledger list \<Rightarrow> ledger" where
  "stream_end rid l [] = l"
| "stream_end rid l (l' # ls) = (if snd (snd (stream_poll rid 0 l')) then l' else stream_end rid l' ls)"

lemma last_seq_eq:
  assumes "ledger_inv l"
  shows "last_seq (int k) (list_events rid (int k) l) = int (max k (length (list_events rid 0 l)))"
proof -
  let ?es = "list_events rid 0 l"
  have drop: "list_events rid (int k) l = drop k ?es"
    using list_events_raw [OF assms, of rid k] list_events_raw [OF assms, of rid 0] by simp
  have d: "dense (map event_seq ?es)"
    using list_events_raw [OF assms, of rid 0] assms by (simp add: ledger_inv_def seqs_of_def)
  show ?thesis
  proof (cases "length ?es \<le> k")
    case True
    then show ?thesis by (simp add: drop last_seq_def max_def)
  next
    case False
    then have "last (drop k ?es) = ?es ! (length ?es - 1)"
      by (simp add: last_conv_nth)
    moreover have "event_seq (?es ! (length ?es - 1)) = int (length ?es - 1) + 1"
      using dense_nth [OF d, of "length ?es - 1"] False by simp
    ultimately show ?thesis using False by (simp add: drop last_seq_def max_def)
  qed
qed

lemma poll_continues:
  assumes "ledger_inv l" "ledger_inv l'" "list_events rid 0 l' = list_events rid 0 l @ es"
  shows "list_events rid (int k) l @ list_events rid (int (max k (length (list_events rid 0 l)))) l' =
         list_events rid (int k) l'"
proof -
  have d: "list_events rid (int m) l = drop m (list_events rid 0 l)"
    "list_events rid (int m) l' = drop m (list_events rid 0 l')" for m
    using list_events_raw [OF assms(1), of rid] list_events_raw [OF assms(2), of rid]
    by (metis (no_types) drop0 of_nat_0)+
  show ?thesis by (simp add: d assms(3) max_def)
qed

lemma stream_rounds_exact:
  assumes "ledger_inv l"
  shows "list_events rid (int k) l @
           stream_rounds rid (int (max k (length (list_events rid 0 l)))) (polls l batches) =
         list_events rid (int k) (stream_end rid l (polls l batches))"
  using assms
proof (induction batches arbitrary: l)
  case (Cons ops batches)
  let ?l' = "ledger_run ops l" and ?n = "max k (length (list_events rid 0 l))"
  have inv': "ledger_inv ?l'" using Cons.prems by (rule ledger_run_inv)
  obtain es where es: "list_events rid 0 ?l' = list_events rid 0 l @ es"
    using events_grow [OF Cons.prems] by blast
  have "max ?n (length (list_events rid 0 ?l')) = max k (length (list_events rid 0 ?l'))"
    by (simp add: es)
  then have seen: "last_seq (int ?n) (list_events rid (int ?n) ?l') =
      int (max k (length (list_events rid 0 ?l')))"
    using last_seq_eq [OF inv', of ?n rid] by simp
  show ?case
    using poll_continues [OF Cons.prems inv' es, of k] Cons.IH [OF inv'] seen
    by (auto simp: stream_poll_def Let_def simp flip: append_assoc)
qed simp


section \<open>Samples\<close>

definition sample_api :: "string \<Rightarrow> run_task option \<Rightarrow> (unit, unit) api_state" where
  "sample_api st t = \<lparr>api_world = sample_exec st, active_run_tasks = (\<lambda>r. if r = ''r'' then t else None)\<rparr>"

definition sample_api_lib :: run_api_lib where
  "sample_api_lib = \<lparr>api_os = sample_os sample_fs, api_host = sample_host\<rparr>"

definition winding_task :: run_task where
  "winding_task = \<lparr>task_thread = ''t'', task_text = ''x'', task_feedback = None, task_strategy = None,
     task_phase_of = Winding_Down, task_preserves = True, task_cancel_requested = False\<rparr>"

lemma sample_api_ledger: "w_ledger (api_world (sample_api st t)) = sample_ledger st"
  by (simp add: sample_api_def sample_exec_def)

lemma sample_principal:
  "\<exists>p. resolve_principal (api_host sample_api_lib) CtxNone = Inr p"
  by (simp add: sample_api_lib_def resolve_principal_def local_principal_eq)

theorem approve_endpoint_idempotent_witness:
  "\<exists>s'. approve_run_endpoint sample_api_lib sample_lib ''r'' (Some ''yes'') CtxNone
          (sample_api ''interrupted'' None) = (Inr (Pass ''running''), s') \<and>
        approve_run_endpoint sample_api_lib sample_lib ''r'' None CtxNone s' =
          (Inr (Pass ''running''), s')"
proof -
  obtain p where p: "resolve_principal (api_host sample_api_lib) CtxNone = Inr p"
    using sample_principal by blast
  obtain rep s' where a: "approve_run_endpoint sample_api_lib sample_lib ''r'' (Some ''yes'') CtxNone
      (sample_api ''interrupted'' None) = (rep, s')" by fastforce
  from approve_endpoint_idempotent [OF _ _ _ p a] a show ?thesis
    by (simp add: sample_api_ledger sample_ledger_inv sample_status) (simp add: sample_api_def task_live_def)
qed

theorem approval_lost_while_winding_down_witness:
  "\<exists>s'. approve_run_endpoint sample_api_lib sample_lib ''r'' (Some ''yes'') CtxNone
          (sample_api ''interrupted'' (Some winding_task)) = (Inr (Pass ''running''), s') \<and>
        status_of ''r'' (w_ledger (api_world (task_exit ''r'' s'))) = Some ''running'' \<and>
        active_run_tasks (task_exit ''r'' s') ''r'' = None"
proof -
  obtain p where p: "resolve_principal (api_host sample_api_lib) CtxNone = Inr p"
    using sample_principal by blast
  obtain rep s' where a: "approve_run_endpoint sample_api_lib sample_lib ''r'' (Some ''yes'') CtxNone
      (sample_api ''interrupted'' (Some winding_task)) = (rep, s')" by fastforce
  have t: "active_run_tasks (sample_api ''interrupted'' (Some winding_task)) ''r'' = Some winding_task"
    "task_phase_of winding_task = Winding_Down" "\<not> task_cancel_requested winding_task"
    by (simp_all add: sample_api_def winding_task_def)
  from approval_lost_while_winding_down [OF _ t _ p a] a show ?thesis
    by (simp add: sample_api_ledger sample_ledger_inv sample_status)
qed

theorem cancel_endpoint_effect_witness:
  "\<exists>s'. cancel_run_endpoint sample_api_lib sample_lib ''r'' CtxNone (sample_api ''running'' (Some winding_task))
          = (Inr (Pass ''cancelled''), s') \<and>
        status_of ''r'' (w_ledger (api_world s')) = Some ''cancelled''"
proof -
  obtain p where p: "resolve_principal (api_host sample_api_lib) CtxNone = Inr p"
    using sample_principal by blast
  obtain rep s' where a: "cancel_run_endpoint sample_api_lib sample_lib ''r'' CtxNone
      (sample_api ''running'' (Some winding_task)) = (rep, s')" by fastforce
  from cancel_endpoint_effect [OF _ p a] a show ?thesis
    by (simp add: sample_api_ledger sample_ledger_inv sample_status TERMINAL_RUN_STATUSES_def)
qed

lemma sample_run_created:
  "\<exists>rid thread st s'. create_run_endpoint sample_api_lib sample_lib ''t'' ''new''
     \<lparr>req_task = ''do it'', req_thread_id = None, req_workspace = Some ''w'', req_strategy_id = Some ''default-v1''\<rparr>
     CtxNone (sample_api ''running'' None) = (Inr (Pass (rid, thread, st)), s')"
proof -
  obtain p where p: "resolve_principal (api_host sample_api_lib) CtxNone = Inr p"
    using sample_principal by blast
  have "resolve_workspace_root (api_os sample_api_lib) (Some ''w'') = Inr [''s'', ''w'']"
    by (simp add: sample_api_lib_def sample_scope)
  moreover have "strategy_allowed ''do it'' ''default-v1''" by code_simp
  ultimately show ?thesis
    by (simp add: create_run_endpoint_def p Let_def sample_api_ledger create_run_def sample_ledger_def
        lookup_Cons sample_run_def)
qed

theorem created_run_confined_witness:
  "\<exists>rid base x run. \<exists>s' :: (unit, unit) api_state. configured_sandbox_root (api_os sample_api_lib) = Inr base \<and>
     get_run rid (w_ledger (api_world s')) = Some run \<and> run_workspace run = Some (path_string (base @ x))"
proof -
  obtain rid thread st s' where "create_run_endpoint sample_api_lib sample_lib ''t'' ''new''
     \<lparr>req_task = ''do it'', req_thread_id = None, req_workspace = Some ''w'', req_strategy_id = Some ''default-v1''\<rparr>
     CtxNone (sample_api ''running'' None) = (Inr (Pass (rid, thread, st)), s')"
    using sample_run_created by blast
  from created_run_confined [OF this] show ?thesis by blast
qed

end
