(* ===== verification/Migrations.thy ===== *)
theory Migrations
  imports Observations Runs
begin

text \<open>
  \<open>agent_os/migrations.py\<close>: the additive migration runner of the SQLite databases.

  \<^item> \<open>is_safe_statement\<close> and \<open>add_column\<close> are the patterns of the module on the text of a statement;
    \<open>apply_statement\<close> is the guarded execution. What a statement does to a database, and the columns
    of a table, are SQLite's: the record \<open>sql_engine\<close>, with an \<open>UPDATE\<close> of the run rows.
  \<^item> \<open>run_migrations\<close> is the runner on a database with its \<open>user_version\<close>; the outcome of the backup is
    an argument. A transaction that is rolled back leaves the database as it was.
  \<^item> The theorems: a run applies all pending migrations in order of version or none, a second run
    does nothing, repeating a statement that adds a column is harmless, the migrations that ship
    pass the guard, and the guard lets statements through that are not additive.
\<close>

section \<open>Patterns\<close>

definition re_word_char :: "char \<Rightarrow> bool" where
  "re_word_char c =
     (if is_lower c then True else if is_upper c then True else if c = CHR ''_'' then True else alnum_char c)"

text \<open>What follows a literal at the start of a text; case is ignored.\<close>

fun skip_word :: "string \<Rightarrow> string \<Rightarrow> string option" where
  "skip_word [] s = Some s"
| "skip_word (w # ws) [] = None"
| "skip_word (w # ws) (c # cs) = (if lower_char c = w then skip_word ws cs else None)"

definition skip_space :: "string \<Rightarrow> string option" where
  "skip_space s = (if s \<noteq> [] \<and> py_isspace (hd s) then Some (dropWhile py_isspace s) else None)"

text \<open>A sequence of words, separated by white space, at the start of a text.\<close>

fun words_here :: "string list \<Rightarrow> string \<Rightarrow> bool" where
  "words_here [] s = (s = [] \<or> \<not> re_word_char (hd s))"
| "words_here [w] s = (case skip_word w s of None \<Rightarrow> False | Some r \<Rightarrow> words_here [] r)"
| "words_here (w # v # ws) s =
     (case skip_word w s of
        None \<Rightarrow> False
      | Some r \<Rightarrow> (case skip_space r of None \<Rightarrow> False | Some r' \<Rightarrow> words_here (v # ws) r'))"

text \<open>Whether one of the patterns \<open>\bw\s+v\b\<close> matches anywhere, in one pass over the text; the flag says
  whether a word character comes before.\<close>

fun search_words :: "string list list \<Rightarrow> bool \<Rightarrow> string \<Rightarrow> bool" where
  "search_words pats inside [] = False"
| "search_words pats inside (c # cs) =
     (if (if inside then False else list_ex (\<lambda>ws. words_here ws (c # cs)) pats) then True
      else search_words pats (re_word_char c) cs)"

definition FORBIDDEN_DDL_PATTERNS :: "string list list" where
  "FORBIDDEN_DDL_PATTERNS =
     [[''drop'', ''table''], [''drop'', ''column''], [''drop'', ''index''], [''rename'', ''to''],
      [''rename'', ''column''], [''truncate''], [''delete'', ''from'']]"

definition is_safe_statement :: "string \<Rightarrow> bool" where
  "is_safe_statement sql =
     (if strip sql = [] then True else \<not> search_words FORBIDDEN_DDL_PATTERNS False (strip sql))"

section \<open>\<open>ALTER TABLE t ADD COLUMN c\<close>\<close>

text \<open>A name with optional quotes; the quotes are not part of it.\<close>

definition read_name :: "string \<Rightarrow> (string \<times> string) option" where
  "read_name s =
     (let s1 = (if s \<noteq> [] \<and> hd s \<in> {CHR 0x60, CHR 0x22, CHR ''[''} then tl s else s);
          name = takeWhile re_word_char s1; s2 = dropWhile re_word_char s1
      in if name = [] then None
         else Some (name, if s2 \<noteq> [] \<and> hd s2 \<in> {CHR 0x60, CHR 0x22, CHR '']''} then tl s2 else s2))"

text \<open>The column and the start of its definition: white space and something other than a
  semicolon.\<close>

definition read_column :: "string \<Rightarrow> string option" where
  "read_column s =
     (case read_name s of
        None \<Rightarrow> None
      | Some (c, r) \<Rightarrow>
          (case r of
             x # y # _ \<Rightarrow> if py_isspace x \<and> y \<noteq> CHR '';'' then Some c else None
           | _ \<Rightarrow> None))"

definition add_column :: "string \<Rightarrow> (string \<times> string) option" where
  "add_column sql =
     Option.bind (skip_word ''alter'' sql) (\<lambda>s1. Option.bind (skip_space s1) (\<lambda>s2.
     Option.bind (skip_word ''table'' s2) (\<lambda>s3. Option.bind (skip_space s3) (\<lambda>s4.
     Option.bind (read_name s4) (\<lambda>(table, s5). Option.bind (skip_space s5) (\<lambda>s6.
     Option.bind (skip_word ''add'' s6) (\<lambda>s7. Option.bind (skip_space s7) (\<lambda>s8.
       let plain = Option.bind (read_column s8) (\<lambda>c. Some (table, c))
       in case Option.bind (skip_word ''column'' s8) skip_space of
            None \<Rightarrow> plain
          | Some s9 \<Rightarrow> (case read_column s9 of None \<Rightarrow> plain | Some c \<Rightarrow> Some (table, c))))))))))"

section \<open>The runner\<close>

record 'd sql_engine =
  sql_execute :: "string \<Rightarrow> 'd \<Rightarrow> 'd result"
  table_columns :: "string \<Rightarrow> 'd \<Rightarrow> string list"
  sql_update_runs :: "(run_row list \<Rightarrow> run_row list) \<Rightarrow> 'd \<Rightarrow> 'd result"

record 'd migration =
  mig_id :: string
  mig_version :: int
  mig_statements :: "string list"
  mig_handler :: "('d \<Rightarrow> 'd result) option"

record 'd database =
  user_version :: int
  db_content :: 'd

definition apply_statement :: "'d sql_engine \<Rightarrow> string \<Rightarrow> 'd \<Rightarrow> 'd result" where
  "apply_statement eng sql d =
     (let clean = strip sql
      in if clean = [] then Inr d
         else if \<not> is_safe_statement clean
         then Inl (OtherError (''Disallowed destructive DDL detected: '' @ clean))
         else case add_column clean of
           Some (table, column) \<Rightarrow>
             if column \<in> set (table_columns eng table d) then Inr d else sql_execute eng clean d
         | None \<Rightarrow> sql_execute eng clean d)"

fun apply_statements :: "'d sql_engine \<Rightarrow> string list \<Rightarrow> 'd \<Rightarrow> 'd result" where
  "apply_statements eng [] d = Inr d"
| "apply_statements eng (sql # sqls) d = bind_result (apply_statement eng sql d) (apply_statements eng sqls)"

definition apply_migration :: "'d sql_engine \<Rightarrow> 'd migration \<Rightarrow> 'd database \<Rightarrow> 'd database result" where
  "apply_migration eng m db =
     bind_result (apply_statements eng (mig_statements m) (db_content db)) (\<lambda>d.
     bind_result (case mig_handler m of None \<Rightarrow> Inr d | Some f \<Rightarrow> f d) (\<lambda>d'.
       Inr \<lparr>user_version = mig_version m, db_content = d'\<rparr>))"

fun apply_migrations :: "'d sql_engine \<Rightarrow> 'd migration list \<Rightarrow> 'd database \<Rightarrow> 'd database result" where
  "apply_migrations eng [] db = Inr db"
| "apply_migrations eng (m # ms) db = bind_result (apply_migration eng m db) (apply_migrations eng ms)"

definition pending :: "'d migration list \<Rightarrow> int \<Rightarrow> 'd migration list" where
  "pending migrations version = sort_key mig_version (filter (\<lambda>m. version < mig_version m) migrations)"

definition run_migrations ::
  "'d sql_engine \<Rightarrow> (int \<Rightarrow> unit result) \<Rightarrow> 'd migration list \<Rightarrow> int \<Rightarrow> 'd database
     \<Rightarrow> string list result \<times> 'd database" where
  "run_migrations eng backup_database migrations baseline db =
     (let current = user_version db; todo = pending migrations current
      in if todo = []
         then (Inr [], if current = 0 \<and> 0 < baseline then db\<lparr>user_version := baseline\<rparr> else db)
         else case backup_database current of
           Inl e \<Rightarrow> (Inl e, db)
         | Inr _ \<Rightarrow>
             (case apply_migrations eng todo db of
                Inl e \<Rightarrow> (Inl (OtherError (''Migration execution failed: '' @ exn_message e)), db)
              | Inr db' \<Rightarrow> (Inr (map mig_id todo), db')))"

section \<open>The migrations that ship\<close>

definition backfill_runs_workspace_id :: "run_row list \<Rightarrow> run_row list" where
  "backfill_runs_workspace_id rows =
     update_where (\<lambda>r. run_workspace_id r = None \<and> run_workspace r \<noteq> None)
       (\<lambda>r. r\<lparr>run_workspace_id := run_workspace r\<rparr>) rows"

definition RUNS_COLUMNS :: "string list" where
  "RUNS_COLUMNS =
     [''ALTER TABLE runs ADD COLUMN workspace_id TEXT'', ''ALTER TABLE runs ADD COLUMN created_by TEXT'',
      ''ALTER TABLE runs ADD COLUMN created_by_kind TEXT'']"

definition RUNS_MIGRATIONS :: "'d sql_engine \<Rightarrow> 'd migration list" where
  "RUNS_MIGRATIONS eng =
     [\<lparr>mig_id = ''0002_add_runs_principal_and_approvals'', mig_version = 2,
       mig_statements =
         RUNS_COLUMNS @
         [''CREATE TABLE IF NOT EXISTS run_approvals ( run_id TEXT NOT NULL, seq INTEGER NOT NULL, decision TEXT NOT NULL, actor_id TEXT NOT NULL, actor_kind TEXT NOT NULL, on_behalf_of TEXT, reason TEXT, decided_at TEXT NOT NULL, PRIMARY KEY (run_id, seq) )'',
          ''CREATE INDEX IF NOT EXISTS run_approvals_run_id_idx ON run_approvals (run_id, seq ASC)''],
       mig_handler = Some (sql_update_runs eng backfill_runs_workspace_id)\<rparr>]"

definition SESSIONS_STATEMENTS :: "string list" where
  "SESSIONS_STATEMENTS =
     [''ALTER TABLE sessions ADD COLUMN workspace_id TEXT'', ''ALTER TABLE sessions ADD COLUMN created_by TEXT'']"

definition SESSIONS_MIGRATIONS :: "'d migration list" where
  "SESSIONS_MIGRATIONS =
     [\<lparr>mig_id = ''0002_add_sessions_workspace_and_principal'', mig_version = 2,
       mig_statements = SESSIONS_STATEMENTS,
       mig_handler = None\<rparr>]"

definition PERMISSIONS_STATEMENTS :: "string list" where
  "PERMISSIONS_STATEMENTS =
     [''ALTER TABLE permission_rules ADD COLUMN workspace_id TEXT'',
      ''ALTER TABLE permission_rules ADD COLUMN taught_by TEXT'']"

definition PERMISSIONS_MIGRATIONS :: "'d migration list" where
  "PERMISSIONS_MIGRATIONS =
     [\<lparr>mig_id = ''0002_add_permission_rules_workspace_and_taught_by'', mig_version = 2,
       mig_statements = PERMISSIONS_STATEMENTS,
       mig_handler = None\<rparr>]"

section \<open>All or nothing\<close>

lemma pending_Nil_iff: "pending ms v = [] \<longleftrightarrow> (\<forall>m\<in>set ms. mig_version m \<le> v)"
proof -
  have "pending ms v = [] \<longleftrightarrow> filter (\<lambda>m. v < mig_version m) ms = []"
    unfolding pending_def by (metis length_0_conv length_sort)
  then show ?thesis by (auto simp: filter_empty_conv not_less)
qed

lemma set_pending: "set (pending ms v) = {m \<in> set ms. v < mig_version m}"
  by (simp add: pending_def)

lemma sorted_pending: "sorted (map mig_version (pending ms v))"
  by (simp add: pending_def)

lemma apply_migrations_version:
  "apply_migrations eng ms db = Inr db' \<Longrightarrow>
     user_version db' = (if ms = [] then user_version db else mig_version (last ms))"
proof (induction ms arbitrary: db)
  case (Cons m ms)
  then obtain db1 where "apply_migration eng m db = Inr db1" "apply_migrations eng ms db1 = Inr db'" by auto
  moreover from this(1) have "user_version db1 = mig_version m" by (auto simp: apply_migration_def)
  ultimately show ?case using Cons.IH by simp
qed simp

lemma sorted_last: "sorted (map f xs) \<Longrightarrow> x \<in> set xs \<Longrightarrow> f x \<le> f (last xs)"
  by (induction xs) auto

lemma last_pending:
  assumes "pending ms v \<noteq> []" "m \<in> set ms"
  shows "v < mig_version (last (pending ms v)) \<and> mig_version m \<le> mig_version (last (pending ms v))"
proof -
  let ?p = "pending ms v"
  have last: "last ?p \<in> set ?p" using assms(1) by simp
  then have v: "v < mig_version (last ?p)" by (simp add: set_pending)
  have "mig_version m \<le> mig_version (last ?p)" if "m \<in> set ?p" for m
    using sorted_pending that by (rule sorted_last)
  with v assms(2) show ?thesis by (cases "v < mig_version m") (auto simp: set_pending)
qed

text \<open>C27: migrations are applied all or none. A run that returns has applied every migration newer
  than the database, in order of version, and the database then has the newest version; a run
  that raises leaves content and version as they were. The version never decreases, and running
  again applies nothing and changes nothing.\<close>

theorem migrations_all_or_none:
  assumes "run_migrations eng backup ms baseline db = (res, db')"
  shows "case res of
           Inl _ \<Rightarrow> db' = db
         | Inr ids \<Rightarrow>
             ids = map mig_id (pending ms (user_version db)) \<and>
             (if ids = [] then db_content db' = db_content db
              else apply_migrations eng (pending ms (user_version db)) db = Inr db' \<and>
                   (\<forall>m\<in>set ms. mig_version m \<le> user_version db')) \<and>
             user_version db \<le> user_version db' \<and>
             (user_version db' \<noteq> 0 \<or> baseline \<le> 0 \<longrightarrow>
                run_migrations eng backup ms baseline db' = (Inr [], db'))"
proof (cases "pending ms (user_version db) = []")
  case True
  then have "\<forall>m\<in>set ms. mig_version m \<le> user_version db" by (simp add: pending_Nil_iff)
  moreover have "user_version db \<le> user_version db'" "db_content db' = db_content db" "res = Inr []"
    using assms True by (auto simp: run_migrations_def Let_def)
  ultimately have "pending ms (user_version db') = []" by (force simp: pending_Nil_iff)
  then show ?thesis
    using True \<open>user_version db \<le> user_version db'\<close> \<open>db_content db' = db_content db\<close> \<open>res = Inr []\<close>
    by (simp add: run_migrations_def Let_def)
next
  case False
  show ?thesis
  proof (cases res)
    case (Inl e)
    with assms False show ?thesis by (auto simp: run_migrations_def Let_def split: sum.splits)
  next
    case (Inr ids)
    with assms False have a: "apply_migrations eng (pending ms (user_version db)) db = Inr db'"
      and ids: "ids = map mig_id (pending ms (user_version db))"
      by (auto simp: run_migrations_def Let_def split: sum.splits)
    have v: "user_version db' = mig_version (last (pending ms (user_version db)))"
      using apply_migrations_version [OF a] False by simp
    have all: "\<forall>m\<in>set ms. mig_version m \<le> user_version db'" and lt: "user_version db < user_version db'"
      using last_pending [OF False] False v by (auto simp: set_pending dest: last_in_set)
    then have "pending ms (user_version db') = []" by (simp add: pending_Nil_iff)
    with a ids all lt Inr False show ?thesis by (auto simp: run_migrations_def Let_def)
  qed
qed

section \<open>Statements\<close>

text \<open>Adding a column twice is adding it once. When executing an \<open>ADD COLUMN\<close> statement of SQLite
  makes the column exist, a statement that was applied is skipped when it is applied again.\<close>

theorem add_column_repeatable:
  assumes "add_column (strip sql) = Some (table, column)" "apply_statement eng sql d = Inr d'"
    and "\<And>x y. sql_execute eng (strip sql) x = Inr y \<Longrightarrow> column \<in> set (table_columns eng table y)"
  shows "apply_statement eng sql d' = Inr d'"
proof -
  have "add_column [] = None" by code_simp
  then have "strip sql \<noteq> []" using assms(1) by auto
  moreover have "is_safe_statement (strip sql)"
    using assms(2) calculation by (simp add: apply_statement_def Let_def split: if_splits)
  moreover from this have "column \<in> set (table_columns eng table d')"
    using assms calculation by (auto simp: apply_statement_def Let_def split: if_splits)
  ultimately show ?thesis using assms(1) by (simp add: apply_statement_def Let_def)
qed

lemma sessions_statements_read:
  "strip ''ALTER TABLE sessions ADD COLUMN workspace_id TEXT'' = ''ALTER TABLE sessions ADD COLUMN workspace_id TEXT''"
  "strip ''ALTER TABLE sessions ADD COLUMN created_by TEXT'' = ''ALTER TABLE sessions ADD COLUMN created_by TEXT''"
  "is_safe_statement ''ALTER TABLE sessions ADD COLUMN workspace_id TEXT''"
  "is_safe_statement ''ALTER TABLE sessions ADD COLUMN created_by TEXT''"
  "add_column ''ALTER TABLE sessions ADD COLUMN workspace_id TEXT'' = Some (''sessions'', ''workspace_id'')"
  "add_column ''ALTER TABLE sessions ADD COLUMN created_by TEXT'' = Some (''sessions'', ''created_by'')"
  by code_simp+

text \<open>The guard on destructive statements accepts every column that the shipped migrations add,
  and refuses the statements it names in any case and spacing; but it knows neither the short
  form that renames a column nor a comment between two words, so that it does not enforce
  additive changes.\<close>

theorem guard_is_not_complete:
  "list_all is_safe_statement (RUNS_COLUMNS @ SESSIONS_STATEMENTS @ PERMISSIONS_STATEMENTS) \<and>
   \<not> is_safe_statement ''drop   Table runs'' \<and> \<not> is_safe_statement ''ALTER TABLE runs RENAME COLUMN a TO b'' \<and>
   is_safe_statement ''ALTER TABLE runs RENAME status TO state'' \<and> is_safe_statement ''DROP/**/TABLE runs''"
proof -
  have "list_all is_safe_statement RUNS_COLUMNS" by code_simp
  moreover have "list_all is_safe_statement SESSIONS_STATEMENTS" by code_simp
  moreover have "list_all is_safe_statement PERMISSIONS_STATEMENTS" by code_simp
  moreover have "\<not> is_safe_statement ''drop   Table runs''" by code_simp
  moreover have "\<not> is_safe_statement ''ALTER TABLE runs RENAME COLUMN a TO b''" by code_simp
  moreover have "is_safe_statement ''ALTER TABLE runs RENAME status TO state''" by code_simp
  moreover have "is_safe_statement ''DROP/**/TABLE runs''" by code_simp
  ultimately show ?thesis by (simp only: list_all_append simp_thms)
qed

section \<open>Samples\<close>

text \<open>A database that knows the columns of its tables and understands \<open>ADD COLUMN\<close>.\<close>

definition sample_engine :: "(string \<times> string) list sql_engine" where
  "sample_engine =
     \<lparr>sql_execute = (\<lambda>sql d. case add_column sql of
         None \<Rightarrow> Inr d
       | Some tc \<Rightarrow> if tc \<in> set d then Inl (OtherError ''duplicate column name'') else Inr (d @ [tc])),
      table_columns = (\<lambda>t d. map snd (filter (\<lambda>(t', _). t' = t) d)),
      sql_update_runs = (\<lambda>_ d. Inr d)\<rparr>"

definition sample_database :: "(string \<times> string) list database" where
  "sample_database = \<lparr>user_version = 1, db_content = [(''sessions'', ''session_id'')]\<rparr>"

lemma sample_run:
  "run_migrations sample_engine (\<lambda>_. Inr ()) SESSIONS_MIGRATIONS 1 sample_database =
     (Inr [''0002_add_sessions_workspace_and_principal''],
      \<lparr>user_version = 2, db_content = [(''sessions'', ''session_id''), (''sessions'', ''workspace_id''),
        (''sessions'', ''created_by'')]\<rparr>)"
  by (simp add: run_migrations_def pending_def SESSIONS_MIGRATIONS_def SESSIONS_STATEMENTS_def sample_database_def
      apply_migration_def apply_statement_def Let_def sessions_statements_read sample_engine_def)

theorem migrations_all_or_none_witness:
  "run_migrations sample_engine (\<lambda>_. Inr ()) SESSIONS_MIGRATIONS 1
     (snd (run_migrations sample_engine (\<lambda>_. Inr ()) SESSIONS_MIGRATIONS 1 sample_database)) =
   (Inr [], snd (run_migrations sample_engine (\<lambda>_. Inr ()) SESSIONS_MIGRATIONS 1 sample_database))"
  using migrations_all_or_none [OF sample_run] by (simp add: sample_run)

theorem add_column_repeatable_witness:
  "apply_statement sample_engine ''ALTER TABLE t ADD COLUMN c TEXT'' [(''t'', ''c'')] = Inr [(''t'', ''c'')]"
proof (rule add_column_repeatable)
  show a: "add_column (strip ''ALTER TABLE t ADD COLUMN c TEXT'') = Some (''t'', ''c'')" by code_simp
  show "apply_statement sample_engine ''ALTER TABLE t ADD COLUMN c TEXT'' [] = Inr [(''t'', ''c'')]" by code_simp
  fix x y
  assume "sql_execute sample_engine (strip ''ALTER TABLE t ADD COLUMN c TEXT'') x = Inr y"
  then show "''c'' \<in> set (table_columns sample_engine ''t'' y)"
    by (force simp: sample_engine_def a split: if_splits)
qed

end
