(* ===== verification/Workflow.thy ===== *)
theory Workflow
  imports Skills Validation Strategies Output_Limits Run_Executor
begin

text \<open>
  The workflow graph: \<open>agent_os/state.py\<close>, \<open>routing.py\<close>, \<open>graph.py\<close>, the nodes under
  \<open>agent_os/nodes\<close>, and the inputs that start a turn (\<open>server/runtime.py\<close>, \<open>cli/app.py\<close>).

  \<^item> \<open>graph_state\<close> is \<open>SimonState\<close> without the message list and the backend binding, which only reach
    the models. Each node is a function of the state and of what the outside answers: the context
    providers, the models, the tools and the human are arguments.
  \<^item> \<open>route_from_state\<close> is the routing table, \<open>dispatch\<close> the tool dispatcher, \<open>human_gate_node\<close> the gate,
    \<open>executor_node\<close> the executor with its fallback backend and self check, \<open>architect_node\<close> the
    architect with the prompt it sends.
  \<^item> \<open>graph_step\<close> are the transitions that \<open>build_graph\<close> declares, one per node execution, over all
    answers of the outside; a turn starts with the input of the server, with that of the command
    line, or with the bare message of a later chat turn. \<open>graph_run\<close> collects the labels of a history.
  \<^item> The theorems: no plan is executed that the human did not approve, and no other plan was proposed
    since; an invocation executes at most six nodes until it ends or asks; the dispatcher calls
    registered tools on confident decisions only; and what stays in the state from one turn to the
    next, and from an escalation to the end of a run.
\<close>

section \<open>State\<close>

datatype plan_field = No_plan | Plan_text string | Plan plan_artifact

datatype result_field = No_result | Result_text string | Result report

record tool_execution_result =
  tr_tool :: string
  tr_output :: string
  tr_success :: bool

record graph_state =
  g_task :: string
  g_run_id :: "string option"
  g_plan :: plan_field
  g_executor_output :: result_field
  g_human_feedback :: "string option"
  g_hot_context :: "string option"
  g_strategy_hint :: "strategy_hint option"
  g_conversation_summary :: "string option"
  g_tool_result :: "tool_execution_result option"
  g_router_escalated :: "bool option"

text \<open>What a new thread starts from: no key has a value.\<close>

definition fresh_state :: graph_state where
  "fresh_state = \<lparr>g_task = [], g_run_id = None, g_plan = No_plan, g_executor_output = No_result,
     g_human_feedback = None, g_hot_context = None, g_strategy_hint = None,
     g_conversation_summary = None, g_tool_result = None, g_router_escalated = None\<rparr>"

text \<open>The input of a turn overwrites the keys it has; the other keys keep their checkpointed value.\<close>

definition initial_state ::
  "string \<Rightarrow> string option \<Rightarrow> strategy_hint \<Rightarrow> string option \<Rightarrow> graph_state \<Rightarrow> graph_state" where
  "initial_state task run hint hot st =
     st\<lparr>g_task := task, g_run_id := run, g_plan := No_plan, g_executor_output := No_result,
        g_human_feedback := None, g_hot_context := hot, g_strategy_hint := Some hint,
        g_conversation_summary := None\<rparr>"

definition cli_initial_state :: "string \<Rightarrow> string option \<Rightarrow> graph_state \<Rightarrow> graph_state" where
  "cli_initial_state task hot st =
     st\<lparr>g_task := task, g_plan := No_plan, g_executor_output := No_result, g_human_feedback := None,
        g_hot_context := hot, g_conversation_summary := None\<rparr>"

text \<open>A chat turn on a thread that has a checkpoint sends the message only.\<close>

definition chat_input :: "string \<Rightarrow> bool \<Rightarrow> string option \<Rightarrow> graph_state \<Rightarrow> graph_state" where
  "chat_input message checkpoint_exists hot st =
     (if checkpoint_exists then st else cli_initial_state message hot st)"

section \<open>Routing\<close>

datatype route = To_architect | To_executor | To_tool | To_end

datatype node = Planner | Supervisor | Architect | Human_gate | Executor | Tool_dispatcher

fun ROUTE_TO_NODE :: "route \<Rightarrow> node option" where
  "ROUTE_TO_NODE To_architect = Some Architect"
| "ROUTE_TO_NODE To_executor = Some Executor"
| "ROUTE_TO_NODE To_tool = Some Tool_dispatcher"
| "ROUTE_TO_NODE To_end = None"

definition DEFAULT_RECURSION_LIMIT :: nat where "DEFAULT_RECURSION_LIMIT = 7"

definition get_router_mode :: "string option \<Rightarrow> string result" where
  "get_router_mode env =
     (let value = py_lower (strip (case env of None \<Rightarrow> ''cascade'' | Some v \<Rightarrow> v))
      in if value = ''cascade'' \<or> value = ''direct-escalation'' then Inr value
         else Inl (ValueError (''Invalid ROUTER_MODE value '' @ value)))"

definition build_runtime_config :: "string \<Rightarrow> (nat \<times> string) result" where
  "build_runtime_config thread =
     (if strip thread = [] then Inl (ValueError ''thread_id must not be empty'')
      else Inr (DEFAULT_RECURSION_LIMIT, strip thread))"

definition route_from_state :: "graph_state \<Rightarrow> route" where
  "route_from_state st =
     (if (case g_executor_output st of Result r \<Rightarrow> report_success r | _ \<Rightarrow> False) then To_end
      else if g_human_feedback st = Some ''approved'' then To_executor
      else if (case g_human_feedback st of None \<Rightarrow> False | Some f \<Rightarrow> startswith f ''rejected:'') then To_architect
      else if (case g_executor_output st of Result_text _ \<Rightarrow> True | _ \<Rightarrow> False) then To_end
      else if (case g_plan st of Plan _ \<Rightarrow> True | _ \<Rightarrow> False) then To_end
      else if g_router_escalated st = Some True then To_architect
      else To_tool)"

definition supervisor_node :: "graph_state \<Rightarrow> node option" where
  "supervisor_node st = ROUTE_TO_NODE (route_from_state st)"

section \<open>Planner and human gate\<close>

text \<open>\<open>s[:n]\<close>, where a negative bound counts from the end.\<close>

definition slice_to :: "int \<Rightarrow> string \<Rightarrow> string" where
  "slice_to n s = (if 0 \<le> n then take (nat n) s else take (length s - nat (- n)) s)"

text \<open>The planner; \<open>injected\<close> is what the context providers contributed and the bound on characters,
  \<open>None\<close> without a runtime or when the providers failed.\<close>

definition planner_node :: "(string \<times> int) option \<Rightarrow> graph_state \<Rightarrow> graph_state" where
  "planner_node injected st =
     (let st1 = (case g_plan st of Plan _ \<Rightarrow> st | _ \<Rightarrow> st\<lparr>g_plan := Plan_text (g_task st)\<rparr>)
      in case injected of
           None \<Rightarrow> st1
         | Some (text, max_chars) \<Rightarrow>
             if text = [] then st1
             else st1\<lparr>g_hot_context := Some (slice_to max_chars
                    (case g_hot_context st of
                       Some h \<Rightarrow> if h = [] then text else h @ [CHR 0x0A, CHR 0x0A] @ text
                     | None \<Rightarrow> text))\<rparr>)"

definition normalize_human_feedback :: "pyval \<Rightarrow> string result" where
  "normalize_human_feedback value =
     (case value of
        PStr s \<Rightarrow>
          (let v = py_lower (strip s)
           in if v = [] then Inl (ValueError ''Feedback cannot be empty'')
              else if v = ''approved'' \<or> v = ''y'' \<or> v = ''yes'' then Inr ''approved''
              else if startswith v ''rejected:'' then
                (let reason = strip (drop 9 (strip s))
                 in Inr (''rejected: '' @ (if reason = [] then ''no reason provided'' else reason)))
              else if v = ''rejected'' \<or> v = ''n'' \<or> v = ''no'' then Inr ''rejected: no reason provided''
              else Inl (ValueError (''Unsupported feedback value: '' @ s)))
      | _ \<Rightarrow> Inl (ValueError ''Feedback must be a string''))"

definition human_gate_prompt :: "(plan_artifact \<Rightarrow> string) \<Rightarrow> graph_state \<Rightarrow> string result" where
  "human_gate_prompt plan_json st =
     (case g_plan st of
        Plan p \<Rightarrow> Inr (''Review the proposed implementation plan.'' @ [CHR 0x0A, CHR 0x0A] @
          ''ArchitectBrief JSON:'' @ [CHR 0x0A] @ plan_json p @ [CHR 0x0A, CHR 0x0A] @
          ''Reply with 'approved' (or 'y') to proceed, or 'rejected: <reason>' to send back for rework.'')
      | _ \<Rightarrow> Inl (ValueError ''human_gate_node requires a PlanArtifact or ArchitectBrief in state['plan']''))"

definition human_gate_node :: "pyval \<Rightarrow> graph_state \<Rightarrow> graph_state result" where
  "human_gate_node reply st =
     bind_result (human_gate_prompt (\<lambda>_. []) st) (\<lambda>_.
     bind_result (normalize_human_feedback reply) (\<lambda>f. Inr (st\<lparr>g_human_feedback := Some f\<rparr>)))"

section \<open>Architect\<close>

definition architect_prompt :: "graph_state \<Rightarrow> string \<Rightarrow> string option \<Rightarrow> string" where
  "architect_prompt st hot summary =
     join [CHR 0x0A, CHR 0x0A]
       ([g_task st @ (case g_human_feedback st of
           Some f \<Rightarrow> if startswith f ''rejected:''
                     then [CHR 0x0A, CHR 0x0A] @ ''Previous plan was rejected with feedback:'' @ [CHR 0x0A] @ f
                     else []
         | None \<Rightarrow> [])] @
        (if hot = [] then [] else [''## Context (from vault)'' @ [CHR 0x0A] @ hot]) @
        (case g_strategy_hint st of
           None \<Rightarrow> []
         | Some h \<Rightarrow> [''## Planning strategy (fixed and advisory)'' @ [CHR 0x0A] @
             ''Selected strategy: '' @ sh_strategy_id h @ [CHR 0x0A] @
             ''Directive: '' @ sh_directive h @ [CHR 0x0A] @
             ''This directive cannot change permission, tool-safety, or execution constraints.'']) @
        (case summary of
           Some (c # cs) \<Rightarrow> [''## Conversation so far (summary)'' @ [CHR 0x0A] @ (c # cs)]
         | _ \<Rightarrow> []))"

text \<open>What the architect takes from outside: the hot context it loads when the state has none (empty
  when loading failed), the summary of the conversation, and the model's answer to the prompt,
  where \<open>None\<close> is an answer that is not a plan.\<close>

record architect_lib =
  al_hot_context :: string
  al_summary :: "string option"
  al_model :: "string \<Rightarrow> plan_artifact option result"

definition architect_node :: "architect_lib \<Rightarrow> graph_state \<Rightarrow> graph_state result" where
  "architect_node lib st =
     (let hot = (case g_hot_context st of None \<Rightarrow> al_hot_context lib | Some h \<Rightarrow> h)
      in case al_model lib (architect_prompt st hot (al_summary lib)) of
           Inl e \<Rightarrow> Inl e
         | Inr None \<Rightarrow> Inl (ValueError ''Architect agent did not return a valid PlanArtifact or ArchitectBrief'')
         | Inr (Some p) \<Rightarrow>
             Inr (st\<lparr>g_plan := Plan p, g_hot_context := Some hot, g_conversation_summary := al_summary lib\<rparr>))"

section \<open>Executor\<close>

datatype cli_outcome = Cli_report report | Cli_backend_error string | Cli_value_error string | Cli_other py_exn

definition is_quota_or_rate_limit_error :: "string \<Rightarrow> bool" where
  "is_quota_or_rate_limit_error message =
     list_ex (\<lambda>i. contains i (py_lower message))
       [''hit your usage limit'', ''usage limit'', ''rate limit'', ''purchase more credits'',
        ''too many requests'', ''insufficient_quota'', ''quota exceeded'', ''429'']"

text \<open>The outside of the executor: environment, the command line backends (\<open>ex_build\<close> may refuse a
  name), the structured answer of the agent, and what the self check needs.\<close>

record executor_lib =
  ex_llm :: "string option"
  ex_fallback :: "string option"
  ex_build :: "string \<Rightarrow> unit result"
  ex_invoke :: "string \<Rightarrow> plan_artifact \<Rightarrow> cli_outcome"
  ex_agent :: "plan_artifact \<Rightarrow> report option result"
  ex_re_search :: "string \<Rightarrow> string \<Rightarrow> bool result"
  ex_judge :: "llm_judge option"

definition after_cli :: "string \<Rightarrow> string" where
  "after_cli s = (if startswith s ''cli/'' then drop 4 s else s)"

definition run_fallback ::
  "executor_lib \<Rightarrow> string \<Rightarrow> string \<Rightarrow> plan_artifact \<Rightarrow> report result" where
  "run_fallback lib backend name plan =
     (let failed = (\<lambda>m. Inl (OtherError (''CLI executor '' @ backend @ '' hit quota limit and fallback '' @
                          name @ '' also failed: '' @ m)))
      in case ex_build lib name of
           Inl e \<Rightarrow> failed (exn_message e)
         | Inr _ \<Rightarrow>
             (case ex_invoke lib name plan of
                Cli_report r \<Rightarrow>
                  (case attach_self_check (ex_re_search lib) (ex_judge lib) r plan of
                     Inl e \<Rightarrow> failed (exn_message e) | Inr r' \<Rightarrow> Inr r')
              | Cli_backend_error m \<Rightarrow> failed m
              | Cli_value_error m \<Rightarrow> failed m
              | Cli_other e \<Rightarrow> failed (exn_message e)))"

definition cli_failed :: "executor_lib \<Rightarrow> string \<Rightarrow> string \<Rightarrow> string \<Rightarrow> plan_artifact \<Rightarrow> report result" where
  "cli_failed lib backend kind message plan =
     (let fallback = (case ex_fallback lib of
                        Some f \<Rightarrow> f | None \<Rightarrow> if backend = ''codex'' then ''claude-code'' else [])
      in if fallback \<noteq> [] \<and> is_quota_or_rate_limit_error message
         then run_fallback lib backend (after_cli fallback) plan
         else Inl (OtherError (''CLI executor failed ('' @ kind @ ''). Partial sandbox changes may exist'' @
                '' and should be inspected before resume. Details: '' @ message)))"

definition executor_node :: "executor_lib \<Rightarrow> graph_state \<Rightarrow> graph_state result" where
  "executor_node lib st =
     (case g_plan st of
        Plan plan \<Rightarrow>
          (let llm = (case ex_llm lib of None \<Rightarrow> [] | Some s \<Rightarrow> s);
               checked = (\<lambda>r. attach_self_check (ex_re_search lib) (ex_judge lib) r plan)
           in bind_result
                (if startswith llm ''cli/'' then
                   bind_result (ex_build lib (drop 4 llm)) (\<lambda>_.
                     case ex_invoke lib (drop 4 llm) plan of
                       Cli_report r \<Rightarrow> checked r
                     | Cli_backend_error m \<Rightarrow> cli_failed lib (drop 4 llm) ''CliBackendError'' m plan
                     | Cli_value_error m \<Rightarrow> cli_failed lib (drop 4 llm) ''ValueError'' m plan
                     | Cli_other e \<Rightarrow> Inl e)
                 else
                   bind_result (ex_agent lib plan) (\<lambda>answer.
                     case answer of
                       None \<Rightarrow> Inl (ValueError ''Executor agent failed to return a valid ExecutionResult or ExecutorReport.'')
                     | Some r \<Rightarrow> checked r))
                (\<lambda>r. Inr (st\<lparr>g_executor_output := Result r\<rparr>)))
      | _ \<Rightarrow> Inl (ValueError ''Executor requires a PlanArtifact or ArchitectBrief plan.''))"

section \<open>Tool dispatcher\<close>

definition ROUTER_CONFIDENCE_THRESHOLD :: rat where
  "ROUTER_CONFIDENCE_THRESHOLD = to_double (80 / 100)"

definition DISPATCHER_OUTPUT_MAX_BYTES :: int where
  "DISPATCHER_OUTPUT_MAX_BYTES = 50 * 1024"

text \<open>What a skill returns: an execution result, a shell result, or anything else, each with its
  serialised form; or it raises, or it interrupts the graph.\<close>

datatype skill_outcome =
    Raw_result exec_status string
  | Raw_bash "int option" string
  | Raw_value string
  | Skill_raised py_exn
  | Skill_interrupts string

record ('h, 'w) dispatcher_lib =
  d_registry :: "'h registry"
  d_sig_of :: "'h \<Rightarrow> handler_kind"
  d_router_mode :: "string option"
  d_model :: "string \<Rightarrow> router_decision option result"
  d_invoke :: "'h \<Rightarrow> pydict \<Rightarrow> 'w \<Rightarrow> skill_outcome \<times> 'w"

datatype dispatched =
    To_supervisor graph_state
  | To_END graph_state
  | Interrupts string
  | Dispatch_raised py_exn

definition cap_output :: "string \<Rightarrow> string result" where
  "cap_output s =
     bind_result (truncate_utf8 (codepoints s) DISPATCHER_OUTPUT_MAX_BYTES) (\<lambda>(out, _).
       Inr (map char_of out))"

definition escalate :: "string option \<Rightarrow> py_exn option \<Rightarrow> graph_state \<Rightarrow> dispatched" where
  "escalate name error st =
     To_supervisor
       (case error of
          None \<Rightarrow> st\<lparr>g_router_escalated := Some True\<rparr>
        | Some e \<Rightarrow> st\<lparr>g_router_escalated := Some True,
            g_tool_result := Some \<lparr>tr_tool = or_str name ''router'', tr_output = exn_message e, tr_success = False\<rparr>\<rparr>)"

definition finish_tool :: "string \<Rightarrow> string \<Rightarrow> bool \<Rightarrow> graph_state \<Rightarrow> dispatched" where
  "finish_tool name output ok st =
     (case cap_output output of
        Inl e \<Rightarrow> Dispatch_raised e
      | Inr out \<Rightarrow> To_END (st\<lparr>g_tool_result := Some \<lparr>tr_tool = name, tr_output = out, tr_success = ok\<rparr>,
                              g_router_escalated := Some False\<rparr>))"

definition invoke_skill ::
  "('h, 'w) dispatcher_lib \<Rightarrow> 'h skill \<Rightarrow> pydict \<Rightarrow> graph_state \<Rightarrow> 'w \<Rightarrow> dispatched \<times> 'w" where
  "invoke_skill lib s args st w =
     (case d_invoke lib (skill_handler s) args w of
        (out, w') \<Rightarrow>
          ((case out of
              Skill_interrupts prompt \<Rightarrow> Interrupts prompt
            | Skill_raised e \<Rightarrow> escalate (Some (skill_name s)) (Some e) st
            | Raw_result stat text \<Rightarrow> finish_tool (skill_name s) text (stat = Completed) st
            | Raw_bash code text \<Rightarrow> finish_tool (skill_name s) text (code = Some 0 \<or> code = None) st
            | Raw_value text \<Rightarrow> finish_tool (skill_name s) text True st), w'))"

definition no_tool :: router_decision where
  "no_tool = \<lparr>rd_tool = None, rd_confidence = 0, rd_arguments = []\<rparr>"

definition classify_tool_request :: "('h, 'w) dispatcher_lib \<Rightarrow> string \<Rightarrow> router_decision result" where
  "classify_tool_request lib task =
     (if skill_names (d_registry lib) = [] then Inr no_tool
      else bind_result (d_model lib task) (\<lambda>answer.
        case answer of
          None \<Rightarrow> Inl (ValueError ''Router LLM failed to return a valid RouterDecision'')
        | Some d \<Rightarrow>
            (case rd_tool d of
               None \<Rightarrow> Inr d
             | Some t \<Rightarrow> if t \<in> set (skill_names (d_registry lib)) then Inr d else Inr no_tool)))"

definition act_on :: "('h, 'w) dispatcher_lib \<Rightarrow> router_decision \<Rightarrow> graph_state \<Rightarrow> 'w \<Rightarrow> dispatched \<times> 'w" where
  "act_on lib d st w =
     (case rd_tool d of
        None \<Rightarrow> (escalate None None st, w)
      | Some t \<Rightarrow>
          if rd_confidence d < ROUTER_CONFIDENCE_THRESHOLD then (escalate None None st, w)
          else (case get_skill t (d_registry lib) of
                  None \<Rightarrow> (escalate None None st, w)
                | Some s \<Rightarrow> invoke_skill lib s (rd_arguments d) st w))"

definition dispatch :: "('h, 'w) dispatcher_lib \<Rightarrow> graph_state \<Rightarrow> 'w \<Rightarrow> dispatched \<times> 'w" where
  "dispatch lib st w =
     (case parse_tier1_request (d_sig_of lib) (g_task st) (d_registry lib) of
        Inl e \<Rightarrow>
          (escalate (map_option skill_name (deterministic_match (g_task st) (d_registry lib))) (Some e) st, w)
      | Inr (Some d) \<Rightarrow> act_on lib d st w
      | Inr None \<Rightarrow>
          (case get_router_mode (d_router_mode lib) of
             Inl e \<Rightarrow> (Dispatch_raised e, w)
           | Inr md \<Rightarrow>
               if md = ''direct-escalation'' then (escalate None None st, w)
               else (case classify_tool_request lib (g_task st) of
                       Inl e \<Rightarrow> (escalate None (Some e) st, w)
                     | Inr d \<Rightarrow> act_on lib d st w)))"


section \<open>The graph\<close>

datatype config =
    At node graph_state
  | Paused node graph_state
  | Broken node graph_state
  | Done graph_state

datatype label =
    Planned | Routed | Proposed plan_artifact | Asked plan_artifact
  | Answered plan_artifact pyval | Executed plan_artifact report | Dispatched
  | Raised_error | Limit_reached | Retried | New_task string | Chat_turn string

fun state_of :: "config \<Rightarrow> graph_state" where
  "state_of (At n st) = st"
| "state_of (Paused n st) = st"
| "state_of (Broken n st) = st"
| "state_of (Done st) = st"

fun idle :: "config \<Rightarrow> bool" where
  "idle (At n st) = False"
| "idle _ = True"

text \<open>One execution of a node, or a new input. The edges are those of \<open>build_graph\<close>: \<open>planner\<close> to
  \<open>supervisor\<close>, from there by the routing table, \<open>architect\<close> to \<open>human_gate\<close>, \<open>human_gate\<close> and
  \<open>executor\<close> to \<open>supervisor\<close>, and the dispatcher by its command. A node that raises and a run that
  exceeds its limit leave the state of the last checkpoint, from which the node can be run again.\<close>

inductive graph_step :: "'h registry \<Rightarrow> config \<Rightarrow> label \<Rightarrow> config \<Rightarrow> bool" for reg where
  step_planner: "graph_step reg (At Planner st) Planned (At Supervisor (planner_node injected st))"
| step_route: "supervisor_node st = Some n \<Longrightarrow> graph_step reg (At Supervisor st) Routed (At n st)"
| step_end: "supervisor_node st = None \<Longrightarrow> graph_step reg (At Supervisor st) Routed (Done st)"
| step_architect:
    "architect_node lib st = Inr st' \<Longrightarrow> g_plan st' = Plan p \<Longrightarrow>
     graph_step reg (At Architect st) (Proposed p) (At Human_gate st')"
| step_ask: "g_plan st = Plan p \<Longrightarrow> graph_step reg (At Human_gate st) (Asked p) (Paused Human_gate st)"
| step_answer:
    "g_plan st = Plan p \<Longrightarrow> human_gate_node v st = Inr st' \<Longrightarrow>
     graph_step reg (Paused Human_gate st) (Answered p v) (At Supervisor st')"
| step_bad_answer:
    "human_gate_node v st = Inl e \<Longrightarrow>
     graph_step reg (Paused Human_gate st) Raised_error (Broken Human_gate st)"
| step_execute:
    "g_plan st = Plan p \<Longrightarrow> executor_node ex st = Inr st' \<Longrightarrow> g_executor_output st' = Result r \<Longrightarrow>
     graph_step reg (At Executor st) (Executed p r) (At Supervisor st')"
| step_escalate:
    "d_registry d = reg \<Longrightarrow> dispatch d st () = (To_supervisor st', ()) \<Longrightarrow>
     graph_step reg (At Tool_dispatcher st) Dispatched (At Supervisor st')"
| step_tool:
    "d_registry d = reg \<Longrightarrow> dispatch d st () = (To_END st', ()) \<Longrightarrow>
     graph_step reg (At Tool_dispatcher st) Dispatched (Done st')"
| step_tool_interrupts:
    "d_registry d = reg \<Longrightarrow> dispatch d st () = (Interrupts q, ()) \<Longrightarrow>
     graph_step reg (At Tool_dispatcher st) Dispatched (Paused Tool_dispatcher st)"
| step_raises: "graph_step reg (At n st) Raised_error (Broken n st)"
| step_limit: "graph_step reg (At n st) Limit_reached (Broken n st)"
| step_retry: "graph_step reg (Broken n st) Retried (At n st)"
| step_resume_tool: "graph_step reg (Paused Tool_dispatcher st) Retried (At Tool_dispatcher st)"
| step_new_task:
    "idle c \<Longrightarrow> graph_step reg c (New_task t) (At Planner (initial_state t run hint hot (state_of c)))"
| step_cli_task:
    "idle c \<Longrightarrow> graph_step reg c (New_task t) (At Planner (cli_initial_state t hot (state_of c)))"
| step_chat:
    "idle c \<Longrightarrow> state_of c \<noteq> fresh_state \<Longrightarrow>
     graph_step reg c (Chat_turn m) (At Planner (chat_input m True hot (state_of c)))"

inductive_cases graph_stepE: "graph_step reg c l c'"

text \<open>Histories, from a configuration and from the start of a thread.\<close>

inductive graph_path :: "'h registry \<Rightarrow> config \<Rightarrow> label list \<Rightarrow> config \<Rightarrow> bool" for reg where
  path_nil: "graph_path reg c [] c"
| path_cons: "graph_step reg c l c1 \<Longrightarrow> graph_path reg c1 ls c2 \<Longrightarrow> graph_path reg c (l # ls) c2"

inductive graph_run :: "'h registry \<Rightarrow> label list \<Rightarrow> config \<Rightarrow> bool" for reg where
  run_nil: "graph_run reg [] (Done fresh_state)"
| run_snoc: "graph_run reg ls c \<Longrightarrow> graph_step reg c l c' \<Longrightarrow> graph_run reg (ls @ [l]) c'"

section \<open>What the nodes leave alone\<close>

lemma planner_frame [simp]:
  "g_human_feedback (planner_node injected st) = g_human_feedback st"
  "g_executor_output (planner_node injected st) = g_executor_output st"
  "g_router_escalated (planner_node injected st) = g_router_escalated st"
  "g_tool_result (planner_node injected st) = g_tool_result st"
  "g_task (planner_node injected st) = g_task st"
  by (simp_all add: planner_node_def Let_def split: plan_field.splits option.splits)

lemma planner_plan:
  "g_plan (planner_node injected st) = (case g_plan st of Plan p \<Rightarrow> Plan p | _ \<Rightarrow> Plan_text (g_task st))"
  by (auto simp: planner_node_def Let_def split: plan_field.splits option.splits)

lemma architect_frame:
  "architect_node lib st = Inr st' \<Longrightarrow>
     g_human_feedback st' = g_human_feedback st \<and> g_executor_output st' = g_executor_output st \<and>
     g_router_escalated st' = g_router_escalated st \<and> g_tool_result st' = g_tool_result st \<and>
     g_task st' = g_task st \<and> (\<exists>p. g_plan st' = Plan p)"
  by (auto simp: architect_node_def Let_def split: sum.splits option.splits)

lemma gate_frame:
  "human_gate_node v st = Inr st' \<Longrightarrow>
     (\<exists>p. g_plan st = Plan p) \<and> (\<exists>f. normalize_human_feedback v = Inr f \<and> st' = st\<lparr>g_human_feedback := Some f\<rparr>)"
  by (auto simp: human_gate_node_def human_gate_prompt_def split: plan_field.splits)

lemma executor_frame:
  "executor_node lib st = Inr st' \<Longrightarrow> \<exists>p r. g_plan st = Plan p \<and> st' = st\<lparr>g_executor_output := Result r\<rparr>"
  by (auto simp: executor_node_def Let_def split: plan_field.splits if_splits)

lemma escalate_frame:
  "escalate name e st = To_supervisor st' \<Longrightarrow>
     g_human_feedback st' = g_human_feedback st \<and> g_executor_output st' = g_executor_output st \<and>
     g_plan st' = g_plan st \<and> g_task st' = g_task st \<and> g_router_escalated st' = Some True"
  by (auto simp: escalate_def split: option.splits)

lemma finish_frame:
  "finish_tool name out ok st = To_END st' \<Longrightarrow>
     g_human_feedback st' = g_human_feedback st \<and> g_executor_output st' = g_executor_output st \<and>
     g_plan st' = g_plan st \<and> g_task st' = g_task st \<and> g_router_escalated st' = Some False"
  by (auto simp: finish_tool_def split: sum.splits)

lemma finish_not_supervisor: "finish_tool name out ok st \<noteq> To_supervisor st'"
  by (auto simp: finish_tool_def split: sum.splits)

lemma escalate_to_supervisor: "\<exists>st'. escalate name e st = To_supervisor st'"
  by (auto simp: escalate_def split: option.splits)

text \<open>Every way out of the dispatcher: it escalates or raises without touching the world, or it has
  called one skill.\<close>

definition called ::
  "('h, 'w) dispatcher_lib \<Rightarrow> router_decision \<Rightarrow> graph_state \<Rightarrow> 'w \<Rightarrow> dispatched \<Rightarrow> 'w \<Rightarrow> bool" where
  "called lib d st w res w' =
     (\<exists>t s. rd_tool d = Some t \<and> ROUTER_CONFIDENCE_THRESHOLD \<le> rd_confidence d \<and>
        get_skill t (d_registry lib) = Some s \<and> invoke_skill lib s (rd_arguments d) st w = (res, w'))"

lemma act_on_cases:
  assumes "act_on lib d st w = (res, w')"
  shows "(\<exists>name e. res = escalate name e st) \<and> w' = w \<or> called lib d st w res w'"
  using assms by (auto simp: act_on_def called_def split: option.splits if_splits)

lemma dispatch_cases:
  assumes "dispatch lib st w = (res, w')"
  shows "((\<exists>name e. res = escalate name e st) \<or> (\<exists>e. res = Dispatch_raised e)) \<and> w' = w \<or>
         (\<exists>d. called lib d st w res w' \<and>
            (parse_tier1_request (d_sig_of lib) (g_task st) (d_registry lib) = Inr (Some d) \<or>
             d_model lib (g_task st) = Inr (Some d)))"
proof -
  have no: "\<not> called lib no_tool st w res w'" by (simp add: called_def no_tool_def)
  have model: "d = no_tool \<or> d_model lib (g_task st) = Inr (Some d)"
    if "classify_tool_request lib (g_task st) = Inr d" for d
    using that by (auto simp: classify_tool_request_def split: if_splits option.splits)
  show ?thesis
  proof (cases "parse_tier1_request (d_sig_of lib) (g_task st) (d_registry lib)")
    case (Inl e)
    with assms show ?thesis by (auto simp: dispatch_def)
  next
    case (Inr m)
    show ?thesis
    proof (cases m)
      case (Some d)
      with Inr assms show ?thesis by (auto simp: dispatch_def dest!: act_on_cases)
    next
      case None
      with Inr assms no model show ?thesis
        by (auto simp: dispatch_def split: sum.splits if_splits dest!: act_on_cases)
    qed
  qed
qed

lemma invoke_supervisor:
  "invoke_skill lib s args st w = (To_supervisor st', w') \<Longrightarrow> \<exists>name e. escalate name e st = To_supervisor st'"
  by (auto simp: invoke_skill_def finish_not_supervisor split: prod.splits skill_outcome.splits)

lemma invoke_end:
  "invoke_skill lib s args st w = (To_END st', w') \<Longrightarrow> \<exists>name out ok. finish_tool name out ok st = To_END st'"
  using escalate_to_supervisor
  by (auto simp: invoke_skill_def split: prod.splits skill_outcome.splits) (metis dispatched.distinct)+

lemma dispatch_out:
  assumes "dispatch lib st w = (res, w')"
  shows "(\<exists>name e. res = escalate name e st) \<or> (\<exists>e. res = Dispatch_raised e) \<or>
         (\<exists>s args. invoke_skill lib s args st w = (res, w'))"
  using dispatch_cases [OF assms] unfolding called_def by blast

lemma dispatch_supervisor:
  assumes "dispatch lib st w = (To_supervisor st', w')"
  shows "\<exists>name e. escalate name e st = To_supervisor st'"
  using dispatch_out [OF assms] by (metis dispatched.distinct(5) invoke_supervisor)

lemma dispatch_end:
  assumes "dispatch lib st w = (To_END st', w')"
  shows "\<exists>name out ok. finish_tool name out ok st = To_END st'"
  using dispatch_out [OF assms] by (metis dispatched.distinct(1,9) escalate_to_supervisor invoke_end)

section \<open>No plan runs without its approval\<close>

definition keeps_approval :: "label \<Rightarrow> bool" where
  "keeps_approval l =
     (case l of Answered _ _ \<Rightarrow> False | Proposed _ \<Rightarrow> False | New_task _ \<Rightarrow> False | _ \<Rightarrow> True)"

text \<open>The last answer of the history approves \<open>p\<close>, and since then no plan was proposed and no task set.\<close>

definition approved_last :: "label list \<Rightarrow> plan_artifact \<Rightarrow> bool" where
  "approved_last ls p =
     (\<exists>before v between. ls = before @ Answered p v # between \<and>
        normalize_human_feedback v = Inr ''approved'' \<and> list_all keeps_approval between)"

lemma approved_last_snoc: "approved_last ls p \<Longrightarrow> keeps_approval l \<Longrightarrow> approved_last (ls @ [l]) p"
  unfolding approved_last_def
proof (elim exE conjE)
  fix before v between
  assume "ls = before @ Answered p v # between" "normalize_human_feedback v = Inr ''approved''"
    "list_all keeps_approval between" "keeps_approval l"
  then show "\<exists>before v between. ls @ [l] = before @ Answered p v # between \<and>
      normalize_human_feedback v = Inr ''approved'' \<and> list_all keeps_approval between"
    by (intro exI [of _ before] exI [of _ v] exI [of _ "between @ [l]"]) simp
qed

lemma approved_last_answer:
  "normalize_human_feedback v = Inr ''approved'' \<Longrightarrow> approved_last (ls @ [Answered p v]) p"
  unfolding approved_last_def by (rule exI [of _ ls], rule exI [of _ v], rule exI [of _ "[]"]) simp

fun node_of :: "config \<Rightarrow> node option" where
  "node_of (At n st) = Some n"
| "node_of (Paused n st) = Some n"
| "node_of (Broken n st) = Some n"
| "node_of (Done st) = None"

definition approval_inv :: "label list \<Rightarrow> config \<Rightarrow> bool" where
  "approval_inv ls c =
     (let approved = (g_human_feedback (state_of c) = Some ''approved'')
      in (approved \<longrightarrow> (\<exists>p. g_plan (state_of c) = Plan p \<and> approved_last ls p)) \<and>
         (node_of c \<in> {Some Architect, Some Human_gate, Some Tool_dispatcher} \<longrightarrow> \<not> approved) \<and>
         (node_of c = Some Executor \<longrightarrow> approved))"

lemma supervisor_routes:
  "supervisor_node st = Some Executor \<Longrightarrow> g_human_feedback st = Some ''approved''"
  "supervisor_node st \<in> {Some Architect, Some Human_gate, Some Tool_dispatcher} \<Longrightarrow>
     g_human_feedback st \<noteq> Some ''approved''"
  by (auto simp: supervisor_node_def route_from_state_def split: if_splits)

lemma approval_step:
  assumes "approval_inv ls c" "graph_step reg c l c'"
  shows "approval_inv (ls @ [l]) c'"
  using assms(2,1)
proof cases
  case (step_answer st p v st')
  with gate_frame [OF step_answer(5)] show ?thesis
    by (auto simp: approval_inv_def Let_def intro: approved_last_answer)
next
  case (step_architect lib st st' p)
  with assms(1) architect_frame [OF step_architect(4)] show ?thesis
    by (auto simp: approval_inv_def Let_def)
next
  case (step_execute st p ex st' r)
  with assms(1) executor_frame [OF step_execute(5)] show ?thesis
    by (auto simp: approval_inv_def Let_def keeps_approval_def intro!: approved_last_snoc)
next
  case (step_escalate d st st')
  with assms(1) dispatch_supervisor [OF step_escalate(5)] show ?thesis
    by (auto simp: approval_inv_def Let_def dest: escalate_frame)
next
  case (step_tool d st st')
  with assms(1) dispatch_end [OF step_tool(5)] show ?thesis
    by (auto simp: approval_inv_def Let_def dest: finish_frame)
qed (use assms(1) in \<open>auto simp: approval_inv_def Let_def keeps_approval_def planner_plan supervisor_routes
        initial_state_def cli_initial_state_def chat_input_def dest: supervisor_routes(1) intro!: approved_last_snoc\<close>)


lemma approval_run: "graph_run reg ls c \<Longrightarrow> approval_inv ls c"
proof (induction rule: graph_run.induct)
  case run_nil
  show ?case by (simp add: approval_inv_def fresh_state_def)
next
  case (run_snoc ls c l c')
  then show ?case by (blast intro: approval_step)
qed

lemma graph_run_prefix: "graph_run reg (ls @ l # post) c \<Longrightarrow> \<exists>c1 c2. graph_run reg ls c1 \<and> graph_step reg c1 l c2"
proof (induction post arbitrary: c rule: rev_induct)
  case Nil
  then show ?case by (cases rule: graph_run.cases) auto
next
  case (snoc x xs)
  from snoc.prems show ?case
  proof (cases rule: graph_run.cases)
    case (run_snoc ls' c' l')
    then have "ls' = ls @ l # xs" by simp
    with run_snoc snoc.IH show ?thesis by blast
  qed auto
qed

text \<open>C1: no plan runs without its approval. In every history of a thread, over any number of turns,
  failures, retries and resumptions, and whatever the models, the tools and the humans answer, an
  executed plan was shown to the human, the last answer given before the execution approved exactly
  that plan, and between the two no other plan was proposed and no new task was set.\<close>

theorem executed_plan_was_approved:
  assumes "graph_run reg (before @ Executed p r # after) c"
  shows "\<exists>past v between. before = past @ Answered p v # between \<and>
           normalize_human_feedback v = Inr ''approved'' \<and> list_all keeps_approval between"
proof -
  obtain c1 c2 where run: "graph_run reg before c1" and "graph_step reg c1 (Executed p r) c2"
    using graph_run_prefix [OF assms] by blast
  from this(2) obtain st where "c1 = At Executor st" "g_plan st = Plan p" by cases auto
  with approval_run [OF run] show ?thesis by (auto simp: approval_inv_def Let_def approved_last_def)
qed

section \<open>An invocation ends\<close>

text \<open>The node executions of one invocation that the program itself decides: no new input, and no
  report of a failed execution.\<close>

definition progress :: "label \<Rightarrow> bool" where
  "progress l =
     (case l of
        Planned \<Rightarrow> True | Routed \<Rightarrow> True | Proposed _ \<Rightarrow> True | Asked _ \<Rightarrow> True | Dispatched \<Rightarrow> True
      | Executed _ r \<Rightarrow> report_success r | _ \<Rightarrow> False)"

fun nodes_left :: "config \<Rightarrow> nat" where
  "nodes_left (At Planner st) = 6"
| "nodes_left (At Supervisor st) =
     (case route_from_state st of To_tool \<Rightarrow> 5 | To_architect \<Rightarrow> 3 | To_executor \<Rightarrow> 3 | To_end \<Rightarrow> 1)"
| "nodes_left (At Tool_dispatcher st) = 4"
| "nodes_left (At Architect st) = 2"
| "nodes_left (At Human_gate st) = 1"
| "nodes_left (At Executor st) = 2"
| "nodes_left _ = 0"

lemma progress_step:
  assumes "graph_step reg c l c'" "progress l"
  shows "nodes_left c' < nodes_left c"
  using assms
proof cases
  case (step_planner st injected)
  then show ?thesis by (auto split: route.splits)
next
  case (step_route st n)
  then show ?thesis by (cases "route_from_state st") (auto simp: supervisor_node_def)
next
  case (step_end st)
  then show ?thesis by (cases "route_from_state st") (auto simp: supervisor_node_def)
next
  case (step_execute st p ex st' r)
  then have "route_from_state st' = To_end"
    using assms(2) by (simp add: route_from_state_def progress_def)
  with step_execute show ?thesis by simp
next
  case (step_escalate d st st')
  obtain name e where "escalate name e st = To_supervisor st'"
    using dispatch_supervisor [OF step_escalate(5)] by blast
  then have "route_from_state st' \<noteq> To_tool"
    by (auto simp: route_from_state_def dest: escalate_frame)
  with step_escalate show ?thesis by (cases "route_from_state st'") auto
qed (use assms(2) in \<open>auto simp: progress_def\<close>)

lemma progress_path:
  "graph_path reg c ls c' \<Longrightarrow> list_all progress ls \<Longrightarrow> length ls + nodes_left c' \<le> nodes_left c"
proof (induction rule: graph_path.induct)
  case (path_cons c l c1 ls c2)
  then show ?case using progress_step [OF path_cons.hyps(1)] by auto
qed simp

lemma nodes_left_bound: "nodes_left c < DEFAULT_RECURSION_LIMIT"
  by (cases c rule: nodes_left.cases) (auto simp: DEFAULT_RECURSION_LIMIT_def split: route.splits)

text \<open>C21: an invocation ends within its limit. From any configuration, as long as no execution fails and
  nothing new is put in, fewer nodes are executed than the recursion limit allows, whatever the
  models and tools answer; so the routing of the graph cannot loop by itself, and only an executor
  that keeps failing can exhaust the limit.\<close>

theorem invocation_bounded:
  assumes "graph_path reg c ls c'" "list_all progress ls"
  shows "length ls < DEFAULT_RECURSION_LIMIT"
  using progress_path [OF assms] nodes_left_bound [of c] by linarith


section \<open>Tools run on confident decisions only\<close>

text \<open>C22: the dispatcher runs a registered tool, once, on a confident decision, or none. Either the
  world of the tools is untouched and the task is escalated to the planner (or the configuration is
  in error), or exactly one skill of the registry was called, with the tool and the arguments of a
  decision that the command itself or the model made with at least the threshold of confidence.\<close>

theorem dispatch_runs_decided_tool:
  assumes "dispatch lib st w = (res, w')"
  shows "w' = w \<and> ((\<exists>name e. res = escalate name e st) \<or> (\<exists>e. res = Dispatch_raised e)) \<or>
    (\<exists>d t s out. (parse_tier1_request (d_sig_of lib) (g_task st) (d_registry lib) = Inr (Some d) \<or>
                   d_model lib (g_task st) = Inr (Some d)) \<and>
       rd_tool d = Some t \<and> get_skill t (d_registry lib) = Some s \<and>
       to_double (80 / 100) \<le> rd_confidence d \<and>
       d_invoke lib (skill_handler s) (rd_arguments d) w = (out, w'))"
proof -
  have inv: "\<exists>out. d_invoke lib (skill_handler s) args w = (out, w')"
    if "invoke_skill lib s args st w = (res, w')" for s args
    using that by (auto simp: invoke_skill_def split: prod.splits)
  show ?thesis
    using dispatch_cases [OF assms] inv unfolding called_def ROUTER_CONFIDENCE_THRESHOLD_def by blast
qed

section \<open>What stays from turn to turn\<close>

lemma act_on_world:
  "snd (act_on lib d st w) = snd (act_on lib d st' w)"
  by (simp add: act_on_def invoke_skill_def split: option.splits prod.splits)

text \<open>What the dispatcher does to the world depends on the task of the state only.\<close>

lemma dispatch_world:
  assumes "g_task st = g_task st'"
  shows "snd (dispatch lib st w) = snd (dispatch lib st' w)"
  using act_on_world [of lib _ st w st'] assms by (simp add: dispatch_def split: sum.splits option.splits)

text \<open>A chat repeats its first task. After a first chat message that a tool answered, any later
  message of the same chat reaches the dispatcher with the first message as its task, and does to
  the world exactly what the first one would do now; the text of the later message is not looked
  at.\<close>

theorem chat_repeats_first_task:
  assumes "dispatch lib (planner_node None (chat_input first False hot fresh_state)) w = (To_END st', w')"
  shows "let again = planner_node None (chat_input message True hot st')
         in supervisor_node again = Some Tool_dispatcher \<and> g_task again = first \<and>
            snd (dispatch lib again world) =
            snd (dispatch lib (planner_node None (chat_input first False hot fresh_state)) world)"
proof -
  let ?st = "planner_node None (chat_input first False hot fresh_state)"
  have st: "g_human_feedback ?st = None" "g_executor_output ?st = No_result" "g_task ?st = first"
    "g_plan ?st = Plan_text first"
    by (simp_all add: chat_input_def cli_initial_state_def planner_plan)
  have st': "g_human_feedback st' = None" "g_executor_output st' = No_result" "g_task st' = first"
    "g_plan st' = Plan_text first" "g_router_escalated st' = Some False"
    using dispatch_end [OF assms] st by (auto dest: finish_frame)
  let ?again = "planner_node None (chat_input message True hot st')"
  have "supervisor_node ?again = Some Tool_dispatcher"
    using st' by (simp add: supervisor_node_def route_from_state_def chat_input_def planner_plan)
  moreover have task: "g_task ?again = first" using st' by (simp add: chat_input_def)
  moreover have "snd (dispatch lib ?again world) = snd (dispatch lib ?st world)"
    by (rule dispatch_world) (simp only: task st)
  ultimately show ?thesis by (simp add: Let_def)
qed

text \<open>One escalation takes the tools away from a thread. Once a task was escalated, every later
  task of the thread, even an explicit command, is routed to the architect, because the input of a
  new turn does not reset the mark.\<close>

theorem escalation_sticks:
  assumes "escalate name e st = To_supervisor st'"
  shows "supervisor_node (planner_node injected (initial_state task run hint hot st')) = Some Architect \<and>
         supervisor_node (planner_node injected (cli_initial_state task hot st')) = Some Architect"
  using escalate_frame [OF assms]
  by (simp add: supervisor_node_def route_from_state_def initial_state_def cli_initial_state_def planner_plan)

section \<open>How a run that recovered is reported\<close>

definition tool_result_value :: "tool_execution_result \<Rightarrow> pyval" where
  "tool_result_value t =
     PDict [(''tool'', PStr (tr_tool t)), (''output'', PStr (tr_output t)), (''success'', PBool (tr_success t))]"

definition status_str :: "exec_status \<Rightarrow> string" where
  "status_str s = (case s of Completed \<Rightarrow> ''completed'' | Failed \<Rightarrow> ''failed'' | Cancelled \<Rightarrow> ''cancelled''
                   | Waiting \<Rightarrow> ''waiting'')"

text \<open>The snapshot of a state that no interrupt is pending in, as far as the run executor reads it.\<close>

definition snapshot_of :: "graph_state \<Rightarrow> snapshot" where
  "snapshot_of st =
     \<lparr>snap_values = PDict
        ((case g_tool_result st of None \<Rightarrow> [] | Some t \<Rightarrow> [(''tool_result'', tool_result_value t)]) @
         (case g_executor_output st of
            Result r \<Rightarrow> [(''executor_output'', PDict [(''status'', PStr (status_str (rp_status r))),
                                                 (''self_check'', PDict (rp_self_check r))])]
          | _ \<Rightarrow> [])),
      snap_interrupts = []\<rparr>"

lemma failed_tool_is_failure:
  assumes "g_tool_result st = Some t" "\<not> tr_success t"
  shows "\<exists>status message. terminal_tool_failure jl (snapshot_of st) = Some (status, message)"
  using assms
  by (auto simp: terminal_tool_failure_def snapshot_of_def result_payload_def tool_result_value_def Let_def
      split: prod.splits)

text \<open>Within one turn, nothing resets the mark and the result that an escalation left.\<close>

definition same_turn :: "label \<Rightarrow> bool" where
  "same_turn l = (case l of New_task _ \<Rightarrow> False | Chat_turn _ \<Rightarrow> False | _ \<Rightarrow> True)"

definition escalated_with :: "tool_execution_result \<Rightarrow> config \<Rightarrow> bool" where
  "escalated_with t c =
     (g_router_escalated (state_of c) = Some True \<and> g_tool_result (state_of c) = Some t \<and>
      node_of c \<notin> {Some Tool_dispatcher, Some Planner})"

lemma escalated_step:
  assumes "graph_step reg c l c'" "same_turn l" "escalated_with t c"
  shows "escalated_with t c'"
  using assms
proof cases
  case (step_route st n)
  then have "n \<noteq> Tool_dispatcher" "n \<noteq> Planner"
    using assms(3)
    by (auto simp: escalated_with_def supervisor_node_def route_from_state_def split: if_splits)
  with step_route assms(3) show ?thesis by (simp add: escalated_with_def)
next
  case (step_architect lib st st' p)
  with assms(3) architect_frame [OF step_architect(4)] show ?thesis by (simp add: escalated_with_def)
next
  case (step_answer st p v st')
  with assms(3) gate_frame [OF step_answer(5)] show ?thesis by (auto simp: escalated_with_def)
next
  case (step_execute st p ex st' r)
  with assms(3) executor_frame [OF step_execute(5)] show ?thesis by (auto simp: escalated_with_def)
qed (use assms(2,3) in \<open>auto simp: escalated_with_def same_turn_def\<close>)

lemma escalated_path:
  "graph_path reg c ls c' \<Longrightarrow> list_all same_turn ls \<Longrightarrow> escalated_with t c \<Longrightarrow> escalated_with t c'"
  by (induction rule: graph_path.induct) (auto dest: escalated_step)

text \<open>A run that recovers from a failed tool is still reported as failed. When the dispatcher
  escalates because of an error, and the turn then ends in whatever way the graph allows, also with
  an approved plan executed to completion, the run executor finds the old tool result in the
  snapshot and records the run as \<open>error\<close> or \<open>cancelled\<close>.\<close>

theorem recovered_run_reported_failed:
  assumes "escalate name (Some e) st = To_supervisor st1"
    and "graph_path reg (At Supervisor st1) ls (Done st2)" "list_all same_turn ls"
    and "get_run rid (w_ledger w) \<noteq> None"
  shows "status_of rid (w_ledger (snd (conclude_run lib rid th run (Finished (snapshot_of st2)) w)))
           \<in> {Some ''error'', Some ''cancelled''}"
proof -
  let ?t = "\<lparr>tr_tool = or_str name ''router'', tr_output = exn_message e, tr_success = False\<rparr>"
  have "escalated_with ?t (At Supervisor st1)"
    using assms(1) by (auto simp: escalated_with_def escalate_def)
  from escalated_path [OF assms(2,3) this] have "g_tool_result st2 = Some ?t"
    by (simp add: escalated_with_def)
  then obtain status message where
    fail: "terminal_tool_failure (json_loads lib) (snapshot_of st2) = Some (status, message)"
    using failed_tool_is_failure by fastforce
  have "pending_interrupt (snapshot_of st2) = None" by (simp add: pending_interrupt_def snapshot_of_def)
  then have "final_status (json_loads lib) (Finished (snapshot_of st2)) = status"
    using fail by (simp add: final_status_def)
  with conclude_status [OF assms(4), of "Finished (snapshot_of st2)" lib th run] terminal_failure_status [OF fail]
  show ?thesis by auto
qed


section \<open>Witnesses\<close>

definition sample_architect :: architect_lib where
  "sample_architect = \<lparr>al_hot_context = [], al_summary = None, al_model = (\<lambda>_. Inr (Some (sample_plan [])))\<rparr>"

definition sample_executor :: executor_lib where
  "sample_executor = \<lparr>ex_llm = None, ex_fallback = None, ex_build = (\<lambda>_. Inr ()),
     ex_invoke = (\<lambda>_ _. Cli_backend_error []), ex_agent = (\<lambda>_. Inr (Some (sample_report [] []))),
     ex_re_search = (\<lambda>_ _. Inr False), ex_judge = None\<rparr>"

definition sample_dispatcher :: "(nat, unit) dispatcher_lib" where
  "sample_dispatcher = \<lparr>d_registry = [], d_sig_of = (\<lambda>_. Tool_schema []),
     d_router_mode = Some ''direct-escalation'', d_model = (\<lambda>_. Inr None),
     d_invoke = (\<lambda>_ _ w. (Raw_value [], w))\<rparr>"

definition sample_start :: graph_state where
  "sample_start = planner_node None (cli_initial_state ''do it'' None fresh_state)"

definition sample_planned :: graph_state where
  "sample_planned = sample_start\<lparr>g_router_escalated := Some True, g_plan := Plan (sample_plan []),
     g_hot_context := Some []\<rparr>"

definition sample_done :: graph_state where
  "sample_done = sample_planned\<lparr>g_human_feedback := Some ''approved'',
     g_executor_output := Result (sample_report [] [])\<rparr>"

lemmas sample_states = sample_start_def sample_planned_def sample_done_def planner_node_def
  cli_initial_state_def fresh_state_def

lemma sample_dispatch:
  "dispatch sample_dispatcher sample_start () = (To_supervisor (sample_start\<lparr>g_router_escalated := Some True\<rparr>), ())"
proof -
  have "get_router_mode (Some ''direct-escalation'') = Inr ''direct-escalation''" by code_simp
  then show ?thesis
    by (simp add: dispatch_def sample_dispatcher_def parse_tier1_request_def deterministic_match_def escalate_def)
qed

lemma sample_architect_run:
  "architect_node sample_architect (sample_start\<lparr>g_router_escalated := Some True\<rparr>) = Inr sample_planned"
  by (simp add: architect_node_def sample_architect_def sample_states)

lemma sample_approval: "normalize_human_feedback (PStr ''y'') = Inr ''approved''"
  by code_simp

lemma sample_gate:
  "human_gate_node (PStr ''y'') sample_planned = Inr (sample_planned\<lparr>g_human_feedback := Some ''approved''\<rparr>)"
  by (simp add: human_gate_node_def human_gate_prompt_def sample_approval sample_states)

lemma sample_execution:
  "executor_node sample_executor (sample_planned\<lparr>g_human_feedback := Some ''approved''\<rparr>) = Inr sample_done"
  by (simp add: executor_node_def sample_executor_def attach_self_check_def criteria_rules_def sample_states
        sample_plan_def startswith_def)

definition sample_gate_history :: "label list" where
  "sample_gate_history = [New_task ''do it'', Planned, Routed, Dispatched, Routed, Proposed (sample_plan []),
     Asked (sample_plan []), Answered (sample_plan []) (PStr ''y''), Routed]"

lemma sample_history_run:
  "graph_run ([] :: nat registry) (sample_gate_history @ [Executed (sample_plan []) (sample_report [] [])])
     (At Supervisor sample_done)"
proof -
  let ?s = "sample_start" and ?e = "sample_start\<lparr>g_router_escalated := Some True\<rparr>"
    and ?a = "sample_planned\<lparr>g_human_feedback := Some ''approved''\<rparr>" and ?p = "sample_plan []"
  have r: "d_registry sample_dispatcher = []" by (simp add: sample_dispatcher_def)
  have 1: "graph_run ([] :: nat registry) ([] @ [New_task ''do it'']) (At Planner (cli_initial_state ''do it'' None fresh_state))"
    using run_snoc [OF run_nil step_cli_task [of "Done fresh_state" _ _ None]] by simp
  note 2 = run_snoc [OF 1 step_planner [of _ _ None], folded sample_start_def]
  have "supervisor_node ?s = Some Tool_dispatcher" by code_simp
  note 3 = run_snoc [OF 2 step_route [OF this]]
  note 4 = run_snoc [OF 3 step_escalate [OF r sample_dispatch]]
  have "supervisor_node ?e = Some Architect" by code_simp
  note 5 = run_snoc [OF 4 step_route [OF this]]
  have plan: "g_plan sample_planned = Plan ?p" by (simp add: sample_planned_def)
  note 6 = run_snoc [OF 5 step_architect [OF sample_architect_run plan]]
  note 7 = run_snoc [OF 6 step_ask [OF plan]]
  note 8 = run_snoc [OF 7 step_answer [OF plan sample_gate]]
  have "supervisor_node ?a = Some Executor" by code_simp
  note 9 = run_snoc [OF 8 step_route [OF this]]
  have "g_plan ?a = Plan ?p" by (simp add: plan)
  moreover have "g_executor_output sample_done = Result (sample_report [] [])" by (simp add: sample_done_def)
  ultimately show ?thesis
    using run_snoc [OF 9 step_execute [OF _ sample_execution]] by (simp add: sample_gate_history_def)
qed

theorem executed_plan_was_approved_witness:
  "\<exists>past v between. sample_gate_history = past @ Answered (sample_plan []) v # between \<and>
     normalize_human_feedback v = Inr ''approved''"
  using executed_plan_was_approved [of "[] :: nat registry" sample_gate_history "sample_plan []"
      "sample_report [] []" "[]"] sample_history_run by blast

theorem invocation_bounded_witness:
  "length [Routed] < DEFAULT_RECURSION_LIMIT"
proof -
  have "supervisor_node sample_done = None" by code_simp
  then have "graph_path ([] :: nat registry) (At Supervisor sample_done) [Routed] (Done sample_done)"
    by (intro path_cons [OF step_end path_nil])
  from invocation_bounded [OF this] show ?thesis by (simp only: list.pred_inject progress_def label.case simp_thms)
qed

theorem dispatch_runs_decided_tool_witness:
  "sample_start \<noteq> sample_start\<lparr>g_router_escalated := Some True\<rparr> \<and>
   (\<exists>name e. To_supervisor (sample_start\<lparr>g_router_escalated := Some True\<rparr>) = escalate name e sample_start)"
  using dispatch_runs_decided_tool [OF sample_dispatch]
  by (auto simp: sample_dispatcher_def get_skill_def sample_states)


text \<open>A chat whose first message is a shell command; the world counts the commands that ran.\<close>

definition counting_dispatcher :: "(nat, nat) dispatcher_lib" where
  "counting_dispatcher = \<lparr>d_registry = sample_registry, d_sig_of = (\<lambda>_. Tool_schema []),
     d_router_mode = None, d_model = (\<lambda>_. Inr None), d_invoke = (\<lambda>_ _ n. (Raw_bash (Some 0) [], Suc n))\<rparr>"

lemma sample_chat:
  "\<exists>st'. dispatch counting_dispatcher (planner_node None (chat_input ''bash ls'' False None fresh_state)) 0
           = (To_END st', 1)"
proof -
  have p: "parse_tier1_request (\<lambda>_. Tool_schema []) ''bash ls'' sample_registry =
      Inr (Some (certain ''bash'' [(''cmd_args'', PList [PStr ''ls''])]))"
    by code_simp
  have g: "get_skill ''bash'' sample_registry = Some (native_skills sample_natives ! 2)"
    by code_simp
  have t: "\<not> 1 < ROUTER_CONFIDENCE_THRESHOLD" "cap_output [] = Inr []" by code_simp+
  show ?thesis
    by (simp add: dispatch_def counting_dispatcher_def chat_input_def cli_initial_state_def p act_on_def
        certain_def g t invoke_skill_def finish_tool_def native_skills_def)
qed

theorem chat_repeats_first_task_witness:
  "\<exists>st'. dispatch counting_dispatcher (planner_node None (chat_input ''bash ls'' False None fresh_state)) 0
           = (To_END st', 1) \<and>
     snd (dispatch counting_dispatcher (planner_node None (chat_input ''thanks'' True None st')) 0) = 1"
proof -
  obtain st' where d: "dispatch counting_dispatcher
      (planner_node None (chat_input ''bash ls'' False None fresh_state)) 0 = (To_END st', 1)"
    using sample_chat by blast
  from chat_repeats_first_task [OF d, of "''thanks''" 0] d show ?thesis by (auto simp: Let_def)
qed

theorem escalation_sticks_witness:
  "supervisor_node (planner_node None (cli_initial_state ''bash ls'' None
     (sample_start\<lparr>g_router_escalated := Some True\<rparr>))) = Some Architect"
proof -
  have "escalate None None sample_start = To_supervisor (sample_start\<lparr>g_router_escalated := Some True\<rparr>)"
    by (simp add: escalate_def)
  from escalation_sticks [OF this] show ?thesis by blast
qed

text \<open>A command that failed, was planned instead, approved and executed.\<close>

definition failed_tool :: tool_execution_result where
  "failed_tool = \<lparr>tr_tool = ''bash'', tr_output = ''no such file'', tr_success = False\<rparr>"

definition recovered :: "graph_state \<Rightarrow> graph_state" where
  "recovered st = st\<lparr>g_tool_result := Some failed_tool\<rparr>"

lemma sample_recovery:
  "graph_path ([] :: nat registry) (At Supervisor (recovered (sample_start\<lparr>g_router_escalated := Some True\<rparr>)))
     [Routed, Proposed (sample_plan []), Asked (sample_plan []), Answered (sample_plan []) (PStr ''y''),
      Routed, Executed (sample_plan []) (sample_report [] []), Routed] (Done (recovered sample_done))"
proof -
  let ?e = "recovered (sample_start\<lparr>g_router_escalated := Some True\<rparr>)" and ?pl = "recovered sample_planned"
    and ?a = "recovered (sample_planned\<lparr>g_human_feedback := Some ''approved''\<rparr>)"
  have "supervisor_node (recovered sample_done) = None" "supervisor_node ?a = Some Executor"
    "supervisor_node ?e = Some Architect" by code_simp+
  note routes = this
  have "g_plan ?pl = Plan (sample_plan [])" "g_plan ?a = Plan (sample_plan [])"
    "g_executor_output (recovered sample_done) = Result (sample_report [] [])"
    by (simp_all add: recovered_def sample_planned_def sample_done_def)
  note fields = this
  have arch: "architect_node sample_architect ?e = Inr ?pl"
    by (simp add: architect_node_def sample_architect_def sample_states recovered_def)
  have gate: "human_gate_node (PStr ''y'') ?pl = Inr ?a"
    by (simp add: human_gate_node_def human_gate_prompt_def sample_approval fields(1)) (simp add: recovered_def)
  have exec: "executor_node sample_executor ?a = Inr (recovered sample_done)"
    by (simp add: executor_node_def sample_executor_def attach_self_check_def criteria_rules_def fields(2)
        startswith_def) (simp add: sample_plan_def recovered_def sample_done_def)
  note p7 = path_cons [OF step_end [OF routes(1)] path_nil]
  note p6 = path_cons [OF step_execute [OF fields(2) exec fields(3)] p7]
  note p5 = path_cons [OF step_route [OF routes(2)] p6]
  note p4 = path_cons [OF step_answer [OF fields(1) gate] p5]
  note p3 = path_cons [OF step_ask [OF fields(1)] p4]
  note p2 = path_cons [OF step_architect [OF arch fields(1)] p3]
  show ?thesis by (rule path_cons [OF step_route [OF routes(3)] p2])
qed

theorem recovered_run_reported_failed_witness:
  "g_executor_output (recovered sample_done) = Result (sample_report [] []) \<and>
   status_of ''r'' (w_ledger (snd (conclude_run sample_lib ''r'' ''t'' (sample_run ''running'')
     (Finished (snapshot_of (recovered sample_done))) (sample_exec ''running''))))
     \<in> {Some ''error'', Some ''cancelled''}"
proof -
  have "escalate (Some ''bash'') (Some (OtherError ''no such file'')) sample_start =
      To_supervisor (recovered (sample_start\<lparr>g_router_escalated := Some True\<rparr>))"
    by (simp add: escalate_def recovered_def failed_tool_def)
  from recovered_run_reported_failed [OF this sample_recovery, of "''r''" "sample_exec ''running''" sample_lib
      "''t''" "sample_run ''running''"]
  show ?thesis by (simp add: same_turn_def sample_get) (simp add: recovered_def sample_done_def)
qed

end
