(* ===== verification/Skill_Candidates.thy ===== *)
theory Skill_Candidates
  imports Observations Skills
begin

text \<open>
  \<open>agent_os/skill_candidates.py\<close>: proposals for new skills, mined from the labelled outcomes of
  repeated tasks. A candidate is a proposal only; \<open>mine_skill_candidates\<close> reads the observation
  store and the registry and changes neither. The theorems: the proposals are exactly the task
  shapes with enough labelled outcomes of sufficient score that no registered skill covers, most
  frequent first; and a proposal whose skill was registered is not made again.
\<close>

record skill_candidate =
  ca_signature :: string
  ca_task_kind :: string
  ca_occurrence_count :: nat
  ca_success_count :: nat
  ca_outcome_score :: rat
  ca_sample_run_ids :: "string list"
  ca_suggested_skill_name :: string
  ca_rationale :: string

definition MIN_SKILL_CANDIDATE_OCCURRENCES :: int where "MIN_SKILL_CANDIDATE_OCCURRENCES = 3"

definition MIN_SKILL_CANDIDATE_OUTCOME_SCORE :: rat where "MIN_SKILL_CANDIDATE_OUTCOME_SCORE = 75 / 100"

definition MAX_SAMPLE_RUN_IDS :: int where "MAX_SAMPLE_RUN_IDS = 3"

text \<open>\<open>re.sub('[^a-z0-9]+', '-', s).strip('-')\<close>\<close>

definition name_char :: "char \<Rightarrow> bool" where
  "name_char c = (is_lower c \<or> is_digit c)"

definition safe_name_part :: "string \<Rightarrow> string" where
  "safe_name_part s = join ''-'' (runs_of name_char [] s)"

definition removeprefix :: "string \<Rightarrow> string \<Rightarrow> string" where
  "removeprefix p s = (if startswith s p then drop (length p) s else s)"

definition suggested_skill_name :: "task_signature_pattern \<Rightarrow> string" where
  "suggested_skill_name p =
     (let part = safe_name_part (py_lower (tp_task_kind p))
      in ''candidate-'' @ (if part = [] then ''workflow'' else part) @ ''-'' @
         take 12 (removeprefix TASK_SIGNATURE_PREFIX (tp_task_signature p)))"

definition is_covered :: "'h registry \<Rightarrow> string \<Rightarrow> bool" where
  "is_covered reg name = (get_skill name reg \<noteq> None \<or> deterministic_match name reg \<noteq> None)"

text \<open>\<open>round(x, 4)\<close> as a number, and \<open>format(x, '.2f')\<close> of a non-negative number.\<close>

definition round4_value :: "rat \<Rightarrow> rat" where
  "round4_value x = to_double (of_int (round_half_even (x * 10000)) / 10000)"

definition fixed2 :: "rat \<Rightarrow> string" where
  "fixed2 x = (let k = nat (round_half_even (x * 100))
               in nat_str (k div 100) @ ''.'' @ [digit_char (k div 10 mod 10), digit_char (k mod 10)])"

definition candidate_of :: "task_signature_pattern \<Rightarrow> skill_candidate" where
  "candidate_of p =
     (let score = round4_value (tp_outcome_score p)
      in \<lparr>ca_signature = tp_task_signature p, ca_task_kind = tp_task_kind p,
          ca_occurrence_count = tp_occurrence_count p, ca_success_count = tp_accepted_count p,
          ca_outcome_score = score, ca_sample_run_ids = tp_sample_run_ids p,
          ca_suggested_skill_name = suggested_skill_name p,
          ca_rationale = nat_str (tp_occurrence_count p) @ '' labelled '' @ tp_task_kind p @ '' occurrences; '' @
            nat_str (tp_accepted_count p) @ '' accepted; outcome score '' @ fixed2 score @
            ''; no registered exact candidate skill.''\<rparr>)"

definition sort_candidates :: "skill_candidate list \<Rightarrow> skill_candidate list" where
  "sort_candidates cs =
     sort_key (\<lambda>c. - int (ca_occurrence_count c)) (sort_key (\<lambda>c. - ca_outcome_score c)
       (sort_key ca_suggested_skill_name (sort_key ca_signature cs)))"

definition mine_skill_candidates ::
  "obs_store option \<Rightarrow> 'h registry \<Rightarrow> string \<Rightarrow> int \<Rightarrow> rat \<Rightarrow> skill_candidate list result" where
  "mine_skill_candidates store reg workspace min_occurrences min_score =
     (case store of
        None \<Rightarrow> Inr []
      | Some s \<Rightarrow>
          if min_occurrences < 1 then Inl (ValueError ''min_occurrences must be positive'')
          else if \<not> (0 \<le> min_score \<and> min_score \<le> 1)
          then Inl (ValueError ''min_outcome_score must be between 0 and 1'')
          else Inr (sort_candidates
            (filter (\<lambda>c. \<not> is_covered reg (ca_suggested_skill_name c))
              (map candidate_of
                (filter (\<lambda>p. min_occurrences \<le> int (tp_occurrence_count p) \<and> min_score \<le> tp_outcome_score p)
                  (aggregate_task_signatures workspace MAX_SAMPLE_RUN_IDS s))))))"

section \<open>The proposals are the repeated, successful, uncovered tasks\<close>

text \<open>The labelled observations of a task shape.\<close>

definition labelled_runs :: "string \<Rightarrow> string \<Rightarrow> string \<Rightarrow> obs_store \<Rightarrow> observation_row list" where
  "labelled_runs workspace kind signature s =
     filter (\<lambda>r. ob_workspace_id r = workspace \<and> ob_task_kind r = kind \<and>
                 ob_task_signature r = Some signature \<and> labelled_row r) (observations_tbl s)"

lemma count_labelled:
  "list_all labelled_row rs \<Longrightarrow>
     count_signal ''accepted'' rs + count_signal ''rejected'' rs + count_signal ''edited'' rs = length rs"
  by (induction rs) (auto simp: count_signal_def rowcount_def labelled_row_def)

lemma signature_group:
  "filter (\<lambda>r. ob_task_kind r = k \<and> ob_task_signature r = Some g)
     (filter (\<lambda>r. ob_workspace_id r = w \<and> ob_task_signature r \<noteq> None \<and> labelled_row r) (observations_tbl s)) =
   labelled_runs w k g s"
  unfolding labelled_runs_def filter_filter by (rule filter_cong) auto

lemma signature_pattern_counts:
  assumes "p \<in> set (aggregate_task_signatures w n s)"
  shows "tp_occurrence_count p = length (labelled_runs w (tp_task_kind p) (tp_task_signature p) s) \<and>
         tp_accepted_count p =
           length (filter (\<lambda>r. ob_outcome_signal r = ''accepted'')
             (labelled_runs w (tp_task_kind p) (tp_task_signature p) s)) \<and>
         0 < tp_occurrence_count p"
proof -
  let ?rows = "filter (\<lambda>r. ob_workspace_id r = w \<and> ob_task_signature r \<noteq> None \<and> labelled_row r) (observations_tbl s)"
  from assms obtain g k where p: "p = signature_pattern w k ?rows g" and pos: "tp_occurrence_count p \<noteq> 0"
    unfolding aggregate_task_signatures_def Let_def by auto
  let ?grp = "labelled_runs w (fst g) (snd g) s"
  have "list_all labelled_row ?grp" by (simp add: labelled_runs_def list_all_iff)
  note count = count_labelled [OF this]
  have "tp_task_kind p = fst g" "tp_task_signature p = snd g"
    "tp_accepted_count p = count_signal ''accepted'' ?grp"
    "tp_occurrence_count p =
       count_signal ''accepted'' ?grp + count_signal ''rejected'' ?grp + count_signal ''edited'' ?grp"
    unfolding p signature_pattern_def Let_def signature_group by simp_all
  with count pos show ?thesis by (simp add: count_signal_def rowcount_def)
qed

lemma set_sort_candidates [simp]: "set (sort_candidates cs) = set cs"
  by (simp add: sort_candidates_def)

text \<open>Mining proposes exactly the repeated, successful and uncovered task shapes. Every proposal
  stands for at least the required number of observations of that workspace, kind and signature
  that a human labelled, its success count is the number of accepted ones, no registered skill has
  its name, and unlabelled observations count for nothing; every task shape that qualifies is
  proposed; the most frequent come first.\<close>

theorem candidates_exact:
  assumes "mine_skill_candidates (Some s) reg w n q = Inr cs"
  shows "sorted (map (\<lambda>c. - int (ca_occurrence_count c)) cs) \<and>
    set cs = candidate_of ` {p \<in> set (aggregate_task_signatures w MAX_SAMPLE_RUN_IDS s).
               n \<le> int (tp_occurrence_count p) \<and> q \<le> tp_outcome_score p \<and>
               \<not> is_covered reg (suggested_skill_name p)} \<and>
    (\<forall>c\<in>set cs. n \<le> int (length (labelled_runs w (ca_task_kind c) (ca_signature c) s)) \<and>
       ca_success_count c =
         length (filter (\<lambda>r. ob_outcome_signal r = ''accepted'')
           (labelled_runs w (ca_task_kind c) (ca_signature c) s)))"
proof -
  have name: "ca_suggested_skill_name (candidate_of p) = suggested_skill_name p" for p
    by (simp add: candidate_of_def Let_def)
  have cs: "cs = sort_candidates (filter (\<lambda>c. \<not> is_covered reg (ca_suggested_skill_name c))
      (map candidate_of (filter (\<lambda>p. n \<le> int (tp_occurrence_count p) \<and> q \<le> tp_outcome_score p)
        (aggregate_task_signatures w MAX_SAMPLE_RUN_IDS s))))"
    using assms by (simp add: mine_skill_candidates_def split: if_splits)
  have set_cs: "set cs = candidate_of ` {p \<in> set (aggregate_task_signatures w MAX_SAMPLE_RUN_IDS s).
      n \<le> int (tp_occurrence_count p) \<and> q \<le> tp_outcome_score p \<and> \<not> is_covered reg (suggested_skill_name p)}"
    unfolding cs by (auto simp: name)
  moreover have "sorted (map (\<lambda>c. - int (ca_occurrence_count c)) cs)" by (simp add: cs sort_candidates_def)
  moreover have "n \<le> int (length (labelled_runs w (ca_task_kind c) (ca_signature c) s)) \<and>
      ca_success_count c = length (filter (\<lambda>r. ob_outcome_signal r = ''accepted'')
        (labelled_runs w (ca_task_kind c) (ca_signature c) s))" if "c \<in> set cs" for c
    using that signature_pattern_counts unfolding set_cs by (auto simp: candidate_of_def Let_def)
  ultimately show ?thesis by blast
qed

text \<open>A proposal that was followed is not made again. Once a skill of the suggested name is in the
  registry, under whatever aliases, no later mining proposes that name.\<close>

theorem registered_candidate_disappears:
  assumes "mk_skill name aliases h = Inr sk" "register sk reg = Inr reg'"
    and "mine_skill_candidates store reg' w n q = Inr cs"
  shows "name \<notin> ca_suggested_skill_name ` set cs"
proof -
  have "reg' = dict_set (skill_name sk) sk reg" "skill_name sk = normal_word name"
    using assms(1,2) by (auto simp: register_def mk_skill_def Let_def split: if_splits option.splits)
  then have "is_covered reg' name" by (simp add: is_covered_def get_skill_def update_conv')
  with assms(3) show ?thesis
    by (auto simp: mine_skill_candidates_def split: option.splits if_splits)
qed

section \<open>Witnesses\<close>

definition sample_label :: "string \<Rightarrow> string \<Rightarrow> observation_row" where
  "sample_label i signal = (sample_row i i signal)\<lparr>ob_task_signature := Some ''sha256:v1:abc''\<rparr>"


definition labelled_store :: obs_store where
  "labelled_store = \<lparr>observations_tbl = [sample_label ''1'' ''accepted'', sample_label ''2'' ''accepted'',
     sample_label ''3'' ''unknown'', sample_label ''4'' ''accepted''], assignments_tbl = []\<rparr>"

lemma sample_mining:
  "mine_skill_candidates (Some labelled_store) ([] :: nat registry) ''w'' 3 (3 / 4) =
     Inr [candidate_of (hd (aggregate_task_signatures ''w'' 3 labelled_store))]"
  by code_simp

theorem candidates_exact_witness:
  "\<exists>c. mine_skill_candidates (Some labelled_store) ([] :: nat registry) ''w'' 3 (3 / 4) = Inr [c] \<and>
       3 \<le> int (length (labelled_runs ''w'' (ca_task_kind c) (ca_signature c) labelled_store))"
  using candidates_exact [OF sample_mining] sample_mining by auto

theorem registered_candidate_disappears_witness:
  "\<exists>sk reg' cs. mk_skill ''candidate-workflow-abc'' [] (0::nat) = Inr sk \<and> register sk [] = Inr reg' \<and>
     mine_skill_candidates (Some labelled_store) reg' ''w'' 3 (3 / 4) = Inr cs \<and>
     ''candidate-workflow-abc'' \<notin> ca_suggested_skill_name ` set cs"
proof -
  let ?n = "''candidate-workflow-abc''"
  have "normal_word ?n = ?n" by code_simp
  then have m: "mk_skill ?n [] (0::nat) = Inr \<lparr>skill_name = ?n, skill_aliases = [], skill_handler = 0\<rparr>"
    by (simp add: mk_skill_def)
  obtain reg' where r: "register \<lparr>skill_name = ?n, skill_aliases = [], skill_handler = 0::nat\<rparr> [] = Inr reg'"
    by (simp add: register_def)
  obtain cs where c: "mine_skill_candidates (Some labelled_store) reg' ''w'' 3 (3 / 4) = Inr cs"
    by (simp add: mine_skill_candidates_def)
  show ?thesis using m r c registered_candidate_disappears [OF m r c] by blast
qed

end
