(* ===== verification/Skill_Authoring.thy ===== *)
theory Skill_Authoring
  imports Skill_Promotion Api_Access
begin

text \<open>
  The requests of \<open>agent_os/skill_authoring.py\<close> (\<open>SkillAuthoringStore\<close>, \<open>SkillAuthoringService\<close>) and their
  endpoints in \<open>server/api.py\<close>, over the file operations of \<open>Skill_Promotion\<close>.

  \<^item> The table is the list of its rows; the dictionaries of a row are stored with sorted keys, as
    \<open>json.dumps(sort_keys=True)\<close> stores them. A world is the table and the files.
  \<^item> Each operation is one definition. The endpoints run in a thread pool, so the part of an operation
    up to its last write (\<open>submit_work\<close>, \<open>confirm_work\<close>, the check of \<open>cancel\<close>) and that write are
    separate steps of \<open>authoring_run\<close>, between which other operations and the human author work.
  \<^item> The theorems: nothing is registered without an explicit confirmation of a validated draft whose
    digest still matched; briefs and candidates never change and a candidate has one request; a
    cancellation during a confirmation is overwritten; the digest does not see byte code.
\<close>

section \<open>Requests\<close>

record candidate_input =
  ci_candidate_id :: string
  ci_signature :: string
  ci_task_kind :: string
  ci_occurrence_count :: int
  ci_success_count :: int
  ci_outcome_score :: rat
  ci_sample_run_ids :: "string list"
  ci_suggested_skill_name :: string
  ci_rationale :: string

definition text_within :: "nat \<Rightarrow> string \<Rightarrow> bool" where
  "text_within n s = (1 \<le> length s \<and> length s \<le> n)"

definition candidate_input_ok :: "candidate_input \<Rightarrow> bool" where
  "candidate_input_ok c =
     (text_within 160 (ci_candidate_id c) \<and> text_within 128 (ci_signature c) \<and> text_within 80 (ci_task_kind c) \<and>
      1 \<le> ci_occurrence_count c \<and> 0 \<le> ci_success_count c \<and> 0 \<le> ci_outcome_score c \<and> ci_outcome_score c \<le> 1 \<and>
      length (ci_sample_run_ids c) \<le> 3 \<and> text_within 120 (ci_suggested_skill_name c) \<and>
      text_within 900 (ci_rationale c))"

record authoring_request =
  ar_request_id :: string
  ar_workspace_id :: string
  ar_candidate :: candidate_input
  ar_brief :: pydict
  ar_status :: string
  ar_prepared_at :: int
  ar_draft_path :: "string option"
  ar_draft_digest :: "string option"
  ar_validation :: "pydict option"
  ar_confirmed_at :: "int option"
  ar_registered_at :: "int option"
  ar_result :: "pydict option"
  ar_error :: "string option"

definition STATUSES :: "string list" where
  "STATUSES = [''brief_ready'', ''validation_failed'', ''validated'', ''cancelled'', ''registered'']"

definition require_status :: "string \<Rightarrow> unit authored" where
  "require_status s = (if s \<in> set STATUSES then Inr () else Inl (Authoring (''Unknown authoring request status: '' @ s)))"

text \<open>What \<open>json.loads(json.dumps(x, sort_keys=True))\<close> gives back.\<close>

fun sorted_keys :: "pyval \<Rightarrow> pyval" and sorted_items :: "pyval list \<Rightarrow> pyval list" and sorted_entries :: "pydict \<Rightarrow> pydict" where
  "sorted_keys (PList xs) = PList (sorted_items xs)"
| "sorted_keys (PDict d) = PDict (sort_key fst (sorted_entries d))"
| "sorted_keys v = v"
| "sorted_items [] = []"
| "sorted_items (x # xs) = sorted_keys x # sorted_items xs"
| "sorted_entries [] = []"
| "sorted_entries ((k, v) # d) = (k, sorted_keys v) # sorted_entries d"

definition stored_dict :: "pydict \<Rightarrow> pydict" where
  "stored_dict d = sort_key fst (sorted_entries d)"

section \<open>The table\<close>

type_synonym authoring_table = "authoring_request list"

definition get_request :: "string \<Rightarrow> authoring_table \<Rightarrow> authoring_request option" where
  "get_request rid tbl = find (\<lambda>r. ar_request_id r = rid) tbl"

definition list_for_workspace :: "string \<Rightarrow> authoring_table \<Rightarrow> authoring_request list" where
  "list_for_workspace wsid tbl =
     sort_key (\<lambda>r. - ar_prepared_at r) (sort_key ar_request_id (filter (\<lambda>r. ar_workspace_id r = wsid) tbl))"

definition same_candidate :: "authoring_request \<Rightarrow> authoring_request \<Rightarrow> bool" where
  "same_candidate a b =
     (ar_workspace_id a = ar_workspace_id b \<and> ci_candidate_id (ar_candidate a) = ci_candidate_id (ar_candidate b))"

definition create_request :: "authoring_request \<Rightarrow> authoring_table \<Rightarrow> authoring_request authored \<times> authoring_table" where
  "create_request r tbl =
     (if list_ex (\<lambda>x. ar_request_id x = ar_request_id r \<or> same_candidate x r) tbl
      then (Inl (Authoring ''An immutable authoring brief already exists for this candidate''), tbl)
      else (Inr r, tbl @ [r\<lparr>ar_brief := stored_dict (ar_brief r), ar_draft_path := None, ar_draft_digest := None,
             ar_validation := None, ar_confirmed_at := None, ar_registered_at := None, ar_result := None,
             ar_error := None\<rparr>]))"

definition update_rows :: "string \<Rightarrow> (authoring_request \<Rightarrow> authoring_request) \<Rightarrow> authoring_table \<Rightarrow> authoring_table" where
  "update_rows rid f tbl = map (\<lambda>r. if ar_request_id r = rid then f r else r) tbl"

definition read_back :: "string \<Rightarrow> authoring_table \<Rightarrow> authoring_request authored \<times> authoring_table" where
  "read_back rid tbl =
     (case get_request rid tbl of None \<Rightarrow> (Inl (Authoring ''Authoring request not found''), tbl) | Some r \<Rightarrow> (Inr r, tbl))"

definition update_validation ::
  "string \<Rightarrow> string \<Rightarrow> string \<Rightarrow> validation_audit \<Rightarrow> string option \<Rightarrow> authoring_table
     \<Rightarrow> authoring_request authored \<times> authoring_table" where
  "update_validation rid s path audit err tbl =
     (case require_status s of
        Inl e \<Rightarrow> (Inl e, tbl)
      | Inr _ \<Rightarrow> read_back rid (update_rows rid
          (\<lambda>r. r\<lparr>ar_status := s, ar_draft_path := Some path, ar_draft_digest := Some (au_digest audit),
                 ar_validation := Some (stored_dict (au_summary audit)), ar_error := err\<rparr>) tbl))"

definition mark_registered ::
  "string \<Rightarrow> int \<Rightarrow> int \<Rightarrow> pydict \<Rightarrow> authoring_table \<Rightarrow> authoring_request authored \<times> authoring_table" where
  "mark_registered rid confirmed registered outcome tbl =
     read_back rid (update_rows rid
       (\<lambda>r. r\<lparr>ar_status := ''registered'', ar_confirmed_at := Some confirmed, ar_registered_at := Some registered,
              ar_result := Some (stored_dict outcome), ar_error := None\<rparr>) tbl)"

section \<open>The service\<close>

record authoring_world =
  aw_table :: authoring_table
  aw_files :: filesystem

definition authoring_workspace_id :: "workspace \<Rightarrow> filesystem \<Rightarrow> string authored" where
  "authoring_workspace_id ws fs = lifted (bind_result (resolve_checked fs (ws_base_path ws)) (\<lambda>p. Inr (abs_str p)))"

definition require_request :: "string \<Rightarrow> string list \<Rightarrow> string \<Rightarrow> authoring_table \<Rightarrow> authoring_request authored" where
  "require_request wsid allowed rid tbl =
     (case get_request rid tbl of
        None \<Rightarrow> Inl (Authoring ''Authoring request not found'')
      | Some r \<Rightarrow>
          if ar_workspace_id r \<noteq> wsid then Inl (Authoring ''Authoring request not found'')
          else if ar_status r \<notin> set allowed
          then Inl (Authoring (''Authoring request is not ready for this action: '' @ ar_status r))
          else Inr r)"

definition build_brief :: "string \<Rightarrow> candidate_input \<Rightarrow> workspace \<Rightarrow> filesystem \<Rightarrow> pydict authored" where
  "build_brief rid c ws fs =
     bind_result (lifted (resolve_checked fs (ws_base_path ws @ [DRAFTS_DIRECTORY]))) (\<lambda>staging.
       Inr [(''version'', PStr ''skill-authoring-v1''), (''request_id'', PStr rid),
            (''candidate_id'', PStr (ci_candidate_id c)), (''suggested_skill_name'', PStr (ci_suggested_skill_name c)),
            (''task_signature'', PStr (ci_signature c)), (''task_kind'', PStr (ci_task_kind c)),
            (''rationale'', PStr (ci_rationale c)), (''sample_run_ids'', PList (map PStr (ci_sample_run_ids c))),
            (''staging_directory'', PStr (abs_str staging)),
            (''constraints'', PList (map PStr
              [''A human must author the package; this request does not generate code.'',
               ''Keep the draft outside configured skill directories until validation passes.'',
               ''Registration requires a separate explicit confirmation after deterministic validation.'']))])"

definition open_states :: "string list" where
  "open_states = [''brief_ready'', ''validation_failed'', ''validated'']"

text \<open>\<open>rid\<close> is the new random identifier.\<close>

definition prepare_brief ::
  "workspace \<Rightarrow> string \<Rightarrow> string \<Rightarrow> candidate_input \<Rightarrow> int \<Rightarrow> authoring_world \<Rightarrow> authoring_request authored \<times> authoring_world" where
  "prepare_brief ws wsid rid c now w =
     (case build_brief rid c ws (aw_files w) of
        Inl e \<Rightarrow> (Inl e, w)
      | Inr brief \<Rightarrow>
          (case create_request \<lparr>ar_request_id = rid, ar_workspace_id = wsid, ar_candidate = c, ar_brief = brief,
                  ar_status = ''brief_ready'', ar_prepared_at = now, ar_draft_path = None, ar_draft_digest = None,
                  ar_validation = None, ar_confirmed_at = None, ar_registered_at = None, ar_result = None,
                  ar_error = None\<rparr> (aw_table w) of
             (r, tbl) \<Rightarrow> (r, w\<lparr>aw_table := tbl\<rparr>)))"

definition submit_work ::
  "('h, 'o, 'p, 'c, 'k) authoring_lib \<Rightarrow> workspace \<Rightarrow> string \<Rightarrow> string \<Rightarrow> string \<Rightarrow> authoring_world
     \<Rightarrow> (string list \<times> validation_audit) authored \<times> authoring_world" where
  "submit_work lib ws wsid rid path w =
     (case bind_result (require_request wsid open_states rid (aw_table w)) (\<lambda>req.
           bind_result (resolve_staging_package lib ws (aw_files w) path) (\<lambda>dir. Inr (req, dir))) of
        Inl e \<Rightarrow> (Inl e, w)
      | Inr (req, dir) \<Rightarrow>
          (case validate_staged_package lib dir (ci_suggested_skill_name (ar_candidate req)) (aw_files w) of
             (Inl e, fs) \<Rightarrow> (Inl e, w\<lparr>aw_files := fs\<rparr>)
           | (Inr audit, fs) \<Rightarrow> (Inr (dir, audit), w\<lparr>aw_files := fs\<rparr>)))"

definition submit_write ::
  "string \<Rightarrow> string list \<times> validation_audit \<Rightarrow> authoring_table \<Rightarrow> authoring_request authored \<times> authoring_table" where
  "submit_write rid found tbl =
     (case found of (dir, audit) \<Rightarrow>
        if au_passed audit then update_validation rid ''validated'' (abs_str dir) audit None tbl
        else update_validation rid ''validation_failed'' (abs_str dir) audit
               (Some ''Validation did not meet every deterministic rule'') tbl)"

definition on_table ::
  "(authoring_table \<Rightarrow> 'a authored \<times> authoring_table) \<Rightarrow> authoring_world \<Rightarrow> 'a authored \<times> authoring_world" where
  "on_table f w = (case f (aw_table w) of (r, tbl) \<Rightarrow> (r, w\<lparr>aw_table := tbl\<rparr>))"

definition submit_draft ::
  "('h, 'o, 'p, 'c, 'k) authoring_lib \<Rightarrow> workspace \<Rightarrow> string \<Rightarrow> string \<Rightarrow> string \<Rightarrow> authoring_world
     \<Rightarrow> authoring_request authored \<times> authoring_world" where
  "submit_draft lib ws wsid rid path w = and_then (submit_work lib ws wsid rid path w) (\<lambda>found. on_table (submit_write rid found))"

definition filled :: "string option \<Rightarrow> string option" where
  "filled s = (case s of None \<Rightarrow> None | Some t \<Rightarrow> if t = [] then None else Some t)"

text \<open>The part of \<open>confirm_registration\<close> before its last write.\<close>

definition confirm_checks ::
  "('h, 'o, 'p, 'c, 'k) authoring_lib \<Rightarrow> workspace \<Rightarrow> string \<Rightarrow> string \<Rightarrow> bool \<Rightarrow> authoring_world
     \<Rightarrow> (authoring_request \<times> string list \<times> string) authored" where
  "confirm_checks lib ws wsid rid confirm w =
     (if \<not> confirm then Inl (Authoring ''Final registration requires explicit confirm=true'')
      else bind_result (require_request wsid [''validated''] rid (aw_table w)) (\<lambda>req.
        case (filled (ar_draft_path req), filled (ar_draft_digest req)) of
          (Some path, Some digest) \<Rightarrow>
            bind_result (resolve_staging_package lib ws (aw_files w) path) (\<lambda>dir.
            bind_result (package_digest lib (aw_files w) dir) (\<lambda>found.
              if found \<noteq> digest then Inl (Authoring ''Draft changed after validation; submit it for validation again'')
              else Inr (req, dir, digest)))
        | _ \<Rightarrow> Inl (Authoring ''Validated draft evidence is missing'')))"

definition confirm_work ::
  "('h, 'o, 'p, 'c, 'k) authoring_lib \<Rightarrow> workspace \<Rightarrow> string \<Rightarrow> string \<Rightarrow> bool \<Rightarrow> temp_names \<Rightarrow> authoring_world
     \<Rightarrow> pydict authored \<times> authoring_world" where
  "confirm_work lib ws wsid rid confirm names w =
     (case confirm_checks lib ws wsid rid confirm w of
        Inl e \<Rightarrow> (Inl e, w)
      | Inr (req, dir, digest) \<Rightarrow>
          (case validate_staged_package lib dir (ci_suggested_skill_name (ar_candidate req)) (aw_files w) of
             (Inl e, fs) \<Rightarrow> (Inl e, w\<lparr>aw_files := fs\<rparr>)
           | (Inr audit, fs) \<Rightarrow>
               if \<not> au_passed audit \<or> au_digest audit \<noteq> digest
               then and_then (on_table (update_validation rid ''validation_failed'' (abs_str dir) audit
                                (Some ''Revalidation failed before registration'')) (w\<lparr>aw_files := fs\<rparr>)) (\<lambda>_ w'.
                      (Inl (Authoring ''Revalidation failed; registry and workspace configuration were left unchanged''), w'))
               else (case promote_and_register lib names ws dir (ci_suggested_skill_name (ar_candidate req)) fs of
                       (r, fs') \<Rightarrow> (r, w\<lparr>aw_files := fs'\<rparr>))))"

definition confirm_registration ::
  "('h, 'o, 'p, 'c, 'k) authoring_lib \<Rightarrow> workspace \<Rightarrow> string \<Rightarrow> string \<Rightarrow> bool \<Rightarrow> temp_names \<Rightarrow> int \<Rightarrow> authoring_world
     \<Rightarrow> authoring_request authored \<times> authoring_world" where
  "confirm_registration lib ws wsid rid confirm names now w =
     and_then (confirm_work lib ws wsid rid confirm names w) (\<lambda>outcome. on_table (mark_registered rid now now outcome))"

definition cancel_write :: "string \<Rightarrow> authoring_table \<Rightarrow> authoring_request authored \<times> authoring_table" where
  "cancel_write rid tbl = read_back rid (update_rows rid (\<lambda>r. r\<lparr>ar_status := ''cancelled'', ar_error := None\<rparr>) tbl)"

definition cancel_request :: "string \<Rightarrow> string \<Rightarrow> authoring_table \<Rightarrow> authoring_request authored \<times> authoring_table" where
  "cancel_request wsid rid tbl =
     (case require_request wsid open_states rid tbl of Inl e \<Rightarrow> (Inl e, tbl) | Inr _ \<Rightarrow> cancel_write rid tbl)"

section \<open>The endpoints\<close>

text \<open>\<open>_runtime_skill_authoring_service\<close>: \<open>active\<close> is the workspace of the composed runtime, if there is one. A
  registration clears the cache of the runtime.\<close>

definition authoring_service :: "workspace option \<Rightarrow> filesystem \<Rightarrow> (workspace \<times> string) authored" where
  "authoring_service active fs =
     (case active of
        None \<Rightarrow> Inl (Raised (OtherError ''RuntimeError''))
      | Some ws \<Rightarrow> bind_result (authoring_workspace_id ws fs) (\<lambda>wsid. Inr (ws, wsid)))"

definition authoring_reply :: "string \<Rightarrow> 'a authored \<Rightarrow> 'a reply" where
  "authoring_reply failure r =
     (case r of Inr x \<Rightarrow> Pass x | Inl (Authoring m) \<Rightarrow> HttpError 400 m | Inl (Raised _) \<Rightarrow> HttpError 500 failure)"

definition with_service ::
  "string \<Rightarrow> workspace option \<Rightarrow> (workspace \<Rightarrow> string \<Rightarrow> authoring_world \<Rightarrow> 'a authored \<times> authoring_world)
     \<Rightarrow> authoring_world \<Rightarrow> 'a reply \<times> authoring_world" where
  "with_service failure active act w =
     (case authoring_service active (aw_files w) of
        Inl e \<Rightarrow> (authoring_reply failure (Inl e), w)
      | Inr (ws, wsid) \<Rightarrow> (case act ws wsid w of (r, w') \<Rightarrow> (authoring_reply failure r, w')))"

definition list_skill_authoring_requests_endpoint ::
  "workspace option \<Rightarrow> authoring_world \<Rightarrow> authoring_request list reply" where
  "list_skill_authoring_requests_endpoint active w =
     (case authoring_service active (aw_files w) of
        Inl _ \<Rightarrow> HttpError 500 ''Failed to read skill authoring requests''
      | Inr (ws, wsid) \<Rightarrow> Pass (list_for_workspace wsid (aw_table w)))"

definition prepare_skill_authoring_request_endpoint ::
  "workspace option \<Rightarrow> string \<Rightarrow> candidate_input \<Rightarrow> int \<Rightarrow> authoring_world \<Rightarrow> authoring_request reply \<times> authoring_world" where
  "prepare_skill_authoring_request_endpoint active rid c now =
     with_service ''Failed to prepare skill authoring brief'' active (\<lambda>ws wsid. prepare_brief ws wsid rid c now)"

definition submit_skill_draft_endpoint ::
  "('h, 'o, 'p, 'c, 'k) authoring_lib \<Rightarrow> workspace option \<Rightarrow> string \<Rightarrow> string \<Rightarrow> authoring_world
     \<Rightarrow> authoring_request reply \<times> authoring_world" where
  "submit_skill_draft_endpoint lib active rid path =
     with_service ''Failed to validate skill draft'' active (\<lambda>ws wsid. submit_draft lib ws wsid rid path)"

definition cancel_skill_authoring_request_endpoint ::
  "workspace option \<Rightarrow> string \<Rightarrow> authoring_world \<Rightarrow> authoring_request reply \<times> authoring_world" where
  "cancel_skill_authoring_request_endpoint active rid =
     with_service ''Failed to cancel skill authoring request'' active (\<lambda>_ wsid. on_table (cancel_request wsid rid))"

definition confirm_skill_registration_endpoint ::
  "('h, 'o, 'p, 'c, 'k) authoring_lib \<Rightarrow> workspace option \<Rightarrow> string \<Rightarrow> bool \<Rightarrow> temp_names \<Rightarrow> int \<Rightarrow> authoring_world
     \<Rightarrow> authoring_request reply \<times> authoring_world" where
  "confirm_skill_registration_endpoint lib active rid confirm names now =
     with_service ''Failed to register skill package'' active
       (\<lambda>ws wsid. confirm_registration lib ws wsid rid confirm names now)"

section \<open>Interleavings\<close>

text \<open>What an operation still has to write. The confirmations that got through are recorded with the world
  they looked at.\<close>

datatype pending_write =
    Write_validation string "string list \<times> validation_audit"
  | Write_registered string int pydict
  | Write_cancelled string

fun perform_write :: "pending_write \<Rightarrow> authoring_table \<Rightarrow> authoring_table" where
  "perform_write (Write_validation rid found) tbl = snd (submit_write rid found tbl)"
| "perform_write (Write_registered rid now outcome) tbl = snd (mark_registered rid now now outcome tbl)"
| "perform_write (Write_cancelled rid) tbl = snd (cancel_write rid tbl)"

record authoring_state =
  st_world :: authoring_world
  st_pending :: "pending_write list"
  st_confirmed :: "(string \<times> bool \<times> temp_names \<times> authoring_world \<times> pydict) list"

inductive authoring_step ::
  "('h, 'o, 'p, 'c, 'k) authoring_lib \<Rightarrow> workspace \<Rightarrow> string \<Rightarrow> authoring_state \<Rightarrow> authoring_state \<Rightarrow> bool"
  for lib ws wsid where
  step_prepare: "prepare_brief ws wsid rid c now (st_world s) = (r, w) \<Longrightarrow> authoring_step lib ws wsid s (s\<lparr>st_world := w\<rparr>)"
| step_submit_failed: "submit_work lib ws wsid rid path (st_world s) = (Inl e, w) \<Longrightarrow>
    authoring_step lib ws wsid s (s\<lparr>st_world := w\<rparr>)"
| step_submit: "submit_work lib ws wsid rid path (st_world s) = (Inr found, w) \<Longrightarrow>
    authoring_step lib ws wsid s (s\<lparr>st_world := w, st_pending := Write_validation rid found # st_pending s\<rparr>)"
| step_confirm_failed: "confirm_work lib ws wsid rid confirm names (st_world s) = (Inl e, w) \<Longrightarrow>
    authoring_step lib ws wsid s (s\<lparr>st_world := w\<rparr>)"
| step_confirm: "confirm_work lib ws wsid rid confirm names (st_world s) = (Inr outcome, w) \<Longrightarrow>
    authoring_step lib ws wsid s
      (s\<lparr>st_world := w, st_pending := Write_registered rid now outcome # st_pending s,
         st_confirmed := (rid, confirm, names, st_world s, outcome) # st_confirmed s\<rparr>)"
| step_cancel: "require_request wsid open_states rid (aw_table (st_world s)) = Inr req \<Longrightarrow>
    authoring_step lib ws wsid s (s\<lparr>st_pending := Write_cancelled rid # st_pending s\<rparr>)"
| step_write: "st_pending s = before @ job # after \<Longrightarrow>
    authoring_step lib ws wsid s
      (s\<lparr>st_world := (st_world s)\<lparr>aw_table := perform_write job (aw_table (st_world s))\<rparr>, st_pending := before @ after\<rparr>)"
| step_human: "authoring_step lib ws wsid s (s\<lparr>st_world := (st_world s)\<lparr>aw_files := fs\<rparr>\<rparr>)"

definition authoring_start :: "filesystem \<Rightarrow> authoring_state" where
  "authoring_start fs = \<lparr>st_world = \<lparr>aw_table = [], aw_files = fs\<rparr>, st_pending = [], st_confirmed = []\<rparr>"

lemma snd_read_back [simp]: "snd (read_back rid tbl) = tbl"
  by (simp add: read_back_def split: option.split)

lemma read_back_at: "read_back rid tbl = (r, tbl') \<Longrightarrow> tbl' = tbl"
  by (metis snd_conv snd_read_back)

lemma update_validation_at: "update_validation rid s path audit err tbl = (r, tbl') \<Longrightarrow>
    tbl' = tbl \<or> tbl' = update_rows rid (\<lambda>r. r\<lparr>ar_status := s, ar_draft_path := Some path,
       ar_draft_digest := Some (au_digest audit), ar_validation := Some (stored_dict (au_summary audit)), ar_error := err\<rparr>) tbl"
  by (auto simp: update_validation_def split: sum.splits dest: read_back_at)

text \<open>How the table changes in a step: a row is added, or the rows of one request get new values of the
  fields that are not fixed.\<close>

definition fixed_part :: "authoring_request \<Rightarrow> string \<times> string \<times> candidate_input \<times> pydict \<times> int" where
  "fixed_part r = (ar_request_id r, ar_workspace_id r, ar_candidate r, ar_brief r, ar_prepared_at r)"

definition table_change :: "authoring_table \<Rightarrow> authoring_table \<Rightarrow> bool" where
  "table_change tbl tbl' =
     ((\<exists>r. tbl' = tbl @ [r] \<and> ar_status r = ''brief_ready'' \<and> (\<forall>x\<in>set tbl. ar_request_id x \<noteq> ar_request_id r \<and> \<not> same_candidate x r)) \<or>
      (\<exists>rid f. tbl' = update_rows rid f tbl \<and> (\<forall>r. fixed_part (f r) = fixed_part r)))"

lemma change_refl: "table_change tbl tbl"
  unfolding table_change_def by (intro disjI2 exI [of _ "[]"] exI [of _ "\<lambda>r. r"]) (simp add: update_rows_def)

lemma change_update: "(\<And>r. fixed_part (f r) = fixed_part r) \<Longrightarrow> table_change tbl (update_rows rid f tbl)"
  unfolding table_change_def by blast

lemma change_validation: "update_validation rid s path audit err tbl = (r, tbl') \<Longrightarrow> table_change tbl tbl'"
  by (drule update_validation_at, elim disjE) (auto intro!: change_refl change_update simp: fixed_part_def)

lemma change_write: "table_change tbl (perform_write job tbl)"
proof (cases job)
  case (Write_validation rid found)
  obtain dir audit where "found = (dir, audit)" by fastforce
  with Write_validation show ?thesis
    by (auto simp: submit_write_def intro: change_validation [OF surjective_pairing])
next
  case (Write_registered rid now outcome)
  then show ?thesis by (auto simp: mark_registered_def fixed_part_def intro!: change_update)
next
  case (Write_cancelled rid)
  then show ?thesis by (auto simp: cancel_write_def fixed_part_def intro!: change_update)
qed

lemma prepare_change:
  assumes "prepare_brief ws wsid rid c now w = (r, w')"
  shows "table_change (aw_table w) (aw_table w')"
proof -
  have "table_change tbl (snd (create_request q tbl))" if "ar_status q = ''brief_ready''" for q tbl
    using that change_refl unfolding table_change_def
    by (auto simp: create_request_def list_ex_iff same_candidate_def)
  with assms change_refl show ?thesis
    by (auto simp: prepare_brief_def split: sum.splits prod.splits) (metis authoring_request.select_convs(5) snd_conv)
qed

lemma submit_work_table: "submit_work lib ws wsid rid path w = (r, w') \<Longrightarrow> aw_table w' = aw_table w"
  by (auto simp: submit_work_def split: sum.splits prod.splits)

lemma confirm_work_cases:
  assumes "confirm_work lib ws wsid rid confirm names w = (r, w')"
  shows "table_change (aw_table w) (aw_table w')" "(\<exists>x. r = Inr x) \<Longrightarrow> aw_table w' = aw_table w"
  using assms
  by (auto simp: confirm_work_def on_table_def and_then_def change_refl split: sum.splits prod.splits if_splits
      dest: change_validation)

lemma step_change: "authoring_step lib ws wsid s s' \<Longrightarrow> table_change (aw_table (st_world s)) (aw_table (st_world s'))"
  by (induction rule: authoring_step.induct)
     (auto simp: change_refl change_write submit_work_table confirm_work_cases(1) dest: prepare_change)

section \<open>Briefs are immutable\<close>

lemma map_fixed_update: "(\<And>r. fixed_part (f r) = fixed_part r) \<Longrightarrow> map fixed_part (update_rows rid f tbl) = map fixed_part tbl"
  by (simp add: update_rows_def)

text \<open>No two requests with one identifier, and none of two for one candidate of a workspace.\<close>

definition requests_unique :: "authoring_table \<Rightarrow> bool" where
  "requests_unique tbl =
     (distinct (map ar_request_id tbl) \<and> distinct (map (\<lambda>r. (ar_workspace_id r, ci_candidate_id (ar_candidate r))) tbl))"

definition request_key :: "string \<times> string \<times> candidate_input \<times> pydict \<times> int \<Rightarrow> string \<times> string" where
  "request_key p = (case p of (rid, wsid, c, brief, t) \<Rightarrow> (wsid, ci_candidate_id c))"

lemma requests_unique_fixed:
  "requests_unique tbl \<longleftrightarrow> distinct (map fst (map fixed_part tbl)) \<and> distinct (map request_key (map fixed_part tbl))"
  by (simp add: requests_unique_def fixed_part_def request_key_def comp_def)

lemma change_fixed:
  assumes "table_change tbl tbl'"
  shows "\<exists>more. map fixed_part tbl' = map fixed_part tbl @ more" "requests_unique tbl \<Longrightarrow> requests_unique tbl'"
proof -
  from assms have cases: "(\<exists>r. tbl' = tbl @ [r] \<and> (\<forall>x\<in>set tbl. ar_request_id x \<noteq> ar_request_id r \<and> \<not> same_candidate x r)) \<or>
      map fixed_part tbl' = map fixed_part tbl"
    unfolding table_change_def using map_fixed_update by blast
  then show "\<exists>more. map fixed_part tbl' = map fixed_part tbl @ more" by auto
  from cases show "requests_unique tbl'" if "requests_unique tbl"
  proof
    assume "map fixed_part tbl' = map fixed_part tbl"
    with that show ?thesis by (simp add: requests_unique_fixed)
  qed (use that in \<open>auto simp: requests_unique_def same_candidate_def, metis+\<close>)
qed

lemma steps_fixed:
  assumes "(authoring_step lib ws wsid)\<^sup>*\<^sup>* s s'"
  shows "\<exists>more. map fixed_part (aw_table (st_world s')) = map fixed_part (aw_table (st_world s)) @ more"
    "requests_unique (aw_table (st_world s)) \<Longrightarrow> requests_unique (aw_table (st_world s'))"
  using assms
proof (induction rule: rtranclp_induct)
  case (step t u)
  note change = change_fixed [OF step_change [OF step.hyps(2)]]
  { case 1 from step.IH(1) change(1) show ?case by (metis append.assoc) next
    case 2 from step.IH(2) [OF 2] show ?case by (rule change(2)) }
qed auto

text \<open>Over every interleaving of the endpoints and of the human author, request identifiers stay unique, a
  candidate of a workspace has at most one request, and no request is removed or changes its
  workspace, its candidate, its brief or its time: the fixed parts of the rows are only appended to.\<close>

theorem briefs_immutable:
  assumes "(authoring_step lib ws wsid)\<^sup>*\<^sup>* (authoring_start fs) s" "(authoring_step lib ws wsid)\<^sup>*\<^sup>* s s'"
  shows "requests_unique (aw_table (st_world s')) \<and>
    (\<exists>more. map fixed_part (aw_table (st_world s')) = map fixed_part (aw_table (st_world s)) @ more)"
proof -
  have "requests_unique (aw_table (st_world (authoring_start fs)))"
    by (simp add: authoring_start_def requests_unique_def)
  then show ?thesis using steps_fixed(2) [OF assms(1)] steps_fixed [OF assms(2)] by blast
qed

section \<open>Registration needs a confirmation\<close>

lemma confirm_work_gated:
  assumes "confirm_work lib ws wsid rid confirm names w = (Inr outcome, w')"
  obtains req path digest dir audit fs fs' where "confirm" "get_request rid (aw_table w) = Some req"
    "ar_workspace_id req = wsid" "ar_status req = ''validated''" "ar_draft_path req = Some path"
    "ar_draft_digest req = Some digest" "resolve_staging_package lib ws (aw_files w) path = Inr dir"
    "package_digest lib (aw_files w) dir = Inr digest"
    "validate_staged_package lib dir (ci_suggested_skill_name (ar_candidate req)) (aw_files w) = (Inr audit, fs)"
    "au_passed audit" "au_digest audit = digest"
    "promote_and_register lib names ws dir (ci_suggested_skill_name (ar_candidate req)) fs = (Inr outcome, fs')"
    "w' = w\<lparr>aw_files := fs'\<rparr>"
proof -
  from assms obtain req dir digest where c: "confirm_checks lib ws wsid rid confirm w = Inr (req, dir, digest)"
    by (auto simp: confirm_work_def split: sum.splits)
  then obtain path where p: "confirm" "require_request wsid [''validated''] rid (aw_table w) = Inr req"
    "filled (ar_draft_path req) = Some path" "filled (ar_draft_digest req) = Some digest"
    "resolve_staging_package lib ws (aw_files w) path = Inr dir" "package_digest lib (aw_files w) dir = Inr digest"
    by (auto simp: confirm_checks_def split: if_splits option.splits)
  have "get_request rid (aw_table w) = Some req" "ar_workspace_id req = wsid" "ar_status req = ''validated''"
    using p(2) by (auto simp: require_request_def split: option.splits if_splits)
  moreover have "ar_draft_path req = Some path" "ar_draft_digest req = Some digest"
    using p(3,4) by (auto simp: filled_def split: option.splits if_splits)
  moreover obtain audit fs fs' where
    "validate_staged_package lib dir (ci_suggested_skill_name (ar_candidate req)) (aw_files w) = (Inr audit, fs)"
    "au_passed audit" "au_digest audit = digest"
    "promote_and_register lib names ws dir (ci_suggested_skill_name (ar_candidate req)) fs = (Inr outcome, fs')"
    "w' = w\<lparr>aw_files := fs'\<rparr>"
    using assms c by (auto simp: confirm_work_def and_then_def split: sum.splits prod.splits if_splits)
  ultimately show ?thesis using p that by blast
qed

definition recorded :: "authoring_state \<Rightarrow> string \<Rightarrow> pydict \<Rightarrow> bool" where
  "recorded s rid outcome = (\<exists>confirm names w. (rid, confirm, names, w, outcome) \<in> set (st_confirmed s))"

definition confirmations_kept :: "authoring_state \<Rightarrow> bool" where
  "confirmations_kept s =
     ((\<forall>rid now outcome. Write_registered rid now outcome \<in> set (st_pending s) \<longrightarrow> recorded s rid outcome) \<and>
      (\<forall>r\<in>set (aw_table (st_world s)). ar_status r = ''registered'' \<longrightarrow>
         (\<exists>outcome. recorded s (ar_request_id r) outcome \<and> ar_result r = Some (stored_dict outcome))))"

text \<open>What a write does to a row that is registered afterwards.\<close>

lemma update_status: "r \<in> set (update_rows rid f tbl) \<Longrightarrow> r \<in> set tbl \<or> (\<exists>x\<in>set tbl. ar_request_id x = rid \<and> r = f x)"
  by (auto simp: update_rows_def)

lemma validation_rows:
  assumes "update_validation rid s path audit err tbl = (q, tbl')" "s \<noteq> ''registered''"
    and "r \<in> set tbl'" "ar_status r = ''registered''"
  shows "r \<in> set tbl"
  using update_validation_at [OF assms(1)] assms(2-4) by (auto dest!: update_status)

lemma write_rows:
  assumes "r \<in> set (perform_write job tbl)" "ar_status r = ''registered''"
  shows "r \<in> set tbl \<or>
    (\<exists>now outcome. job = Write_registered (ar_request_id r) now outcome \<and> ar_result r = Some (stored_dict outcome))"
proof (cases job)
  case (Write_validation rid found)
  obtain dir audit where "found = (dir, audit)" by fastforce
  with Write_validation assms show ?thesis
    by (auto simp: submit_write_def split: if_splits dest: validation_rows [OF surjective_pairing, rotated])
next
  case (Write_registered rid now outcome)
  with assms show ?thesis by (auto simp: mark_registered_def dest!: update_status)
next
  case (Write_cancelled rid)
  with assms show ?thesis by (auto simp: cancel_write_def dest!: update_status)
qed

lemma failed_rows:
  "update_validation rid ''validation_failed'' path audit err tbl = (q, tbl') \<Longrightarrow> r \<in> set tbl' \<Longrightarrow>
     ar_status r = ''registered'' \<Longrightarrow> r \<in> set tbl"
  by (erule validation_rows) simp_all

lemma work_rows:
  "confirm_work lib ws wsid rid confirm names w = (x, w') \<Longrightarrow> r \<in> set (aw_table w') \<Longrightarrow> ar_status r = ''registered'' \<Longrightarrow>
     r \<in> set (aw_table w)"
  by (auto simp: confirm_work_def on_table_def and_then_def split: sum.splits prod.splits if_splits
      dest: failed_rows)

lemma prepare_rows:
  "prepare_brief ws wsid rid c now w = (x, w') \<Longrightarrow> r \<in> set (aw_table w') \<Longrightarrow> ar_status r = ''registered'' \<Longrightarrow>
     r \<in> set (aw_table w)"
  by (auto simp: prepare_brief_def create_request_def split: sum.splits prod.splits if_splits)

lemma kept_mono:
  assumes "confirmations_kept s" "set (st_confirmed s) \<subseteq> set (st_confirmed s')"
    and "\<And>rid now outcome. Write_registered rid now outcome \<in> set (st_pending s') \<Longrightarrow>
           Write_registered rid now outcome \<in> set (st_pending s) \<or> recorded s' rid outcome"
    and "\<And>r. r \<in> set (aw_table (st_world s')) \<Longrightarrow> ar_status r = ''registered'' \<Longrightarrow> r \<in> set (aw_table (st_world s)) \<or>
           (\<exists>outcome. recorded s (ar_request_id r) outcome \<and> ar_result r = Some (stored_dict outcome))"
  shows "confirmations_kept s'"
proof -
  have "recorded s rid outcome \<Longrightarrow> recorded s' rid outcome" for rid outcome
    using assms(2) by (auto simp: recorded_def)
  with assms(1,3,4) show ?thesis unfolding confirmations_kept_def by meson
qed

lemma step_keeps:
  assumes "authoring_step lib ws wsid s s'" "confirmations_kept s"
  shows "confirmations_kept s'"
  using assms
proof cases
  case (step_write before job after)
  have pending: "recorded s rid outcome" if "job = Write_registered rid now outcome" for rid now outcome
    using assms(2) step_write(2) that by (auto simp: confirmations_kept_def)
  have "r \<in> set (aw_table (st_world s)) \<or>
      (\<exists>outcome. recorded s (ar_request_id r) outcome \<and> ar_result r = Some (stored_dict outcome))"
    if "r \<in> set (perform_write job (aw_table (st_world s)))" "ar_status r = ''registered''" for r
    using write_rows [OF that] pending by blast
  with step_write show ?thesis by (intro kept_mono [OF assms(2)]) auto
next
  case (step_confirm rid confirm names outcome w now)
  with work_rows [OF step_confirm(2)] show ?thesis
    by (intro kept_mono [OF assms(2)]) (auto simp: recorded_def)
next
  case (step_confirm_failed rid confirm names e w)
  with work_rows [OF step_confirm_failed(2)] show ?thesis by (intro kept_mono [OF assms(2)]) (auto simp: recorded_def)
next
  case (step_prepare rid c now r w)
  with prepare_rows [OF step_prepare(2)] show ?thesis by (intro kept_mono [OF assms(2)]) (auto simp: recorded_def)
qed (intro kept_mono [OF assms(2)]; auto simp: recorded_def submit_work_table)+

lemma confirmations_gated:
  assumes "(authoring_step lib ws wsid)\<^sup>*\<^sup>* (authoring_start fs) s" "(rid, confirm, names, w, outcome) \<in> set (st_confirmed s)"
  shows "\<exists>w'. confirm_work lib ws wsid rid confirm names w = (Inr outcome, w')"
  using assms
proof (induction rule: rtranclp_induct)
  case (step t u)
  from step.hyps(2) step.prems step.IH show ?case
    by cases auto
qed (simp add: authoring_start_def)


section \<open>A cancellation during a confirmation\<close>

lemma get_update:
  assumes "\<And>r. ar_request_id (f r) = ar_request_id r"
  shows "get_request rid (update_rows rid f tbl) = map_option f (get_request rid tbl)"
  using assms by (induction tbl) (auto simp: get_request_def update_rows_def)

lemma read_back_update:
  assumes "\<And>r. ar_request_id (f r) = ar_request_id r" "get_request rid tbl = Some x"
  shows "read_back rid (update_rows rid f tbl) = (Inr (f x), update_rows rid f tbl)"
  by (simp add: read_back_def get_update [OF assms(1)] assms(2))

text \<open>While a confirmation is at work, a cancellation of the same request is accepted and answered with
  \<open>cancelled\<close>, although the package is installed; the confirmation then overwrites the status with
  \<open>registered\<close> without looking.\<close>

theorem cancellation_during_confirmation_lost:
  assumes "confirm_work lib ws wsid rid confirm names w = (Inr outcome, w')"
  shows "\<exists>c tbl r tbl'. cancel_request wsid rid (aw_table w') = (Inr c, tbl) \<and> ar_status c = ''cancelled'' \<and>
    mark_registered rid now now outcome tbl = (Inr r, tbl') \<and> ar_status r = ''registered''"
proof -
  from confirm_work_gated [OF assms] obtain req fs' where "get_request rid (aw_table w) = Some req"
    "ar_workspace_id req = wsid" "ar_status req = ''validated''" "w' = w\<lparr>aw_files := fs'\<rparr>" .
  then have req: "get_request rid (aw_table w') = Some req" "ar_workspace_id req = wsid" "ar_status req = ''validated''"
    by simp_all
  let ?f = "\<lambda>r. r\<lparr>ar_status := ''cancelled'', ar_error := None\<rparr>"
  let ?tbl = "update_rows rid ?f (aw_table w')"
  have c: "cancel_request wsid rid (aw_table w') = (Inr (?f req), ?tbl)"
    using req by (simp add: cancel_request_def require_request_def open_states_def cancel_write_def
        read_back_update [OF _ req(1)])
  let ?g = "\<lambda>r. r\<lparr>ar_status := ''registered'', ar_confirmed_at := Some now, ar_registered_at := Some now,
              ar_result := Some (stored_dict outcome), ar_error := None\<rparr>"
  have "get_request rid ?tbl = Some (?f req)" by (simp add: get_update req(1))
  from read_back_update [OF _ this, of ?g]
  have "mark_registered rid now now outcome ?tbl = (Inr (?g (?f req)), update_rows rid ?g ?tbl)"
    by (simp add: mark_registered_def)
  moreover have "ar_status (?f req) = ''cancelled''" "ar_status (?g (?f req)) = ''registered''" by simp_all
  ultimately show ?thesis using c by blast
qed

section \<open>What the digest covers\<close>

definition byte_code :: "string list \<Rightarrow> bool" where
  "byte_code q = (''__pycache__'' \<in> set q \<or> pyc_file (List.last q))"

lemma digest_skips:
  "(\<And>q. q \<in> set qs \<Longrightarrow> \<not> P q \<Longrightarrow> \<not> is_link fs q \<and> byte_code q) \<Longrightarrow>
     digest_stream fs dir qs = digest_stream fs dir (filter P qs)"
  by (induction qs) (auto simp: byte_code_def)

lemma digest_stream_cong:
  "(\<And>q. q \<in> set qs \<Longrightarrow> is_link fs' q = is_link fs q \<and> is_file fs' q = is_file fs q \<and> os_read fs' q = os_read fs q) \<Longrightarrow>
     digest_stream fs' dir qs = digest_stream fs dir qs"
  by (induction qs) simp_all

lemma with_new_files:
  assumes "\<forall>(q, x)\<in>set extra. q \<notin> fst ` set fs \<and> (\<exists>b. x = File b)"
  shows "link_of (fs @ extra) = link_of fs" "q \<in> fst ` set fs \<Longrightarrow> map_of (fs @ extra) q = map_of fs q"
    "q \<notin> fst ` set fs \<Longrightarrow> map_of (fs @ extra) q = map_of extra q"
    "map_of extra q = Some x \<Longrightarrow> \<exists>b. x = File b"
proof -
  show files: "\<exists>b. x = File b" if "map_of extra q = Some x" for q x using map_of_SomeD [OF that] assms by auto
  show at_old: "map_of (fs @ extra) q = map_of fs q" if "q \<in> fst ` set fs" for q
    using that by (auto simp: map_add_def map_of_eq_None_iff split: option.splits)
  show at_new: "map_of (fs @ extra) q = map_of extra q" if "q \<notin> fst ` set fs" for q
    using that by (simp add: map_add_def map_of_eq_None_iff [symmetric])
  have "link_of (fs @ extra) q = link_of fs q" for q
  proof (cases "q \<in> fst ` set fs")
    case False
    then have "map_of fs q = None" by (simp add: map_of_eq_None_iff)
    with False files show ?thesis by (auto simp: link_of_def at_new simp del: map_of_append split: option.splits node.splits)
  qed (simp add: link_of_def at_old del: map_of_append)
  then show "link_of (fs @ extra) = link_of fs" by blast
qed

lemma link_free_not_link: "link_free fs q \<Longrightarrow> q \<noteq> [] \<Longrightarrow> \<not> is_link fs q"
  using bspec [of "{1..length q}" "\<lambda>n. \<not> is_link fs (take n q)" "length q"] by (simp add: link_free_def Suc_le_eq)

text \<open>The digest does not see byte code. Files that appear in \<open>__pycache__\<close> directories of a validated draft,
  or with the suffix \<open>.pyc\<close>, leave the digest as it was, so the confirmation accepts them unseen, and
  the promotion copies them into the approved package.\<close>

theorem digest_ignores_byte_code:
  assumes draft: "\<forall>q\<in>set (tree_below fs dir). link_free fs q" "map_of fs dir = Some Directory"
    and extra: "\<forall>(q, x)\<in>set extra. q \<notin> fst ` set fs \<and> (\<exists>b. x = File b)" "\<forall>(q, x)\<in>set extra. byte_code q"
    and copy: "copy_tree lib dir temp (fs @ extra) = (Inr u, fs')"
      "\<And>q. is_relative_to q temp \<Longrightarrow> map_of (fs @ extra) q = None"
  shows "package_digest lib (fs @ extra) dir = package_digest lib fs dir \<and>
    (\<forall>q x. map_of extra q = Some x \<and> is_relative_to q dir \<longrightarrow> map_of fs' (temp @ drop (length dir) q) = Some x)"
proof -
  let ?fs = "fs @ extra" let ?old = "\<lambda>q. q \<in> fst ` set fs"
  note new = with_new_files [OF extra(1)]
  have links: "is_link ?fs q = is_link fs q" for q using new(1) by (metis is_link_iff)
  have "set (filter ?old (tree_below ?fs dir)) = set (tree_below fs dir)" by (auto simp: tree_below_def)
  then have sorted: "filter ?old (sort (tree_below ?fs dir)) = sort (tree_below fs dir)"
    by (intro sorted_distinct_set_unique) (simp_all add: tree_below_def filter_sort)
  have skipped: "\<not> is_link ?fs q \<and> byte_code q" if "q \<in> set (sort (tree_below ?fs dir))" "\<not> ?old q" for q
    using that links link_is_key [of fs q] extra(2) by (auto simp: tree_below_def)
  have same: "is_link ?fs q = is_link fs q \<and> is_file ?fs q = is_file fs q \<and> os_read ?fs q = os_read fs q"
    if "q \<in> set (sort (tree_below fs dir))" for q
  proof -
    from that draft(1) have q: "?old q" "link_free fs q" by (auto simp: tree_below_def)
    then have "link_free ?fs q" using link_free_cong [OF new(1)] by simp
    with q show ?thesis by (simp add: links is_file_def os_read_def os_node_def path_resolve_id new(2) del: map_of_append)
  qed
  have "digest_stream ?fs dir (sort (tree_below ?fs dir)) = digest_stream ?fs dir (sort (tree_below fs dir))"
    unfolding sorted [symmetric] by (rule digest_skips) (use skipped in blast)
  also have "\<dots> = digest_stream fs dir (sort (tree_below fs dir))" by (rule digest_stream_cong) (use same in blast)
  finally have digest: "package_digest lib ?fs dir = package_digest lib fs dir" by (simp add: package_digest_def)
  have no_links: "list_all (\<lambda>q. \<not> is_link ?fs q) (tree_below ?fs dir)"
  proof (unfold list_all_iff, intro ballI)
    fix q assume q: "q \<in> set (tree_below ?fs dir)"
    show "\<not> is_link ?fs q"
    proof (cases "?old q")
      case True
      with q have "q \<in> set (tree_below fs dir)" by (auto simp: tree_below_def)
      with draft(1) have "link_free fs q" "q \<noteq> dir" "is_relative_to q dir" by (auto simp: tree_below_def)
      then show ?thesis unfolding links using link_free_not_link [of fs q] by (auto simp: is_relative_iff)
    qed (use q skipped in simp)
  qed
  have "?old dir" using draft(2) by (force dest: map_of_SomeD)
  then have at_dir: "map_of ?fs dir = Some Directory" using draft(2) new(2) by simp
  have "map_of fs' (temp @ drop (length dir) q) = Some x" if "map_of extra q = Some x" "is_relative_to q dir" for q x
  proof -
    have "\<not> ?old q" using map_of_SomeD [OF that(1)] extra(1) by auto
    then have "map_of ?fs q = Some x" using new(3) that(1) by simp
    with copy_tree_cases [OF copy(1) no_links at_dir copy(2), of "temp @ drop (length dir) q"] that(2)
    show ?thesis by (auto simp: is_relative_iff simp del: map_of_append)
  qed
  with digest show ?thesis by blast
qed

section \<open>Witnesses\<close>

definition draft_candidate :: candidate_input where
  "draft_candidate = \<lparr>ci_candidate_id = ''c'', ci_signature = ''s'', ci_task_kind = ''k'', ci_occurrence_count = 3,
     ci_success_count = 3, ci_outcome_score = 1, ci_sample_run_ids = [], ci_suggested_skill_name = ''go'', ci_rationale = ''r''\<rparr>"

definition draft_world :: authoring_world where "draft_world = \<lparr>aw_table = [], aw_files = draft_files\<rparr>"

definition prepared_world :: authoring_world where
  "prepared_world = snd (prepare_brief draft_workspace ''/b'' ''1'' draft_candidate 5 draft_world)"

definition submitted_world :: authoring_world where
  "submitted_world = snd (submit_draft draft_lib draft_workspace ''/b'' ''1'' ''/b/skill-drafts/p'' prepared_world)"

definition confirmed_work :: "pydict authored \<times> authoring_world" where
  "confirmed_work = confirm_work draft_lib draft_workspace ''/b'' ''1'' True draft_names submitted_world"

definition promoted_result :: pydict where
  "promoted_result = [(''package_path'', PStr ''/b/skill-packages/go''), (''registered_skill_name'', PStr ''go'')]"

lemma sample_confirmed: "fst confirmed_work = Inr promoted_result"
  by code_simp

abbreviation sample_step :: "authoring_state \<Rightarrow> authoring_state \<Rightarrow> bool" where
  "sample_step \<equiv> authoring_step draft_lib draft_workspace ''/b''"

definition registered_state :: authoring_state where
  "registered_state = \<lparr>st_world = (snd confirmed_work)\<lparr>aw_table :=
       perform_write (Write_registered ''1'' 7 promoted_result) (aw_table (snd confirmed_work))\<rparr>, st_pending = [],
     st_confirmed = [(''1'', True, draft_names, submitted_world, promoted_result)]\<rparr>"

lemma sample_submitted:
  "\<exists>found w. submit_work draft_lib draft_workspace ''/b'' ''1'' ''/b/skill-drafts/p'' prepared_world = (Inr found, w)"
proof -
  have "(case submit_work draft_lib draft_workspace ''/b'' ''1'' ''/b/skill-drafts/p'' prepared_world of (Inr _, _) \<Rightarrow> True | _ \<Rightarrow> False)"
    by code_simp
  then show ?thesis by (auto split: prod.splits sum.splits)
qed

lemma authoring_history: "sample_step\<^sup>*\<^sup>* (authoring_start draft_files) registered_state"
proof -
  obtain found w where sub: "submit_work draft_lib draft_workspace ''/b'' ''1'' ''/b/skill-drafts/p'' prepared_world = (Inr found, w)"
    using sample_submitted by blast
  have world: "submitted_world = w\<lparr>aw_table := perform_write (Write_validation ''1'' found) (aw_table w)\<rparr>"
    by (simp add: submitted_world_def submit_draft_def sub and_then_def on_table_def split_beta)
  have conf: "confirm_work draft_lib draft_workspace ''/b'' ''1'' True draft_names submitted_world = (Inr promoted_result, snd confirmed_work)"
    using sample_confirmed by (simp add: confirmed_work_def prod_eq_iff)
  have 1: "sample_step (authoring_start draft_files) \<lparr>st_world = prepared_world, st_pending = [], st_confirmed = []\<rparr>"
    using step_prepare [of draft_workspace "''/b''" "''1''" draft_candidate 5 "authoring_start draft_files" _ prepared_world draft_lib]
    by (simp add: authoring_start_def prepared_world_def draft_world_def prod_eq_iff)
  have 2: "sample_step \<lparr>st_world = prepared_world, st_pending = [], st_confirmed = []\<rparr>
      \<lparr>st_world = w, st_pending = [Write_validation ''1'' found], st_confirmed = []\<rparr>"
    using step_submit [of draft_lib draft_workspace "''/b''" "''1''" "''/b/skill-drafts/p''"
        "\<lparr>st_world = prepared_world, st_pending = [], st_confirmed = []\<rparr>" found w] sub by simp
  have 3: "sample_step \<lparr>st_world = w, st_pending = [Write_validation ''1'' found], st_confirmed = []\<rparr>
      \<lparr>st_world = submitted_world, st_pending = [], st_confirmed = []\<rparr>"
    using step_write [of "\<lparr>st_world = w, st_pending = [Write_validation ''1'' found], st_confirmed = []\<rparr>" "[]" "Write_validation ''1'' found" "[]"
        draft_lib draft_workspace "''/b''"] by (simp add: world)
  have 4: "sample_step \<lparr>st_world = submitted_world, st_pending = [], st_confirmed = []\<rparr>
      \<lparr>st_world = snd confirmed_work, st_pending = [Write_registered ''1'' 7 promoted_result],
      st_confirmed = [(''1'', True, draft_names, submitted_world, promoted_result)]\<rparr>"
    using step_confirm [of draft_lib draft_workspace "''/b''" "''1''" True draft_names
        "\<lparr>st_world = submitted_world, st_pending = [], st_confirmed = []\<rparr>" promoted_result "snd confirmed_work" 7] conf by simp
  have 5: "sample_step \<lparr>st_world = snd confirmed_work, st_pending = [Write_registered ''1'' 7 promoted_result],
      st_confirmed = [(''1'', True, draft_names, submitted_world, promoted_result)]\<rparr>
      registered_state"
    using step_write [of "\<lparr>st_world = snd confirmed_work, st_pending = [Write_registered ''1'' 7 promoted_result],
      st_confirmed = [(''1'', True, draft_names, submitted_world, promoted_result)]\<rparr>" "[]" "Write_registered ''1'' 7 promoted_result" "[]"
        draft_lib draft_workspace "''/b''"]
    by (simp add: registered_state_def)
  from 1 2 3 4 5 show ?thesis by (meson converse_rtranclp_into_rtranclp rtranclp.rtrancl_refl)
qed

lemma sample_registered:
  "\<exists>r\<in>set (aw_table (st_world registered_state)). ar_status r = ''registered'' \<and> ar_request_id r = ''1'' \<and>
     ar_result r = Some promoted_result"
  by code_simp

theorem briefs_immutable_witness: "requests_unique (aw_table (st_world registered_state))"
  using briefs_immutable [OF authoring_history rtranclp.rtrancl_refl] by blast


theorem cancellation_during_confirmation_lost_witness:
  "\<exists>c tbl. cancel_request ''/b'' ''1'' (aw_table (snd confirmed_work)) = (Inr c, tbl) \<and> ar_status c = ''cancelled''"
proof -
  have "confirm_work draft_lib draft_workspace ''/b'' ''1'' True draft_names submitted_world = (Inr promoted_result, snd confirmed_work)"
    using sample_confirmed by (simp add: confirmed_work_def prod_eq_iff)
  from cancellation_during_confirmation_lost [OF this] show ?thesis by blast
qed

definition hidden_code :: filesystem where
  "hidden_code = [([''b'', ''skill-drafts'', ''p'', ''__pycache__'', ''m.pyc''], File (Some ''other''))]"

lemma link_free_no_links:
  "list_all (\<lambda>(_, x). case x of Link _ \<Rightarrow> False | _ \<Rightarrow> True) fs \<Longrightarrow> ''..'' \<notin> set q \<Longrightarrow> link_free fs q"
  by (auto simp: link_free_def is_link_def list_all_iff split: option.splits node.splits dest!: map_of_SomeD)

lemma hidden_copied:
  "\<exists>fs'. copy_tree draft_lib draft_package [''b'', ''t''] (draft_files @ hidden_code) = (Inr (), fs')"
proof -
  have "(case copy_tree draft_lib draft_package [''b'', ''t''] (draft_files @ hidden_code) of (Inr _, _) \<Rightarrow> True | _ \<Rightarrow> False)"
    by code_simp
  then show ?thesis by (auto split: prod.splits sum.splits)
qed

theorem digest_ignores_byte_code_witness:
  "package_digest draft_lib (draft_files @ hidden_code) draft_package = package_digest draft_lib draft_files draft_package \<and>
   (\<exists>fs'. copy_tree draft_lib draft_package [''b'', ''t''] (draft_files @ hidden_code) = (Inr (), fs') \<and>
      map_of fs' [''b'', ''t'', ''__pycache__'', ''m.pyc''] = Some (File (Some ''other'')))"
proof -
  obtain fs' where copy: "copy_tree draft_lib draft_package [''b'', ''t''] (draft_files @ hidden_code) = (Inr (), fs')"
    using hidden_copied by blast
  have draft: "\<forall>q\<in>set (tree_below draft_files draft_package). link_free draft_files q"
  proof
    fix q assume q: "q \<in> set (tree_below draft_files draft_package)"
    have "list_all (\<lambda>q. ''..'' \<notin> set q) (tree_below draft_files draft_package)" by code_simp
    with q have "''..'' \<notin> set q" by (simp add: list_all_iff)
    then show "link_free draft_files q" by (rule link_free_no_links [rotated]) (simp add: draft_files_def)
  qed
  have dir: "map_of draft_files draft_package = Some Directory" by code_simp
  have new: "\<forall>(q, x)\<in>set hidden_code. q \<notin> fst ` set draft_files \<and> (\<exists>b. x = File b)"
    "\<forall>(q, x)\<in>set hidden_code. byte_code q"
    by (simp_all add: hidden_code_def draft_files_def byte_code_def)
  have "map_of (draft_files @ hidden_code) q = None" if "is_relative_to q [''b'', ''t'']" for q
    using that by (auto simp: is_relative_iff draft_files_def hidden_code_def)
  note found = this
  from digest_ignores_byte_code [OF draft dir new copy found]
  have "package_digest draft_lib (draft_files @ hidden_code) draft_package = package_digest draft_lib draft_files draft_package \<and>
      (\<forall>q x. map_of hidden_code q = Some x \<and> is_relative_to q draft_package \<longrightarrow>
         map_of fs' ([''b'', ''t''] @ drop (length draft_package) q) = Some x)"
    by blast
  moreover have "map_of hidden_code [''b'', ''skill-drafts'', ''p'', ''__pycache__'', ''m.pyc''] = Some (File (Some ''other''))"
    "is_relative_to [''b'', ''skill-drafts'', ''p'', ''__pycache__'', ''m.pyc''] draft_package" by code_simp+
  ultimately have "map_of fs' ([''b'', ''t''] @ drop (length draft_package) [''b'', ''skill-drafts'', ''p'', ''__pycache__'', ''m.pyc'']) =
      Some (File (Some ''other''))" and digest:
    "package_digest draft_lib (draft_files @ hidden_code) draft_package = package_digest draft_lib draft_files draft_package"
    by blast+
  then have "map_of fs' [''b'', ''t'', ''__pycache__'', ''m.pyc''] = Some (File (Some ''other''))" by (simp add: draft_package_def)
  with copy digest show ?thesis by blast
qed

end
