(* ===== verification/Spec2Isabelle.thy ===== *)
theory Spec2Isabelle
  imports Agent_Context Public_Concierge Profiles Cli_Backends Run_Api Migrations Workflow Skill_Candidates Skill_Authoring
begin

text \<open>
  Agent OS (\<open>src/agent_os\<close>): an agent runtime on a graph of nodes, with a policy layer in front of
  side effects, a ledger of runs, schedules, a store of outcomes that selects planning strategies,
  sandboxed tools, and an HTTP API. This library models its core and states what makes it correct.

  \<^bold>\<open>How the parts interact.\<close> A task enters as a run of the HTTP API (\<open>Run_Api\<close>), as an occurrence of a
  schedule (\<open>Scheduler\<close>) or as a chat turn. \<open>Run_Executor\<close> drives one execution of the graph and
  settles the run in the ledger (\<open>Runs\<close>), emitting lifecycle events (\<open>Events\<close>, \<open>Webhooks\<close>) and an
  unlabelled observation (\<open>Observations\<close>). In the graph (\<open>Workflow\<close>) a supervisor routes between a
  dispatcher of registered tools (\<open>Skills\<close>, \<open>Sandbox\<close>, \<open>Output_Limits\<close>), an architect whose prompt
  carries the strategy chosen by \<open>Strategies\<close>, a human gate, and an executor whose report is checked by
  \<open>Validation\<close>. Writes to memory pass \<open>Memory_Gate\<close>, which asks the policy engine (\<open>Policy\<close>) and its
  rule store (\<open>Permission_Store\<close>).

  \<^bold>\<open>Theories and sources.\<close>
  \<^item> \<open>Py_Prelude\<close>, \<open>Py_Datetime\<close>, \<open>Py_Float\<close>, \<open>Py_Path\<close>: what the sources use of Python and SQLite:
    exceptions as values, dynamically typed values, strings, regular expressions, tables, dates,
    doubles, and file systems with symbolic links.
  \<^item> \<open>Permission_Store\<close>: \<open>permission_store.py\<close>, both stores. \<open>Policy\<close>: \<open>policy.py\<close> and the proposal models
    of \<open>schemas.py\<close>. \<open>Memory_Gate\<close>: \<open>memory_gate.py\<close> and \<open>write_note\<close> of \<open>connectors.py\<close>.
    \<open>Vault\<close>: the rest of \<open>connectors.py\<close> (reading, search and index of the vault, \<open>filesystem\<close>, \<open>gbrain\<close>).
    \<open>Agent_Context\<close>: \<open>context.py\<close>, \<open>hot_context.py\<close>.
  \<^item> \<open>Runs\<close>: \<open>runs.py\<close>. \<open>Events\<close>: \<open>events.py\<close>. \<open>Webhooks\<close>: \<open>webhooks.py\<close>. \<open>Principal\<close>: \<open>principal.py\<close>.
    \<open>Run_Executor\<close>: \<open>server/run_executor.py\<close>.
  \<^item> \<open>Schedule_Recurrence\<close>, \<open>Schedules\<close>, \<open>Schedule_Models\<close>, \<open>Scheduler\<close>: \<open>schedule_recurrence.py\<close>,
    \<open>schedules.py\<close>, \<open>schedule_models.py\<close>, \<open>scheduler.py\<close>. \<open>Db_Paths\<close>: where the databases are.
  \<^item> \<open>Api_Access\<close>, \<open>Run_Api\<close>: the access rules and the run endpoints of \<open>server/api.py\<close>.
  \<^item> \<open>Unicode_Text\<close>: texts of code points and the patterns searched in them. \<open>Public_Concierge\<close>:
    \<open>public_concierge.py\<close>, \<open>public_concierge_ai.py\<close> and its endpoints.
  \<^item> \<open>Observations\<close>, \<open>Strategies\<close>: \<open>observations.py\<close>, \<open>strategies.py\<close>. \<open>Migrations\<close>: \<open>migrations.py\<close>.
  \<^item> \<open>Sandbox\<close>: \<open>sandbox.py\<close> and the tools \<open>edit_file\<close>, \<open>read_file\<close>, \<open>grep\<close>. \<open>Output_Limits\<close>:
    \<open>output_limits.py\<close>, \<open>bash\<close>, \<open>run_tests\<close>.
  \<^item> \<open>Skills\<close>: \<open>skills.py\<close>, \<open>default_registry.py\<close>. \<open>Skill_Packages\<close>: \<open>skill_packages.py\<close>, \<open>plugins.py\<close>.
    \<open>Skill_Candidates\<close>: \<open>skill_candidates.py\<close>. \<open>Skill_Promotion\<close>, \<open>Skill_Authoring\<close>: \<open>skill_authoring.py\<close>, its
    preflight and its endpoints. \<open>Workspace\<close>: \<open>workspace.py\<close>, \<open>backends.py\<close>, \<open>bindings.py\<close>.
    \<open>Profiles\<close>: \<open>profiles.py\<close>. \<open>Cli_Backends\<close>: \<open>cli_backends.py\<close>.
  \<^item> \<open>Validation\<close>: \<open>validation.py\<close>, \<open>semantic_judge.py\<close> and the self check. \<open>Workflow\<close>: \<open>state.py\<close>, \<open>routing.py\<close>, \<open>graph.py\<close> and \<open>nodes/\<close>.

  \<^bold>\<open>How state and effects are modelled.\<close> A table is the list of its rows, a component's state a record
  that its operations return updated; raises are values of a sum type; a file system is a map from
  paths to files, directories and links. Concurrency is interleaving: a ledger or store call is one
  step (one SQLite transaction), an endpoint runs undivided between its awaits, and histories are
  lists of steps or inductive relations (\<open>ledger_run\<close>, \<open>obs_run\<close>, \<open>sink_step\<close>,
  \<open>authoring_step\<close>, \<open>chat_step\<close>, \<open>graph_step\<close>). No function
  needs fuel: loops are structural or have a termination proof (following links, decoding UTF-8).

  \<^bold>\<open>What is proved.\<close> Each theory ends with its theorems. Across components: a plan is executed only
  after the human approved exactly it, and an invocation of the graph stays within its recursion
  limit (\<open>Workflow\<close>); side effects need a policy decision or an approval, plugins only restrict, and
  high-tier actions never run under the composite engine (\<open>Policy\<close>, \<open>Memory_Gate\<close>); no occurrence of a
  schedule is claimed twice (\<open>Scheduler\<close>); of concurrent approvals exactly one wins (\<open>Runs\<close>, \<open>Run_Api\<close>);
  writes stay below the sandbox and the vault whatever links exist (\<open>Sandbox\<close>, \<open>Memory_Gate\<close>); webhooks
  reach checked addresses only (\<open>Webhooks\<close>); the website's assistant keeps private messages from the
  model and every visitor's session for that visitor (\<open>Public_Concierge\<close>); migrations are applied all or none (\<open>Migrations\<close>); what is
  installed or configured takes no native command and no built-in connector away (\<open>Workspace\<close>); a skill
  package is registered only after a confirmation, completely or not at all (\<open>Skill_Authoring\<close>). The
  contracts of interchangeable parts are locales, interpreted on the models: the rule store
  (\<open>permission_rule_store\<close>), compare-and-set transitions (\<open>compare_and_set\<close>) and the queue of due
  schedules (\<open>due_queue\<close>). Some theorems show where the code does not do what it means to; the
  manifest lists them as findings.

  \<^bold>\<open>Parameters.\<close> Code outside the repository is an argument: croniter and the time zones, URL parsing of
  bracketed hosts, \<open>ipaddress\<close>, DNS and HTTP, \<open>json.loads\<close>, \<open>tomllib\<close>, the import system, SHA-256 and HMAC, the execution of SQL in
  migrations, \<open>re.search\<close> on patterns that a plan contains, subprocesses, the language models and
  command line agents, and the engine of LangGraph, of which the relation \<open>graph_step\<close> takes the
  documented meaning of edges, commands, interrupts and inputs.

  \<^bold>\<open>Not modelled.\<close> Strings are code points below 256, except in \<open>Output_Limits\<close> and \<open>Public_Concierge\<close>, so that texts beyond
  Latin-1 are outside the statements. Not modelled are: the wording of log messages, connections and schema
  creation, the message list of the graph and its trimming, the command line and its formatting,
  the adapters around model back ends and MCP, and the brief.
\<close>

end
